(* ===== verification/Miring_Prelude.thy ===== *)
theory Miring_Prelude
  imports Main "HOL-Library.Word"
begin

unbundle bit_operations_syntax

text \<open>
  The prelude of the development: the machine integers of the Rust source, the way a Rust
  computation can end (a value, a panic, or undefined behaviour), the few functions of the Rust
  standard library that the crate calls (\<^verbatim>\<open>checked_add\<close>,
  \<^verbatim>\<open>saturating_add\<close>, \<^verbatim>\<open>next_power_of_two\<close>,
  \<^verbatim>\<open>from_le_bytes\<close>, slicing), and the index arithmetic of a power-of-two ring
  that the submission and the completion queue share.  Arithmetic is that of a build with
  overflow checks (the profile of \<^verbatim>\<open>cargo test\<close> and
  \<^verbatim>\<open>cargo miri test\<close>, which is what the crate is for): a plain \<open>+\<close>, \<open>-\<close> or
  \<open>*\<close> that overflows panics.  \<open>usize\<close> is 64 bits wide, as the LP64 layouts in the source
  assume.
\<close>

section \<open>Machine integers\<close>

type_synonym u8 = "8 word"
type_synonym u16 = "16 word"
type_synonym u32 = "32 word"
type_synonym u64 = "64 word"
type_synonym usize = "64 word"

text \<open>A signed integer is its two's-complement word; \<open>sint\<close> reads it.\<close>

type_synonym i32 = "32 word"
type_synonym i64 = "64 word"

named_theorems sys_consts \<open>the constants of \<open>sys.rs\<close> and their values\<close>
named_theorems rust_std \<open>functions of the Rust standard library, unfolded\<close>
named_theorems exec_simps \<open>how a computation that may fail continues\<close>

section \<open>How a computation ends\<close>

datatype ub =
    UB_null
  | UB_unaligned
  | UB_out_of_bounds
  | UB_uninit
  | UB_slice_too_large
  | UB_ptr_overflow
  | UB_data_race

datatype panic = Panic_overflow | Panic_index | Panic_unwrap | Panic_assert

datatype fault = UndefinedBehavior ub | Panic panic

type_synonym 'a exec = "fault + 'a"

definition and_then :: "('e + 'a) \<Rightarrow> ('a \<Rightarrow> 'e + 'b) \<Rightarrow> 'e + 'b" where
  "and_then x f = (case x of Inl e \<Rightarrow> Inl e | Inr a \<Rightarrow> f a)"

definition guard_or :: "'e \<Rightarrow> bool \<Rightarrow> 'e + unit" where
  "guard_or e b = (if b then Inr () else Inl e)"

lemma and_then_simps [simp, exec_simps]:
  "and_then (Inl e) f = Inl e"
  "and_then (Inr a) f = f a"
  by (simp_all add: and_then_def)

lemma and_then_eq_Inr [exec_simps]:
  "and_then x f = Inr b \<longleftrightarrow> (\<exists>a. x = Inr a \<and> f a = Inr b)"
  by (cases x) auto

lemma and_then_eq_Inl:
  "and_then x f = Inl e \<longleftrightarrow> x = Inl e \<or> (\<exists>a. x = Inr a \<and> f a = Inl e)"
  by (cases x) auto

lemma and_then_assoc: "and_then (and_then x f) g = and_then x (\<lambda>a. and_then (f a) g)"
  by (cases x) auto

lemma guard_or_eq_Inr [simp, exec_simps]: "guard_or e b = Inr u \<longleftrightarrow> b"
  by (simp add: guard_or_def)

lemma guard_or_simps [simp, exec_simps]:
  "guard_or e True = Inr ()" "guard_or e False = Inl e"
  by (simp_all add: guard_or_def)

lemma guard_or_eq_Inl [simp]: "guard_or e b = Inl e' \<longleftrightarrow> \<not> b \<and> e' = e"
  by (auto simp: guard_or_def)

section \<open>The Rust standard library\<close>

subsection \<open>Arithmetic\<close>

definition checked_add :: "'a::len word \<Rightarrow> 'a word \<Rightarrow> 'a word option" where
  "checked_add a b = (if unat a + unat b < 2 ^ LENGTH('a) then Some (a + b) else None)"

definition checked_sub :: "'a::len word \<Rightarrow> 'a word \<Rightarrow> 'a word option" where
  "checked_sub a b = (if b \<le> a then Some (a - b) else None)"

definition saturating_add :: "'a::len word \<Rightarrow> 'a word \<Rightarrow> 'a word" where
  "saturating_add a b = (if unat a + unat b < 2 ^ LENGTH('a) then a + b else - 1)"

definition saturating_mul :: "'a::len word \<Rightarrow> 'a word \<Rightarrow> 'a word" where
  "saturating_mul a b = (if unat a * unat b < 2 ^ LENGTH('a) then a * b else - 1)"

text \<open>The operators \<open>+\<close>, \<open>-\<close> and \<open>*\<close> on unsigned values, and \<open>+\<close> on \<open>i32\<close>.\<close>

definition rust_add :: "'a::len word \<Rightarrow> 'a word \<Rightarrow> 'a word exec" where
  "rust_add a b = (case checked_add a b of Some c \<Rightarrow> Inr c | None \<Rightarrow> Inl (Panic Panic_overflow))"

definition rust_sub :: "'a::len word \<Rightarrow> 'a word \<Rightarrow> 'a word exec" where
  "rust_sub a b = (case checked_sub a b of Some c \<Rightarrow> Inr c | None \<Rightarrow> Inl (Panic Panic_overflow))"

definition rust_mul :: "'a::len word \<Rightarrow> 'a word \<Rightarrow> 'a word exec" where
  "rust_mul a b = (if unat a * unat b < 2 ^ LENGTH('a) then Inr (a * b)
     else Inl (Panic Panic_overflow))"

definition rust_sadd :: "'a::len word \<Rightarrow> 'a word \<Rightarrow> 'a word exec" where
  "rust_sadd a b = (if - (2 ^ (LENGTH('a) - 1)) \<le> sint a + sint b
       \<and> sint a + sint b < 2 ^ (LENGTH('a) - 1)
     then Inr (a + b) else Inl (Panic Panic_overflow))"

text \<open>\<open>u32::next_power_of_two\<close>: the smallest power of two that is not below the argument.\<close>

fun next_pow2_nat :: "nat \<Rightarrow> nat" where
  "next_pow2_nat n = (if n \<le> 1 then 1 else 2 * next_pow2_nat ((n + 1) div 2))"

declare next_pow2_nat.simps [simp del]

definition next_power_of_two :: "u32 \<Rightarrow> u32 exec" where
  "next_power_of_two n = (let p = next_pow2_nat (unat n) in
     if p < 2 ^ 32 then Inr (of_nat p) else Inl (Panic Panic_overflow))"

text \<open>\<open>slice[a..b]\<close>: panics unless \<open>a \<le> b \<le> len\<close>.\<close>

definition slice_range :: "'x list \<Rightarrow> nat \<Rightarrow> nat \<Rightarrow> 'x list exec" where
  "slice_range xs a b = (if a \<le> b \<and> b \<le> length xs then Inr (take (b - a) (drop a xs))
     else Inl (Panic Panic_index))"

subsection \<open>Little-endian bytes\<close>

fun from_le_bytes :: "u8 list \<Rightarrow> 'a::len word" where
  "from_le_bytes [] = 0"
| "from_le_bytes (b # bs) = ucast b OR push_bit 8 (from_le_bytes bs)"

definition to_le_bytes :: "nat \<Rightarrow> 'a::len word \<Rightarrow> u8 list" where
  "to_le_bytes n w = map (\<lambda>i. ucast (drop_bit (8 * i) w)) [0..<n]"

section \<open>A ring of power-of-two size\<close>

text \<open>
  Both queues keep free-running 32-bit positions and find a slot by masking.
  \<open>ring_geom\<close> says that the entry count is a power of two below \<open>2 ^ 32\<close>, the mask
  one less, and that there are that many slots; \<open>ring_slice\<close> lists what lies between two
  positions; \<open>dist\<close> is how far apart two positions are, across the wrap-around.
\<close>

definition dist :: "u32 \<Rightarrow> u32 \<Rightarrow> nat" where
  "dist a b = unat (b - a)"

definition ring_geom :: "u32 \<Rightarrow> u32 \<Rightarrow> nat \<Rightarrow> bool" where
  "ring_geom entries msk n \<longleftrightarrow>
     (\<exists>k \<in> {..<32}. unat entries = 2 ^ k) \<and> msk = entries - 1 \<and> n = unat entries"

definition ring_index :: "u32 \<Rightarrow> u32 \<Rightarrow> nat" where
  "ring_index msk pos = unat (pos AND msk)"

definition ring_slice :: "'a list \<Rightarrow> u32 \<Rightarrow> u32 \<Rightarrow> nat \<Rightarrow> 'a list" where
  "ring_slice slots msk from n = map (\<lambda>i. slots ! ring_index msk (from + of_nat i)) [0..<n]"

section \<open>Lemmas on arithmetic and bytes\<close>

lemma next_pow2_nat_power: "\<exists>k. next_pow2_nat n = 2 ^ k"
proof (induction n rule: next_pow2_nat.induct)
  case (1 n)
  show ?case
  proof (cases "n \<le> 1")
    case True
    then have "next_pow2_nat n = 2 ^ 0" by (simp add: next_pow2_nat.simps [of n])
    then show ?thesis by blast
  next
    case False
    with 1 obtain k where "next_pow2_nat ((n + 1) div 2) = 2 ^ k" by blast
    with False have "next_pow2_nat n = 2 ^ Suc k" by (simp add: next_pow2_nat.simps [of n])
    then show ?thesis by blast
  qed
qed

lemma next_pow2_nat_ge: "n \<le> next_pow2_nat n"
proof (induction n rule: next_pow2_nat.induct)
  case (1 n)
  then show ?case by (cases "n \<le> 1") (auto simp: next_pow2_nat.simps [of n])
qed

lemma next_pow2_nat_least: "n \<le> 2 ^ k \<Longrightarrow> next_pow2_nat n \<le> 2 ^ k"
proof (induction n arbitrary: k rule: next_pow2_nat.induct)
  case (1 n)
  show ?case
  proof (cases "n \<le> 1")
    case True
    then show ?thesis by (simp add: next_pow2_nat.simps [of n])
  next
    case False
    with "1.prems" obtain j where k: "k = Suc j" by (cases k) auto
    with "1.prems" have "(n + 1) div 2 \<le> 2 ^ j" by simp
    with 1 False have "next_pow2_nat ((n + 1) div 2) \<le> 2 ^ j" by blast
    with False k show ?thesis by (simp add: next_pow2_nat.simps [of n])
  qed
qed

lemma next_pow2_nat_Least: "next_pow2_nat n = (LEAST p. (\<exists>k. p = 2 ^ k) \<and> n \<le> p)"
  using next_pow2_nat_power [of n] next_pow2_nat_ge [of n]
  by (intro Least_equality [symmetric]) (auto intro: next_pow2_nat_least)

lemma next_pow2_nat_pos [simp]: "0 < next_pow2_nat n"
  using next_pow2_nat_power [of n] by auto

lemma next_pow2_nat_of_pow2: "next_pow2_nat (2 ^ k) = 2 ^ k"
  by (simp add: le_antisym next_pow2_nat_ge next_pow2_nat_least)

lemma bit_from_le_bytes:
  "bit (from_le_bytes bs :: 'a::len word) i \<longleftrightarrow>
     i < LENGTH('a) \<and> i < 8 * length bs \<and> bit (bs ! (i div 8)) (i mod 8)"
proof (induction bs arbitrary: i)
  case Nil
  then show ?case by simp
next
  case (Cons b bs)
  show ?case
  proof (cases "i < 8")
    case True
    then show ?thesis by (auto simp: bit_simps)
  next
    case False
    then have "i div 8 = Suc ((i - 8) div 8)" and "i mod 8 = (i - 8) mod 8"
      by (simp_all add: le_div_geq le_mod_geq)
    with False show ?thesis
      using Cons [of "i - 8"] by (auto simp: bit_simps dest: bit_imp_le_length)
  qed
qed

lemma length_to_le_bytes [simp]: "length (to_le_bytes n w) = n"
  by (simp add: to_le_bytes_def)

lemma from_to_le_bytes:
  "8 * n = LENGTH('a) \<Longrightarrow> from_le_bytes (to_le_bytes n w) = (w :: 'a::len word)"
  by (rule bit_eqI) (auto simp: bit_from_le_bytes to_le_bytes_def bit_simps less_mult_imp_div_less)

lemma to_from_le_bytes:
  assumes "8 * length bs = LENGTH('a)"
  shows "to_le_bytes (length bs) (from_le_bytes bs :: 'a::len word) = bs"
proof (rule nth_equalityI)
  fix i assume "i < length (to_le_bytes (length bs) (from_le_bytes bs :: 'a word))"
  then have i: "i < length bs" by simp
  have "ucast (drop_bit (8 * i) (from_le_bytes bs :: 'a word)) = bs ! i"
  proof (rule bit_eqI)
    fix j assume "possible_bit TYPE(8 word) j"
    then have j: "j < 8" by simp
    then have "(8 * i + j) div 8 = i" "(8 * i + j) mod 8 = j" by simp_all
    moreover from i j have "8 * i + j < 8 * length bs" by simp
    ultimately show
      "bit (ucast (drop_bit (8 * i) (from_le_bytes bs :: 'a word)) :: u8) j = bit (bs ! i) j"
      using assms j by (simp add: bit_simps bit_from_le_bytes)
  qed
  with i show "to_le_bytes (length bs) (from_le_bytes bs :: 'a word) ! i = bs ! i"
    by (simp add: to_le_bytes_def)
qed simp

text \<open>Widening a \<open>u32\<close> to \<open>usize\<close> keeps its value.\<close>

lemma unat_ucast_u32 [simp]: "unat (ucast (w :: u32) :: usize) = unat w"
  by (subst unsigned_ucast_eq)
    (rule take_bit_nat_eq_self, rule order_less_le_trans [OF unsigned_less], simp)

lemma ucast_u32_eq_0 [simp]: "(ucast (w :: u32) :: usize) = 0 \<longleftrightarrow> w = 0"
  by (metis unat_ucast_u32 unat_eq_zero)

lemma ucast_ucast_u32 [simp]: "(ucast (ucast (w :: u32) :: usize) :: i32) = w"
  by (rule bit_eqI) (auto simp: bit_simps dest: bit_imp_le_length)

lemma unat_u32_less: "unat (w :: u32) < 2 ^ 63"
  by (rule order_less_le_trans [OF unsigned_less]) simp

text \<open>The value of an \<open>i32\<close> from that of the \<open>u32\<close> with the same bits.\<close>

lemma unat_u32_lt: "unat (w :: u32) < 2 ^ 32"
  by (rule order_less_le_trans [OF unsigned_less]) simp

lemma sint_i32: "sint (w :: i32) = (uint w + 2 ^ 31) mod 2 ^ 32 - 2 ^ 31"
  by (simp add: sint_uint signed_take_bit_eq_take_bit_shift take_bit_eq_mod)

lemma sint_small: "unat (w :: i32) < 2 ^ 31 \<Longrightarrow> sint w = int (unat w)"
proof -
  assume lt: "unat w < 2 ^ 31"
  have u: "uint w = int (unat w)" by simp
  have "(uint w + 2 ^ 31) mod 2 ^ 32 = uint w + 2 ^ 31"
    using lt unfolding u by (intro mod_pos_pos_trivial) (simp_all del: of_nat_unat)
  then show ?thesis unfolding sint_i32 u by simp
qed

lemma sint_large: "2 ^ 31 \<le> unat (w :: i32) \<Longrightarrow> sint w = int (unat w) - 2 ^ 32"
proof -
  assume le: "2 ^ 31 \<le> unat w"
  have u: "uint w = int (unat w)" by simp
  have "(uint w + 2 ^ 31) mod 2 ^ 32 = uint w + 2 ^ 31 - 2 ^ 32"
    using le unat_u32_lt [of w] unfolding u
    by (intro int_mod_pos_eq [of _ _ 1]) (simp_all del: of_nat_unat)
  then show ?thesis unfolding sint_i32 u by simp
qed

section \<open>Lemmas on rings\<close>

lemma dist_self [simp]: "dist a a = 0"
  by (simp add: dist_def)

lemma dist_eq_0 [simp]: "dist a b = 0 \<longleftrightarrow> a = b"
  by (auto simp: dist_def unat_eq_zero)

lemma dist_less: "dist a b < 2 ^ 32"
  unfolding dist_def by (rule order_less_le_trans [OF unsigned_less]) simp

lemma unat_plus_1: "unat (x :: u32) < 2 ^ 32 - 1 \<Longrightarrow> unat (x + 1) = unat x + 1"
  by (simp add: unat_word_ariths)

lemma dist_Suc_right: "dist a b < 2 ^ 32 - 1 \<Longrightarrow> dist a (b + 1) = dist a b + 1"
  using unat_plus_1 [of "b - a"] by (simp add: dist_def algebra_simps)

lemma dist_Suc_left: "a \<noteq> b \<Longrightarrow> dist (a + 1) b = dist a b - 1"
proof -
  assume "a \<noteq> b"
  then have "b - a \<noteq> 0" by simp
  then have "unat (b - a - 1) = unat (b - a) - 1"
    by (rule unat_minus_one)
  then show ?thesis by (simp add: dist_def algebra_simps)
qed

lemma dist_Suc_left_less: "a \<noteq> b \<Longrightarrow> dist (a + 1) b < dist a b"
  by (metis dist_Suc_left dist_eq_0 diff_less gr0I zero_less_one)

lemma dist_add: "n < 2 ^ 32 \<Longrightarrow> dist a (a + of_nat n) = n"
  by (simp add: dist_def unat_of_nat)

lemma plus_of_nat_dist [simp]: "a + of_nat (dist a b) = b"
  by (simp add: dist_def)

lemma dist_split: "n \<le> dist a b \<Longrightarrow> dist (a + of_nat n) b = dist a b - n"
proof -
  assume n: "n \<le> dist a b"
  then have "n < 2 ^ 32" using dist_less [of a b] by simp
  then have u: "unat (of_nat n :: u32) = n" by (simp add: unat_of_nat)
  with n have "(of_nat n :: u32) \<le> b - a" by (simp add: word_le_nat_alt dist_def)
  then have "unat ((b - a) - of_nat n) = unat (b - a) - n" using u by (simp add: unat_sub)
  then show ?thesis by (simp add: dist_def algebra_simps)
qed

lemma dist_chain:
  "dist a b + dist b c < 2 ^ 32 \<Longrightarrow> dist a c = dist a b + dist b c"
proof -
  assume le: "dist a b + dist b c < 2 ^ 32"
  have "c - a = (b - a) + (c - b)" by simp
  then have "unat (c - a) = unat ((b - a) + (c - b))" by simp
  also have "\<dots> = unat (b - a) + unat (c - b)"
    using le by (subst unat_word_ariths) (simp add: dist_def)
  finally show ?thesis by (simp add: dist_def)
qed

lemma dist_chain3:
  "dist a b + dist b c + dist c d < 2 ^ 32 \<Longrightarrow> dist a d = dist a b + dist b c + dist c d"
  by (metis add_lessD1 dist_chain)

lemma ring_geomE:
  assumes "ring_geom entries msk n"
  obtains k where "k < 32" "unat entries = 2 ^ k" "msk = mask k" "n = 2 ^ k"
proof -
  from assms obtain k where k: "k < 32" "unat entries = 2 ^ k" and m: "msk = entries - 1"
    and n: "n = unat entries"
    by (auto simp: ring_geom_def)
  have "entries = of_nat (unat entries)" by simp
  then have "entries = 2 ^ k" unfolding k(2) by simp
  with m have "msk = mask k" by (simp add: mask_eq_exp_minus_1)
  with k n that show ?thesis by simp
qed

lemma ring_index_mask: "k < 32 \<Longrightarrow> ring_index (mask k) pos = unat pos mod 2 ^ k"
  unfolding ring_index_def take_bit_eq_mask [symmetric] unsigned_take_bit_eq
  by (rule take_bit_eq_mod)

lemma ring_geom_entries: "ring_geom entries msk n \<Longrightarrow> n = unat entries \<and> 0 < n \<and> n \<le> 2 ^ 31"
proof (erule ring_geomE)
  fix k assume k: "k < 32" "unat entries = 2 ^ k" "n = 2 ^ k"
  then have "(2::nat) ^ k \<le> 2 ^ 31" by (intro power_increasing) auto
  with k show ?thesis by simp
qed

lemma ring_index_less: "ring_geom entries msk n \<Longrightarrow> ring_index msk pos < n"
  by (erule ring_geomE) (simp add: ring_index_mask)

lemma ring_index_shift:
  "k < 32 \<Longrightarrow> ring_index (mask k) (pos + of_nat i) = (unat pos + i) mod 2 ^ k"
proof -
  assume k: "k < 32"
  then have d: "(2::nat) ^ k dvd 2 ^ 32" by (intro le_imp_power_dvd) simp
  have "unat (pos + of_nat i) = (unat pos + i mod 2 ^ 32) mod 2 ^ 32"
    by (simp add: unat_word_ariths unat_of_nat)
  with k d show ?thesis
    by (simp add: ring_index_mask mod_mod_cancel mod_add_right_eq)
qed

lemma ring_index_inj:
  assumes g: "ring_geom entries msk n" and ij: "i < n" "j < n"
    and eq: "ring_index msk (pos + of_nat i) = ring_index msk (pos + of_nat j)"
  shows "i = j"
  using g
proof (rule ring_geomE)
  fix k assume k: "k < 32" "msk = mask k" "n = 2 ^ k"
  have "(unat pos + i) mod 2 ^ k = (unat pos + j) mod 2 ^ k"
    using eq k by (simp add: ring_index_shift)
  then have "i mod 2 ^ k = j mod 2 ^ k"
    by (simp add: nat_mod_eq_iff)
  then show "i = j" using ij k by simp
qed

lemma length_ring_slice [simp]: "length (ring_slice slots msk p n) = n"
  by (simp add: ring_slice_def)

lemma ring_slice_0 [simp]: "ring_slice slots msk p 0 = []"
  by (simp add: ring_slice_def)

lemma ring_slice_Suc:
  "ring_slice slots msk p (Suc n) = slots ! ring_index msk p # ring_slice slots msk (p + 1) n"
proof -
  have "[0..<Suc n] = 0 # map Suc [0..<n]" by (simp add: upt_conv_Cons map_Suc_upt del: upt_Suc)
  then show ?thesis by (simp add: ring_slice_def algebra_simps del: upt_Suc)
qed

lemma ring_slice_snoc:
  "ring_slice slots msk p (Suc n) =
     ring_slice slots msk p n @ [slots ! ring_index msk (p + of_nat n)]"
  by (simp add: ring_slice_def)

lemma ring_slice_append:
  "ring_slice slots msk p (m + n) =
     ring_slice slots msk p m @ ring_slice slots msk (p + of_nat m) n"
  by (induction n) (simp_all add: ring_slice_snoc algebra_simps del: of_nat_add flip: of_nat_add)

lemma ring_slice_put:
  assumes g: "ring_geom entries msk (length slots)" and n: "n < length slots"
  shows "ring_slice (slots[ring_index msk (p + of_nat n) := x]) msk p (Suc n) =
           ring_slice slots msk p n @ [x]"
proof -
  have "slots[ring_index msk (p + of_nat n) := x] ! ring_index msk (p + of_nat i) =
        slots ! ring_index msk (p + of_nat i)" if "i < n" for i
    using ring_index_inj [OF g, of i n p] that n by (metis less_trans nat_neq_iff nth_list_update_neq)
  moreover have "ring_index msk (p + of_nat n) < length slots"
    using g by (rule ring_index_less)
  ultimately show ?thesis by (auto simp: ring_slice_def)
qed

lemma take_ring_slice: "m \<le> n \<Longrightarrow> take m (ring_slice slots msk p n) = ring_slice slots msk p m"
  by (simp add: ring_slice_def take_map)

lemma drop_ring_slice:
  "m \<le> n \<Longrightarrow> drop m (ring_slice slots msk p n) = ring_slice slots msk (p + of_nat m) (n - m)"
  using ring_slice_append [of slots msk p m "n - m"] by simp

end
