(* ===== verification/Miring_Sys.thy ===== *)
theory Miring_Sys
  imports Miring_Prelude
begin

text \<open>
  The kernel-compatible constants and structures of \<^verbatim>\<open>src/sys.rs\<close>, those that the
  crate's own code uses.  A constant is a definition of its name, unfolded by the collection
  \<open>sys_consts\<close>; a \<open>repr(C)\<close> structure is a record whose fields carry the structure's
  short name as a prefix, because record fields share one name space.  The last section
  computes \<open>repr(C)\<close> layouts from the field types, for the places where the source relies
  on an offset or a size.
\<close>

section \<open>Constants\<close>

subsection \<open>Setup flags\<close>

definition IORING_SETUP_IOPOLL :: u32 where [sys_consts]: "IORING_SETUP_IOPOLL = 1"
definition IORING_SETUP_SQPOLL :: u32 where [sys_consts]: "IORING_SETUP_SQPOLL = 2"
definition IORING_SETUP_SQ_AFF :: u32 where [sys_consts]: "IORING_SETUP_SQ_AFF = 4"
definition IORING_SETUP_CQSIZE :: u32 where [sys_consts]: "IORING_SETUP_CQSIZE = 8"
definition IORING_SETUP_CLAMP :: u32 where [sys_consts]: "IORING_SETUP_CLAMP = 16"
definition IORING_SETUP_ATTACH_WQ :: u32 where [sys_consts]: "IORING_SETUP_ATTACH_WQ = 32"
definition IORING_SETUP_R_DISABLED :: u32 where [sys_consts]: "IORING_SETUP_R_DISABLED = 64"
definition IORING_SETUP_SUBMIT_ALL :: u32 where [sys_consts]: "IORING_SETUP_SUBMIT_ALL = 128"
definition IORING_SETUP_COOP_TASKRUN :: u32 where [sys_consts]: "IORING_SETUP_COOP_TASKRUN = 256"
definition IORING_SETUP_TASKRUN_FLAG :: u32 where [sys_consts]: "IORING_SETUP_TASKRUN_FLAG = 512"
definition IORING_SETUP_SQE128 :: u32 where [sys_consts]: "IORING_SETUP_SQE128 = 1024"
definition IORING_SETUP_CQE32 :: u32 where [sys_consts]: "IORING_SETUP_CQE32 = 2048"
definition IORING_SETUP_SINGLE_ISSUER :: u32 where [sys_consts]: "IORING_SETUP_SINGLE_ISSUER = 4096"
definition IORING_SETUP_DEFER_TASKRUN :: u32 where [sys_consts]: "IORING_SETUP_DEFER_TASKRUN = 8192"

subsection \<open>Bit positions of the per-SQE flags\<close>

definition IOSQE_FIXED_FILE_BIT :: u32 where [sys_consts]: "IOSQE_FIXED_FILE_BIT = 0"
definition IOSQE_IO_DRAIN_BIT :: u32 where [sys_consts]: "IOSQE_IO_DRAIN_BIT = 1"
definition IOSQE_IO_LINK_BIT :: u32 where [sys_consts]: "IOSQE_IO_LINK_BIT = 2"
definition IOSQE_IO_HARDLINK_BIT :: u32 where [sys_consts]: "IOSQE_IO_HARDLINK_BIT = 3"
definition IOSQE_ASYNC_BIT :: u32 where [sys_consts]: "IOSQE_ASYNC_BIT = 4"
definition IOSQE_BUFFER_SELECT_BIT :: u32 where [sys_consts]: "IOSQE_BUFFER_SELECT_BIT = 5"
definition IOSQE_CQE_SKIP_SUCCESS_BIT :: u32 where [sys_consts]: "IOSQE_CQE_SKIP_SUCCESS_BIT = 6"

subsection \<open>Opcodes\<close>

definition IORING_OP_NOP :: u32 where [sys_consts]: "IORING_OP_NOP = 0"
definition IORING_OP_READV :: u32 where [sys_consts]: "IORING_OP_READV = 1"
definition IORING_OP_WRITEV :: u32 where [sys_consts]: "IORING_OP_WRITEV = 2"
definition IORING_OP_FSYNC :: u32 where [sys_consts]: "IORING_OP_FSYNC = 3"
definition IORING_OP_READ_FIXED :: u32 where [sys_consts]: "IORING_OP_READ_FIXED = 4"
definition IORING_OP_WRITE_FIXED :: u32 where [sys_consts]: "IORING_OP_WRITE_FIXED = 5"
definition IORING_OP_POLL_ADD :: u32 where [sys_consts]: "IORING_OP_POLL_ADD = 6"
definition IORING_OP_POLL_REMOVE :: u32 where [sys_consts]: "IORING_OP_POLL_REMOVE = 7"
definition IORING_OP_SYNC_FILE_RANGE :: u32 where [sys_consts]: "IORING_OP_SYNC_FILE_RANGE = 8"
definition IORING_OP_SENDMSG :: u32 where [sys_consts]: "IORING_OP_SENDMSG = 9"
definition IORING_OP_RECVMSG :: u32 where [sys_consts]: "IORING_OP_RECVMSG = 10"
definition IORING_OP_TIMEOUT :: u32 where [sys_consts]: "IORING_OP_TIMEOUT = 11"
definition IORING_OP_TIMEOUT_REMOVE :: u32 where [sys_consts]: "IORING_OP_TIMEOUT_REMOVE = 12"
definition IORING_OP_ACCEPT :: u32 where [sys_consts]: "IORING_OP_ACCEPT = 13"
definition IORING_OP_ASYNC_CANCEL :: u32 where [sys_consts]: "IORING_OP_ASYNC_CANCEL = 14"
definition IORING_OP_LINK_TIMEOUT :: u32 where [sys_consts]: "IORING_OP_LINK_TIMEOUT = 15"
definition IORING_OP_CONNECT :: u32 where [sys_consts]: "IORING_OP_CONNECT = 16"
definition IORING_OP_FALLOCATE :: u32 where [sys_consts]: "IORING_OP_FALLOCATE = 17"
definition IORING_OP_OPENAT :: u32 where [sys_consts]: "IORING_OP_OPENAT = 18"
definition IORING_OP_CLOSE :: u32 where [sys_consts]: "IORING_OP_CLOSE = 19"
definition IORING_OP_FILES_UPDATE :: u32 where [sys_consts]: "IORING_OP_FILES_UPDATE = 20"
definition IORING_OP_STATX :: u32 where [sys_consts]: "IORING_OP_STATX = 21"
definition IORING_OP_READ :: u32 where [sys_consts]: "IORING_OP_READ = 22"
definition IORING_OP_WRITE :: u32 where [sys_consts]: "IORING_OP_WRITE = 23"
definition IORING_OP_FADVISE :: u32 where [sys_consts]: "IORING_OP_FADVISE = 24"
definition IORING_OP_MADVISE :: u32 where [sys_consts]: "IORING_OP_MADVISE = 25"
definition IORING_OP_SEND :: u32 where [sys_consts]: "IORING_OP_SEND = 26"
definition IORING_OP_RECV :: u32 where [sys_consts]: "IORING_OP_RECV = 27"
definition IORING_OP_OPENAT2 :: u32 where [sys_consts]: "IORING_OP_OPENAT2 = 28"
definition IORING_OP_EPOLL_CTL :: u32 where [sys_consts]: "IORING_OP_EPOLL_CTL = 29"
definition IORING_OP_SPLICE :: u32 where [sys_consts]: "IORING_OP_SPLICE = 30"
definition IORING_OP_PROVIDE_BUFFERS :: u32 where [sys_consts]: "IORING_OP_PROVIDE_BUFFERS = 31"
definition IORING_OP_REMOVE_BUFFERS :: u32 where [sys_consts]: "IORING_OP_REMOVE_BUFFERS = 32"
definition IORING_OP_TEE :: u32 where [sys_consts]: "IORING_OP_TEE = 33"
definition IORING_OP_SHUTDOWN :: u32 where [sys_consts]: "IORING_OP_SHUTDOWN = 34"
definition IORING_OP_RENAMEAT :: u32 where [sys_consts]: "IORING_OP_RENAMEAT = 35"
definition IORING_OP_UNLINKAT :: u32 where [sys_consts]: "IORING_OP_UNLINKAT = 36"
definition IORING_OP_MKDIRAT :: u32 where [sys_consts]: "IORING_OP_MKDIRAT = 37"
definition IORING_OP_SYMLINKAT :: u32 where [sys_consts]: "IORING_OP_SYMLINKAT = 38"
definition IORING_OP_LINKAT :: u32 where [sys_consts]: "IORING_OP_LINKAT = 39"
definition IORING_OP_MSG_RING :: u32 where [sys_consts]: "IORING_OP_MSG_RING = 40"
definition IORING_OP_FSETXATTR :: u32 where [sys_consts]: "IORING_OP_FSETXATTR = 41"
definition IORING_OP_SETXATTR :: u32 where [sys_consts]: "IORING_OP_SETXATTR = 42"
definition IORING_OP_FGETXATTR :: u32 where [sys_consts]: "IORING_OP_FGETXATTR = 43"
definition IORING_OP_GETXATTR :: u32 where [sys_consts]: "IORING_OP_GETXATTR = 44"
definition IORING_OP_SOCKET :: u32 where [sys_consts]: "IORING_OP_SOCKET = 45"
definition IORING_OP_URING_CMD :: u32 where [sys_consts]: "IORING_OP_URING_CMD = 46"
definition IORING_OP_SEND_ZC :: u32 where [sys_consts]: "IORING_OP_SEND_ZC = 47"
definition IORING_OP_SENDMSG_ZC :: u32 where [sys_consts]: "IORING_OP_SENDMSG_ZC = 48"
definition IORING_OP_READ_MULTISHOT :: u32 where [sys_consts]: "IORING_OP_READ_MULTISHOT = 49"
definition IORING_OP_WAITID :: u32 where [sys_consts]: "IORING_OP_WAITID = 50"
definition IORING_OP_FUTEX_WAIT :: u32 where [sys_consts]: "IORING_OP_FUTEX_WAIT = 51"
definition IORING_OP_FUTEX_WAKE :: u32 where [sys_consts]: "IORING_OP_FUTEX_WAKE = 52"
definition IORING_OP_FUTEX_WAITV :: u32 where [sys_consts]: "IORING_OP_FUTEX_WAITV = 53"
definition IORING_OP_FIXED_FD_INSTALL :: u32 where [sys_consts]: "IORING_OP_FIXED_FD_INSTALL = 54"
definition IORING_OP_FTRUNCATE :: u32 where [sys_consts]: "IORING_OP_FTRUNCATE = 55"
definition IORING_OP_BIND :: u32 where [sys_consts]: "IORING_OP_BIND = 56"
definition IORING_OP_LISTEN :: u32 where [sys_consts]: "IORING_OP_LISTEN = 57"
definition IORING_OP_RECV_ZC :: u32 where [sys_consts]: "IORING_OP_RECV_ZC = 58"
definition IORING_OP_EPOLL_WAIT :: u32 where [sys_consts]: "IORING_OP_EPOLL_WAIT = 59"
definition IORING_OP_READV_FIXED :: u32 where [sys_consts]: "IORING_OP_READV_FIXED = 60"
definition IORING_OP_WRITEV_FIXED :: u32 where [sys_consts]: "IORING_OP_WRITEV_FIXED = 61"
definition IORING_OP_PIPE :: u32 where [sys_consts]: "IORING_OP_PIPE = 62"
definition IORING_OP_LAST :: u32 where [sys_consts]: "IORING_OP_LAST = 63"

subsection \<open>Flags of single operations\<close>

definition IORING_FSYNC_DATASYNC :: u32 where [sys_consts]: "IORING_FSYNC_DATASYNC = 1"
definition IORING_TIMEOUT_ABS :: u32 where [sys_consts]: "IORING_TIMEOUT_ABS = 1"
definition IORING_TIMEOUT_UPDATE :: u32 where [sys_consts]: "IORING_TIMEOUT_UPDATE = 2"
definition IORING_TIMEOUT_BOOTTIME :: u32 where [sys_consts]: "IORING_TIMEOUT_BOOTTIME = 4"
definition IORING_TIMEOUT_REALTIME :: u32 where [sys_consts]: "IORING_TIMEOUT_REALTIME = 8"
definition IORING_LINK_TIMEOUT_UPDATE :: u32 where [sys_consts]: "IORING_LINK_TIMEOUT_UPDATE = 16"
definition IORING_TIMEOUT_ETIME_SUCCESS :: u32 where [sys_consts]: "IORING_TIMEOUT_ETIME_SUCCESS = 32"
definition IORING_TIMEOUT_MULTISHOT :: u32 where [sys_consts]: "IORING_TIMEOUT_MULTISHOT = 64"
definition SPLICE_F_FD_IN_FIXED :: u32 where [sys_consts]: "SPLICE_F_FD_IN_FIXED = 2147483648"
definition IORING_POLL_ADD_MULTI :: u32 where [sys_consts]: "IORING_POLL_ADD_MULTI = 1"
definition IORING_ASYNC_CANCEL_ALL :: u32 where [sys_consts]: "IORING_ASYNC_CANCEL_ALL = 1"
definition IORING_ASYNC_CANCEL_FD :: u32 where [sys_consts]: "IORING_ASYNC_CANCEL_FD = 2"
definition IORING_ASYNC_CANCEL_ANY :: u32 where [sys_consts]: "IORING_ASYNC_CANCEL_ANY = 4"
definition IORING_ASYNC_CANCEL_FD_FIXED :: u32 where [sys_consts]: "IORING_ASYNC_CANCEL_FD_FIXED = 8"
definition IORING_RECV_MULTISHOT :: u32 where [sys_consts]: "IORING_RECV_MULTISHOT = 2"
definition IORING_RECVSEND_BUNDLE :: u32 where [sys_consts]: "IORING_RECVSEND_BUNDLE = 16"
definition IORING_ACCEPT_MULTISHOT :: u32 where [sys_consts]: "IORING_ACCEPT_MULTISHOT = 1"
definition IORING_NOP_INJECT_RESULT :: u32 where [sys_consts]: "IORING_NOP_INJECT_RESULT = 1"
definition IORING_URING_CMD_FIXED :: u32 where [sys_consts]: "IORING_URING_CMD_FIXED = 1"
definition SOCKET_URING_OP_SETSOCKOPT :: u32 where [sys_consts]: "SOCKET_URING_OP_SETSOCKOPT = 0"

subsection \<open>CQE flags\<close>

definition IORING_CQE_F_BUFFER :: u32 where [sys_consts]: "IORING_CQE_F_BUFFER = 1"
definition IORING_CQE_F_MORE :: u32 where [sys_consts]: "IORING_CQE_F_MORE = 2"
definition IORING_CQE_F_SOCK_NONEMPTY :: u32 where [sys_consts]: "IORING_CQE_F_SOCK_NONEMPTY = 4"
definition IORING_CQE_F_NOTIF :: u32 where [sys_consts]: "IORING_CQE_F_NOTIF = 8"
definition IORING_CQE_F_BUF_MORE :: u32 where [sys_consts]: "IORING_CQE_F_BUF_MORE = 16"
definition IORING_CQE_BUFFER_SHIFT :: u32 where [sys_consts]: "IORING_CQE_BUFFER_SHIFT = 16"

subsection \<open>Flags of the rings\<close>

definition IORING_SQ_NEED_WAKEUP :: u32 where [sys_consts]: "IORING_SQ_NEED_WAKEUP = 1"
definition IORING_SQ_CQ_OVERFLOW :: u32 where [sys_consts]: "IORING_SQ_CQ_OVERFLOW = 2"
definition IORING_SQ_TASKRUN :: u32 where [sys_consts]: "IORING_SQ_TASKRUN = 4"
definition IORING_CQ_EVENTFD_DISABLED :: u32 where [sys_consts]: "IORING_CQ_EVENTFD_DISABLED = 1"

subsection \<open>Flags of \<open>io_uring_enter\<close>\<close>

definition IORING_ENTER_GETEVENTS :: u32 where [sys_consts]: "IORING_ENTER_GETEVENTS = 1"
definition IORING_ENTER_SQ_WAKEUP :: u32 where [sys_consts]: "IORING_ENTER_SQ_WAKEUP = 2"
definition IORING_ENTER_SQ_WAIT :: u32 where [sys_consts]: "IORING_ENTER_SQ_WAIT = 4"
definition IORING_ENTER_EXT_ARG :: u32 where [sys_consts]: "IORING_ENTER_EXT_ARG = 8"
definition IORING_ENTER_REGISTERED_RING :: u32 where [sys_consts]: "IORING_ENTER_REGISTERED_RING = 16"
definition IORING_ENTER_ABS_TIMER :: u32 where [sys_consts]: "IORING_ENTER_ABS_TIMER = 32"
definition IORING_ENTER_EXT_ARG_REG :: u32 where [sys_consts]: "IORING_ENTER_EXT_ARG_REG = 64"
definition IORING_ENTER_NO_IOWAIT :: u32 where [sys_consts]: "IORING_ENTER_NO_IOWAIT = 128"

subsection \<open>Features\<close>

definition IORING_FEAT_SINGLE_MMAP :: u32 where [sys_consts]: "IORING_FEAT_SINGLE_MMAP = 1"
definition IORING_FEAT_NODROP :: u32 where [sys_consts]: "IORING_FEAT_NODROP = 2"
definition IORING_FEAT_SUBMIT_STABLE :: u32 where [sys_consts]: "IORING_FEAT_SUBMIT_STABLE = 4"
definition IORING_FEAT_RW_CUR_POS :: u32 where [sys_consts]: "IORING_FEAT_RW_CUR_POS = 8"
definition IORING_FEAT_CUR_PERSONALITY :: u32 where [sys_consts]: "IORING_FEAT_CUR_PERSONALITY = 16"
definition IORING_FEAT_FAST_POLL :: u32 where [sys_consts]: "IORING_FEAT_FAST_POLL = 32"
definition IORING_FEAT_POLL_32BITS :: u32 where [sys_consts]: "IORING_FEAT_POLL_32BITS = 64"
definition IORING_FEAT_SQPOLL_NONFIXED :: u32 where [sys_consts]: "IORING_FEAT_SQPOLL_NONFIXED = 128"
definition IORING_FEAT_EXT_ARG :: u32 where [sys_consts]: "IORING_FEAT_EXT_ARG = 256"
definition IORING_FEAT_NATIVE_WORKERS :: u32 where [sys_consts]: "IORING_FEAT_NATIVE_WORKERS = 512"
definition IORING_FEAT_RSRC_TAGS :: u32 where [sys_consts]: "IORING_FEAT_RSRC_TAGS = 1024"
definition IORING_FEAT_CQE_SKIP :: u32 where [sys_consts]: "IORING_FEAT_CQE_SKIP = 2048"
definition IORING_FEAT_LINKED_FILE :: u32 where [sys_consts]: "IORING_FEAT_LINKED_FILE = 4096"
definition IORING_FEAT_REG_REG_RING :: u32 where [sys_consts]: "IORING_FEAT_REG_REG_RING = 8192"
definition IORING_FEAT_RECVSEND_BUNDLE :: u32 where [sys_consts]: "IORING_FEAT_RECVSEND_BUNDLE = 16384"
definition IORING_FEAT_MIN_TIMEOUT :: u32 where [sys_consts]: "IORING_FEAT_MIN_TIMEOUT = 32768"

subsection \<open>Resource registration\<close>

definition IORING_FILE_INDEX_ALLOC :: i32 where [sys_consts]: "IORING_FILE_INDEX_ALLOC = - 1"

subsection \<open>Message-ring commands\<close>

definition IORING_MSG_DATA :: u32 where [sys_consts]: "IORING_MSG_DATA = 0"
definition IORING_MSG_SEND_FD :: u32 where [sys_consts]: "IORING_MSG_SEND_FD = 1"

section \<open>Structures\<close>

text \<open>\<open>io_uring_sqe\<close>: the unions of the kernel are flattened as in the source; the
  one-element array \<open>__pad2\<close> is its element.\<close>

record io_uring_sqe =
  sqe_opcode :: u8
  sqe_flags :: u8
  sqe_ioprio :: u16
  sqe_fd :: i32
  sqe_off :: u64
  sqe_addr :: u64
  sqe_len :: u32
  sqe_op_flags :: u32
  sqe_user_data :: u64
  sqe_buf_index :: u16
  sqe_personality :: u16
  sqe_splice_fd_in :: i32
  sqe_addr3 :: u64
  sqe_pad2 :: u64

definition io_uring_sqe_default :: io_uring_sqe where
  "io_uring_sqe_default = \<lparr>sqe_opcode = 0, sqe_flags = 0, sqe_ioprio = 0, sqe_fd = 0, sqe_off = 0,
     sqe_addr = 0, sqe_len = 0, sqe_op_flags = 0, sqe_user_data = 0, sqe_buf_index = 0,
     sqe_personality = 0, sqe_splice_fd_in = 0, sqe_addr3 = 0, sqe_pad2 = 0\<rparr>"

record io_uring_cqe =
  cqe_user_data :: u64
  cqe_res :: i32
  cqe_flags :: u32

definition io_uring_cqe_default :: io_uring_cqe where
  "io_uring_cqe_default = \<lparr>cqe_user_data = 0, cqe_res = 0, cqe_flags = 0\<rparr>"

record io_sqring_offsets =
  sqo_head :: u32
  sqo_tail :: u32
  sqo_ring_mask :: u32
  sqo_ring_entries :: u32
  sqo_flags :: u32
  sqo_dropped :: u32
  sqo_array :: u32
  sqo_resv1 :: u32
  sqo_user_addr :: u64

definition io_sqring_offsets_default :: io_sqring_offsets where
  "io_sqring_offsets_default = \<lparr>sqo_head = 0, sqo_tail = 0, sqo_ring_mask = 0,
     sqo_ring_entries = 0, sqo_flags = 0, sqo_dropped = 0, sqo_array = 0, sqo_resv1 = 0,
     sqo_user_addr = 0\<rparr>"

record io_cqring_offsets =
  cqo_head :: u32
  cqo_tail :: u32
  cqo_ring_mask :: u32
  cqo_ring_entries :: u32
  cqo_overflow :: u32
  cqo_cqes :: u32
  cqo_flags :: u32
  cqo_resv1 :: u32
  cqo_user_addr :: u64

definition io_cqring_offsets_default :: io_cqring_offsets where
  "io_cqring_offsets_default = \<lparr>cqo_head = 0, cqo_tail = 0, cqo_ring_mask = 0,
     cqo_ring_entries = 0, cqo_overflow = 0, cqo_cqes = 0, cqo_flags = 0, cqo_resv1 = 0,
     cqo_user_addr = 0\<rparr>"

record io_uring_params =
  prm_sq_entries :: u32
  prm_cq_entries :: u32
  prm_flags :: u32
  prm_sq_thread_cpu :: u32
  prm_sq_thread_idle :: u32
  prm_features :: u32
  prm_wq_fd :: u32
  prm_resv :: "u32 list"
  prm_sq_off :: io_sqring_offsets
  prm_cq_off :: io_cqring_offsets

definition io_uring_params_default :: io_uring_params where
  "io_uring_params_default = \<lparr>prm_sq_entries = 0, prm_cq_entries = 0, prm_flags = 0,
     prm_sq_thread_cpu = 0, prm_sq_thread_idle = 0, prm_features = 0, prm_wq_fd = 0,
     prm_resv = [0, 0, 0], prm_sq_off = io_sqring_offsets_default,
     prm_cq_off = io_cqring_offsets_default\<rparr>"

record kernel_timespec =
  tv_sec :: i64
  tv_nsec :: i64

record open_how =
  how_flags :: u64
  how_mode :: u64
  how_resolve :: u64

record io_uring_getevents_arg =
  gea_sigmask :: u64
  gea_sigmask_sz :: u32
  gea_min_wait_usec :: u32
  gea_ts :: u64

record io_uring_buf =
  buf_addr :: u64
  buf_len :: u32
  buf_bid :: u16
  buf_resv :: u16

record io_uring_recvmsg_out =
  rmo_namelen :: u32
  rmo_controllen :: u32
  rmo_payloadlen :: u32
  rmo_flags :: u32

record futex_waitv =
  fwv_val :: u64
  fwv_uaddr :: u64
  fwv_flags :: u32
  fwv_reserved :: u32

record io_uring_restriction =
  rst_opcode :: u16
  rst_register_op :: u8
  rst_sqe_op :: u8
  rst_sqe_flags :: u8
  rst_resv :: u8
  rst_resv2 :: "u32 list"

record io_uring_zcrx_offsets =
  zcx_head :: u32
  zcx_tail :: u32
  zcx_rqes :: u32
  zcx_mmap_sz :: u32
  zcx_resv :: "u64 list"

record io_uring_zcrx_ifq_reg =
  ifq_if_idx :: u32
  ifq_if_rxq :: u32
  ifq_rq_entries :: u32
  ifq_flags :: u32
  ifq_area_id :: u32
  ifq_resv :: "u32 list"
  ifq_rq_off :: io_uring_zcrx_offsets
  ifq_resv2 :: "u64 list"

section \<open>\<open>repr(C)\<close> layouts\<close>

text \<open>
  A field is given by its size and its alignment; each field starts at the next multiple of
  its alignment, and the structure's size is rounded up to its largest alignment.
\<close>

definition align_up :: "nat \<Rightarrow> nat \<Rightarrow> nat" where
  "align_up a n = (n + a - 1) div a * a"

fun repr_c_offsets :: "nat \<Rightarrow> (nat \<times> nat) list \<Rightarrow> nat list" where
  "repr_c_offsets pos [] = []"
| "repr_c_offsets pos ((sz, al) # fs) = align_up al pos # repr_c_offsets (align_up al pos + sz) fs"

fun repr_c_end :: "nat \<Rightarrow> (nat \<times> nat) list \<Rightarrow> nat" where
  "repr_c_end pos [] = pos"
| "repr_c_end pos ((sz, al) # fs) = repr_c_end (align_up al pos + sz) fs"

definition repr_c_align :: "(nat \<times> nat) list \<Rightarrow> nat" where
  "repr_c_align fs = foldr (\<lambda>(_, al) m. max al m) fs 1"

definition repr_c_size :: "(nat \<times> nat) list \<Rightarrow> nat" where
  "repr_c_size fs = align_up (repr_c_align fs) (repr_c_end 0 fs)"

definition io_uring_sqe_fields :: "(nat \<times> nat) list" where
  "io_uring_sqe_fields = [(1,1), (1,1), (2,2), (4,4), (8,8), (8,8), (4,4), (4,4), (8,8),
     (2,2), (2,2), (4,4), (8,8), (8,8)]"

definition io_uring_cqe_fields :: "(nat \<times> nat) list" where
  "io_uring_cqe_fields = [(8,8), (4,4), (4,4)]"

definition io_sqring_offsets_fields :: "(nat \<times> nat) list" where
  "io_sqring_offsets_fields = replicate 8 (4,4) @ [(8,8)]"

definition io_cqring_offsets_fields :: "(nat \<times> nat) list" where
  "io_cqring_offsets_fields = replicate 8 (4,4) @ [(8,8)]"

definition io_uring_params_fields :: "(nat \<times> nat) list" where
  "io_uring_params_fields = replicate 7 (4,4) @ [(12,4)]
     @ [(repr_c_size io_sqring_offsets_fields, repr_c_align io_sqring_offsets_fields),
        (repr_c_size io_cqring_offsets_fields, repr_c_align io_cqring_offsets_fields)]"

definition kernel_timespec_fields :: "(nat \<times> nat) list" where
  "kernel_timespec_fields = [(8,8), (8,8)]"

definition open_how_fields :: "(nat \<times> nat) list" where
  "open_how_fields = [(8,8), (8,8), (8,8)]"

definition io_uring_recvmsg_out_fields :: "(nat \<times> nat) list" where
  "io_uring_recvmsg_out_fields = [(4,4), (4,4), (4,4), (4,4)]"

definition futex_waitv_fields :: "(nat \<times> nat) list" where
  "futex_waitv_fields = [(8,8), (8,8), (4,4), (4,4)]"

definition io_uring_buf_fields :: "(nat \<times> nat) list" where
  "io_uring_buf_fields = [(8,8), (4,4), (2,2), (2,2)]"

lemmas layout_simps = align_up_def repr_c_size_def repr_c_align_def

text \<open>No two fields of a layout overlap, and each starts at a multiple of its alignment.\<close>

lemma align_up_ge: "0 < a \<Longrightarrow> n \<le> align_up a n"
proof -
  assume a: "0 < a"
  have "n + a - 1 = (n + a - 1) div a * a + (n + a - 1) mod a" by simp
  moreover from a have "(n + a - 1) mod a < a" by simp
  ultimately show ?thesis unfolding align_up_def by linarith
qed

lemma align_up_dvd: "a dvd align_up a n"
  by (simp add: align_up_def)

lemma length_repr_c_offsets [simp]: "length (repr_c_offsets pos fs) = length fs"
  by (induction pos fs rule: repr_c_offsets.induct) auto

lemma repr_c_offsets_ge:
  "list_all (\<lambda>(sz, al). 0 < al) fs \<Longrightarrow> i < length fs \<Longrightarrow> pos \<le> repr_c_offsets pos fs ! i"
proof (induction pos fs arbitrary: i rule: repr_c_offsets.induct)
  case (2 pos sz al fs)
  then show ?case
    using align_up_ge [of al pos] by (cases i) (auto intro: order_trans dest!: add_leD1)
qed simp

lemma repr_c_offsets_disjoint:
  "list_all (\<lambda>(sz, al). 0 < al) fs \<Longrightarrow> i < j \<Longrightarrow> j < length fs \<Longrightarrow>
     repr_c_offsets pos fs ! i + fst (fs ! i) \<le> repr_c_offsets pos fs ! j"
proof (induction pos fs arbitrary: i j rule: repr_c_offsets.induct)
  case (2 pos sz al fs)
  then show ?case
    using repr_c_offsets_ge [of fs "j - 1" "align_up al pos + sz"]
    by (cases i; cases j) auto
qed simp

end
