(* ===== verification/Miring_Memory.thy ===== *)
theory Miring_Memory
  imports Miring_Sys
begin

text \<open>
  The user memory that the dispatch handlers of \<^verbatim>\<open>src/submit.rs\<close> touch through raw
  pointers, seen the way Miri sees it: an address is in no live allocation (\<open>None\<close>), or its
  byte is uninitialised, or it has a value.  A read or write through a pointer is undefined
  behaviour when the pointer is null or misaligned, when a byte is not live, and, for a read,
  when a byte is uninitialised; making a slice also needs its size to fit \<open>isize\<close>.
  Values are little-endian.  Provenance and aliasing (Stacked Borrows) are not modelled, and
  two live allocations that touch count as one.
\<close>

section \<open>Memory and raw accesses\<close>

datatype mbyte = Uninit | Byte u8

type_synonym umem = "u64 \<Rightarrow> mbyte option"

abbreviation UB :: "ub \<Rightarrow> 'a exec" where
  "UB k \<equiv> Inl (UndefinedBehavior k)"

definition live :: "umem \<Rightarrow> u64 \<Rightarrow> nat \<Rightarrow> bool" where
  "live m a n \<longleftrightarrow> unat a + n \<le> 2 ^ 64 \<and> (\<forall>i \<in> {..<n}. m (a + of_nat i) \<noteq> None)"

definition region :: "u64 \<Rightarrow> nat \<Rightarrow> u64 set" where
  "region a n = (\<lambda>i. a + of_nat i) ` {..<n}"

text \<open>Two memories with the same live addresses.\<close>

definition same_dom :: "umem \<Rightarrow> umem \<Rightarrow> bool" where
  "same_dom m m' \<longleftrightarrow> dom m' = dom m"

fun load :: "umem \<Rightarrow> u64 \<Rightarrow> nat \<Rightarrow> u8 list exec" where
  "load m a 0 = Inr []"
| "load m a (Suc n) = (case m a of
      None \<Rightarrow> UB UB_out_of_bounds
    | Some Uninit \<Rightarrow> UB UB_uninit
    | Some (Byte b) \<Rightarrow> and_then (load m (a + 1) n) (\<lambda>bs. Inr (b # bs)))"

fun store :: "umem \<Rightarrow> u64 \<Rightarrow> u8 list \<Rightarrow> umem" where
  "store m a [] = m"
| "store m a (b # bs) = store (m(a \<mapsto> Byte b)) (a + 1) bs"

text \<open>The conditions for dereferencing a pointer to \<open>n\<close> bytes with alignment \<open>al\<close>.\<close>

definition deref_check :: "umem \<Rightarrow> u64 \<Rightarrow> nat \<Rightarrow> nat \<Rightarrow> unit exec" where
  "deref_check m a al n =
     (if a = 0 then UB UB_null
      else if unat a mod al \<noteq> 0 then UB UB_unaligned
      else if \<not> live m a n then UB UB_out_of_bounds
      else Inr ())"

text \<open>\<open>ptr::read\<close> and \<open>ptr::write\<close> of a value of \<open>n\<close> bytes.\<close>

definition ptr_read :: "umem \<Rightarrow> u64 \<Rightarrow> nat \<Rightarrow> nat \<Rightarrow> u8 list exec" where
  "ptr_read m a al n = and_then (deref_check m a al n) (\<lambda>_. load m a n)"

definition ptr_write :: "umem \<Rightarrow> u64 \<Rightarrow> nat \<Rightarrow> u8 list \<Rightarrow> umem exec" where
  "ptr_write m a al bs = and_then (deref_check m a al (length bs)) (\<lambda>_. Inr (store m a bs))"

definition read_u32 :: "umem \<Rightarrow> u64 \<Rightarrow> u32 exec" where
  "read_u32 m a = and_then (ptr_read m a 4 4) (\<lambda>bs. Inr (from_le_bytes bs))"

definition read_u64 :: "umem \<Rightarrow> u64 \<Rightarrow> u64 exec" where
  "read_u64 m a = and_then (ptr_read m a 8 8) (\<lambda>bs. Inr (from_le_bytes bs))"

definition write_u32 :: "umem \<Rightarrow> u64 \<Rightarrow> u32 \<Rightarrow> umem exec" where
  "write_u32 m a v = ptr_write m a 4 (to_le_bytes 4 v)"

text \<open>
  \<open>slice::from_raw_parts(_mut)\<close> for \<open>len\<close> elements of \<open>sz\<close> bytes with alignment
  \<open>al\<close>, \<open>fill(0)\<close> on a byte slice, and the loop that reads every byte of a slice into a
  wrapping sum.
\<close>

definition slice_check :: "umem \<Rightarrow> u64 \<Rightarrow> nat \<Rightarrow> nat \<Rightarrow> nat \<Rightarrow> unit exec" where
  "slice_check m a len sz al =
     (if len * sz < 2 ^ 63 then deref_check m a al (len * sz) else UB UB_slice_too_large)"

definition slice_fill :: "umem \<Rightarrow> u64 \<Rightarrow> nat \<Rightarrow> umem exec" where
  "slice_fill m a n = and_then (slice_check m a n 1 1) (\<lambda>_. Inr (store m a (replicate n 0)))"

definition sink_bytes :: "u8 list \<Rightarrow> u8 \<Rightarrow> u8" where
  "sink_bytes bs s = foldl (+) s bs"

definition slice_sink :: "umem \<Rightarrow> u64 \<Rightarrow> nat \<Rightarrow> u8 \<Rightarrow> u8 exec" where
  "slice_sink m a n s = and_then (slice_check m a n 1 1)
     (\<lambda>_. and_then (load m a n) (\<lambda>bs. Inr (sink_bytes bs s)))"

section \<open>Lemmas\<close>

lemma and_then_cong [fundef_cong]:
  "x = y \<Longrightarrow> (\<And>a. y = Inr a \<Longrightarrow> f a = g a) \<Longrightarrow> and_then x f = and_then y g"
  by (cases y) auto

lemma region_0 [simp]: "region a 0 = {}"
  by (simp add: region_def)

lemma region_Suc: "region a (Suc n) = insert a (region (a + 1) n)"
proof -
  have "{..<Suc n} = insert 0 (Suc ` {..<n})" by (simp add: lessThan_Suc_eq_insert_0)
  then show ?thesis by (simp add: region_def image_image algebra_simps)
qed

lemma region_mem: "i < n \<Longrightarrow> a + of_nat i \<in> region a n"
  by (auto simp: region_def)

lemma region_mono: "k \<le> n \<Longrightarrow> region a k \<subseteq> region a n"
  by (auto simp: region_def)

lemma liveD: "live m a n \<Longrightarrow> region a n \<subseteq> dom m"
  by (auto simp: live_def region_def dom_def)

lemma live_iff: "live m a n \<longleftrightarrow> unat a + n \<le> 2 ^ 64 \<and> region a n \<subseteq> dom m"
  by (auto simp: live_def region_def dom_def)

lemma live_mono: "live m a n \<Longrightarrow> k \<le> n \<Longrightarrow> live m a k"
  using region_mono [of k n a] by (auto simp: live_iff)

lemma same_dom_refl [simp, intro]: "same_dom m m"
  by (simp add: same_dom_def)

lemma same_dom_trans [trans]: "same_dom m m1 \<Longrightarrow> same_dom m1 m2 \<Longrightarrow> same_dom m m2"
  by (simp add: same_dom_def)

lemma same_dom_live: "same_dom m m' \<Longrightarrow> live m' a n = live m a n"
  by (simp add: same_dom_def live_iff)

text \<open>What a store changes and what it leaves.\<close>

lemma store_frame: "x \<notin> region a (length bs) \<Longrightarrow> store m a bs x = m x"
  by (induction m a bs rule: store.induct) (auto simp: region_Suc)

lemma dom_store: "dom (store m a bs) = dom m \<union> region a (length bs)"
  by (induction bs arbitrary: m a) (simp_all add: region_Suc)

lemma same_dom_store: "live m a (length bs) \<Longrightarrow> same_dom m (store m a bs)"
  using liveD [of m a "length bs"] by (auto simp: dom_store same_dom_def simp del: domIff)

lemma store_replicate:
  "store m a (replicate n b) x = (if x \<in> region a n then Some (Byte b) else m x)"
proof (induction n arbitrary: m a)
  case (Suc n)
  then show ?case by (auto simp: region_Suc)
qed simp

lemma region_not_self: "n < 2 ^ 64 \<Longrightarrow> a \<notin> region (a + 1) n"
proof
  assume n: "n < 2 ^ 64" and "a \<in> region (a + 1) n"
  then obtain i where i: "i < n" "a = a + 1 + of_nat i" by (auto simp: region_def)
  then have "(of_nat (Suc i) :: u64) = 0" by (simp add: algebra_simps)
  then have "unat (of_nat (Suc i) :: u64) = 0" by simp
  moreover have "unat (of_nat (Suc i) :: u64) = Suc i"
    using i n by (simp add: unat_of_nat del: of_nat_Suc)
  ultimately show False by simp
qed

lemma store_inside:
  assumes "length bs \<le> 2 ^ 64" "i < length bs"
  shows "store m a bs (a + of_nat i) = Some (Byte (bs ! i))"
  using assms
proof (induction bs arbitrary: m a i)
  case (Cons b bs)
  then have f: "a \<notin> region (a + 1) (length bs)"
    by (intro region_not_self) simp
  show ?case
  proof (cases i)
    case 0
    with f show ?thesis by (simp add: store_frame)
  next
    case (Suc j)
    with Cons show ?thesis by (simp add: add.assoc [symmetric])
  qed
qed simp

lemma load_Inr_iff:
  "load m a n = Inr bs \<longleftrightarrow>
     length bs = n \<and> (\<forall>i<n. m (a + of_nat i) = Some (Byte (bs ! i)))"
proof (induction n arbitrary: a bs)
  case (Suc n)
  have "(\<forall>i<Suc n. P i) \<longleftrightarrow> P 0 \<and> (\<forall>i<n. P (Suc i))" for P
    using less_Suc_eq_0_disj by auto
  then show ?case
    by (cases bs)
      (auto simp: Suc and_then_eq_Inr add.assoc split: option.splits mbyte.splits)
qed auto

lemma load_total: "(\<forall>i<n. \<exists>b. m (a + of_nat i) = Some (Byte b)) \<Longrightarrow> \<exists>bs. load m a n = Inr bs"
proof (induction n arbitrary: a)
  case (Suc n)
  have 0: "\<exists>b. m a = Some (Byte b)" using Suc.prems [rule_format, of 0] by simp
  have "\<exists>b. m ((a + 1) + of_nat i) = Some (Byte b)" if "i < n" for i
    using Suc.prems [rule_format, of "Suc i"] that by (simp add: algebra_simps)
  with Suc.IH obtain bs where "load m (a + 1) n = Inr bs" by blast
  with 0 show ?case by auto
qed simp

lemma load_cong:
  "(\<And>x. x \<in> region a n \<Longrightarrow> m x = m' x) \<Longrightarrow> load m a n = load m' a n"
  by (induction n arbitrary: a) (auto simp: region_Suc split: option.split mbyte.split)

lemma load_store:
  assumes "length bs \<le> 2 ^ 64"
  shows "load (store m a bs) a (length bs) = Inr bs"
  unfolding load_Inr_iff using store_inside [OF assms] by simp

lemma load_store_part:
  assumes "length bs \<le> 2 ^ 64" "i + n \<le> length bs"
  shows "load (store m a bs) (a + of_nat i) n = Inr (take n (drop i bs))"
proof -
  have "store m a bs (a + of_nat i + of_nat j) = Some (Byte (take n (drop i bs) ! j))" if "j < n" for j
    using store_inside [OF assms(1), of "i + j" m a] that assms(2) by (simp add: add.assoc)
  with assms show ?thesis by (simp add: load_Inr_iff)
qed

lemma deref_check_Inr [simp]:
  "deref_check m a al n = Inr u \<longleftrightarrow> a \<noteq> 0 \<and> unat a mod al = 0 \<and> live m a n"
  by (simp add: deref_check_def)

lemma slice_check_Inr [simp]:
  "slice_check m a len sz al = Inr u \<longleftrightarrow>
     len * sz < 2 ^ 63 \<and> a \<noteq> 0 \<and> unat a mod al = 0 \<and> live m a (len * sz)"
  by (simp add: slice_check_def)

lemma slice_fill_Inr:
  "slice_fill m a n = Inr m' \<longleftrightarrow>
     n < 2 ^ 63 \<and> a \<noteq> 0 \<and> live m a n
     \<and> m' = (\<lambda>x. if x \<in> region a n then Some (Byte 0) else m x)"
  by (auto simp: slice_fill_def and_then_eq_Inr store_replicate fun_eq_iff)

lemma slice_fill_dom: "slice_fill m a n = Inr m' \<Longrightarrow> same_dom m m'"
  by (auto simp: slice_fill_def and_then_eq_Inr intro: same_dom_store)

lemma ptr_write_dom: "ptr_write m a al bs = Inr m' \<Longrightarrow> same_dom m m'"
  by (auto simp: ptr_write_def and_then_eq_Inr intro: same_dom_store)

lemma ptr_write_frame:
  "ptr_write m a al bs = Inr m' \<Longrightarrow> x \<notin> region a (length bs) \<Longrightarrow> m' x = m x"
  by (auto simp: ptr_write_def and_then_eq_Inr store_frame)

lemma write_read_u32: "write_u32 m a v = Inr m' \<Longrightarrow> read_u32 m' a = Inr v"
proof -
  assume "write_u32 m a v = Inr m'"
  then have c: "a \<noteq> 0" "unat a mod 4 = 0" "live m a 4" "m' = store m a (to_le_bytes 4 v)"
    by (auto simp: write_u32_def ptr_write_def and_then_eq_Inr)
  have "same_dom m m'" using c same_dom_store [of m a "to_le_bytes 4 v"] by simp
  then have "live m' a 4" using c(3) by (simp add: same_dom_live)
  moreover have "load m' a 4 = Inr (to_le_bytes 4 v)"
    using load_store [of "to_le_bytes 4 v" m a] c(4) by simp
  ultimately show ?thesis
    using c by (simp add: read_u32_def ptr_read_def deref_check_def from_to_le_bytes)
qed

end
