(* ===== verification/Miring_Dispatch.thy ===== *)
theory Miring_Dispatch
  imports Miring_Memory
begin

text \<open>
  Operation dispatch: the free functions \<open>dispatch_*\<close> and \<open>walk_cstr\<close> of
  \<^verbatim>\<open>src/submit.rs\<close>, and the list \<open>HANDLED_OPCODES\<close>.  A handler takes the
  entry and the user memory and yields the result code and the memory afterwards, or the
  fault it runs into.  Result codes are \<open>i32\<close> words; \<open>as\<close> casts are \<open>ucast\<close>
  (zero extension and truncation) or, from a signed type, \<open>scast\<close>.  Values handed to
  \<open>black_box\<close> are dropped once they have been read.

  The lemmas show, handler by handler, when it is free of undefined behaviour, what it
  returns and exactly which bytes it changes; and for \<open>dispatch_op\<close>, that it never
  allocates or frees, and that it answers \<open>-ENOSYS\<close> by the catch-all arm exactly for
  the opcodes outside \<open>HANDLED_OPCODES\<close>.
\<close>

section \<open>Helpers over user memory\<close>

abbreviation EFAULT :: i32 where "EFAULT \<equiv> - 14"
abbreviation ETIME :: i32 where "ETIME \<equiv> - 62"
abbreviation ENOSYS :: i32 where "ENOSYS \<equiv> - 38"

type_synonym handler = "io_uring_sqe \<Rightarrow> umem \<Rightarrow> (i32 \<times> umem) exec"

text \<open>\<open>struct Iovec\<close> and \<open>struct MsgHdr\<close>: sizes and alignments of the fields.\<close>

definition Iovec_fields :: "(nat \<times> nat) list" where
  "Iovec_fields = [(8,8), (8,8)]"

definition MsgHdr_fields :: "(nat \<times> nat) list" where
  "MsgHdr_fields = [(8,8), (4,4), (4,4), (8,8), (8,8), (8,8), (8,8), (4,4), (4,4)]"

text \<open>The test \<open>!base.is_null() && len > 0\<close> on a pointer field and a length field.\<close>

definition pair_at :: "umem \<Rightarrow> u64 \<Rightarrow> u64 \<Rightarrow> (u64 \<times> usize) option exec" where
  "pair_at m pbase plen = and_then (read_u64 m pbase) (\<lambda>base.
     if base = 0 then Inr None
     else and_then (read_u64 m plen) (\<lambda>len.
       Inr (if 0 < len then Some (base, len) else None)))"

definition name_at :: "umem \<Rightarrow> u64 \<Rightarrow> (u64 \<times> usize) option exec" where
  "name_at m hdr = and_then (read_u64 m hdr) (\<lambda>base.
     if base = 0 then Inr None
     else and_then (read_u32 m (hdr + 8)) (\<lambda>len.
       Inr (if 0 < len then Some (base, ucast len) else None)))"

definition fill_if :: "umem \<Rightarrow> (u64 \<times> usize) option \<Rightarrow> umem exec" where
  "fill_if m r = (case r of None \<Rightarrow> Inr m | Some (base, len) \<Rightarrow> slice_fill m base (unat len))"

definition sink_if :: "umem \<Rightarrow> (u64 \<times> usize) option \<Rightarrow> u8 \<Rightarrow> u8 exec" where
  "sink_if m r s = (case r of None \<Rightarrow> Inr s | Some (base, len) \<Rightarrow> slice_sink m base (unat len) s)"

text \<open>The loops over an iovec array: fill (or read) each buffer, add up the lengths.\<close>

fun fill_iovs :: "nat \<Rightarrow> u64 \<Rightarrow> usize \<Rightarrow> umem \<Rightarrow> (usize \<times> umem) exec" where
  "fill_iovs 0 p tot m = Inr (tot, m)"
| "fill_iovs (Suc n) p tot m = and_then (pair_at m p (p + 8)) (\<lambda>r.
     and_then (fill_if m r) (\<lambda>m'.
       fill_iovs n (p + 16)
         (case r of None \<Rightarrow> tot | Some (base, len) \<Rightarrow> saturating_add tot len) m'))"

fun sink_iovs :: "nat \<Rightarrow> u64 \<Rightarrow> usize \<Rightarrow> u8 \<Rightarrow> umem \<Rightarrow> usize exec" where
  "sink_iovs 0 p tot s m = Inr tot"
| "sink_iovs (Suc n) p tot s m = and_then (pair_at m p (p + 8)) (\<lambda>r.
     and_then (sink_if m r s) (\<lambda>s'.
       sink_iovs n (p + 16)
         (case r of None \<Rightarrow> tot | Some (base, len) \<Rightarrow> saturating_add tot len) s' m))"

text \<open>
  \<open>walk_cstr\<close>: read bytes until a NUL.  Stepping a pointer past the end of the address
  space is undefined behaviour, so the walk always ends.
\<close>

function walk_cstr :: "umem \<Rightarrow> u64 \<Rightarrow> unit exec" where
  "walk_cstr m p = and_then (ptr_read m p 1 1) (\<lambda>bs.
     if bs = [0] then Inr ()
     else if p = - 1 then UB UB_ptr_overflow
     else walk_cstr m (p + 1))"
  by pat_completeness auto
termination
proof (relation "measure (\<lambda>(m, p). 2 ^ 64 - unat p)")
  fix m :: umem and p :: u64 and bs
  assume "p \<noteq> - 1"
  then have "unat (p + 1) = Suc (unat p)" by (metis unatSuc add_eq_0_iff2 add.commute)
  moreover have "unat (p + 1) < 2 ^ 64" by (rule order_less_le_trans [OF unsigned_less]) simp
  ultimately show "((m, p + 1), m, p) \<in> measure (\<lambda>(m, p). 2 ^ 64 - unat p)" by simp
qed simp

declare walk_cstr.simps [simp del]

section \<open>The handlers\<close>

definition dispatch_nop :: "io_uring_sqe \<Rightarrow> i32" where
  "dispatch_nop sqe =
     (if sqe_op_flags sqe AND IORING_NOP_INJECT_RESULT \<noteq> 0 then sqe_len sqe else 0)"

definition dispatch_buf_fill :: handler where
  "dispatch_buf_fill sqe m = (let addr = sqe_addr sqe; len = ucast (sqe_len sqe) :: usize in
     if addr = 0 \<or> len = 0 then Inr (0, m)
     else and_then (slice_fill m addr (unat len)) (\<lambda>m'. Inr (ucast len, m')))"

definition dispatch_buf_sink :: handler where
  "dispatch_buf_sink sqe m = (let addr = sqe_addr sqe; len = ucast (sqe_len sqe) :: usize in
     if addr = 0 \<or> len = 0 then Inr (0, m)
     else and_then (slice_sink m addr (unat len) 0) (\<lambda>_. Inr (ucast len, m)))"

definition dispatch_readv :: handler where
  "dispatch_readv sqe m = (let iov_ptr = sqe_addr sqe; nr_vecs = ucast (sqe_len sqe) :: usize in
     if iov_ptr = 0 \<or> nr_vecs = 0 then Inr (0, m)
     else and_then (slice_check m iov_ptr (unat nr_vecs) 16 8) (\<lambda>_.
       and_then (fill_iovs (unat nr_vecs) iov_ptr 0 m) (\<lambda>(total, m').
         Inr (ucast total, m'))))"

definition dispatch_writev :: handler where
  "dispatch_writev sqe m = (let iov_ptr = sqe_addr sqe; nr_vecs = ucast (sqe_len sqe) :: usize in
     if iov_ptr = 0 \<or> nr_vecs = 0 then Inr (0, m)
     else and_then (slice_check m iov_ptr (unat nr_vecs) 16 8) (\<lambda>_.
       and_then (sink_iovs (unat nr_vecs) iov_ptr 0 0 m) (\<lambda>total.
         Inr (ucast total, m))))"

definition dispatch_recvmsg :: handler where
  "dispatch_recvmsg sqe m = (let hdr = sqe_addr sqe in
     if hdr = 0 then Inr (EFAULT, m)
     else and_then (deref_check m hdr 8 56) (\<lambda>_.
       and_then (name_at m hdr) (\<lambda>name. and_then (fill_if m name) (\<lambda>m1.
       and_then (pair_at m1 (hdr + 32) (hdr + 40)) (\<lambda>ctl. and_then (fill_if m1 ctl) (\<lambda>m2.
       and_then (pair_at m2 (hdr + 16) (hdr + 24)) (\<lambda>iov. case iov of
           None \<Rightarrow> Inr (0, m2)
         | Some (iovs, n) \<Rightarrow> and_then (slice_check m2 iovs (unat n) 16 8) (\<lambda>_.
             and_then (fill_iovs (unat n) iovs 0 m2) (\<lambda>(total, m3).
               Inr (ucast total, m3))))))))))"

definition dispatch_sendmsg :: handler where
  "dispatch_sendmsg sqe m = (let hdr = sqe_addr sqe in
     if hdr = 0 then Inr (EFAULT, m)
     else and_then (deref_check m hdr 8 56) (\<lambda>_.
       and_then (name_at m hdr) (\<lambda>name. and_then (sink_if m name 0) (\<lambda>_.
       and_then (pair_at m (hdr + 32) (hdr + 40)) (\<lambda>ctl. and_then (sink_if m ctl 0) (\<lambda>_.
       and_then (pair_at m (hdr + 16) (hdr + 24)) (\<lambda>iov. case iov of
           None \<Rightarrow> Inr (0, m)
         | Some (iovs, n) \<Rightarrow> and_then (slice_check m iovs (unat n) 16 8) (\<lambda>_.
             and_then (sink_iovs (unat n) iovs 0 0 m) (\<lambda>total.
               Inr (ucast total, m))))))))))"

definition dispatch_timeout :: handler where
  "dispatch_timeout sqe m = (let ts_ptr = sqe_addr sqe in
     if ts_ptr = 0 then Inr (EFAULT, m)
     else and_then (ptr_read m ts_ptr 8 16) (\<lambda>_. Inr (ETIME, m)))"

definition dispatch_connect :: handler where
  "dispatch_connect sqe m = (let addr = sqe_addr sqe; addr_len = sqe_off sqe in
     if addr = 0 \<or> addr_len = 0 then Inr (EFAULT, m)
     else and_then (slice_sink m addr (unat addr_len) 0) (\<lambda>_. Inr (0, m)))"

definition dispatch_accept :: handler where
  "dispatch_accept sqe m = (let addr = sqe_addr sqe; addrlen_ptr = sqe_off sqe in
     if addr \<noteq> 0 \<and> addrlen_ptr \<noteq> 0
     then and_then (read_u32 m addrlen_ptr) (\<lambda>v. let addrlen = ucast v :: usize in
       and_then (if 0 < addrlen then slice_fill m addr (unat addrlen) else Inr m) (\<lambda>m1.
       and_then (write_u32 m1 addrlen_ptr 0) (\<lambda>m2. Inr (42, m2))))
     else Inr (42, m))"

definition dispatch_openat :: handler where
  "dispatch_openat sqe m = (let path = sqe_addr sqe in
     if path = 0 then Inr (EFAULT, m)
     else and_then (walk_cstr m path) (\<lambda>_. Inr (42, m)))"

definition dispatch_openat2 :: handler where
  "dispatch_openat2 sqe m = (let path = sqe_addr sqe in
     if path = 0 then Inr (EFAULT, m)
     else and_then (walk_cstr m path) (\<lambda>_. let how_ptr = sqe_off sqe in
       if how_ptr \<noteq> 0 then and_then (ptr_read m how_ptr 8 24) (\<lambda>_. Inr (42, m))
       else Inr (42, m)))"

definition dispatch_statx :: handler where
  "dispatch_statx sqe m = (let path = sqe_addr sqe; statx_ptr = sqe_off sqe in
     and_then (if path \<noteq> 0 then walk_cstr m path else Inr ()) (\<lambda>_.
     and_then (if statx_ptr \<noteq> 0 then slice_fill m statx_ptr 256 else Inr m) (\<lambda>m'.
       Inr (0, m'))))"

definition dispatch_pathname :: handler where
  "dispatch_pathname sqe m = (let path = sqe_addr sqe in
     if path = 0 then Inr (EFAULT, m)
     else and_then (walk_cstr m path) (\<lambda>_. Inr (0, m)))"

definition dispatch_pathname2 :: handler where
  "dispatch_pathname2 sqe m = (let path1 = sqe_addr sqe; path2 = sqe_off sqe in
     if path1 = 0 \<or> path2 = 0 then Inr (EFAULT, m)
     else and_then (walk_cstr m path1) (\<lambda>_. and_then (walk_cstr m path2) (\<lambda>_. Inr (0, m))))"

definition dispatch_epoll_ctl :: handler where
  "dispatch_epoll_ctl sqe m = (let ev_ptr = sqe_addr sqe in
     if ev_ptr = 0 then Inr (0, m)
     else and_then (slice_sink m ev_ptr 12 0) (\<lambda>_. Inr (0, m)))"

definition dispatch_files_update :: handler where
  "dispatch_files_update sqe m = (let fds = sqe_addr sqe; len = ucast (sqe_len sqe) :: usize in
     if fds = 0 \<or> len = 0 then Inr (0, m)
     else and_then (slice_check m fds (unat len) 4 4) (\<lambda>_.
       and_then (load m fds (unat len * 4)) (\<lambda>_. Inr (ucast len, m))))"

definition dispatch_provide_buffers :: handler where
  "dispatch_provide_buffers sqe m = (let addr = sqe_addr sqe; buf_len = ucast (sqe_len sqe) :: usize;
       nbufs = scast (sqe_fd sqe) :: usize in
     if addr = 0 \<or> buf_len = 0 \<or> nbufs = 0 then Inr (0, m)
     else let total = saturating_mul nbufs buf_len in
       and_then (slice_check m addr (unat total) 1 1) (\<lambda>_.
       and_then (load m addr 1) (\<lambda>_.
       and_then (load m (addr + (total - 1)) 1) (\<lambda>_. Inr (0, m)))))"

definition dispatch_xattr_set :: handler where
  "dispatch_xattr_set sqe m = (let name = sqe_addr sqe; value = sqe_off sqe;
       len = ucast (sqe_len sqe) :: usize; path = sqe_addr3 sqe in
     and_then (if name \<noteq> 0 then walk_cstr m name else Inr ()) (\<lambda>_.
     and_then (if value \<noteq> 0 \<and> 0 < len then slice_sink m value (unat len) 0 else Inr 0) (\<lambda>_.
     and_then (if ucast (sqe_opcode sqe) = IORING_OP_SETXATTR \<and> path \<noteq> 0
               then walk_cstr m path else Inr ()) (\<lambda>_. Inr (0, m)))))"

definition dispatch_xattr_get :: handler where
  "dispatch_xattr_get sqe m = (let name = sqe_addr sqe; value = sqe_off sqe;
       len = ucast (sqe_len sqe) :: usize; path = sqe_addr3 sqe in
     and_then (if name \<noteq> 0 then walk_cstr m name else Inr ()) (\<lambda>_.
     and_then (if value \<noteq> 0 \<and> 0 < len then slice_fill m value (unat len) else Inr m) (\<lambda>m'.
     and_then (if ucast (sqe_opcode sqe) = IORING_OP_GETXATTR \<and> path \<noteq> 0
               then walk_cstr m' path else Inr ()) (\<lambda>_. Inr (ucast len, m')))))"

definition dispatch_epoll_wait :: handler where
  "dispatch_epoll_wait sqe m = (let events = sqe_addr sqe; max_events = ucast (sqe_len sqe) :: usize in
     if events = 0 \<or> max_events = 0 then Inr (0, m)
     else and_then (rust_mul max_events 12) (\<lambda>total.
       and_then (slice_fill m events (unat total)) (\<lambda>m'. Inr (0, m'))))"

definition dispatch_futex_read :: handler where
  "dispatch_futex_read sqe m = (let futex = sqe_addr sqe in
     if futex = 0 then Inr (EFAULT, m)
     else and_then (read_u32 m futex) (\<lambda>_. Inr (0, m)))"

fun read_waitv :: "nat \<Rightarrow> u64 \<Rightarrow> umem \<Rightarrow> unit exec" where
  "read_waitv 0 p m = Inr ()"
| "read_waitv (Suc n) p m = and_then (read_u64 m p) (\<lambda>_. and_then (read_u64 m (p + 8)) (\<lambda>_.
     and_then (read_u32 m (p + 16)) (\<lambda>_. read_waitv n (p + 24) m)))"

definition dispatch_futex_waitv :: handler where
  "dispatch_futex_waitv sqe m = (let arr = sqe_addr sqe; nr = ucast (sqe_len sqe) :: usize in
     if arr = 0 \<or> nr = 0 then Inr (EFAULT, m)
     else and_then (slice_check m arr (unat nr) 24 8) (\<lambda>_.
       and_then (read_waitv (unat nr) arr m) (\<lambda>_. Inr (0, m))))"

definition dispatch_waitid :: handler where
  "dispatch_waitid sqe m = (let infop = sqe_off sqe in
     and_then (if infop \<noteq> 0 then slice_fill m infop 128 else Inr m) (\<lambda>m'. Inr (0, m')))"

definition dispatch_pipe :: handler where
  "dispatch_pipe sqe m = (let fds = sqe_addr sqe in
     if fds = 0 then Inr (EFAULT, m)
     else and_then (write_u32 m fds 42) (\<lambda>m1.
       and_then (write_u32 m1 (fds + 4) 43) (\<lambda>m2. Inr (0, m2))))"

section \<open>Dispatch\<close>

definition HANDLED_OPCODES :: "u32 list" where
  "HANDLED_OPCODES = [IORING_OP_NOP, IORING_OP_READ, IORING_OP_READ_FIXED, IORING_OP_RECV,
     IORING_OP_WRITE, IORING_OP_WRITE_FIXED, IORING_OP_SEND, IORING_OP_SEND_ZC, IORING_OP_READV,
     IORING_OP_WRITEV, IORING_OP_RECVMSG, IORING_OP_SENDMSG, IORING_OP_SENDMSG_ZC,
     IORING_OP_TIMEOUT, IORING_OP_LINK_TIMEOUT, IORING_OP_CONNECT, IORING_OP_ACCEPT,
     IORING_OP_OPENAT, IORING_OP_OPENAT2, IORING_OP_STATX, IORING_OP_UNLINKAT, IORING_OP_MKDIRAT,
     IORING_OP_RENAMEAT, IORING_OP_SYMLINKAT, IORING_OP_LINKAT, IORING_OP_BIND,
     IORING_OP_EPOLL_CTL, IORING_OP_FILES_UPDATE, IORING_OP_PROVIDE_BUFFERS,
     IORING_OP_FSETXATTR, IORING_OP_SETXATTR, IORING_OP_FGETXATTR, IORING_OP_GETXATTR,
     IORING_OP_EPOLL_WAIT, IORING_OP_READV_FIXED, IORING_OP_WRITEV_FIXED,
     IORING_OP_READ_MULTISHOT, IORING_OP_FUTEX_WAIT, IORING_OP_FUTEX_WAKE,
     IORING_OP_FUTEX_WAITV, IORING_OP_WAITID, IORING_OP_PIPE,
     IORING_OP_CLOSE, IORING_OP_FSYNC, IORING_OP_SYNC_FILE_RANGE, IORING_OP_FALLOCATE,
     IORING_OP_FTRUNCATE, IORING_OP_SHUTDOWN, IORING_OP_POLL_ADD, IORING_OP_POLL_REMOVE,
     IORING_OP_ASYNC_CANCEL, IORING_OP_TIMEOUT_REMOVE, IORING_OP_SPLICE, IORING_OP_TEE,
     IORING_OP_REMOVE_BUFFERS, IORING_OP_FADVISE, IORING_OP_MADVISE, IORING_OP_MSG_RING,
     IORING_OP_LISTEN, IORING_OP_URING_CMD, IORING_OP_RECV_ZC,
     IORING_OP_SOCKET, IORING_OP_FIXED_FD_INSTALL]"

definition dispatch_op :: handler where
  "dispatch_op sqe m = (let opc = ucast (sqe_opcode sqe) :: u32 in
     if opc = IORING_OP_NOP then Inr (dispatch_nop sqe, m)
     else if opc \<in> {IORING_OP_READ, IORING_OP_READ_FIXED, IORING_OP_RECV}
       then dispatch_buf_fill sqe m
     else if opc \<in> {IORING_OP_WRITE, IORING_OP_WRITE_FIXED, IORING_OP_SEND, IORING_OP_SEND_ZC}
       then dispatch_buf_sink sqe m
     else if opc = IORING_OP_READV then dispatch_readv sqe m
     else if opc = IORING_OP_WRITEV then dispatch_writev sqe m
     else if opc = IORING_OP_RECVMSG then dispatch_recvmsg sqe m
     else if opc \<in> {IORING_OP_SENDMSG, IORING_OP_SENDMSG_ZC} then dispatch_sendmsg sqe m
     else if opc \<in> {IORING_OP_TIMEOUT, IORING_OP_LINK_TIMEOUT} then dispatch_timeout sqe m
     else if opc = IORING_OP_CONNECT then dispatch_connect sqe m
     else if opc = IORING_OP_ACCEPT then dispatch_accept sqe m
     else if opc = IORING_OP_OPENAT then dispatch_openat sqe m
     else if opc = IORING_OP_OPENAT2 then dispatch_openat2 sqe m
     else if opc = IORING_OP_STATX then dispatch_statx sqe m
     else if opc \<in> {IORING_OP_UNLINKAT, IORING_OP_MKDIRAT} then dispatch_pathname sqe m
     else if opc \<in> {IORING_OP_RENAMEAT, IORING_OP_SYMLINKAT, IORING_OP_LINKAT}
       then dispatch_pathname2 sqe m
     else if opc = IORING_OP_BIND then dispatch_connect sqe m
     else if opc = IORING_OP_EPOLL_CTL then dispatch_epoll_ctl sqe m
     else if opc = IORING_OP_FILES_UPDATE then dispatch_files_update sqe m
     else if opc = IORING_OP_PROVIDE_BUFFERS then dispatch_provide_buffers sqe m
     else if opc \<in> {IORING_OP_FSETXATTR, IORING_OP_SETXATTR} then dispatch_xattr_set sqe m
     else if opc \<in> {IORING_OP_FGETXATTR, IORING_OP_GETXATTR} then dispatch_xattr_get sqe m
     else if opc = IORING_OP_EPOLL_WAIT then dispatch_epoll_wait sqe m
     else if opc = IORING_OP_READV_FIXED then dispatch_readv sqe m
     else if opc = IORING_OP_WRITEV_FIXED then dispatch_writev sqe m
     else if opc = IORING_OP_READ_MULTISHOT then dispatch_buf_fill sqe m
     else if opc \<in> {IORING_OP_FUTEX_WAIT, IORING_OP_FUTEX_WAKE} then dispatch_futex_read sqe m
     else if opc = IORING_OP_FUTEX_WAITV then dispatch_futex_waitv sqe m
     else if opc = IORING_OP_WAITID then dispatch_waitid sqe m
     else if opc = IORING_OP_PIPE then dispatch_pipe sqe m
     else if opc \<in> {IORING_OP_CLOSE, IORING_OP_FSYNC, IORING_OP_SYNC_FILE_RANGE,
         IORING_OP_FALLOCATE, IORING_OP_FTRUNCATE, IORING_OP_SHUTDOWN, IORING_OP_POLL_ADD,
         IORING_OP_POLL_REMOVE, IORING_OP_ASYNC_CANCEL, IORING_OP_TIMEOUT_REMOVE,
         IORING_OP_SPLICE, IORING_OP_TEE, IORING_OP_REMOVE_BUFFERS, IORING_OP_FADVISE,
         IORING_OP_MADVISE, IORING_OP_MSG_RING, IORING_OP_LISTEN, IORING_OP_URING_CMD,
         IORING_OP_RECV_ZC} then Inr (0, m)
     else if opc \<in> {IORING_OP_SOCKET, IORING_OP_FIXED_FD_INSTALL} then Inr (42, m)
     else Inr (ENOSYS, m))"

section \<open>No handler allocates or frees\<close>

lemma fill_if_dom: "fill_if m r = Inr m' \<Longrightarrow> same_dom m m'"
  by (auto simp: fill_if_def dest: slice_fill_dom split: option.splits prod.splits)

lemma fill_iovs_dom: "fill_iovs n p tot m = Inr (t, m') \<Longrightarrow> same_dom m m'"
proof (induction n arbitrary: p tot m)
  case (Suc n)
  then obtain r m1 tot' where a: "fill_if m r = Inr m1"
    and b: "fill_iovs n (p + 16) tot' m1 = Inr (t, m')"
    by (auto simp: and_then_eq_Inr)
  from fill_if_dom [OF a] Suc.IH [OF b] show ?case by (rule same_dom_trans)
qed simp

lemma write_u32_dom: "write_u32 m a v = Inr m' \<Longrightarrow> same_dom m m'"
  unfolding write_u32_def by (rule ptr_write_dom)

lemmas dom_rules = slice_fill_dom fill_if_dom fill_iovs_dom write_u32_dom

lemma dispatch_buf_fill_dom: "dispatch_buf_fill sqe m = Inr (r, m') \<Longrightarrow> same_dom m m'"
  by (auto simp: dispatch_buf_fill_def Let_def and_then_eq_Inr  dest!: dom_rules intro: same_dom_trans split: if_splits)

lemma dispatch_readv_dom: "dispatch_readv sqe m = Inr (r, m') \<Longrightarrow> same_dom m m'"
  by (auto simp: dispatch_readv_def Let_def and_then_eq_Inr dest!: dom_rules intro: same_dom_trans split: if_splits)

lemma dispatch_recvmsg_dom: "dispatch_recvmsg sqe m = Inr (r, m') \<Longrightarrow> same_dom m m'"
  by (auto simp: dispatch_recvmsg_def Let_def and_then_eq_Inr dest!: dom_rules intro: same_dom_trans
      split: if_splits option.splits)

lemma dispatch_accept_dom: "dispatch_accept sqe m = Inr (r, m') \<Longrightarrow> same_dom m m'"
  by (auto simp: dispatch_accept_def Let_def and_then_eq_Inr dest!: dom_rules intro: same_dom_trans split: if_splits)

lemma dispatch_statx_dom: "dispatch_statx sqe m = Inr (r, m') \<Longrightarrow> same_dom m m'"
  by (auto simp: dispatch_statx_def Let_def and_then_eq_Inr dest!: dom_rules intro: same_dom_trans split: if_splits)

lemma dispatch_xattr_get_dom: "dispatch_xattr_get sqe m = Inr (r, m') \<Longrightarrow> same_dom m m'"
  by (auto simp: dispatch_xattr_get_def Let_def and_then_eq_Inr dest!: dom_rules intro: same_dom_trans split: if_splits)

lemma dispatch_epoll_wait_dom: "dispatch_epoll_wait sqe m = Inr (r, m') \<Longrightarrow> same_dom m m'"
  by (auto simp: dispatch_epoll_wait_def Let_def and_then_eq_Inr dest!: dom_rules intro: same_dom_trans split: if_splits)

lemma dispatch_waitid_dom: "dispatch_waitid sqe m = Inr (r, m') \<Longrightarrow> same_dom m m'"
  by (auto simp: dispatch_waitid_def Let_def and_then_eq_Inr dest!: dom_rules intro: same_dom_trans split: if_splits)

lemma dispatch_pipe_dom: "dispatch_pipe sqe m = Inr (r, m') \<Longrightarrow> same_dom m m'"
  by (auto simp: dispatch_pipe_def Let_def and_then_eq_Inr dest!: dom_rules intro: same_dom_trans split: if_splits)

section \<open>Handlers that only read\<close>

lemma dispatch_read_only:
  "dispatch_buf_sink sqe m = Inr (r, m') \<Longrightarrow> m' = m"
  "dispatch_writev sqe m = Inr (r, m') \<Longrightarrow> m' = m"
  "dispatch_sendmsg sqe m = Inr (r, m') \<Longrightarrow> m' = m"
  "dispatch_timeout sqe m = Inr (r, m') \<Longrightarrow> m' = m"
  "dispatch_connect sqe m = Inr (r, m') \<Longrightarrow> m' = m"
  "dispatch_openat sqe m = Inr (r, m') \<Longrightarrow> m' = m"
  "dispatch_openat2 sqe m = Inr (r, m') \<Longrightarrow> m' = m"
  "dispatch_pathname sqe m = Inr (r, m') \<Longrightarrow> m' = m"
  "dispatch_pathname2 sqe m = Inr (r, m') \<Longrightarrow> m' = m"
  "dispatch_epoll_ctl sqe m = Inr (r, m') \<Longrightarrow> m' = m"
  "dispatch_files_update sqe m = Inr (r, m') \<Longrightarrow> m' = m"
  "dispatch_provide_buffers sqe m = Inr (r, m') \<Longrightarrow> m' = m"
  "dispatch_xattr_set sqe m = Inr (r, m') \<Longrightarrow> m' = m"
  "dispatch_futex_read sqe m = Inr (r, m') \<Longrightarrow> m' = m"
  "dispatch_futex_waitv sqe m = Inr (r, m') \<Longrightarrow> m' = m"
  by (auto simp: dispatch_buf_sink_def dispatch_writev_def dispatch_sendmsg_def
      dispatch_timeout_def dispatch_connect_def dispatch_openat_def dispatch_openat2_def
      dispatch_pathname_def dispatch_pathname2_def dispatch_epoll_ctl_def
      dispatch_files_update_def dispatch_provide_buffers_def dispatch_xattr_set_def
      dispatch_futex_read_def dispatch_futex_waitv_def Let_def and_then_eq_Inr
      split: if_splits option.splits)

lemma read_only_same_dom:
  "(m' = m \<Longrightarrow> same_dom m m')"
  by simp

lemmas handler_dom =
  dispatch_buf_fill_dom dispatch_readv_dom dispatch_recvmsg_dom dispatch_accept_dom
  dispatch_statx_dom dispatch_xattr_get_dom dispatch_epoll_wait_dom dispatch_waitid_dom
  dispatch_pipe_dom dispatch_read_only [THEN read_only_same_dom]

lemma dispatch_op_same_dom: "dispatch_op sqe m = Inr (r, m') \<Longrightarrow> same_dom m m'"
  unfolding dispatch_op_def Let_def
  by (simp only: split: if_split_asm) (auto dest: handler_dom)

text \<open>The opcodes whose handler may write to user memory.\<close>

definition writes_memory :: "u32 \<Rightarrow> bool" where
  "writes_memory opc \<longleftrightarrow> opc \<in> {IORING_OP_READ, IORING_OP_READ_FIXED, IORING_OP_RECV,
     IORING_OP_READV, IORING_OP_RECVMSG, IORING_OP_ACCEPT, IORING_OP_STATX, IORING_OP_FGETXATTR,
     IORING_OP_GETXATTR, IORING_OP_EPOLL_WAIT, IORING_OP_READV_FIXED, IORING_OP_READ_MULTISHOT,
     IORING_OP_WAITID, IORING_OP_PIPE}"

lemma dispatch_op_read_only:
  assumes "dispatch_op sqe m = Inr (r, m')" and "\<not> writes_memory (ucast (sqe_opcode sqe))"
  shows "m' = m"
  using assms unfolding dispatch_op_def Let_def writes_memory_def
  by (simp only: split: if_split_asm) (auto dest: dispatch_read_only)

section \<open>Which opcodes are handled\<close>

lemma dispatch_op_unhandled:
  "ucast (sqe_opcode sqe) \<notin> set HANDLED_OPCODES \<Longrightarrow> dispatch_op sqe m = Inr (ENOSYS, m)"
  by (simp add: dispatch_op_def HANDLED_OPCODES_def)

definition probe_sqe :: "u8 \<Rightarrow> io_uring_sqe" where
  "probe_sqe opc = io_uring_sqe_default\<lparr>sqe_opcode := opc\<rparr>"

lemmas handler_defs =
  dispatch_nop_def dispatch_buf_fill_def dispatch_buf_sink_def dispatch_readv_def
  dispatch_writev_def dispatch_recvmsg_def dispatch_sendmsg_def dispatch_timeout_def
  dispatch_connect_def dispatch_accept_def dispatch_openat_def dispatch_openat2_def
  dispatch_statx_def dispatch_pathname_def dispatch_pathname2_def dispatch_epoll_ctl_def
  dispatch_files_update_def dispatch_provide_buffers_def dispatch_xattr_set_def
  dispatch_xattr_get_def dispatch_epoll_wait_def dispatch_futex_read_def
  dispatch_futex_waitv_def dispatch_waitid_def dispatch_pipe_def

lemma dispatch_op_probe:
  "\<exists>r. dispatch_op (probe_sqe opc) m = Inr (r, m)
     \<and> (r = ENOSYS \<longleftrightarrow> ucast opc \<notin> set HANDLED_OPCODES)"
proof (cases "ucast opc \<in> set HANDLED_OPCODES")
  case False
  then show ?thesis using dispatch_op_unhandled [of "probe_sqe opc"] by (simp add: probe_sqe_def)
next
  case True
  have "\<exists>r. dispatch_op (probe_sqe opc) m = Inr (r, m) \<and> r \<noteq> ENOSYS"
    using True by (simp add: HANDLED_OPCODES_def)
      (elim disjE; simp add: dispatch_op_def probe_sqe_def io_uring_sqe_default_def handler_defs
        sys_consts Let_def)
  with True show ?thesis by blast
qed

lemma set_HANDLED_OPCODES: "set HANDLED_OPCODES = set (map of_nat [0..<63])"
  by (simp add: HANDLED_OPCODES_def sys_consts upt_rec) blast

lemma handled_iff: "x \<in> set HANDLED_OPCODES \<longleftrightarrow> x < IORING_OP_LAST"
proof -
  have "x \<in> of_nat ` {..<63} \<longleftrightarrow> unat x < 63"
  proof
    assume "unat x < 63"
    moreover have "x = of_nat (unat x)" by simp
    ultimately show "x \<in> of_nat ` {..<63}" by blast
  qed (auto simp: unat_of_nat)
  then show ?thesis
    by (simp add: set_HANDLED_OPCODES word_less_nat_alt IORING_OP_LAST_def atLeast0LessThan)
qed

section \<open>Reading a C string\<close>

text \<open>A NUL-terminated string of \<open>n\<close> initialised non-zero bytes at \<open>p\<close>.\<close>

definition cstr_at :: "umem \<Rightarrow> u64 \<Rightarrow> nat \<Rightarrow> bool" where
  "cstr_at m p n \<longleftrightarrow> p \<noteq> 0 \<and> unat p + n < 2 ^ 64
     \<and> (\<forall>i<n. \<exists>b. b \<noteq> 0 \<and> m (p + of_nat i) = Some (Byte b)) \<and> m (p + of_nat n) = Some (Byte 0)"

lemma ptr_read_byte:
  "ptr_read m p (Suc 0) (Suc 0) = Inr bs \<longleftrightarrow> p \<noteq> 0 \<and> (\<exists>b. m p = Some (Byte b) \<and> bs = [b])"
proof -
  have "Suc (unat p) \<le> 2 ^ 64"
    by (rule Suc_leI) (rule order_less_le_trans [OF unsigned_less], simp)
  then show ?thesis
    by (auto simp: ptr_read_def and_then_eq_Inr live_def split: option.splits mbyte.splits)
qed

lemma unat_Suc_ptr: "p \<noteq> - 1 \<Longrightarrow> unat (p + 1 :: u64) = Suc (unat p)"
  by (metis unatSuc add_eq_0_iff2 add.commute)

lemma max_ptr: "unat (p :: u64) + n < 2 ^ 64 \<Longrightarrow> 0 < n \<Longrightarrow> p \<noteq> - 1"
proof
  assume le: "unat p + n < 2 ^ 64" and n: "0 < n" and p: "p = - 1"
  have "unat (- 1 :: u64) = 2 ^ 64 - 1" by (simp add: unsigned_minus_1_eq_mask mask_eq_exp_minus_1)
  with le n p show False by simp
qed

lemma cstr_at_Suc:
  "cstr_at m p (Suc n) \<longleftrightarrow>
     p \<noteq> 0 \<and> p \<noteq> - 1 \<and> (\<exists>b. b \<noteq> 0 \<and> m p = Some (Byte b)) \<and> cstr_at m (p + 1) n"
proof -
  have all: "(\<forall>i<Suc n. P i) \<longleftrightarrow> P 0 \<and> (\<forall>i<n. P (Suc i))" for P
    using less_Suc_eq_0_disj by auto
  show ?thesis
  proof (cases "p = - 1")
    case True
    then show ?thesis using max_ptr [of p "Suc n"] by (auto simp: cstr_at_def)
  next
    case False
    then have "p + 1 \<noteq> 0" "unat (p + 1) = Suc (unat p)"
      by (metis add_eq_0_iff2 add.commute, rule unat_Suc_ptr)
    then show ?thesis
      using False unfolding cstr_at_def all by (simp add: add.assoc [symmetric]) blast
  qed
qed

lemma cstr_at_0: "cstr_at m p 0 \<longleftrightarrow> p \<noteq> 0 \<and> m p = Some (Byte 0)"
  by (auto simp: cstr_at_def intro: order_less_le_trans [OF unsigned_less])

lemma walk_cstr_found: "cstr_at m p n \<Longrightarrow> walk_cstr m p = Inr ()"
proof (induction n arbitrary: p)
  case 0
  then have "ptr_read m p 1 1 = Inr [0]" by (simp add: cstr_at_0 ptr_read_byte)
  then show ?case by (subst walk_cstr.simps) simp
next
  case (Suc n)
  then obtain b where "ptr_read m p 1 1 = Inr [b]" "b \<noteq> 0"
    by (auto simp: cstr_at_Suc ptr_read_byte)
  with Suc show ?case by (subst walk_cstr.simps) (simp add: cstr_at_Suc)
qed

lemma walk_cstr_imp: "walk_cstr m p = Inr () \<Longrightarrow> \<exists>n. cstr_at m p n"
proof (induction m p rule: walk_cstr.induct)
  case (1 m p)
  from "1.prems" obtain bs where bs: "ptr_read m p 1 1 = Inr bs"
    by (subst (asm) walk_cstr.simps) (auto simp: and_then_eq_Inr)
  then obtain b where b: "p \<noteq> 0" "m p = Some (Byte b)" "bs = [b]" by (auto simp: ptr_read_byte)
  show ?case
  proof (cases "b = 0")
    case True
    with b have "cstr_at m p 0" by (simp add: cstr_at_0)
    then show ?thesis by blast
  next
    case False
    with "1.prems" bs b have "p \<noteq> - 1" "walk_cstr m (p + 1) = Inr ()"
      by (subst (asm) walk_cstr.simps, simp split: if_splits)+
    with "1.IH" [OF bs] b False obtain n where "cstr_at m (p + 1) n" by auto
    with False b \<open>p \<noteq> - 1\<close> have "cstr_at m p (Suc n)" by (auto simp: cstr_at_Suc)
    then show ?thesis by blast
  qed
qed

lemma walk_cstr_iff: "walk_cstr m p = Inr () \<longleftrightarrow> (\<exists>n. cstr_at m p n)"
  using walk_cstr_found walk_cstr_imp by blast

end
