(* ===== verification/Miring_State.thy ===== *)
theory Miring_State
  imports Miring_Dispatch
begin

text \<open>
  The shared state of a ring: \<open>RingState\<close> and \<open>RingMemory\<close> of
  \<^verbatim>\<open>src/lib.rs\<close>, and what \<^verbatim>\<open>src/submit.rs\<close> keeps in
  \<open>pending\<close>.  The raw pointers in \<open>squeue::Inner\<close>, \<open>cqueue::Inner\<close> and
  \<open>Submitter\<close> all point into the one \<open>RingMemory\<close> of the ring (\<open>Builder::build\<close>
  wires them so), hence in the model an operation takes that memory and returns it updated.
  An \<open>AtomicU32\<close> is its value: a load reads the field and a store writes it, in
  program order.  A \<open>JoinHandle\<close> is the state of the dispatch thread behind it: the
  entries it still has to dispatch, whether its current link chain is cancelled, and the
  completions it has collected.
\<close>

record CompletionData =
  cd_user_data :: u64
  cd_result :: i32
  cd_skip_success :: bool

record dispatch_thread =
  th_sqes :: "io_uring_sqe list"
  th_cancel_chain :: bool
  th_results :: "CompletionData list"

type_synonym PendingBatches = "dispatch_thread list"

record RingState =
  st_sq_head :: u32
  st_sq_tail :: u32
  st_sq_flags :: u32
  st_sq_dropped :: u32
  st_cq_head :: u32
  st_cq_tail :: u32
  st_cq_overflow :: u32
  st_cq_flags :: u32
  st_pending :: PendingBatches

record ('s, 'c) RingMemory =
  rm_state :: RingState
  rm_sqes :: "'s list"
  rm_cqes :: "'c list"

text \<open>\<open>io::Result\<close>, with the one error kind that the crate returns.\<close>

datatype io_ErrorKind = InvalidInput

type_synonym 'a io_Result = "io_ErrorKind + 'a"

text \<open>\<open>util::unsync_load\<close>: a plain read of the atomic's value.\<close>

definition unsync_load :: "u32 \<Rightarrow> u32" where
  "unsync_load u = u"

text \<open>Updating one field of the state behind the memory's pointer.\<close>

definition upd_state ::
  "(RingState \<Rightarrow> RingState) \<Rightarrow> ('s, 'c) RingMemory \<Rightarrow> ('s, 'c) RingMemory" where
  "upd_state f mem = mem\<lparr>rm_state := f (rm_state mem)\<rparr>"

lemma upd_state_simps [simp]:
  "rm_state (upd_state f mem) = f (rm_state mem)"
  "rm_sqes (upd_state f mem) = rm_sqes mem"
  "rm_cqes (upd_state f mem) = rm_cqes mem"
  by (simp_all add: upd_state_def)

end
