(* ===== verification/Miring_Queue_Spec.thy ===== *)
theory Miring_Queue_Spec
  imports Miring_Prelude
begin

text \<open>
  The interfaces of the two ends of a ring, as locales over an abstract queue state
  \<open>'q\<close> with the list of its entries.  A producer appends while there is room and leaves
  the entries alone when there is none; a consumer takes entries from the front.  What the
  clients need about runs of such operations is proved here once: the submission queue's
  \<open>push\<close> and the emulator's \<open>post_cqe\<close> are producers, the emulator's reading of
  SQEs and the application's \<open>next\<close> are consumers.
\<close>

section \<open>Runs of queue operations\<close>

fun put_all :: "('a \<Rightarrow> 'q \<Rightarrow> 'q exec) \<Rightarrow> 'a list \<Rightarrow> 'q \<Rightarrow> 'q exec" where
  "put_all put [] q = Inr q"
| "put_all put (x # xs) q = and_then (put x q) (put_all put xs)"

fun get_n :: "('q \<Rightarrow> ('a \<times> 'q) option exec) \<Rightarrow> nat \<Rightarrow> 'q \<Rightarrow> ('a list \<times> 'q) exec" where
  "get_n get 0 q = Inr ([], q)"
| "get_n get (Suc n) q = and_then (get q) (\<lambda>r. case r of
      None \<Rightarrow> Inr ([], q)
    | Some (x, q') \<Rightarrow> and_then (get_n get n q') (\<lambda>(xs, q''). Inr (x # xs, q'')))"

section \<open>Producers\<close>

locale bounded_producer =
  fixes inv :: "'q \<Rightarrow> bool"
    and contents :: "'q \<Rightarrow> 'a list"
    and room :: "'q \<Rightarrow> nat"
    and put :: "'a \<Rightarrow> 'q \<Rightarrow> 'q exec"
  assumes put_law: "inv q \<Longrightarrow> \<exists>q'. put x q = Inr q' \<and> inv q'
      \<and> contents q' = (if 0 < room q then contents q @ [x] else contents q)
      \<and> room q' = room q - 1"
begin

lemma put_room: "inv q \<Longrightarrow> 0 < room q \<Longrightarrow> put x q = Inr q' \<Longrightarrow> contents q' = contents q @ [x]"
  using put_law [of q x] by auto

lemma put_full: "inv q \<Longrightarrow> room q = 0 \<Longrightarrow> put x q = Inr q' \<Longrightarrow> contents q' = contents q"
  using put_law [of q x] by auto

lemma put_all_law:
  "inv q \<Longrightarrow> \<exists>q'. put_all put xs q = Inr q' \<and> inv q'
     \<and> contents q' = contents q @ take (room q) xs \<and> room q' = room q - length xs"
proof (induction xs arbitrary: q)
  case (Cons x xs)
  from put_law [OF Cons.prems, of x] obtain q1 where q1: "put x q = Inr q1" "inv q1"
    "contents q1 = (if 0 < room q then contents q @ [x] else contents q)" "room q1 = room q - 1"
    by blast
  from Cons.IH [OF q1(2)] obtain q2 where "put_all put xs q1 = Inr q2" "inv q2"
    "contents q2 = contents q1 @ take (room q1) xs" "room q2 = room q1 - length xs"
    by blast
  with q1 show ?case by (cases "room q") auto
qed simp

end

text \<open>A producer that counts, modulo \<open>2 ^ 32\<close>, what it could not store.\<close>

locale counting_producer = bounded_producer inv contents room put
  for inv :: "'q \<Rightarrow> bool" and contents :: "'q \<Rightarrow> 'a list" and room :: "'q \<Rightarrow> nat"
    and put :: "'a \<Rightarrow> 'q \<Rightarrow> 'q exec" +
  fixes lost :: "'q \<Rightarrow> u32"
  assumes lost_law: "inv q \<Longrightarrow> put x q = Inr q' \<Longrightarrow>
      lost q' = lost q + (if 0 < room q then 0 else 1)"
begin

lemma put_all_lost:
  "inv q \<Longrightarrow> put_all put xs q = Inr q' \<Longrightarrow> lost q' = lost q + of_nat (length xs - room q)"
proof (induction xs arbitrary: q)
  case (Cons x xs)
  from put_law [OF Cons.prems(1), of x] obtain q1 where q1: "put x q = Inr q1" "inv q1"
    "room q1 = room q - 1"
    by blast
  with Cons.prems have "put_all put xs q1 = Inr q'" by simp
  with Cons.IH q1 have "lost q' = lost q1 + of_nat (length xs - room q1)" by blast
  with lost_law [OF Cons.prems(1) q1(1)] q1(3) show ?case by (cases "room q") auto
qed simp

end

section \<open>Consumers\<close>

locale fifo_consumer =
  fixes inv :: "'q \<Rightarrow> bool"
    and contents :: "'q \<Rightarrow> 'a list"
    and get :: "'q \<Rightarrow> ('a \<times> 'q) option exec"
  assumes get_empty: "inv q \<Longrightarrow> contents q = [] \<Longrightarrow> get q = Inr None"
    and get_front: "inv q \<Longrightarrow> contents q = x # xs \<Longrightarrow>
      \<exists>q'. get q = Inr (Some (x, q')) \<and> inv q' \<and> contents q' = xs"
begin

lemma get_n_law:
  "inv q \<Longrightarrow> \<exists>q'. get_n get n q = Inr (take n (contents q), q') \<and> inv q'
     \<and> contents q' = drop n (contents q)"
proof (induction n arbitrary: q)
  case (Suc n)
  show ?case
  proof (cases "contents q")
    case Nil
    with get_empty [OF Suc.prems] Suc.prems show ?thesis by simp
  next
    case (Cons x xs)
    from get_front [OF Suc.prems Cons] obtain q1
      where "get q = Inr (Some (x, q1))" "inv q1" "contents q1 = xs" by blast
    moreover from Suc.IH [OF this(2)] obtain q2
      where "get_n get n q1 = Inr (take n (contents q1), q2)" "inv q2"
        "contents q2 = drop n (contents q1)" by blast
    ultimately show ?thesis using Cons by simp
  qed
qed simp

lemma drain: "inv q \<Longrightarrow> length (contents q) \<le> n \<Longrightarrow>
    \<exists>q'. get_n get n q = Inr (contents q, q') \<and> inv q' \<and> contents q' = []"
  using get_n_law [of q n] by simp

end

end
