(* ===== verification/Miring_Squeue.thy ===== *)
theory Miring_Squeue
  imports Miring_State Miring_Queue_Spec
begin

text \<open>
  The submission queue, \<^verbatim>\<open>src/squeue.rs\<close>: the entry types, the application's
  handle \<open>SubmissionQueue\<close> with its cached positions, and every operation on it.  The
  handle may be stale (the emulator can advance the shared head while the handle lives, as
  \<open>IoUring::split\<close> allows); \<open>sq_view\<close> is the invariant that ties the cached
  positions to the shared ones, and \<open>sq_unconsumed\<close> the list of entries between the
  shared head and the handle's tail.  The lemmas show that \<open>push\<close> appends to that list
  or fails exactly when the cached length has reached the capacity, that no push overwrites
  an entry the emulator has not read, and that nothing here indexes outside the array.
\<close>

section \<open>Entries\<close>

datatype Entry = Entry (entry_sqe: io_uring_sqe)

datatype Entry128 = Entry128 (entry128_base: Entry) (entry128_cmd: "u8 list")

text \<open>\<open>bitflags! Flags\<close>\<close>

definition Flags_FIXED_FILE :: u8 where
  "Flags_FIXED_FILE = push_bit (unat IOSQE_FIXED_FILE_BIT) 1"

definition Flags_IO_DRAIN :: u8 where
  "Flags_IO_DRAIN = push_bit (unat IOSQE_IO_DRAIN_BIT) 1"

definition Flags_IO_LINK :: u8 where
  "Flags_IO_LINK = push_bit (unat IOSQE_IO_LINK_BIT) 1"

definition Flags_IO_HARDLINK :: u8 where
  "Flags_IO_HARDLINK = push_bit (unat IOSQE_IO_HARDLINK_BIT) 1"

definition Flags_ASYNC :: u8 where
  "Flags_ASYNC = push_bit (unat IOSQE_ASYNC_BIT) 1"

definition Flags_BUFFER_SELECT :: u8 where
  "Flags_BUFFER_SELECT = push_bit (unat IOSQE_BUFFER_SELECT_BIT) 1"

definition Flags_SKIP_SUCCESS :: u8 where
  "Flags_SKIP_SUCCESS = push_bit (unat IOSQE_CQE_SKIP_SUCCESS_BIT) 1"

text \<open>\<open>impl Entry\<close>\<close>

definition Entry_flags :: "Entry \<Rightarrow> u8 \<Rightarrow> Entry" where
  "Entry_flags e flags = Entry ((entry_sqe e)\<lparr>sqe_flags := sqe_flags (entry_sqe e) OR flags\<rparr>)"

definition Entry_clear_flags :: "Entry \<Rightarrow> Entry" where
  "Entry_clear_flags e = Entry ((entry_sqe e)\<lparr>sqe_flags := 0\<rparr>)"

definition Entry_user_data :: "Entry \<Rightarrow> u64 \<Rightarrow> Entry" where
  "Entry_user_data e user_data = Entry ((entry_sqe e)\<lparr>sqe_user_data := user_data\<rparr>)"

definition Entry_set_user_data :: "Entry \<Rightarrow> u64 \<Rightarrow> Entry" where
  "Entry_set_user_data e user_data = Entry ((entry_sqe e)\<lparr>sqe_user_data := user_data\<rparr>)"

definition Entry_get_user_data :: "Entry \<Rightarrow> u64" where
  "Entry_get_user_data e = sqe_user_data (entry_sqe e)"

definition Entry_get_opcode :: "Entry \<Rightarrow> u32" where
  "Entry_get_opcode e = ucast (sqe_opcode (entry_sqe e))"

definition Entry_personality :: "Entry \<Rightarrow> u16 \<Rightarrow> Entry" where
  "Entry_personality e personality = Entry ((entry_sqe e)\<lparr>sqe_personality := personality\<rparr>)"

definition Entry_clone :: "Entry \<Rightarrow> Entry" where
  "Entry_clone e = Entry (entry_sqe e)"

text \<open>\<open>impl Entry128\<close>\<close>

definition Entry128_upd :: "(Entry \<Rightarrow> Entry) \<Rightarrow> Entry128 \<Rightarrow> Entry128" where
  "Entry128_upd f e = Entry128 (f (entry128_base e)) (entry128_cmd e)"

definition Entry128_flags :: "Entry128 \<Rightarrow> u8 \<Rightarrow> Entry128" where
  "Entry128_flags e flags = Entry128_upd (\<lambda>b. Entry ((entry_sqe b)\<lparr>sqe_flags :=
     sqe_flags (entry_sqe b) OR flags\<rparr>)) e"

definition Entry128_clear_flags :: "Entry128 \<Rightarrow> Entry128" where
  "Entry128_clear_flags e = Entry128_upd (\<lambda>b. Entry ((entry_sqe b)\<lparr>sqe_flags := 0\<rparr>)) e"

definition Entry128_user_data :: "Entry128 \<Rightarrow> u64 \<Rightarrow> Entry128" where
  "Entry128_user_data e user_data =
     Entry128_upd (\<lambda>b. Entry ((entry_sqe b)\<lparr>sqe_user_data := user_data\<rparr>)) e"

definition Entry128_set_user_data :: "Entry128 \<Rightarrow> u64 \<Rightarrow> Entry128" where
  "Entry128_set_user_data e user_data =
     Entry128_upd (\<lambda>b. Entry ((entry_sqe b)\<lparr>sqe_user_data := user_data\<rparr>)) e"

definition Entry128_personality :: "Entry128 \<Rightarrow> u16 \<Rightarrow> Entry128" where
  "Entry128_personality e personality =
     Entry128_upd (\<lambda>b. Entry ((entry_sqe b)\<lparr>sqe_personality := personality\<rparr>)) e"

definition Entry128_get_opcode :: "Entry128 \<Rightarrow> u32" where
  "Entry128_get_opcode e = ucast (sqe_opcode (entry_sqe (entry128_base e)))"

definition Entry128_from_Entry :: "Entry \<Rightarrow> Entry128" where
  "Entry128_from_Entry e = Entry128 e (replicate 64 0)"

text \<open>
  \<open>trait EntryMarker\<close> with its two implementations, as a record of what the ring uses
  of the entry type: \<open>BUILD_FLAGS\<close>, \<open>From<Entry>\<close>, \<open>size_of\<close>, the all-zero value,
  and the view of the first 64 bytes as an \<open>io_uring_sqe\<close>, which the type-erased
  submitter reads.
\<close>

record 's sq_EntryMarker =
  sem_BUILD_FLAGS :: u32
  sem_from :: "Entry \<Rightarrow> 's"
  sem_size :: nat
  sem_zeroed :: 's
  sem_sqe :: "'s \<Rightarrow> io_uring_sqe"

definition Entry_marker :: "Entry sq_EntryMarker" where
  "Entry_marker = \<lparr>sem_BUILD_FLAGS = 0, sem_from = (\<lambda>e. e), sem_size = 64,
     sem_zeroed = Entry io_uring_sqe_default, sem_sqe = entry_sqe\<rparr>"

definition Entry128_marker :: "Entry128 sq_EntryMarker" where
  "Entry128_marker = \<lparr>sem_BUILD_FLAGS = IORING_SETUP_SQE128, sem_from = Entry128_from_Entry,
     sem_size = 128, sem_zeroed = Entry128 (Entry io_uring_sqe_default) (replicate 64 0),
     sem_sqe = (\<lambda>e. entry_sqe (entry128_base e))\<rparr>"

section \<open>The queue handle\<close>

text \<open>\<open>Inner\<close>: its pointers are the cells of the ring memory.\<close>

record sq_Inner =
  sqi_ring_mask :: u32
  sqi_ring_entries :: u32

record SubmissionQueue =
  sq_head :: u32
  sq_tail :: u32
  sq_queue :: sq_Inner

datatype PushError = PushError

definition squeue_borrow_shared :: "sq_Inner \<Rightarrow> ('s, 'c) RingMemory \<Rightarrow> SubmissionQueue" where
  "squeue_borrow_shared inner mem = \<lparr>sq_head = st_sq_head (rm_state mem),
     sq_tail = unsync_load (st_sq_tail (rm_state mem)), sq_queue = inner\<rparr>"

definition squeue_borrow :: "sq_Inner \<Rightarrow> ('s, 'c) RingMemory \<Rightarrow> SubmissionQueue" where
  "squeue_borrow inner mem = squeue_borrow_shared inner mem"

definition squeue_sync ::
  "SubmissionQueue \<Rightarrow> ('s, 'c) RingMemory \<Rightarrow> SubmissionQueue \<times> ('s, 'c) RingMemory" where
  "squeue_sync sq mem = (let mem' = upd_state (\<lambda>st. st\<lparr>st_sq_tail := sq_tail sq\<rparr>) mem in
     (sq\<lparr>sq_head := st_sq_head (rm_state mem')\<rparr>, mem'))"

definition squeue_need_wakeup :: "('s, 'c) RingMemory \<Rightarrow> bool" where
  "squeue_need_wakeup mem \<longleftrightarrow> st_sq_flags (rm_state mem) AND IORING_SQ_NEED_WAKEUP \<noteq> 0"

definition squeue_need_wakeup_after_intermittent_seqcst :: "('s, 'c) RingMemory \<Rightarrow> bool" where
  "squeue_need_wakeup_after_intermittent_seqcst mem \<longleftrightarrow>
     st_sq_flags (rm_state mem) AND IORING_SQ_NEED_WAKEUP \<noteq> 0"

definition squeue_dropped :: "('s, 'c) RingMemory \<Rightarrow> u32" where
  "squeue_dropped mem = st_sq_dropped (rm_state mem)"

definition squeue_cq_overflow :: "('s, 'c) RingMemory \<Rightarrow> bool" where
  "squeue_cq_overflow mem \<longleftrightarrow> st_sq_flags (rm_state mem) AND IORING_SQ_CQ_OVERFLOW \<noteq> 0"

definition squeue_taskrun :: "('s, 'c) RingMemory \<Rightarrow> bool" where
  "squeue_taskrun mem \<longleftrightarrow> st_sq_flags (rm_state mem) AND IORING_SQ_TASKRUN \<noteq> 0"

definition squeue_capacity :: "SubmissionQueue \<Rightarrow> usize" where
  "squeue_capacity sq = ucast (sqi_ring_entries (sq_queue sq))"

definition squeue_len :: "SubmissionQueue \<Rightarrow> usize" where
  "squeue_len sq = ucast (sq_tail sq - sq_head sq)"

definition squeue_is_empty :: "SubmissionQueue \<Rightarrow> bool" where
  "squeue_is_empty sq \<longleftrightarrow> squeue_len sq = 0"

definition squeue_is_full :: "SubmissionQueue \<Rightarrow> bool" where
  "squeue_is_full sq \<longleftrightarrow> squeue_len sq = squeue_capacity sq"

text \<open>The raw store \<open>*sqes.add(i) = entry\<close> is undefined behaviour outside the array.\<close>

definition squeue_push_unchecked ::
  "'s \<Rightarrow> SubmissionQueue \<Rightarrow> ('s, 'c) RingMemory \<Rightarrow> (SubmissionQueue \<times> ('s, 'c) RingMemory) exec"
where
  "squeue_push_unchecked entry sq mem =
     (let i = ring_index (sqi_ring_mask (sq_queue sq)) (sq_tail sq) in
      if i < length (rm_sqes mem)
      then Inr (sq\<lparr>sq_tail := sq_tail sq + 1\<rparr>, mem\<lparr>rm_sqes := (rm_sqes mem)[i := entry]\<rparr>)
      else Inl (UndefinedBehavior UB_out_of_bounds))"

definition squeue_push ::
  "'s \<Rightarrow> SubmissionQueue \<Rightarrow> ('s, 'c) RingMemory \<Rightarrow>
     ((PushError + unit) \<times> SubmissionQueue \<times> ('s, 'c) RingMemory) exec"
where
  "squeue_push entry sq mem =
     (if \<not> squeue_is_full sq
      then and_then (squeue_push_unchecked entry sq mem) (\<lambda>(sq', mem'). Inr (Inr (), sq', mem'))
      else Inr (Inl PushError, sq, mem))"

fun squeue_push_each ::
  "'s list \<Rightarrow> SubmissionQueue \<Rightarrow> ('s, 'c) RingMemory \<Rightarrow>
     (SubmissionQueue \<times> ('s, 'c) RingMemory) exec"
where
  "squeue_push_each [] sq mem = Inr (sq, mem)"
| "squeue_push_each (entry # entries) sq mem =
     and_then (squeue_push_unchecked entry sq mem) (\<lambda>(sq', mem').
       squeue_push_each entries sq' mem')"

definition squeue_push_multiple ::
  "'s list \<Rightarrow> SubmissionQueue \<Rightarrow> ('s, 'c) RingMemory \<Rightarrow>
     ((PushError + unit) \<times> SubmissionQueue \<times> ('s, 'c) RingMemory) exec"
where
  "squeue_push_multiple entries sq mem =
     and_then (rust_sub (squeue_capacity sq) (squeue_len sq)) (\<lambda>free.
       if unat free < length entries then Inr (Inl PushError, sq, mem)
       else and_then (squeue_push_each entries sq mem) (\<lambda>(sq', mem').
         Inr (Inr (), sq', mem')))"

definition squeue_drop :: "SubmissionQueue \<Rightarrow> ('s, 'c) RingMemory \<Rightarrow> ('s, 'c) RingMemory" where
  "squeue_drop sq mem = upd_state (\<lambda>st. st\<lparr>st_sq_tail := sq_tail sq\<rparr>) mem"

text \<open>\<open>Debug for SubmissionQueue\<close>: the loop that visits the queued entries.\<close>

function squeue_debug_loop ::
  "u32 \<Rightarrow> SubmissionQueue \<Rightarrow> ('s, 'c) RingMemory \<Rightarrow> 's list exec"
where
  "squeue_debug_loop pos sq mem =
     (if pos \<noteq> sq_tail sq
      then let i = ring_index (sqi_ring_mask (sq_queue sq)) pos in
        if i < length (rm_sqes mem)
        then and_then (squeue_debug_loop (pos + 1) sq mem) (\<lambda>es. Inr (rm_sqes mem ! i # es))
        else Inl (UndefinedBehavior UB_out_of_bounds)
      else Inr [])"
  by pat_completeness auto
termination
  by (relation "measure (\<lambda>(pos, sq, mem). dist pos (sq_tail sq))") (auto simp: dist_Suc_left_less)

declare squeue_debug_loop.simps [simp del]

definition squeue_debug :: "SubmissionQueue \<Rightarrow> ('s, 'c) RingMemory \<Rightarrow> 's list exec" where
  "squeue_debug sq mem = squeue_debug_loop (sq_head sq) sq mem"

section \<open>The view of the handle\<close>

text \<open>
  Reading round the ring from the handle's cached head: the shared head, the shared tail and
  the handle's tail come in this order, and all of it fits the ring.
\<close>

definition sq_view :: "SubmissionQueue \<Rightarrow> ('s, 'c) RingMemory \<Rightarrow> bool" where
  "sq_view sq mem \<longleftrightarrow>
     ring_geom (sqi_ring_entries (sq_queue sq)) (sqi_ring_mask (sq_queue sq)) (length (rm_sqes mem))
     \<and> dist (sq_head sq) (st_sq_head (rm_state mem))
         + dist (st_sq_head (rm_state mem)) (st_sq_tail (rm_state mem))
         + dist (st_sq_tail (rm_state mem)) (sq_tail sq)
       \<le> unat (sqi_ring_entries (sq_queue sq))"

definition sq_unconsumed :: "SubmissionQueue \<Rightarrow> ('s, 'c) RingMemory \<Rightarrow> 's list" where
  "sq_unconsumed sq mem = ring_slice (rm_sqes mem) (sqi_ring_mask (sq_queue sq))
     (st_sq_head (rm_state mem)) (dist (st_sq_head (rm_state mem)) (sq_tail sq))"

definition sq_room :: "SubmissionQueue \<Rightarrow> nat" where
  "sq_room sq = unat (sqi_ring_entries (sq_queue sq)) - dist (sq_head sq) (sq_tail sq)"

text \<open>A push whose result is dropped: the producer's end of the ring.\<close>

definition sq_put ::
  "'s \<Rightarrow> SubmissionQueue \<times> ('s, 'c) RingMemory \<Rightarrow> (SubmissionQueue \<times> ('s, 'c) RingMemory) exec"
where
  "sq_put entry = (\<lambda>(sq, mem). and_then (squeue_push entry sq mem) (\<lambda>(r, q). Inr q))"

section \<open>Lemmas\<close>

lemma unat_squeue_len [simp]: "unat (squeue_len sq) = dist (sq_head sq) (sq_tail sq)"
  by (simp add: squeue_len_def dist_def)

lemma unat_squeue_capacity [simp]:
  "unat (squeue_capacity sq) = unat (sqi_ring_entries (sq_queue sq))"
  by (simp add: squeue_capacity_def)

lemma squeue_is_full_iff:
  "squeue_is_full sq \<longleftrightarrow> dist (sq_head sq) (sq_tail sq) = unat (sqi_ring_entries (sq_queue sq))"
  unfolding squeue_is_full_def by (subst word_unat_eq_iff) simp

lemma squeue_is_empty_iff: "squeue_is_empty sq \<longleftrightarrow> sq_head sq = sq_tail sq"
  unfolding squeue_is_empty_def by (subst word_unat_eq_iff) simp

lemma sq_view_geom:
  "sq_view sq mem \<Longrightarrow> ring_geom (sqi_ring_entries (sq_queue sq)) (sqi_ring_mask (sq_queue sq))
     (length (rm_sqes mem))"
  by (simp add: sq_view_def)

lemma sq_view_entries:
  "sq_view sq mem \<Longrightarrow> length (rm_sqes mem) = unat (sqi_ring_entries (sq_queue sq))
     \<and> unat (sqi_ring_entries (sq_queue sq)) \<le> 2 ^ 31"
  using ring_geom_entries sq_view_geom by fastforce

lemma sq_view_dist:
  assumes "sq_view sq mem"
  shows "dist (sq_head sq) (sq_tail sq) =
           dist (sq_head sq) (st_sq_head (rm_state mem))
           + dist (st_sq_head (rm_state mem)) (st_sq_tail (rm_state mem))
           + dist (st_sq_tail (rm_state mem)) (sq_tail sq)"
    and "dist (st_sq_head (rm_state mem)) (sq_tail sq) =
           dist (st_sq_head (rm_state mem)) (st_sq_tail (rm_state mem))
           + dist (st_sq_tail (rm_state mem)) (sq_tail sq)"
  using assms sq_view_entries [OF assms] unfolding sq_view_def
  by (auto intro!: dist_chain3 dist_chain)

lemma sq_view_room:
  "sq_view sq mem \<Longrightarrow> \<not> squeue_is_full sq \<longleftrightarrow> 0 < sq_room sq"
  using sq_view_dist(1) [of sq mem] by (auto simp: sq_view_def sq_room_def squeue_is_full_iff)

lemma squeue_push_unchecked_law:
  assumes v: "sq_view sq mem" and r: "0 < sq_room sq"
  obtains sq' mem' where "squeue_push_unchecked e sq mem = Inr (sq', mem')" "sq_view sq' mem'"
    "sq_unconsumed sq' mem' = sq_unconsumed sq mem @ [e]" "sq_room sq' = sq_room sq - 1"
    "sq_queue sq' = sq_queue sq" "sq_head sq' = sq_head sq" "sq_tail sq' = sq_tail sq + 1"
    "rm_state mem' = rm_state mem" "rm_cqes mem' = rm_cqes mem"
proof -
  let ?H = "st_sq_head (rm_state mem)" and ?m = "sqi_ring_mask (sq_queue sq)"
  let ?mem = "mem\<lparr>rm_sqes := (rm_sqes mem)[ring_index ?m (sq_tail sq) := e]\<rparr>"
  let ?sq = "sq\<lparr>sq_tail := sq_tail sq + 1\<rparr>"
  note g = sq_view_geom [OF v] and n = sq_view_entries [OF v] and d = sq_view_dist [OF v]
  from r have lt: "dist (sq_head sq) (sq_tail sq) < unat (sqi_ring_entries (sq_queue sq))"
    by (simp add: sq_room_def)
  with d n have s: "dist (sq_head sq) (sq_tail sq + 1) = dist (sq_head sq) (sq_tail sq) + 1"
    "dist ?H (sq_tail sq + 1) = Suc (dist ?H (sq_tail sq))"
    "dist (st_sq_tail (rm_state mem)) (sq_tail sq + 1) =
       Suc (dist (st_sq_tail (rm_state mem)) (sq_tail sq))"
    by (simp_all add: dist_Suc_right)
  have "sq_view ?sq ?mem" using v lt s d by (simp add: sq_view_def)
  moreover have "sq_unconsumed ?sq ?mem = sq_unconsumed sq mem @ [e]"
  proof -
    have "dist ?H (sq_tail sq) < length (rm_sqes mem)" using lt d n by linarith
    from ring_slice_put [OF g this, of ?H e] s(2) show ?thesis by (simp add: sq_unconsumed_def)
  qed
  moreover have "squeue_push_unchecked e sq mem = Inr (?sq, ?mem)"
    using ring_index_less [OF g] by (simp add: squeue_push_unchecked_def)
  ultimately show ?thesis using s by (intro that [of ?sq ?mem]) (simp_all add: sq_room_def)
qed

lemma squeue_push_law:
  assumes "sq_view sq mem"
  shows "\<exists>sq' mem'. squeue_push e sq mem =
             Inr (if 0 < sq_room sq then Inr () else Inl PushError, sq', mem')
           \<and> sq_view sq' mem'
           \<and> sq_unconsumed sq' mem' = sq_unconsumed sq mem @ (if 0 < sq_room sq then [e] else [])
           \<and> sq_room sq' = sq_room sq - 1
           \<and> rm_state mem' = rm_state mem \<and> rm_cqes mem' = rm_cqes mem"
proof (cases "0 < sq_room sq")
  case True
  with assms obtain sq' mem' where "squeue_push_unchecked e sq mem = Inr (sq', mem')"
    "sq_view sq' mem'" "sq_unconsumed sq' mem' = sq_unconsumed sq mem @ [e]"
    "sq_room sq' = sq_room sq - 1" "rm_state mem' = rm_state mem" "rm_cqes mem' = rm_cqes mem"
    by (rule squeue_push_unchecked_law)
  with True sq_view_room [OF assms] show ?thesis by (auto simp: squeue_push_def)
next
  case False
  with assms sq_view_room [OF assms] show ?thesis by (auto simp: squeue_push_def)
qed

interpretation sqp: bounded_producer "\<lambda>(sq, mem). sq_view sq mem"
  "\<lambda>(sq, mem). sq_unconsumed sq mem" "\<lambda>(sq, mem). sq_room sq" sq_put
proof unfold_locales
  fix q :: "SubmissionQueue \<times> ('a, 'b) RingMemory" and e :: 'a
  obtain sq mem where q: "q = (sq, mem)" by (cases q)
  assume "case q of (sq, mem) \<Rightarrow> sq_view sq mem"
  with q have "sq_view sq mem" by simp
  from squeue_push_law [OF this, of e] q
  show "\<exists>q'. sq_put e q = Inr q' \<and> (case q' of (sq, mem) \<Rightarrow> sq_view sq mem)
      \<and> (case q' of (sq, mem) \<Rightarrow> sq_unconsumed sq mem) =
          (if 0 < (case q of (sq, mem) \<Rightarrow> sq_room sq)
           then (case q of (sq, mem) \<Rightarrow> sq_unconsumed sq mem) @ [e]
           else (case q of (sq, mem) \<Rightarrow> sq_unconsumed sq mem))
      \<and> (case q' of (sq, mem) \<Rightarrow> sq_room sq) = (case q of (sq, mem) \<Rightarrow> sq_room sq) - 1"
    by (auto simp: sq_put_def)
qed

lemma squeue_push_each_law:
  "sq_view sq mem \<Longrightarrow> length es \<le> sq_room sq \<Longrightarrow>
     \<exists>sq' mem'. squeue_push_each es sq mem = Inr (sq', mem') \<and> sq_view sq' mem'
       \<and> sq_unconsumed sq' mem' = sq_unconsumed sq mem @ es
       \<and> sq_room sq' = sq_room sq - length es
       \<and> rm_state mem' = rm_state mem \<and> rm_cqes mem' = rm_cqes mem"
proof (induction es arbitrary: sq mem)
  case (Cons e es)
  from Cons.prems have "0 < sq_room sq" by simp
  with Cons.prems obtain sq1 mem1 where 1: "squeue_push_unchecked e sq mem = Inr (sq1, mem1)"
    "sq_view sq1 mem1" "sq_unconsumed sq1 mem1 = sq_unconsumed sq mem @ [e]"
    "sq_room sq1 = sq_room sq - 1" "rm_state mem1 = rm_state mem" "rm_cqes mem1 = rm_cqes mem"
    by (blast elim: squeue_push_unchecked_law)
  moreover from Cons.IH [OF 1(2)] 1(4) Cons.prems obtain sq2 mem2
    where "squeue_push_each es sq1 mem1 = Inr (sq2, mem2)" "sq_view sq2 mem2"
      "sq_unconsumed sq2 mem2 = sq_unconsumed sq1 mem1 @ es"
      "sq_room sq2 = sq_room sq1 - length es" "rm_state mem2 = rm_state mem1"
      "rm_cqes mem2 = rm_cqes mem1"
    by fastforce
  ultimately show ?case by simp
qed simp

lemma squeue_push_multiple_law:
  assumes v: "sq_view sq mem"
  shows "\<exists>sq' mem'. squeue_push_multiple es sq mem =
             Inr (if length es \<le> sq_room sq then Inr () else Inl PushError, sq', mem')
           \<and> sq_view sq' mem'
           \<and> (if length es \<le> sq_room sq
              then sq_unconsumed sq' mem' = sq_unconsumed sq mem @ es
                \<and> sq_room sq' = sq_room sq - length es
              else sq' = sq \<and> mem' = mem)
           \<and> rm_state mem' = rm_state mem \<and> rm_cqes mem' = rm_cqes mem"
proof -
  have le: "squeue_len sq \<le> squeue_capacity sq"
    using sq_view_dist(1) [OF v] v by (simp add: word_le_nat_alt sq_view_def)
  then have sub: "rust_sub (squeue_capacity sq) (squeue_len sq)
      = Inr (squeue_capacity sq - squeue_len sq)"
    by (simp add: rust_sub_def checked_sub_def)
  have room: "unat (squeue_capacity sq - squeue_len sq) = sq_room sq"
    using le by (simp add: unat_sub sq_room_def)
  show ?thesis
    using squeue_push_each_law [OF v, of es] v sub room
    by (cases "length es \<le> sq_room sq") (auto simp: squeue_push_multiple_def not_le)
qed

text \<open>A push changes neither the geometry behind the handle nor the size of the array.\<close>

lemma squeue_push_unchecked_queue:
  "squeue_push_unchecked e sq mem = Inr (sq', mem') \<Longrightarrow>
     sq_queue sq' = sq_queue sq \<and> length (rm_sqes mem') = length (rm_sqes mem)"
  by (auto simp: squeue_push_unchecked_def Let_def split: if_splits)

lemma squeue_push_queue:
  "squeue_push e sq mem = Inr (r, sq', mem') \<Longrightarrow>
     sq_queue sq' = sq_queue sq \<and> length (rm_sqes mem') = length (rm_sqes mem)"
  by (auto simp: squeue_push_def and_then_eq_Inr dest: squeue_push_unchecked_queue split: if_splits)

lemma squeue_push_each_queue:
  "squeue_push_each es sq mem = Inr (sq', mem') \<Longrightarrow>
     sq_queue sq' = sq_queue sq \<and> length (rm_sqes mem') = length (rm_sqes mem)"
  by (induction es sq mem rule: squeue_push_each.induct)
    (auto simp: and_then_eq_Inr dest: squeue_push_unchecked_queue)

lemma squeue_push_multiple_queue:
  "squeue_push_multiple es sq mem = Inr (r, sq', mem') \<Longrightarrow>
     sq_queue sq' = sq_queue sq \<and> length (rm_sqes mem') = length (rm_sqes mem)"
  by (auto simp: squeue_push_multiple_def and_then_eq_Inr dest: squeue_push_each_queue split: if_splits)

lemma squeue_sync_law:
  assumes "sq_view sq mem"
  defines "q \<equiv> squeue_sync sq mem"
  shows "sq_view (fst q) (snd q)" "sq_unconsumed (fst q) (snd q) = sq_unconsumed sq mem"
    "st_sq_tail (rm_state (snd q)) = sq_tail sq"
    "sq_room (fst q) = unat (sqi_ring_entries (sq_queue sq)) - length (sq_unconsumed sq mem)"
  using assms(1) sq_view_dist [OF assms(1)]
  by (simp_all add: q_def squeue_sync_def sq_view_def sq_unconsumed_def Let_def sq_room_def)

lemma squeue_drop_law:
  assumes "sq_view sq mem"
  shows "sq_view (squeue_borrow (sq_queue sq) (squeue_drop sq mem)) (squeue_drop sq mem)"
    and "sq_unconsumed (squeue_borrow (sq_queue sq) (squeue_drop sq mem)) (squeue_drop sq mem)
         = sq_unconsumed sq mem"
  using assms sq_view_dist [OF assms]
  by (simp_all add: squeue_drop_def squeue_borrow_def squeue_borrow_shared_def unsync_load_def
      sq_view_def sq_unconsumed_def)

lemma squeue_debug_loop_law:
  "ring_geom (sqi_ring_entries (sq_queue sq)) (sqi_ring_mask (sq_queue sq)) (length (rm_sqes mem))
   \<Longrightarrow> squeue_debug_loop pos sq mem =
     Inr (ring_slice (rm_sqes mem) (sqi_ring_mask (sq_queue sq)) pos (dist pos (sq_tail sq)))"
proof (induction "dist pos (sq_tail sq)" arbitrary: pos)
  case 0
  then show ?case by (simp add: squeue_debug_loop.simps)
next
  case (Suc n)
  then have ne: "pos \<noteq> sq_tail sq" by auto
  with Suc have n: "n = dist (pos + 1) (sq_tail sq)" by (simp add: dist_Suc_left)
  have "dist pos (sq_tail sq) = Suc n" using Suc by simp
  with ne n Suc.hyps(1) [OF n Suc.prems] ring_index_less [OF Suc.prems, of pos] show ?case
    by (simp add: squeue_debug_loop.simps [of pos] ring_slice_Suc)
qed

lemma sq_view_borrow:
  "ring_geom (sqi_ring_entries inner) (sqi_ring_mask inner) (length (rm_sqes mem)) \<Longrightarrow>
   dist (st_sq_head (rm_state mem)) (st_sq_tail (rm_state mem)) \<le> unat (sqi_ring_entries inner) \<Longrightarrow>
   sq_view (squeue_borrow inner mem) mem"
  by (simp add: sq_view_def squeue_borrow_def squeue_borrow_shared_def unsync_load_def)

end
