(* ===== verification/Miring_Cqueue.thy ===== *)
theory Miring_Cqueue
  imports Miring_State Miring_Queue_Spec
begin

text \<open>
  The completion queue, \<^verbatim>\<open>src/cqueue.rs\<close>: the entry types, the application's
  handle \<open>CompletionQueue\<close> with its cached positions, and every operation on it.
  \<open>cq_view\<close> ties the cached positions to the shared ones (shared head, cached head, cached
  tail, shared tail, in this order round the ring), \<open>cq_ready\<close> is the list of completions
  the handle can still pop.  The lemmas show that \<open>next\<close> and \<open>fill\<close> take that list
  from the front, that nothing here reads outside the array, and that dropping the handle
  publishes exactly what was popped.
\<close>

section \<open>Entries\<close>

datatype cq_Entry = cq_Entry (cq_entry_cqe: io_uring_cqe)

datatype cq_Entry32 = cq_Entry32 (cq_entry32_base: cq_Entry) (cq_entry32_big: "u64 list")

definition cq_Entry_result :: "cq_Entry \<Rightarrow> i32" where
  "cq_Entry_result e = cqe_res (cq_entry_cqe e)"

definition cq_Entry_user_data :: "cq_Entry \<Rightarrow> u64" where
  "cq_Entry_user_data e = cqe_user_data (cq_entry_cqe e)"

definition cq_Entry_flags :: "cq_Entry \<Rightarrow> u32" where
  "cq_Entry_flags e = cqe_flags (cq_entry_cqe e)"

definition cq_Entry_clone :: "cq_Entry \<Rightarrow> cq_Entry" where
  "cq_Entry_clone e = cq_Entry (cq_entry_cqe e)"

definition cq_Entry32_result :: "cq_Entry32 \<Rightarrow> i32" where
  "cq_Entry32_result e = cqe_res (cq_entry_cqe (cq_entry32_base e))"

definition cq_Entry32_user_data :: "cq_Entry32 \<Rightarrow> u64" where
  "cq_Entry32_user_data e = cqe_user_data (cq_entry_cqe (cq_entry32_base e))"

definition cq_Entry32_flags :: "cq_Entry32 \<Rightarrow> u32" where
  "cq_Entry32_flags e = cqe_flags (cq_entry_cqe (cq_entry32_base e))"

definition cq_Entry32_big_cqe :: "cq_Entry32 \<Rightarrow> u64 list" where
  "cq_Entry32_big_cqe e = cq_entry32_big e"

definition cq_Entry_from_Entry32 :: "cq_Entry32 \<Rightarrow> cq_Entry" where
  "cq_Entry_from_Entry32 entry32 = cq_entry32_base entry32"

text \<open>
  \<open>trait EntryMarker\<close> with its two implementations, as a record of what the ring uses of
  the entry type: \<open>BUILD_FLAGS\<close>, \<open>Into<Entry>\<close>, \<open>size_of\<close>, the all-zero value, and
  the two raw writes of the type-erased \<open>post_cqe\<close>: the base fields into the first 16
  bytes, and zeros into the next 16, which a 16-byte entry does not have.
\<close>

record 'c cq_EntryMarker =
  cem_BUILD_FLAGS :: u32
  cem_into :: "'c \<Rightarrow> cq_Entry"
  cem_size :: nat
  cem_zeroed :: 'c
  cem_write_base :: "io_uring_cqe \<Rightarrow> 'c \<Rightarrow> 'c"
  cem_zero_extra :: "'c \<Rightarrow> 'c exec"

definition cq_Entry_marker :: "cq_Entry cq_EntryMarker" where
  "cq_Entry_marker = \<lparr>cem_BUILD_FLAGS = 0, cem_into = (\<lambda>e. e), cem_size = 16,
     cem_zeroed = cq_Entry io_uring_cqe_default, cem_write_base = (\<lambda>cqe e. cq_Entry cqe),
     cem_zero_extra = (\<lambda>e. Inl (UndefinedBehavior UB_out_of_bounds))\<rparr>"

definition cq_Entry32_marker :: "cq_Entry32 cq_EntryMarker" where
  "cq_Entry32_marker = \<lparr>cem_BUILD_FLAGS = IORING_SETUP_CQE32, cem_into = cq_Entry_from_Entry32,
     cem_size = 32, cem_zeroed = cq_Entry32 (cq_Entry io_uring_cqe_default) [0, 0],
     cem_write_base = (\<lambda>cqe e. cq_Entry32 (cq_Entry cqe) (cq_entry32_big e)),
     cem_zero_extra = (\<lambda>e. Inr (cq_Entry32 (cq_entry32_base e) [0, 0]))\<rparr>"

text \<open>The decoders of a completion's flags.\<close>

definition cq_buffer_more :: "u32 \<Rightarrow> bool" where
  "cq_buffer_more flags \<longleftrightarrow> flags AND IORING_CQE_F_BUF_MORE \<noteq> 0"

definition cq_buffer_select :: "u32 \<Rightarrow> u16 option" where
  "cq_buffer_select flags =
     (if flags AND IORING_CQE_F_BUFFER \<noteq> 0
      then let id = drop_bit (unat IORING_CQE_BUFFER_SHIFT) flags in Some (ucast id)
      else None)"

definition cq_more :: "u32 \<Rightarrow> bool" where
  "cq_more flags \<longleftrightarrow> flags AND IORING_CQE_F_MORE \<noteq> 0"

definition cq_sock_nonempty :: "u32 \<Rightarrow> bool" where
  "cq_sock_nonempty flags \<longleftrightarrow> flags AND IORING_CQE_F_SOCK_NONEMPTY \<noteq> 0"

definition cq_notif :: "u32 \<Rightarrow> bool" where
  "cq_notif flags \<longleftrightarrow> flags AND IORING_CQE_F_NOTIF \<noteq> 0"

section \<open>The queue handle\<close>

record cq_Inner =
  cqi_ring_mask :: u32
  cqi_ring_entries :: u32

record CompletionQueue =
  cq_head :: u32
  cq_tail :: u32
  cq_queue :: cq_Inner

definition cqueue_borrow_shared :: "cq_Inner \<Rightarrow> ('s, 'c) RingMemory \<Rightarrow> CompletionQueue" where
  "cqueue_borrow_shared inner mem = \<lparr>cq_head = unsync_load (st_cq_head (rm_state mem)),
     cq_tail = st_cq_tail (rm_state mem), cq_queue = inner\<rparr>"

definition cqueue_borrow :: "cq_Inner \<Rightarrow> ('s, 'c) RingMemory \<Rightarrow> CompletionQueue" where
  "cqueue_borrow inner mem = cqueue_borrow_shared inner mem"

definition cqueue_sync ::
  "CompletionQueue \<Rightarrow> ('s, 'c) RingMemory \<Rightarrow> CompletionQueue \<times> ('s, 'c) RingMemory" where
  "cqueue_sync cq mem = (let mem' = upd_state (\<lambda>st. st\<lparr>st_cq_head := cq_head cq\<rparr>) mem in
     (cq\<lparr>cq_tail := st_cq_tail (rm_state mem')\<rparr>, mem'))"

definition cqueue_overflow :: "('s, 'c) RingMemory \<Rightarrow> u32" where
  "cqueue_overflow mem = st_cq_overflow (rm_state mem)"

definition cqueue_eventfd_disabled :: "('s, 'c) RingMemory \<Rightarrow> bool" where
  "cqueue_eventfd_disabled mem \<longleftrightarrow> st_cq_flags (rm_state mem) AND IORING_CQ_EVENTFD_DISABLED \<noteq> 0"

definition cqueue_capacity :: "CompletionQueue \<Rightarrow> usize" where
  "cqueue_capacity cq = ucast (cqi_ring_entries (cq_queue cq))"

definition cqueue_len :: "CompletionQueue \<Rightarrow> usize" where
  "cqueue_len cq = ucast (cq_tail cq - cq_head cq)"

definition cqueue_size_hint :: "CompletionQueue \<Rightarrow> usize \<times> usize option" where
  "cqueue_size_hint cq = (cqueue_len cq, Some (cqueue_len cq))"

definition cqueue_is_empty :: "CompletionQueue \<Rightarrow> bool" where
  "cqueue_is_empty cq \<longleftrightarrow> cqueue_len cq = 0"

definition cqueue_is_full :: "CompletionQueue \<Rightarrow> bool" where
  "cqueue_is_full cq \<longleftrightarrow> cqueue_len cq = cqueue_capacity cq"

text \<open>The reference \<open>&*cqes.add(i)\<close> is undefined behaviour outside the array.\<close>

definition cqueue_pop ::
  "CompletionQueue \<Rightarrow> ('s, 'c) RingMemory \<Rightarrow> ('c \<times> CompletionQueue) exec" where
  "cqueue_pop cq mem =
     (let i = ring_index (cqi_ring_mask (cq_queue cq)) (cq_head cq) in
      if i < length (rm_cqes mem) then Inr (rm_cqes mem ! i, cq\<lparr>cq_head := cq_head cq + 1\<rparr>)
      else Inl (UndefinedBehavior UB_out_of_bounds))"

definition cqueue_next ::
  "CompletionQueue \<Rightarrow> ('s, 'c) RingMemory \<Rightarrow> ('c option \<times> CompletionQueue) exec" where
  "cqueue_next cq mem =
     (if cq_head cq \<noteq> cq_tail cq
      then and_then (cqueue_pop cq mem) (\<lambda>(e, cq'). Inr (Some e, cq'))
      else Inr (None, cq))"

text \<open>
  \<open>fill\<close> into a slice of \<open>n\<close> slots: the loop over \<open>entries[..len]\<close>, and the list of
  entries in the slice it returns.
\<close>

fun cqueue_pop_each ::
  "nat \<Rightarrow> CompletionQueue \<Rightarrow> ('s, 'c) RingMemory \<Rightarrow> ('c list \<times> CompletionQueue) exec"
where
  "cqueue_pop_each 0 cq mem = Inr ([], cq)"
| "cqueue_pop_each (Suc n) cq mem = and_then (cqueue_pop cq mem) (\<lambda>(e, cq').
     and_then (cqueue_pop_each n cq' mem) (\<lambda>(es, cq''). Inr (e # es, cq'')))"

definition cqueue_fill ::
  "nat \<Rightarrow> CompletionQueue \<Rightarrow> ('s, 'c) RingMemory \<Rightarrow> ('c list \<times> CompletionQueue) exec" where
  "cqueue_fill n cq mem = cqueue_pop_each (min (unat (cqueue_len cq)) n) cq mem"

definition cqueue_drop :: "CompletionQueue \<Rightarrow> ('s, 'c) RingMemory \<Rightarrow> ('s, 'c) RingMemory" where
  "cqueue_drop cq mem = upd_state (\<lambda>st. st\<lparr>st_cq_head := cq_head cq\<rparr>) mem"

section \<open>The view of the handle\<close>

definition cq_view :: "CompletionQueue \<Rightarrow> ('s, 'c) RingMemory \<Rightarrow> bool" where
  "cq_view cq mem \<longleftrightarrow>
     ring_geom (cqi_ring_entries (cq_queue cq)) (cqi_ring_mask (cq_queue cq)) (length (rm_cqes mem))
     \<and> dist (st_cq_head (rm_state mem)) (cq_head cq) + dist (cq_head cq) (cq_tail cq)
         + dist (cq_tail cq) (st_cq_tail (rm_state mem))
       \<le> unat (cqi_ring_entries (cq_queue cq))"

definition cq_ready :: "CompletionQueue \<Rightarrow> ('s, 'c) RingMemory \<Rightarrow> 'c list" where
  "cq_ready cq mem = ring_slice (rm_cqes mem) (cqi_ring_mask (cq_queue cq))
     (cq_head cq) (dist (cq_head cq) (cq_tail cq))"

text \<open>Everything posted that the handle has not popped, also what it has not seen yet.\<close>

definition cq_unread :: "CompletionQueue \<Rightarrow> ('s, 'c) RingMemory \<Rightarrow> 'c list" where
  "cq_unread cq mem = ring_slice (rm_cqes mem) (cqi_ring_mask (cq_queue cq))
     (cq_head cq) (dist (cq_head cq) (st_cq_tail (rm_state mem)))"

text \<open>\<open>next\<close> as the consumer's end of the ring.\<close>

definition cq_get ::
  "CompletionQueue \<times> ('s, 'c) RingMemory \<Rightarrow>
     ('c \<times> CompletionQueue \<times> ('s, 'c) RingMemory) option exec"
where
  "cq_get = (\<lambda>(cq, mem). and_then (cqueue_next cq mem) (\<lambda>(r, cq').
     Inr (case r of None \<Rightarrow> None | Some e \<Rightarrow> Some (e, cq', mem))))"

section \<open>Lemmas\<close>

lemma unat_cqueue_len [simp]: "unat (cqueue_len cq) = dist (cq_head cq) (cq_tail cq)"
  by (simp add: cqueue_len_def dist_def)

lemma unat_cqueue_capacity [simp]:
  "unat (cqueue_capacity cq) = unat (cqi_ring_entries (cq_queue cq))"
  by (simp add: cqueue_capacity_def)

lemma cq_view_geom:
  "cq_view cq mem \<Longrightarrow> ring_geom (cqi_ring_entries (cq_queue cq)) (cqi_ring_mask (cq_queue cq))
     (length (rm_cqes mem))"
  by (simp add: cq_view_def)

lemma cq_view_entries:
  "cq_view cq mem \<Longrightarrow> length (rm_cqes mem) = unat (cqi_ring_entries (cq_queue cq))
     \<and> unat (cqi_ring_entries (cq_queue cq)) \<le> 2 ^ 31"
  using ring_geom_entries cq_view_geom by fastforce

lemma length_cq_ready [simp]: "length (cq_ready cq mem) = unat (cqueue_len cq)"
  by (simp add: cq_ready_def)

lemma cq_view_dist:
  assumes "cq_view cq mem"
  shows "dist (st_cq_head (rm_state mem)) (st_cq_tail (rm_state mem)) =
           dist (st_cq_head (rm_state mem)) (cq_head cq) + dist (cq_head cq) (cq_tail cq)
           + dist (cq_tail cq) (st_cq_tail (rm_state mem))"
    and "dist (cq_head cq) (st_cq_tail (rm_state mem)) =
           dist (cq_head cq) (cq_tail cq) + dist (cq_tail cq) (st_cq_tail (rm_state mem))"
  using assms cq_view_entries [OF assms] unfolding cq_view_def
  by (auto intro!: dist_chain3 dist_chain)

lemma cq_unread_ready:
  "cq_view cq mem \<Longrightarrow> cq_unread cq mem = cq_ready cq mem @
     ring_slice (rm_cqes mem) (cqi_ring_mask (cq_queue cq)) (cq_tail cq)
       (dist (cq_tail cq) (st_cq_tail (rm_state mem)))"
  using ring_slice_append [of "rm_cqes mem" "cqi_ring_mask (cq_queue cq)" "cq_head cq"
      "dist (cq_head cq) (cq_tail cq)"]
  by (simp add: cq_unread_def cq_ready_def cq_view_dist(2))

lemma cqueue_pop_law:
  assumes v: "cq_view cq mem" and r: "cq_ready cq mem = e # es"
  obtains cq' where "cqueue_pop cq mem = Inr (e, cq')" "cq_view cq' mem" "cq_ready cq' mem = es"
    "cq_queue cq' = cq_queue cq" "cq_head cq' = cq_head cq + 1" "cq_tail cq' = cq_tail cq"
proof -
  let ?cq = "cq\<lparr>cq_head := cq_head cq + 1\<rparr>"
  from r have ne: "cq_head cq \<noteq> cq_tail cq" by (auto simp: cq_ready_def)
  then have l: "dist (cq_head cq + 1) (cq_tail cq) = dist (cq_head cq) (cq_tail cq) - 1"
    and p: "0 < dist (cq_head cq) (cq_tail cq)"
    by (auto simp: dist_Suc_left simp flip: neq0_conv)
  then obtain n where n: "dist (cq_head cq) (cq_tail cq) = Suc n" using gr0_implies_Suc by blast
  have "dist (st_cq_head (rm_state mem)) (cq_head cq + 1) =
      dist (st_cq_head (rm_state mem)) (cq_head cq) + 1"
    using v cq_view_entries [OF v] p by (intro dist_Suc_right) (simp add: cq_view_def)
  with v l p have "cq_view ?cq mem" by (simp add: cq_view_def)
  moreover have "cqueue_pop cq mem = Inr (e, ?cq)" "cq_ready ?cq mem = es"
    using r l n ring_index_less [OF cq_view_geom [OF v]]
    by (simp_all add: cq_ready_def cqueue_pop_def ring_slice_Suc)
  ultimately show ?thesis by (intro that [of ?cq]) simp_all
qed

lemma cqueue_next_empty: "cq_ready cq mem = [] \<Longrightarrow> cqueue_next cq mem = Inr (None, cq)"
proof -
  assume "cq_ready cq mem = []"
  then have "length (cq_ready cq mem) = 0" by (simp only: list.size)
  then show ?thesis by (simp add: cqueue_next_def)
qed

lemma cqueue_next_front:
  assumes v: "cq_view cq mem" and r: "cq_ready cq mem = e # es"
  shows "\<exists>cq'. cqueue_next cq mem = Inr (Some e, cq') \<and> cq_view cq' mem \<and> cq_ready cq' mem = es"
proof -
  from r have "cq_head cq \<noteq> cq_tail cq" by (auto simp: cq_ready_def)
  with cqueue_pop_law [OF v r] show ?thesis unfolding cqueue_next_def
    by (metis (mono_tags, lifting) and_then_simps(2) case_prod_conv)
qed

lemma cq_get_front:
  "cq_view cq mem \<Longrightarrow> cq_ready cq mem = e # es \<Longrightarrow>
     \<exists>cq'. cq_get (cq, mem) = Inr (Some (e, cq', mem)) \<and> cq_view cq' mem \<and> cq_ready cq' mem = es"
  using cqueue_next_front [of cq mem e es] by (auto simp: cq_get_def)

interpretation cqc: fifo_consumer "\<lambda>(cq, mem). cq_view cq mem" "\<lambda>(cq, mem). cq_ready cq mem" cq_get
  by unfold_locales
    (auto simp: cq_get_def cqueue_next_empty, fastforce dest: cq_get_front simp: cq_get_def)

lemma cqueue_pop_each_law:
  "cq_view cq mem \<Longrightarrow> n \<le> length (cq_ready cq mem) \<Longrightarrow>
     \<exists>cq'. cqueue_pop_each n cq mem = Inr (take n (cq_ready cq mem), cq') \<and> cq_view cq' mem
       \<and> cq_ready cq' mem = drop n (cq_ready cq mem)
       \<and> cq_queue cq' = cq_queue cq \<and> cq_tail cq' = cq_tail cq"
proof (induction n arbitrary: cq)
  case (Suc n)
  then obtain e es where r: "cq_ready cq mem = e # es" by (cases "cq_ready cq mem") auto
  with Suc.prems(1) obtain cq1 where 1: "cqueue_pop cq mem = Inr (e, cq1)" "cq_view cq1 mem"
    "cq_ready cq1 mem = es" "cq_queue cq1 = cq_queue cq" "cq_tail cq1 = cq_tail cq"
    by (rule cqueue_pop_law)
  moreover have "n \<le> length (cq_ready cq1 mem)"
    using Suc.prems(2) unfolding 1(3) r by simp
  from Suc.IH [OF 1(2) this] obtain cq2
    where "cqueue_pop_each n cq1 mem = Inr (take n (cq_ready cq1 mem), cq2)" "cq_view cq2 mem"
      "cq_ready cq2 mem = drop n (cq_ready cq1 mem)" "cq_queue cq2 = cq_queue cq1"
      "cq_tail cq2 = cq_tail cq1"
    by blast
  ultimately show ?case using r by simp
qed simp

lemma cqueue_fill_law:
  assumes "cq_view cq mem"
  shows "\<exists>cq'. cqueue_fill n cq mem = Inr (take n (cq_ready cq mem), cq') \<and> cq_view cq' mem
           \<and> cq_ready cq' mem = drop n (cq_ready cq mem)"
proof -
  let ?k = "min (length (cq_ready cq mem)) n"
  have "take ?k (cq_ready cq mem) = take n (cq_ready cq mem)"
    "drop ?k (cq_ready cq mem) = drop n (cq_ready cq mem)"
    by (cases "n \<le> length (cq_ready cq mem)"; simp add: min_def del: length_cq_ready)+
  with cqueue_pop_each_law [OF assms, of ?k] show ?thesis
    by (metis cqueue_fill_def length_cq_ready min.cobounded1)
qed

lemma cqueue_sync_law:
  assumes "cq_view cq mem"
  defines "q \<equiv> cqueue_sync cq mem"
  shows "cq_view (fst q) (snd q)" "cq_ready (fst q) (snd q) = cq_unread cq mem"
    "st_cq_head (rm_state (snd q)) = cq_head cq"
  using assms(1) cq_view_dist [OF assms(1)]
  by (simp_all add: q_def cqueue_sync_def cq_view_def cq_unread_def cq_ready_def Let_def)

lemma cqueue_drop_law:
  assumes "cq_view cq mem"
  shows "cq_view (cqueue_borrow (cq_queue cq) (cqueue_drop cq mem)) (cqueue_drop cq mem)"
    and "cq_ready (cqueue_borrow (cq_queue cq) (cqueue_drop cq mem)) (cqueue_drop cq mem)
         = cq_unread cq mem"
  using assms cq_view_dist [OF assms]
  by (simp_all add: cqueue_drop_def cqueue_borrow_def cqueue_borrow_shared_def unsync_load_def
      cq_view_def cq_unread_def cq_ready_def)

lemma cq_view_borrow:
  "ring_geom (cqi_ring_entries inner) (cqi_ring_mask inner) (length (rm_cqes mem)) \<Longrightarrow>
   dist (st_cq_head (rm_state mem)) (st_cq_tail (rm_state mem)) \<le> unat (cqi_ring_entries inner) \<Longrightarrow>
   cq_view (cqueue_borrow inner mem) mem"
  by (simp add: cq_view_def cqueue_borrow_def cqueue_borrow_shared_def unsync_load_def)

text \<open>The buffer id that \<open>buffer_select\<close> decodes is the one the kernel's encoding puts there.\<close>

definition cqe_buffer_flags :: "u16 \<Rightarrow> u32" where
  "cqe_buffer_flags bid = push_bit (unat IORING_CQE_BUFFER_SHIFT) (ucast bid) OR IORING_CQE_F_BUFFER"

lemma cq_buffer_select_flags: "cq_buffer_select (cqe_buffer_flags bid OR cqe_F) = Some bid"
  if "cqe_F AND push_bit 16 (mask 16) = 0" for cqe_F :: u32
proof -
  have b: "\<not> bit cqe_F (16 + n)" if "n < 16" for n
  proof -
    have "\<not> bit (cqe_F AND push_bit 16 (mask 16)) (16 + n)"
      using \<open>cqe_F AND push_bit 16 (mask 16) = 0\<close> by simp
    with that show ?thesis by (simp add: bit_simps)
  qed
  have "(cqe_buffer_flags bid OR cqe_F) AND IORING_CQE_F_BUFFER \<noteq> 0"
  proof -
    have "bit ((cqe_buffer_flags bid OR cqe_F) AND IORING_CQE_F_BUFFER) 0"
      by (simp add: cqe_buffer_flags_def sys_consts bit_simps)
    then show ?thesis by fastforce
  qed
  moreover have "ucast (drop_bit (unat IORING_CQE_BUFFER_SHIFT) (cqe_buffer_flags bid OR cqe_F)) = bid"
    by (rule bit_eqI) (auto simp: cqe_buffer_flags_def sys_consts bit_simps b)
  ultimately show ?thesis by (simp add: cq_buffer_select_def)
qed

end
