(* ===== verification/Miring_Register.thy ===== *)
theory Miring_Register
  imports Miring_Sys
begin

text \<open>
  \<^verbatim>\<open>src/register.rs\<close>: the table of supported opcodes that
  \<open>Submitter::register_probe\<close> fills, and the restriction entries.  The lemmas say what
  \<open>is_supported\<close> answers after the table has been written.
\<close>

definition Probe_COUNT :: nat where
  "Probe_COUNT = 64"

datatype Probe = Probe (supported: "bool list")

definition Probe_new :: Probe where
  "Probe_new = Probe (replicate Probe_COUNT False)"

definition Probe_default :: Probe where
  "Probe_default = Probe_new"

definition Probe_is_supported :: "Probe \<Rightarrow> u8 \<Rightarrow> bool" where
  "Probe_is_supported p opcode =
     (if unat opcode < length (supported p) then supported p ! unat opcode else False)"

definition Probe_set_supported :: "Probe \<Rightarrow> u8 \<Rightarrow> Probe" where
  "Probe_set_supported p opcode =
     (if unat opcode < Probe_COUNT then Probe ((supported p)[unat opcode := True]) else p)"

text \<open>The loop \<open>for i in 0..=last.min(COUNT - 1)\<close>.\<close>

definition Probe_set_supported_range :: "Probe \<Rightarrow> u8 \<Rightarrow> Probe" where
  "Probe_set_supported_range p last_op =
     Probe (fold (\<lambda>i s. s[i := True]) [0..<Suc (min (unat last_op) (Probe_COUNT - 1))] (supported p))"

datatype Restriction = Restriction (restriction: io_uring_restriction)

definition Restriction_register_op :: "u8 \<Rightarrow> Restriction" where
  "Restriction_register_op oper = Restriction \<lparr>rst_opcode = 0, rst_register_op = oper, rst_sqe_op = 0,
     rst_sqe_flags = 0, rst_resv = 0, rst_resv2 = [0, 0, 0]\<rparr>"

definition Restriction_sqe_op :: "u8 \<Rightarrow> Restriction" where
  "Restriction_sqe_op oper = Restriction \<lparr>rst_opcode = 1, rst_register_op = 0, rst_sqe_op = oper,
     rst_sqe_flags = 0, rst_resv = 0, rst_resv2 = [0, 0, 0]\<rparr>"

definition Restriction_sqe_flags_allowed :: "u8 \<Rightarrow> Restriction" where
  "Restriction_sqe_flags_allowed flags = Restriction \<lparr>rst_opcode = 2, rst_register_op = 0,
     rst_sqe_op = 0, rst_sqe_flags = flags, rst_resv = 0, rst_resv2 = [0, 0, 0]\<rparr>"

definition Restriction_sqe_flags_required :: "u8 \<Rightarrow> Restriction" where
  "Restriction_sqe_flags_required flags = Restriction \<lparr>rst_opcode = 3, rst_register_op = 0,
     rst_sqe_op = 0, rst_sqe_flags = flags, rst_resv = 0, rst_resv2 = [0, 0, 0]\<rparr>"

section \<open>Lemmas\<close>

definition probe_wf :: "Probe \<Rightarrow> bool" where
  "probe_wf p \<longleftrightarrow> length (supported p) = Probe_COUNT"

lemma probe_wf_new [simp]: "probe_wf Probe_new"
  by (simp add: probe_wf_def Probe_new_def)

lemma probe_wf_set [simp]: "probe_wf p \<Longrightarrow> probe_wf (Probe_set_supported p opc)"
  by (simp add: probe_wf_def Probe_set_supported_def)

lemma is_supported_new [simp]: "\<not> Probe_is_supported Probe_new opc"
  by (simp add: Probe_is_supported_def Probe_new_def)

lemma is_supported_set:
  "probe_wf p \<Longrightarrow> Probe_is_supported (Probe_set_supported p a) b \<longleftrightarrow>
     a = b \<and> unat b < Probe_COUNT \<or> Probe_is_supported p b"
  by (auto simp: Probe_is_supported_def Probe_set_supported_def probe_wf_def nth_list_update
      simp flip: word_unat_eq_iff)

lemma is_supported_fold:
  "probe_wf p \<Longrightarrow> Probe_is_supported (fold (\<lambda>opc p. Probe_set_supported p opc) ops p) b \<longleftrightarrow>
     b \<in> set ops \<and> unat b < Probe_COUNT \<or> Probe_is_supported p b"
  by (induction ops arbitrary: p) (auto simp: is_supported_set)

lemma nth_fold_set_True:
  "i < length s \<Longrightarrow> fold (\<lambda>i s. s[i := True]) is s ! i \<longleftrightarrow> i \<in> set is \<or> s ! i"
proof (induction "is" arbitrary: s)
  case (Cons a js)
  then show ?case by (cases "a = i") auto
qed simp

lemma length_fold_set_True [simp]: "length (fold (\<lambda>i s. s[i := True]) is s) = length s"
  by (induction "is" arbitrary: s) auto

lemma is_supported_range:
  "probe_wf p \<Longrightarrow> Probe_is_supported (Probe_set_supported_range p last_op) b \<longleftrightarrow>
     b \<le> last_op \<and> unat b < Probe_COUNT \<or> Probe_is_supported p b"
  by (auto simp: Probe_is_supported_def Probe_set_supported_range_def probe_wf_def Probe_COUNT_def
      nth_fold_set_True word_le_nat_alt simp del: upt_Suc)

end
