(* ===== verification/Miring_Types.thy ===== *)
theory Miring_Types
  imports Miring_Sys
begin

text \<open>
  \<^verbatim>\<open>src/types.rs\<close> without its message parser (see \<open>Miring_RecvMsg\<close>), and the
  helpers of \<^verbatim>\<open>src/util.rs\<close> it uses: file targets, flag sets, the wrappers of kernel
  structures with their setters, destination slots and cancellation criteria.  Lifetimes and
  \<open>PhantomData\<close> have no counterpart.
\<close>

section \<open>\<open>util.rs\<close>\<close>

text \<open>\<open>[][1]\<close> indexes an empty array: the constant evaluation panics.\<close>

definition unwrap_u32 :: "u32 option \<Rightarrow> u32 exec" where
  "unwrap_u32 t = (case t of Some v \<Rightarrow> Inr v | None \<Rightarrow> Inl (Panic Panic_index))"

definition unwrap_nonzero :: "u32 option \<Rightarrow> u32 exec" where
  "unwrap_nonzero t = (case t of Some v \<Rightarrow> Inr v | None \<Rightarrow> Inl (Panic Panic_index))"

text \<open>\<open>NonZeroU32::new\<close>: a non-zero value is that value.\<close>

definition NonZeroU32_new :: "u32 \<Rightarrow> u32 option" where
  "NonZeroU32_new n = (if n = 0 then None else Some n)"

section \<open>File targets\<close>

datatype Target = Target_Fd i32 | Target_Fixed u32

datatype Fd = Fd (fd_0: i32)

datatype Fixed = Fixed (fixed_0: u32)

definition UseFd_into :: "Fd \<Rightarrow> i32" where
  "UseFd_into fd = fd_0 fd"

definition UseFixed_into_Fd :: "Fd \<Rightarrow> Target" where
  "UseFixed_into_Fd fd = Target_Fd (fd_0 fd)"

definition UseFixed_into_Fixed :: "Fixed \<Rightarrow> Target" where
  "UseFixed_into_Fixed fd = Target_Fixed (fixed_0 fd)"

section \<open>Flag sets\<close>

definition TimeoutFlags_ABS :: u32 where "TimeoutFlags_ABS = IORING_TIMEOUT_ABS"
definition TimeoutFlags_BOOTTIME :: u32 where "TimeoutFlags_BOOTTIME = IORING_TIMEOUT_BOOTTIME"
definition TimeoutFlags_REALTIME :: u32 where "TimeoutFlags_REALTIME = IORING_TIMEOUT_REALTIME"
definition TimeoutFlags_LINK_TIMEOUT_UPDATE :: u32 where
  "TimeoutFlags_LINK_TIMEOUT_UPDATE = IORING_LINK_TIMEOUT_UPDATE"
definition TimeoutFlags_ETIME_SUCCESS :: u32 where
  "TimeoutFlags_ETIME_SUCCESS = IORING_TIMEOUT_ETIME_SUCCESS"
definition TimeoutFlags_MULTISHOT :: u32 where "TimeoutFlags_MULTISHOT = IORING_TIMEOUT_MULTISHOT"
definition FsyncFlags_DATASYNC :: u32 where "FsyncFlags_DATASYNC = IORING_FSYNC_DATASYNC"
definition AsyncCancelFlags_ALL :: u32 where "AsyncCancelFlags_ALL = IORING_ASYNC_CANCEL_ALL"
definition AsyncCancelFlags_FD :: u32 where "AsyncCancelFlags_FD = IORING_ASYNC_CANCEL_FD"
definition AsyncCancelFlags_ANY :: u32 where "AsyncCancelFlags_ANY = IORING_ASYNC_CANCEL_ANY"
definition AsyncCancelFlags_FD_FIXED :: u32 where
  "AsyncCancelFlags_FD_FIXED = IORING_ASYNC_CANCEL_FD_FIXED"

section \<open>Wrappers of kernel structures\<close>

datatype OpenHow = OpenHow (openhow_0: open_how)

definition OpenHow_new :: OpenHow where
  "OpenHow_new = OpenHow \<lparr>how_flags = 0, how_mode = 0, how_resolve = 0\<rparr>"

definition OpenHow_flags :: "OpenHow \<Rightarrow> u64 \<Rightarrow> OpenHow" where
  "OpenHow_flags h flags = OpenHow ((openhow_0 h)\<lparr>how_flags := flags\<rparr>)"

definition OpenHow_mode :: "OpenHow \<Rightarrow> u64 \<Rightarrow> OpenHow" where
  "OpenHow_mode h mode = OpenHow ((openhow_0 h)\<lparr>how_mode := mode\<rparr>)"

definition OpenHow_resolve :: "OpenHow \<Rightarrow> u64 \<Rightarrow> OpenHow" where
  "OpenHow_resolve h resolve = OpenHow ((openhow_0 h)\<lparr>how_resolve := resolve\<rparr>)"

datatype Timespec = Timespec (timespec_0: kernel_timespec)

definition Timespec_new :: Timespec where
  "Timespec_new = Timespec \<lparr>tv_sec = 0, tv_nsec = 0\<rparr>"

definition Timespec_sec :: "Timespec \<Rightarrow> u64 \<Rightarrow> Timespec" where
  "Timespec_sec t sec = Timespec ((timespec_0 t)\<lparr>tv_sec := sec\<rparr>)"

definition Timespec_nsec :: "Timespec \<Rightarrow> u32 \<Rightarrow> Timespec" where
  "Timespec_nsec t nsec = Timespec ((timespec_0 t)\<lparr>tv_nsec := ucast nsec\<rparr>)"

text \<open>A \<open>Duration\<close> is its seconds and its nanoseconds below one second.\<close>

record Duration =
  dur_secs :: u64
  dur_subsec_nanos :: u32

definition Timespec_from_Duration :: "Duration \<Rightarrow> Timespec" where
  "Timespec_from_Duration d = Timespec_nsec (Timespec_sec Timespec_new (dur_secs d)) (dur_subsec_nanos d)"

datatype SubmitArgs = SubmitArgs (submitargs_args: io_uring_getevents_arg)

definition SubmitArgs_new :: SubmitArgs where
  "SubmitArgs_new = SubmitArgs \<lparr>gea_sigmask = 0, gea_sigmask_sz = 0, gea_min_wait_usec = 0, gea_ts = 0\<rparr>"

definition SubmitArgs_min_wait_usec :: "SubmitArgs \<Rightarrow> u32 \<Rightarrow> SubmitArgs" where
  "SubmitArgs_min_wait_usec a min_wait_usec =
     SubmitArgs ((submitargs_args a)\<lparr>gea_min_wait_usec := min_wait_usec\<rparr>)"

text \<open>The argument is the address of the caller's \<open>Timespec\<close>.\<close>

definition SubmitArgs_timespec :: "SubmitArgs \<Rightarrow> u64 \<Rightarrow> SubmitArgs" where
  "SubmitArgs_timespec a timespec = SubmitArgs ((submitargs_args a)\<lparr>gea_ts := timespec\<rparr>)"

datatype BufRingEntry = BufRingEntry (bufringentry_0: io_uring_buf)

definition BufRingEntry_set_addr :: "BufRingEntry \<Rightarrow> u64 \<Rightarrow> BufRingEntry" where
  "BufRingEntry_set_addr e addr = BufRingEntry ((bufringentry_0 e)\<lparr>buf_addr := addr\<rparr>)"

definition BufRingEntry_addr :: "BufRingEntry \<Rightarrow> u64" where
  "BufRingEntry_addr e = buf_addr (bufringentry_0 e)"

definition BufRingEntry_set_len :: "BufRingEntry \<Rightarrow> u32 \<Rightarrow> BufRingEntry" where
  "BufRingEntry_set_len e len = BufRingEntry ((bufringentry_0 e)\<lparr>buf_len := len\<rparr>)"

definition BufRingEntry_len :: "BufRingEntry \<Rightarrow> u32" where
  "BufRingEntry_len e = buf_len (bufringentry_0 e)"

definition BufRingEntry_set_bid :: "BufRingEntry \<Rightarrow> u16 \<Rightarrow> BufRingEntry" where
  "BufRingEntry_set_bid e bid = BufRingEntry ((bufringentry_0 e)\<lparr>buf_bid := bid\<rparr>)"

definition BufRingEntry_bid :: "BufRingEntry \<Rightarrow> u16" where
  "BufRingEntry_bid e = buf_bid (bufringentry_0 e)"

text \<open>The address of the field \<open>resv\<close> of the entry at \<open>ring_base\<close>.\<close>

definition BufRingEntry_tail :: "u64 \<Rightarrow> u64" where
  "BufRingEntry_tail ring_base = ring_base + of_nat (repr_c_offsets 0 [(8,8), (4,4), (2,2), (2,2)] ! 3)"

datatype FutexWaitV = FutexWaitV (futexwaitv_0: futex_waitv)

definition FutexWaitV_new :: FutexWaitV where
  "FutexWaitV_new = FutexWaitV \<lparr>fwv_val = 0, fwv_uaddr = 0, fwv_flags = 0, fwv_reserved = 0\<rparr>"

definition FutexWaitV_val :: "FutexWaitV \<Rightarrow> u64 \<Rightarrow> FutexWaitV" where
  "FutexWaitV_val w val = FutexWaitV ((futexwaitv_0 w)\<lparr>fwv_val := val\<rparr>)"

definition FutexWaitV_uaddr :: "FutexWaitV \<Rightarrow> u64 \<Rightarrow> FutexWaitV" where
  "FutexWaitV_uaddr w uaddr = FutexWaitV ((futexwaitv_0 w)\<lparr>fwv_uaddr := uaddr\<rparr>)"

definition FutexWaitV_flags :: "FutexWaitV \<Rightarrow> u32 \<Rightarrow> FutexWaitV" where
  "FutexWaitV_flags w flags = FutexWaitV ((futexwaitv_0 w)\<lparr>fwv_flags := flags\<rparr>)"

section \<open>Destination slots\<close>

datatype DestinationSlot = DestinationSlot (slot_dest: u32)

definition AUTO_ALLOC :: "u32 exec" where
  "AUTO_ALLOC = unwrap_nonzero (NonZeroU32_new IORING_FILE_INDEX_ALLOC)"

definition auto_target :: "DestinationSlot exec" where
  "auto_target = and_then AUTO_ALLOC (\<lambda>a. Inr (DestinationSlot a))"

definition try_from_slot_target :: "u32 \<Rightarrow> (u32 + DestinationSlot) exec" where
  "try_from_slot_target target =
     and_then AUTO_ALLOC (\<lambda>auto_alloc.
     and_then (unwrap_u32 (checked_sub auto_alloc 2)) (\<lambda>max_index.
       if target > max_index then Inr (Inl target)
       else let kernel_index = saturating_add target 1 in
         and_then (guard_or (Panic Panic_assert) (0 < kernel_index \<and> kernel_index < auto_alloc)) (\<lambda>_.
           case NonZeroU32_new kernel_index of
             None \<Rightarrow> Inl (Panic Panic_unwrap)
           | Some dest \<Rightarrow> Inr (Inr (DestinationSlot dest)))))"

definition kernel_index_arg :: "DestinationSlot \<Rightarrow> u32" where
  "kernel_index_arg slot = slot_dest slot"

section \<open>Cancellation criteria\<close>

record CancelBuilder =
  cb_flags :: u32
  cb_user_data :: "u64 option"
  cb_fd :: "Target option"

definition CancelBuilder_any :: CancelBuilder where
  "CancelBuilder_any = \<lparr>cb_flags = AsyncCancelFlags_ANY, cb_user_data = None, cb_fd = None\<rparr>"

definition CancelBuilder_user_data :: "u64 \<Rightarrow> CancelBuilder" where
  "CancelBuilder_user_data user_data = \<lparr>cb_flags = 0, cb_user_data = Some user_data, cb_fd = None\<rparr>"

definition CancelBuilder_fd :: "Target \<Rightarrow> CancelBuilder" where
  "CancelBuilder_fd target =
     (let flags = AsyncCancelFlags_FD;
          flags' = (case target of Target_Fixed _ \<Rightarrow> flags OR AsyncCancelFlags_FD_FIXED
                                 | Target_Fd _ \<Rightarrow> flags)
      in \<lparr>cb_flags = flags', cb_user_data = None, cb_fd = Some target\<rparr>)"

definition CancelBuilder_all :: "CancelBuilder \<Rightarrow> CancelBuilder" where
  "CancelBuilder_all b = b\<lparr>cb_flags := cb_flags b OR AsyncCancelFlags_ALL\<rparr>"

definition CancelBuilder_to_fd :: "CancelBuilder \<Rightarrow> i32" where
  "CancelBuilder_to_fd b = (case cb_fd b of
      Some target \<Rightarrow> (case target of Target_Fd fd \<Rightarrow> fd | Target_Fixed idx \<Rightarrow> idx)
    | None \<Rightarrow> - 1)"

section \<open>Lemmas\<close>

lemma AUTO_ALLOC_eq: "AUTO_ALLOC = Inr (- 1)"
  by (simp add: AUTO_ALLOC_def unwrap_nonzero_def NonZeroU32_new_def sys_consts)

text \<open>The slot conversion never panics and refuses exactly the two largest values.\<close>

lemma try_from_slot_target_eq:
  "try_from_slot_target target =
     Inr (if target < - 2 then Inr (DestinationSlot (target + 1)) else Inl target)"
proof -
  have m2: "unat (- 2 :: u32) = 2 ^ 32 - 2" and m3: "unat (- 3 :: u32) = 2 ^ 32 - 3"
    and m1: "unat (- 1 :: u32) = 2 ^ 32 - 1"
    by (simp_all add: unsigned_minus_1_eq_mask mask_eq_exp_minus_1)
  have max: "unwrap_u32 (checked_sub (- 1) 2) = Inr (- 3)"
    by (simp add: unwrap_u32_def checked_sub_def word_le_nat_alt m1)
  show ?thesis
  proof (cases "target < - 2")
    case True
    then have lt: "unat target < 2 ^ 32 - 2" by (simp add: word_less_nat_alt m2)
    then have s: "saturating_add target 1 = target + 1" by (simp add: saturating_add_def)
    have u: "unat (target + 1) = unat target + 1" using lt by (intro unat_plus_1) simp
    then have "0 < target + 1" "target + 1 < - 1" using lt m1 by (simp_all add: word_less_nat_alt)
    moreover have "\<not> target > - 3" using lt m3 by (simp add: word_less_nat_alt)
    ultimately show ?thesis using True
      by (auto simp: try_from_slot_target_def AUTO_ALLOC_eq max s NonZeroU32_new_def Let_def)
  next
    case False
    then have "target > - 3" using m2 m3 by (simp add: word_less_nat_alt)
    with False show ?thesis by (simp add: try_from_slot_target_def AUTO_ALLOC_eq max)
  qed
qed

section \<open>Properties\<close>

text \<open>\<open>DestinationSlot::try_from_slot_target\<close> accepts every slot but the two largest \<open>u32\<close>
  values, hands the kernel the slot plus one, and thereby never zero and never the value that asks
  for automatic allocation; neither its assertion nor its \<open>unwrap\<close> can fail.\<close>

theorem slot_targets:
  "(case try_from_slot_target target of
      Inr (Inr slot) \<Rightarrow> unat target < 2 ^ 32 - 2 \<and> unat (kernel_index_arg slot) = unat target + 1
        \<and> Inr (kernel_index_arg slot) \<noteq> AUTO_ALLOC \<and> Inr slot \<noteq> auto_target
    | Inr (Inl t) \<Rightarrow> t = target \<and> 2 ^ 32 - 2 \<le> unat target
    | Inl fault \<Rightarrow> False)"
proof -
  have m2: "unat (- 2 :: u32) = 2 ^ 32 - 2" by simp
  have m1: "unat (- 1 :: u32) = 2 ^ 32 - 1" by (simp add: unsigned_minus_1_eq_mask mask_eq_exp_minus_1)
  show ?thesis
  proof (cases "target < - 2")
    case True
    then have lt: "unat target < 2 ^ 32 - 2" by (simp add: word_less_nat_alt)
    then have u: "unat (target + 1) = unat target + 1" by (intro unat_plus_1) simp
    have "target + 1 \<noteq> - 1"
    proof
      assume "target + 1 = - 1"
      then have "unat (target + 1) = unat (- 1 :: u32)" by (rule arg_cong)
      with u lt m1 show False by simp
    qed
    with True lt u show ?thesis
      by (simp add: try_from_slot_target_eq kernel_index_arg_def AUTO_ALLOC_eq auto_target_def)
  next
    case False
    then have "2 ^ 32 - 2 \<le> unat target" by (simp add: word_less_nat_alt)
    with False show ?thesis by (simp add: try_from_slot_target_eq)
  qed
qed

end
