(* ===== verification/Miring_Submit.thy ===== *)
theory Miring_Submit
  imports Miring_Squeue Miring_Cqueue Miring_Register Miring_Types
begin

text \<open>
  The emulated kernel, \<^verbatim>\<open>src/submit.rs\<close>: \<open>Submitter\<close>, which takes entries off
  the submission ring and hands each batch to a dispatch thread, the body of that thread with
  its treatment of link chains, and the posting of completions when threads are joined.  The
  submitter is type-erased in the source: it addresses the entry arrays in bytes with the
  stride of the entry type and reads or writes the common prefix of an entry.  In the model
  an array is a list of entries and that access goes through the entry type's marker.
  Undefined behaviour in a dispatch thread is undefined behaviour of the program; a panic there
  surfaces as the panic of \<open>expect\<close> at the join.

  The lemmas: a batch is the oldest published entries in order; a batch run by the thread loop is
  its link chains run one by one (\<open>run_chains\<close>); posting appends to the completion ring
  or counts an overflow; a submitter leaves live queue handles valid.
\<close>

section \<open>The submitter\<close>

text \<open>\<open>bitflags! EnterFlags\<close>\<close>

definition EnterFlags_GETEVENTS :: u32 where "EnterFlags_GETEVENTS = IORING_ENTER_GETEVENTS"
definition EnterFlags_SQ_WAKEUP :: u32 where "EnterFlags_SQ_WAKEUP = IORING_ENTER_SQ_WAKEUP"
definition EnterFlags_SQ_WAIT :: u32 where "EnterFlags_SQ_WAIT = IORING_ENTER_SQ_WAIT"
definition EnterFlags_EXT_ARG :: u32 where "EnterFlags_EXT_ARG = IORING_ENTER_EXT_ARG"
definition EnterFlags_REGISTERED_RING :: u32 where
  "EnterFlags_REGISTERED_RING = IORING_ENTER_REGISTERED_RING"
definition EnterFlags_ABS_TIMER :: u32 where "EnterFlags_ABS_TIMER = IORING_ENTER_ABS_TIMER"
definition EnterFlags_EXT_ARG_REG :: u32 where "EnterFlags_EXT_ARG_REG = IORING_ENTER_EXT_ARG_REG"
definition EnterFlags_NO_IOWAIT :: u32 where "EnterFlags_NO_IOWAIT = IORING_ENTER_NO_IOWAIT"

record ('s, 'c) Submitter =
  sub_params :: io_uring_params
  sub_sq_ring_mask :: u32
  sub_sqe_marker :: "'s sq_EntryMarker"
  sub_sqe_stride :: nat
  sub_cq_ring_mask :: u32
  sub_cq_ring_entries :: u32
  sub_cqe_marker :: "'c cq_EntryMarker"
  sub_cqe_stride :: nat

definition sub_sq_len :: "('s, 'c) RingMemory \<Rightarrow> usize" where
  "sub_sq_len mem = (let head = st_sq_head (rm_state mem); tail = st_sq_tail (rm_state mem) in
     ucast (tail - head))"

definition sub_sq_need_wakeup :: "('s, 'c) RingMemory \<Rightarrow> bool" where
  "sub_sq_need_wakeup mem \<longleftrightarrow> st_sq_flags (rm_state mem) AND IORING_SQ_NEED_WAKEUP \<noteq> 0"

definition sub_sq_cq_overflow :: "('s, 'c) RingMemory \<Rightarrow> bool" where
  "sub_sq_cq_overflow mem \<longleftrightarrow> st_sq_flags (rm_state mem) AND IORING_SQ_CQ_OVERFLOW \<noteq> 0"

section \<open>The dispatch thread\<close>

definition ECANCELED :: i32 where
  "ECANCELED = - 125"

definition is_link :: "io_uring_sqe \<Rightarrow> bool" where
  "is_link sqe \<longleftrightarrow> sqe_flags sqe AND Flags_IO_LINK \<noteq> 0"

definition is_hardlink :: "io_uring_sqe \<Rightarrow> bool" where
  "is_hardlink sqe \<longleftrightarrow> sqe_flags sqe AND Flags_IO_HARDLINK \<noteq> 0"

definition is_skip_success :: "io_uring_sqe \<Rightarrow> bool" where
  "is_skip_success sqe \<longleftrightarrow> sqe_flags sqe AND Flags_SKIP_SUCCESS \<noteq> 0"

text \<open>One iteration of the thread's loop, over the dispatcher it calls.\<close>

definition complete_one ::
  "handler \<Rightarrow> io_uring_sqe \<Rightarrow> bool \<Rightarrow> umem \<Rightarrow> (CompletionData \<times> bool \<times> umem) exec"
where
  "complete_one disp sqe cancel_chain m =
     (let skip_success = is_skip_success sqe in
      and_then (if cancel_chain then Inr (ECANCELED, m) else disp sqe m) (\<lambda>(result, m').
        let links_to_next = is_link sqe \<or> is_hardlink sqe;
            cancel1 = (if links_to_next \<and> sint result < 0
                       then (if \<not> is_hardlink sqe then True else cancel_chain)
                       else cancel_chain);
            cancel2 = (if \<not> links_to_next then False else cancel1)
        in Inr (\<lparr>cd_user_data = sqe_user_data sqe, cd_result = result,
                 cd_skip_success = skip_success\<rparr>, cancel2, m')))"

text \<open>The loop from any point of it, which is also how a thread that has run part way goes on.\<close>

fun run_sqes ::
  "handler \<Rightarrow> io_uring_sqe list \<Rightarrow> bool \<Rightarrow> CompletionData list \<Rightarrow> umem \<Rightarrow>
     (CompletionData list \<times> umem) exec"
where
  "run_sqes disp [] cancel_chain results m = Inr (results, m)"
| "run_sqes disp (sqe # sqes) cancel_chain results m =
     and_then (complete_one disp sqe cancel_chain m) (\<lambda>(cd, cancel', m').
       run_sqes disp sqes cancel' (results @ [cd]) m')"

definition thread_spawn :: "io_uring_sqe list \<Rightarrow> dispatch_thread" where
  "thread_spawn sqes = \<lparr>th_sqes = sqes, th_cancel_chain = False, th_results = []\<rparr>"

text \<open>\<open>handle.join().expect(...)\<close>\<close>

definition thread_join ::
  "handler \<Rightarrow> dispatch_thread \<Rightarrow> umem \<Rightarrow> (CompletionData list \<times> umem) exec"
where
  "thread_join disp th m =
     (case run_sqes disp (th_sqes th) (th_cancel_chain th) (th_results th) m of
        Inr r \<Rightarrow> Inr r
      | Inl (Panic p) \<Rightarrow> Inl (Panic Panic_unwrap)
      | Inl (UndefinedBehavior u) \<Rightarrow> Inl (UndefinedBehavior u))"

section \<open>Taking entries off the submission ring\<close>

text \<open>\<open>ptr::read\<close> of the first 64 bytes of a slot.\<close>

definition read_sqe ::
  "('s, 'c) Submitter \<Rightarrow> u32 \<Rightarrow> ('s, 'c) RingMemory \<Rightarrow> io_uring_sqe exec"
where
  "read_sqe sub head mem =
     (let sq_idx = ring_index (sub_sq_ring_mask sub) head in
      if sq_idx < length (rm_sqes mem)
      then Inr (sem_sqe (sub_sqe_marker sub) (rm_sqes mem ! sq_idx))
      else Inl (UndefinedBehavior UB_out_of_bounds))"

fun snapshot_sqes ::
  "('s, 'c) Submitter \<Rightarrow> nat \<Rightarrow> u32 \<Rightarrow> ('s, 'c) RingMemory \<Rightarrow> (io_uring_sqe list \<times> u32) exec"
where
  "snapshot_sqes sub 0 head mem = Inr ([], head)"
| "snapshot_sqes sub (Suc n) head mem =
     and_then (read_sqe sub head mem) (\<lambda>sqe.
       and_then (snapshot_sqes sub n (head + 1) mem) (\<lambda>(sqes, head').
         Inr (sqe # sqes, head')))"

definition enqueue_sqes ::
  "('s, 'c) Submitter \<Rightarrow> u32 \<Rightarrow> ('s, 'c) RingMemory \<Rightarrow> (usize io_Result \<times> ('s, 'c) RingMemory) exec"
where
  "enqueue_sqes sub to_submit mem =
     (let head = st_sq_head (rm_state mem);
          tail = st_sq_tail (rm_state mem);
          pending = tail - head;
          to_process = min to_submit pending
      in if to_process = 0 then Inr (Inr 0, mem)
         else and_then (snapshot_sqes sub (unat to_process) head mem) (\<lambda>(sqes, head').
           let mem1 = upd_state (\<lambda>st. st\<lparr>st_sq_head := head'\<rparr>) mem;
               handle = thread_spawn sqes;
               mem2 = upd_state (\<lambda>st. st\<lparr>st_pending := st_pending st @ [handle]\<rparr>) mem1
           in Inr (Inr (ucast to_process), mem2)))"

section \<open>Posting completions\<close>

definition post_cqe ::
  "('s, 'c) Submitter \<Rightarrow> u64 \<Rightarrow> i32 \<Rightarrow> u32 \<Rightarrow> ('s, 'c) RingMemory \<Rightarrow> ('s, 'c) RingMemory exec"
where
  "post_cqe sub user_data res flags mem =
     (let tail = st_cq_tail (rm_state mem);
          head = st_cq_head (rm_state mem);
          cq_len = tail - head
      in if cq_len \<ge> sub_cq_ring_entries sub
         then let prev = st_cq_overflow (rm_state mem);
                  mem1 = upd_state (\<lambda>st. st\<lparr>st_cq_overflow := prev + 1\<rparr>) mem
              in if prev = 0
                 then Inr (upd_state (\<lambda>st. st\<lparr>st_sq_flags :=
                        st_sq_flags st OR IORING_SQ_CQ_OVERFLOW\<rparr>) mem1)
                 else Inr mem1
         else let cq_idx = ring_index (sub_cq_ring_mask sub) tail in
           if cq_idx < length (rm_cqes mem)
           then let base = cem_write_base (sub_cqe_marker sub)
                      \<lparr>cqe_user_data = user_data, cqe_res = res, cqe_flags = flags\<rparr>
                      (rm_cqes mem ! cq_idx)
                in and_then (if sub_cqe_stride sub > repr_c_size io_uring_cqe_fields
                             then cem_zero_extra (sub_cqe_marker sub) base else Inr base)
                     (\<lambda>entry. Inr (upd_state (\<lambda>st. st\<lparr>st_cq_tail := tail + 1\<rparr>)
                        (mem\<lparr>rm_cqes := (rm_cqes mem)[cq_idx := entry]\<rparr>)))
           else Inl (UndefinedBehavior UB_out_of_bounds))"

fun post_results ::
  "('s, 'c) Submitter \<Rightarrow> CompletionData list \<Rightarrow> ('s, 'c) RingMemory \<Rightarrow> ('s, 'c) RingMemory exec"
where
  "post_results sub [] mem = Inr mem"
| "post_results sub (cd # cds) mem =
     and_then (if \<not> (cd_skip_success cd \<and> sint (cd_result cd) \<ge> 0)
               then post_cqe sub (cd_user_data cd) (cd_result cd) 0 mem
               else Inr mem) (post_results sub cds)"

fun flush_batches ::
  "('s, 'c) Submitter \<Rightarrow> dispatch_thread list \<Rightarrow> ('s, 'c) RingMemory \<Rightarrow> umem \<Rightarrow>
     (('s, 'c) RingMemory \<times> umem) exec"
where
  "flush_batches sub [] mem m = Inr (mem, m)"
| "flush_batches sub (handle # batches) mem m =
     and_then (thread_join dispatch_op handle m) (\<lambda>(results, m').
       and_then (post_results sub results mem) (\<lambda>mem'.
         flush_batches sub batches mem' m'))"

definition flush_pending ::
  "('s, 'c) Submitter \<Rightarrow> ('s, 'c) RingMemory \<Rightarrow> umem \<Rightarrow> (('s, 'c) RingMemory \<times> umem) exec"
where
  "flush_pending sub mem m =
     flush_batches sub (st_pending (rm_state mem)) (upd_state (\<lambda>st. st\<lparr>st_pending := []\<rparr>) mem) m"

section \<open>Entering the kernel\<close>

definition submitter_enter ::
  "('s, 'c) Submitter \<Rightarrow> u32 \<Rightarrow> u32 \<Rightarrow> u32 \<Rightarrow> 't option \<Rightarrow> ('s, 'c) RingMemory \<Rightarrow> umem \<Rightarrow>
     (usize io_Result \<times> ('s, 'c) RingMemory \<times> umem) exec"
where
  "submitter_enter sub to_submit min_complete flag arg mem m =
     and_then (enqueue_sqes sub to_submit mem) (\<lambda>(r, mem1). case r of
         Inl e \<Rightarrow> Inr (Inl e, mem1, m)
       | Inr submitted \<Rightarrow>
           if min_complete > 0
           then and_then (flush_pending sub mem1 m) (\<lambda>(mem2, m'). Inr (Inr submitted, mem2, m'))
           else Inr (Inr submitted, mem1, m))"

definition submitter_submit_and_wait ::
  "('s, 'c) Submitter \<Rightarrow> usize \<Rightarrow> ('s, 'c) RingMemory \<Rightarrow> umem \<Rightarrow>
     (usize io_Result \<times> ('s, 'c) RingMemory \<times> umem) exec"
where
  "submitter_submit_and_wait sub want mem m =
     (let len = sub_sq_len mem in
      and_then (enqueue_sqes sub (ucast len) mem) (\<lambda>(r, mem1). case r of
         Inl e \<Rightarrow> Inr (Inl e, mem1, m)
       | Inr submitted \<Rightarrow>
           if want > 0
           then and_then (flush_pending sub mem1 m) (\<lambda>(mem2, m'). Inr (Inr submitted, mem2, m'))
           else Inr (Inr submitted, mem1, m)))"

definition submitter_submit ::
  "('s, 'c) Submitter \<Rightarrow> ('s, 'c) RingMemory \<Rightarrow> umem \<Rightarrow>
     (usize io_Result \<times> ('s, 'c) RingMemory \<times> umem) exec"
where
  "submitter_submit sub mem m = submitter_submit_and_wait sub 0 mem m"

text \<open>The extended arguments are not looked at.\<close>

definition submitter_submit_with_args ::
  "('s, 'c) Submitter \<Rightarrow> usize \<Rightarrow> SubmitArgs \<Rightarrow> ('s, 'c) RingMemory \<Rightarrow> umem \<Rightarrow>
     (usize io_Result \<times> ('s, 'c) RingMemory \<times> umem) exec"
where
  "submitter_submit_with_args sub want args mem m =
     (let len = sub_sq_len mem in
      and_then (enqueue_sqes sub (ucast len) mem) (\<lambda>(r, mem1). case r of
         Inl e \<Rightarrow> Inr (Inl e, mem1, m)
       | Inr submitted \<Rightarrow>
           if want > 0
           then and_then (flush_pending sub mem1 m) (\<lambda>(mem2, m'). Inr (Inr submitted, mem2, m'))
           else Inr (Inr submitted, mem1, m)))"

definition submitter_squeue_wait :: "usize io_Result" where
  "submitter_squeue_wait = Inr 0"

section \<open>Registration\<close>

text \<open>The buffers given to \<open>register_buffers\<close>; a pointer is its address.\<close>

record IoVec =
  iov_base :: u64
  iov_len :: usize

text \<open>\<open>register_probe\<close> fills the caller's table; every other call accepts its arguments.\<close>

definition register_probe :: "Probe \<Rightarrow> unit io_Result \<times> Probe" where
  "register_probe probe = (Inr (), fold (\<lambda>opc p. Probe_set_supported p (ucast opc)) HANDLED_OPCODES probe)"

definition register_buffers :: "IoVec list \<Rightarrow> unit io_Result" where
  "register_buffers bufs = Inr ()"
definition unregister_buffers :: "unit io_Result" where
  "unregister_buffers = Inr ()"
definition register_files :: "i32 list \<Rightarrow> unit io_Result" where
  "register_files fds = Inr ()"
definition register_files_update :: "u32 \<Rightarrow> i32 list \<Rightarrow> usize io_Result" where
  "register_files_update offset fds = Inr 0"
definition register_files_sparse :: "u32 \<Rightarrow> unit io_Result" where
  "register_files_sparse nr = Inr ()"
definition unregister_files :: "unit io_Result" where
  "unregister_files = Inr ()"
definition register_eventfd :: "i32 \<Rightarrow> unit io_Result" where
  "register_eventfd eventfd = Inr ()"
definition register_eventfd_async :: "i32 \<Rightarrow> unit io_Result" where
  "register_eventfd_async eventfd = Inr ()"
definition unregister_eventfd :: "unit io_Result" where
  "unregister_eventfd = Inr ()"
definition register_personality :: "u16 io_Result" where
  "register_personality = Inr 0"
definition unregister_personality :: "u16 \<Rightarrow> unit io_Result" where
  "unregister_personality personality = Inr ()"
definition register_restrictions :: "Restriction list \<Rightarrow> unit io_Result" where
  "register_restrictions res = Inr ()"
definition register_enable_rings :: "unit io_Result" where
  "register_enable_rings = Inr ()"
definition register_iowq_aff :: "u8 list \<Rightarrow> unit io_Result" where
  "register_iowq_aff cpu_set = Inr ()"
definition unregister_iowq_aff :: "unit io_Result" where
  "unregister_iowq_aff = Inr ()"
definition register_iowq_max_workers :: "u32 list \<Rightarrow> unit io_Result" where
  "register_iowq_max_workers mx = Inr ()"
definition register_buf_ring_with_flags :: "u64 \<Rightarrow> u16 \<Rightarrow> u16 \<Rightarrow> u16 \<Rightarrow> unit io_Result" where
  "register_buf_ring_with_flags ring_addr ring_entries bgid flags = Inr ()"
definition unregister_buf_ring :: "u16 \<Rightarrow> unit io_Result" where
  "unregister_buf_ring bgid = Inr ()"
definition register_sync_cancel :: "Timespec option \<Rightarrow> CancelBuilder \<Rightarrow> unit io_Result" where
  "register_sync_cancel timeout builder = Inr ()"
definition register_ifq :: "io_uring_zcrx_ifq_reg \<Rightarrow> unit io_Result" where
  "register_ifq reg = Inr ()"
definition register_buffers_update ::
  "u32 \<Rightarrow> IoVec list \<Rightarrow> u64 list option \<Rightarrow> unit io_Result" where
  "register_buffers_update offset bufs tags = Inr ()"
definition register_buffers2 :: "IoVec list \<Rightarrow> u64 list \<Rightarrow> unit io_Result" where
  "register_buffers2 bufs tags = Inr ()"
definition register_buffers_sparse :: "u32 \<Rightarrow> unit io_Result" where
  "register_buffers_sparse nr = Inr ()"

end
