(* ===== verification/Miring_Dispatch_Spec.thy ===== *)
theory Miring_Dispatch_Spec
  imports Miring_Dispatch
begin

text \<open>
  What the dispatch handlers do to user memory, stated without pointers and loops: which
  bytes a handler zeroes, what it returns, and when it is free of undefined behaviour.  The
  vectored handlers walk an iovec array while they overwrite the buffers it names; they are
  compared with a reference that decodes the whole array first, as the kernel does.
\<close>

section \<open>Vocabulary\<close>

text \<open>\<open>zeroed m R\<close>: the memory with the bytes of \<open>R\<close> set to zero.\<close>

definition zeroed :: "umem \<Rightarrow> u64 set \<Rightarrow> umem" where
  "zeroed m R = (\<lambda>x. if x \<in> R then Some (Byte 0) else m x)"

definition readable :: "umem \<Rightarrow> u64 \<Rightarrow> nat \<Rightarrow> bool" where
  "readable m a n \<longleftrightarrow> live m a n \<and> (\<forall>i \<in> {..<n}. m (a + of_nat i) \<noteq> Some Uninit)"

text \<open>The reference for the vectored handlers: decode the array, then visit the buffers.\<close>

fun decode_iovs :: "nat \<Rightarrow> u64 \<Rightarrow> umem \<Rightarrow> (u64 \<times> usize) list exec" where
  "decode_iovs 0 p m = Inr []"
| "decode_iovs (Suc n) p m = and_then (pair_at m p (p + 8)) (\<lambda>r.
     and_then (decode_iovs n (p + 16) m) (\<lambda>rs.
       Inr (case r of None \<Rightarrow> rs | Some x \<Rightarrow> x # rs)))"

definition iov_bytes :: "(u64 \<times> usize) list \<Rightarrow> u64 set" where
  "iov_bytes rs = (\<Union>(base, len) \<in> set rs. region base (unat len))"

definition iov_total :: "usize \<Rightarrow> (u64 \<times> usize) list \<Rightarrow> usize" where
  "iov_total tot rs = foldl saturating_add tot (map snd rs)"

definition iovs_live :: "umem \<Rightarrow> (u64 \<times> usize) list \<Rightarrow> bool" where
  "iovs_live m rs \<longleftrightarrow> list_all (\<lambda>(base, len). unat len < 2 ^ 63 \<and> live m base (unat len)) rs"

definition iovs_readable :: "umem \<Rightarrow> (u64 \<times> usize) list \<Rightarrow> bool" where
  "iovs_readable m rs \<longleftrightarrow>
     list_all (\<lambda>(base, len). unat len < 2 ^ 63 \<and> readable m base (unat len)) rs"

section \<open>Single buffers\<close>

lemma zeroed_empty [simp]: "zeroed m {} = m"
  by (simp add: zeroed_def)

lemma zeroed_zeroed: "zeroed (zeroed m R) S = zeroed m (R \<union> S)"
  by (auto simp: zeroed_def)

lemma zeroed_frame: "x \<notin> R \<Longrightarrow> zeroed m R x = m x"
  by (simp add: zeroed_def)

lemma slice_fill_eq:
  "a \<noteq> 0 \<Longrightarrow> n < 2 ^ 63 \<Longrightarrow>
     slice_fill m a n = (if live m a n then Inr (zeroed m (region a n)) else UB UB_out_of_bounds)"
  by (auto simp: slice_fill_def slice_check_def deref_check_def store_replicate zeroed_def
      fun_eq_iff)

lemma readable_load: "readable m a n \<Longrightarrow> \<exists>bs. load m a n = Inr bs"
proof (rule load_total, intro allI impI)
  fix i assume r: "readable m a n" and i: "i < n"
  then have "m (a + of_nat i) \<noteq> None" "m (a + of_nat i) \<noteq> Some Uninit"
    by (simp_all add: readable_def live_def)
  then show "\<exists>b. m (a + of_nat i) = Some (Byte b)"
    by (metis mbyte.exhaust not_Some_eq)
qed

lemma load_readable: "live m a n \<Longrightarrow> load m a n = Inr bs \<Longrightarrow> readable m a n"
  by (simp add: readable_def load_Inr_iff)

lemma load_live_fault:
  "\<forall>i<n. m (a + of_nat i) \<noteq> None \<Longrightarrow> load m a n = Inl f \<Longrightarrow> f = UndefinedBehavior UB_uninit"
proof (induction n arbitrary: a)
  case (Suc n)
  have "\<forall>i<n. m (a + 1 + of_nat i) \<noteq> None"
    using Suc.prems(1) by (metis Suc_less_eq add.assoc of_nat_Suc)
  with Suc show ?case
    using Suc.prems(1) [rule_format, of 0]
    by (auto simp: and_then_eq_Inl split: option.splits mbyte.splits)
qed simp

lemma load_eq:
  assumes "live m a n"
  shows "\<exists>bs. load m a n = (if readable m a n then Inr bs else UB UB_uninit)"
proof (cases "readable m a n")
  case True
  then show ?thesis using readable_load by auto
next
  case False
  with load_readable [OF assms] obtain f where f: "load m a n = Inl f"
    by (cases "load m a n") auto
  with load_live_fault [OF _ f] assms have "f = UndefinedBehavior UB_uninit"
    by (auto simp: live_def)
  with f False show ?thesis by simp
qed

lemma slice_sink_eq:
  assumes "a \<noteq> 0" "n < 2 ^ 63"
  shows "\<exists>v. slice_sink m a n s =
     (if readable m a n then Inr v
      else if live m a n then UB UB_uninit else UB UB_out_of_bounds)"
proof (cases "live m a n")
  case True
  from load_eq [OF this] obtain bs
    where "load m a n = (if readable m a n then Inr bs else UB UB_uninit)" ..
  with assms True show ?thesis
    by (auto simp: slice_sink_def slice_check_def deref_check_def)
next
  case False
  with assms show ?thesis
    by (simp add: slice_sink_def slice_check_def deref_check_def readable_def)
qed

lemma dispatch_buf_fill_eq:
  "dispatch_buf_fill sqe m =
     (if sqe_addr sqe = 0 \<or> sqe_len sqe = 0 then Inr (0, m)
      else if live m (sqe_addr sqe) (unat (sqe_len sqe))
      then Inr (sqe_len sqe, zeroed m (region (sqe_addr sqe) (unat (sqe_len sqe))))
      else UB UB_out_of_bounds)"
  using unat_u32_less [of "sqe_len sqe"]
  by (simp add: dispatch_buf_fill_def Let_def slice_fill_eq)

lemma dispatch_buf_sink_eq:
  "dispatch_buf_sink sqe m =
     (if sqe_addr sqe = 0 \<or> sqe_len sqe = 0 then Inr (0, m)
      else if readable m (sqe_addr sqe) (unat (sqe_len sqe)) then Inr (sqe_len sqe, m)
      else if live m (sqe_addr sqe) (unat (sqe_len sqe)) then UB UB_uninit
      else UB UB_out_of_bounds)"
proof (cases "sqe_addr sqe = 0 \<or> sqe_len sqe = 0")
  case False
  then obtain v where "slice_sink m (sqe_addr sqe) (unat (sqe_len sqe)) 0 =
     (if readable m (sqe_addr sqe) (unat (sqe_len sqe)) then Inr v
      else if live m (sqe_addr sqe) (unat (sqe_len sqe)) then UB UB_uninit
      else UB UB_out_of_bounds)"
    using slice_sink_eq [OF _ unat_u32_less] by blast
  with False show ?thesis by (simp add: dispatch_buf_sink_def Let_def)
qed (simp add: dispatch_buf_sink_def Let_def)

section \<open>Vectored input and output\<close>

lemma same_dom_zeroed: "R \<subseteq> dom m \<Longrightarrow> same_dom m (zeroed m R)"
  by (auto simp: same_dom_def zeroed_def dom_def)

lemma read_u64_cong:
  "same_dom m m' \<Longrightarrow> (\<And>x. x \<in> region a 8 \<Longrightarrow> m' x = m x) \<Longrightarrow> read_u64 m' a = read_u64 m a"
  using load_cong [of a 8 m' m]
  by (simp add: read_u64_def ptr_read_def deref_check_def same_dom_live)

lemma region_shift: "x \<in> region (p + of_nat k) n \<Longrightarrow> x \<in> region p (k + n)"
proof -
  assume "x \<in> region (p + of_nat k) n"
  then obtain i where "i < n" "x = p + of_nat (k + i)"
    by (auto simp: region_def algebra_simps)
  then show ?thesis using region_mem [of "k + i" "k + n" p] by simp
qed

lemma pair_at_cong:
  assumes "same_dom m m'" "\<And>x. x \<in> region p 16 \<Longrightarrow> m' x = m x"
  shows "pair_at m' p (p + 8) = pair_at m p (p + 8)"
proof -
  have "read_u64 m' p = read_u64 m p"
    using assms region_mono [of 8 16 p] by (intro read_u64_cong) auto
  moreover have "read_u64 m' (p + 8) = read_u64 m (p + 8)"
    using assms region_shift [of _ p 8 8] by (intro read_u64_cong) auto
  ultimately show ?thesis by (simp add: pair_at_def cong: if_cong)
qed

lemma decode_iovs_cong:
  "same_dom m m' \<Longrightarrow> (\<And>x. x \<in> region p (16 * n) \<Longrightarrow> m' x = m x) \<Longrightarrow>
     decode_iovs n p m' = decode_iovs n p m"
proof (induction n arbitrary: p)
  case (Suc n)
  have "pair_at m' p (p + 8) = pair_at m p (p + 8)"
    using Suc.prems region_mono [of 16 "16 * Suc n" p] by (intro pair_at_cong) auto
  moreover have "decode_iovs n (p + 16) m' = decode_iovs n (p + 16) m"
    using Suc.prems region_shift [of _ p 16 "16 * n"] by (intro Suc.IH) auto
  ultimately show ?case by simp
qed simp

lemma pair_at_Some: "pair_at m p q = Inr (Some (base, len)) \<Longrightarrow> base \<noteq> 0 \<and> 0 < len"
  by (auto simp: pair_at_def and_then_eq_Inr split: if_splits)

text \<open>
  As long as no buffer overlaps the iovec array, the interleaved loop equals the reference:
  it zeroes the union of the buffers and adds up their lengths.
\<close>

lemma fill_iovs_ref:
  assumes "decode_iovs n p m = Inr rs" "iovs_live m rs" "iov_bytes rs \<inter> region p (16 * n) = {}"
  shows "fill_iovs n p tot m = Inr (iov_total tot rs, zeroed m (iov_bytes rs))"
  using assms
proof (induction n arbitrary: p tot m rs)
  case 0
  then show ?case by (simp add: iov_total_def iov_bytes_def)
next
  case (Suc n)
  then obtain r rs' where r: "pair_at m p (p + 8) = Inr r"
    and rs': "decode_iovs n (p + 16) m = Inr rs'"
    and rs: "rs = (case r of None \<Rightarrow> rs' | Some x \<Rightarrow> x # rs')"
    by (auto simp: and_then_eq_Inr)
  have sub: "region (p + 16) (16 * n) \<subseteq> region p (16 * Suc n)"
    using region_shift [of _ p 16 "16 * n"] by auto
  show ?case
  proof (cases r)
    case None
    with rs Suc.prems have "iovs_live m rs'" "iov_bytes rs' \<inter> region (p + 16) (16 * n) = {}"
      using sub by auto
    with Suc.IH [OF rs'] None rs r show ?thesis by (simp add: fill_if_def)
  next
    case (Some bl)
    obtain base len where bl: "bl = (base, len)" by (cases bl)
    let ?m = "zeroed m (region base (unat len))"
    from pair_at_Some r Some bl have nz: "base \<noteq> 0" by blast
    from Suc.prems(2) rs Some bl
    have l: "unat len < 2 ^ 63" "live m base (unat len)" and lv: "iovs_live m rs'"
      by (auto simp: iovs_live_def)
    then have sd: "same_dom m ?m" by (intro same_dom_zeroed liveD)
    have dis: "region base (unat len) \<inter> region p (16 * Suc n) = {}"
      and dis': "iov_bytes rs' \<inter> region p (16 * Suc n) = {}"
      using Suc.prems(3) rs Some bl by (auto simp: iov_bytes_def)
    have "decode_iovs n (p + 16) ?m = Inr rs'"
      using rs' sub dis by (subst decode_iovs_cong [OF sd]) (auto simp: zeroed_def)
    moreover have "iovs_live ?m rs'"
      using lv by (simp add: iovs_live_def same_dom_live [OF sd])
    ultimately have "fill_iovs n (p + 16) (saturating_add tot len) ?m =
        Inr (iov_total (saturating_add tot len) rs', zeroed ?m (iov_bytes rs'))"
      using dis' sub by (intro Suc.IH) auto
    with r Some bl nz l show ?thesis
      by (simp add: fill_if_def slice_fill_eq rs iov_total_def iov_bytes_def zeroed_zeroed)
  qed
qed

lemma sink_iovs_ref:
  assumes "decode_iovs n p m = Inr rs" "iovs_readable m rs"
  shows "sink_iovs n p tot s m = Inr (iov_total tot rs)"
  using assms
proof (induction n arbitrary: p tot s rs)
  case 0
  then show ?case by (simp add: iov_total_def)
next
  case (Suc n)
  then obtain r rs' where r: "pair_at m p (p + 8) = Inr r"
    and rs': "decode_iovs n (p + 16) m = Inr rs'"
    and rs: "rs = (case r of None \<Rightarrow> rs' | Some x \<Rightarrow> x # rs')"
    by (auto simp: and_then_eq_Inr)
  show ?case
  proof (cases r)
    case None
    with Suc rs rs' r show ?thesis by (simp add: sink_if_def)
  next
    case (Some bl)
    obtain base len where bl: "bl = (base, len)" by (cases bl)
    from pair_at_Some r Some bl have nz: "base \<noteq> 0" by blast
    from Suc.prems(2) rs Some bl have l: "unat len < 2 ^ 63" "readable m base (unat len)"
      and lv: "iovs_readable m rs'"
      by (auto simp: iovs_readable_def)
    from slice_sink_eq [OF nz l(1), of m s] l(2) obtain v
      where "slice_sink m base (unat len) s = Inr v" by auto
    with r Some bl Suc.IH [OF rs' lv] show ?thesis
      by (simp add: sink_if_def rs iov_total_def)
  qed
qed

lemma unat_saturating_add:
  "unat (saturating_add a b :: usize) = min (2 ^ 64 - 1) (unat a + unat b)"
proof (cases "unat a + unat b < 2 ^ 64")
  case True
  then show ?thesis by (auto simp: saturating_add_def unat_word_ariths)
next
  case False
  then show ?thesis by (auto simp: saturating_add_def unsigned_minus_1_eq_mask mask_eq_exp_minus_1)
qed

lemma unat_iov_total:
  "unat (iov_total tot rs) = min (2 ^ 64 - 1) (unat tot + sum_list (map (unat \<circ> snd) rs))"
proof (induction rs arbitrary: tot)
  case Nil
  have "unat tot < 2 ^ 64" by (rule order_less_le_trans [OF unsigned_less]) simp
  then show ?case by (simp add: iov_total_def)
next
  case (Cons r rs)
  then show ?case by (simp add: iov_total_def unat_saturating_add)
qed

section \<open>No handler panics\<close>

definition no_panic :: "'a exec \<Rightarrow> bool" where
  "no_panic x \<longleftrightarrow> (case x of Inl (Panic p) \<Rightarrow> False | _ \<Rightarrow> True)"

named_theorems no_panic_intros \<open>computations that do not panic\<close>

lemma no_panic_simps [simp, no_panic_intros]:
  "no_panic (Inr a)" "no_panic (UB u)"
  by (simp_all add: no_panic_def)

lemma no_panic_and_then [no_panic_intros]:
  "no_panic x \<Longrightarrow> (\<And>a. no_panic (f a)) \<Longrightarrow> no_panic (and_then x f)"
  by (cases x) (auto simp: no_panic_def)

lemma no_panic_if [no_panic_intros]:
  "(b \<Longrightarrow> no_panic x) \<Longrightarrow> (\<not> b \<Longrightarrow> no_panic y) \<Longrightarrow> no_panic (if b then x else y)"
  by simp

lemma no_panic_split [no_panic_intros]:
  "(\<And>a b. p = (a, b) \<Longrightarrow> no_panic (f a b)) \<Longrightarrow> no_panic (case p of (a, b) \<Rightarrow> f a b)"
  "(r = None \<Longrightarrow> no_panic x) \<Longrightarrow> (\<And>c. r = Some c \<Longrightarrow> no_panic (g c)) \<Longrightarrow>
     no_panic (case r of None \<Rightarrow> x | Some c \<Rightarrow> g c)"
  by (auto split: prod.split option.split)

lemma no_panic_load [no_panic_intros]: "no_panic (load m a n)"
  by (induction n arbitrary: a) (auto intro!: no_panic_intros split: option.split mbyte.split)

lemma no_panic_access [no_panic_intros]:
  "no_panic (deref_check m a al n)" "no_panic (slice_check m a len sz al)"
  by (simp_all add: deref_check_def slice_check_def)

lemma no_panic_memory [no_panic_intros]:
  "no_panic (ptr_read m a al n)" "no_panic (ptr_write m a al bs)"
  "no_panic (slice_fill m a n)" "no_panic (slice_sink m a n s)"
  unfolding ptr_read_def ptr_write_def slice_fill_def slice_sink_def
  by (auto intro!: no_panic_intros)

lemma no_panic_words [no_panic_intros]:
  "no_panic (read_u32 m a)" "no_panic (read_u64 m a)" "no_panic (write_u32 m a v)"
  unfolding read_u32_def read_u64_def write_u32_def by (auto intro!: no_panic_intros)

lemma no_panic_pairs [no_panic_intros]:
  "no_panic (pair_at m p q)" "no_panic (name_at m h)" "no_panic (fill_if m r)" "no_panic (sink_if m r s)"
  unfolding pair_at_def name_at_def fill_if_def sink_if_def by (auto intro!: no_panic_intros)

lemma no_panic_fill_iovs [no_panic_intros]: "no_panic (fill_iovs n p tot m)"
  by (induction n arbitrary: p tot m) (auto intro!: no_panic_intros)

lemma no_panic_sink_iovs [no_panic_intros]: "no_panic (sink_iovs n p tot s m)"
  by (induction n arbitrary: p tot s) (auto intro!: no_panic_intros)

lemma no_panic_read_waitv [no_panic_intros]: "no_panic (read_waitv n p m)"
  by (induction n arbitrary: p) (auto intro!: no_panic_intros)

lemma no_panic_walk_cstr [no_panic_intros]: "no_panic (walk_cstr m p)"
proof (induction m p rule: walk_cstr.induct)
  case (1 m p)
  show ?case
  proof (subst walk_cstr.simps, cases "ptr_read m p 1 1")
    case (Inl f)
    then show "no_panic (and_then (ptr_read m p 1 1) (\<lambda>bs. if bs = [0] then Inr ()
        else if p = - 1 then UB UB_ptr_overflow else walk_cstr m (p + 1)))"
      using no_panic_memory(1) [of m p 1 1] by (simp add: no_panic_def split: fault.splits)
  next
    case (Inr bs)
    with 1 [OF Inr] show "no_panic (and_then (ptr_read m p 1 1) (\<lambda>bs. if bs = [0] then Inr ()
        else if p = - 1 then UB UB_ptr_overflow else walk_cstr m (p + 1)))"
      by simp
  qed
qed

lemma no_panic_epoll_total [no_panic_intros]: "no_panic (rust_mul (ucast (w :: u32) :: usize) 12)"
proof -
  have "unat w < 2 ^ 32" by (rule order_less_le_trans [OF unsigned_less]) simp
  then show ?thesis by (simp add: rust_mul_def)
qed

lemma no_panic_handlers [no_panic_intros]:
  "no_panic (dispatch_buf_fill sqe m)"
  "no_panic (dispatch_buf_sink sqe m)"
  "no_panic (dispatch_readv sqe m)"
  "no_panic (dispatch_writev sqe m)"
  "no_panic (dispatch_recvmsg sqe m)"
  "no_panic (dispatch_sendmsg sqe m)"
  "no_panic (dispatch_timeout sqe m)"
  "no_panic (dispatch_connect sqe m)"
  "no_panic (dispatch_accept sqe m)"
  "no_panic (dispatch_openat sqe m)"
  "no_panic (dispatch_openat2 sqe m)"
  "no_panic (dispatch_statx sqe m)"
  "no_panic (dispatch_pathname sqe m)"
  "no_panic (dispatch_pathname2 sqe m)"
  "no_panic (dispatch_epoll_ctl sqe m)"
  "no_panic (dispatch_files_update sqe m)"
  "no_panic (dispatch_provide_buffers sqe m)"
  "no_panic (dispatch_xattr_set sqe m)"
  "no_panic (dispatch_xattr_get sqe m)"
  "no_panic (dispatch_epoll_wait sqe m)"
  "no_panic (dispatch_futex_read sqe m)"
  "no_panic (dispatch_futex_waitv sqe m)"
  "no_panic (dispatch_waitid sqe m)"
  "no_panic (dispatch_pipe sqe m)"
  unfolding handler_defs Let_def by (intro no_panic_intros)+

lemma dispatch_op_no_panic: "no_panic (dispatch_op sqe m)"
  unfolding dispatch_op_def Let_def by (intro no_panic_intros)

end
