(* ===== verification/Miring_Submit_Laws.thy ===== *)
theory Miring_Submit_Laws
  imports Miring_Submit Miring_Dispatch_Spec
begin

text \<open>
  What \<^verbatim>\<open>src/submit.rs\<close> promises, over the definitions of \<open>Miring_Submit\<close>:
  the reference semantics of link chains, the laws of taking a batch and of posting
  completions, the interfaces of \<open>Miring_Queue_Spec\<close> that these two are instances of, and
  the effect of joining all pending threads.
\<close>

section \<open>Link chains\<close>

text \<open>
  The reference: a batch falls into chains, maximal runs in which every entry but the last has
  a link flag.  A chain runs in order; when an entry that is not hard-linked fails, the rest of
  its chain is cancelled and not dispatched.
\<close>

definition links :: "io_uring_sqe \<Rightarrow> bool" where
  "links sqe \<longleftrightarrow> is_link sqe \<or> is_hardlink sqe"

fun link_chains :: "io_uring_sqe list \<Rightarrow> io_uring_sqe list list" where
  "link_chains [] = []"
| "link_chains (s # ss) = (if links s then case link_chains ss of [] \<Rightarrow> [[s]] | c # cs \<Rightarrow> (s # c) # cs
                      else [s] # link_chains ss)"

definition completed :: "i32 \<Rightarrow> io_uring_sqe \<Rightarrow> CompletionData" where
  "completed res sqe = \<lparr>cd_user_data = sqe_user_data sqe, cd_result = res,
     cd_skip_success = is_skip_success sqe\<rparr>"

fun run_chain ::
  "handler \<Rightarrow> io_uring_sqe list \<Rightarrow> umem \<Rightarrow> (CompletionData list \<times> umem) exec" where
  "run_chain disp [] m = Inr ([], m)"
| "run_chain disp (s # c) m = and_then (disp s m) (\<lambda>(r, m').
     if sint r < 0 \<and> \<not> is_hardlink s then Inr (completed r s # map (completed ECANCELED) c, m')
     else and_then (run_chain disp c m') (\<lambda>(rs, m''). Inr (completed r s # rs, m'')))"

fun run_chains ::
  "handler \<Rightarrow> io_uring_sqe list list \<Rightarrow> umem \<Rightarrow> (CompletionData list \<times> umem) exec" where
  "run_chains disp [] m = Inr ([], m)"
| "run_chains disp (c # cs) m = and_then (run_chain disp c m) (\<lambda>(rs, m').
     and_then (run_chains disp cs m') (\<lambda>(rs', m''). Inr (rs @ rs', m'')))"

lemma concat_link_chains: "concat (link_chains ss) = ss"
  by (induction ss) (auto split: list.splits)

lemma link_chains_eq_Nil [simp]: "link_chains ss = [] \<longleftrightarrow> ss = []"
  by (cases ss) (auto split: list.splits)

lemma link_chains_linked:
  "c \<in> set (link_chains ss) \<Longrightarrow> c \<noteq> [] \<and> (\<forall>s \<in> set (butlast c). links s)"
  by (induction ss arbitrary: c) (fastforce split: list.splits if_splits)+

lemma link_chains_maximal:
  "i + 1 < length (link_chains ss) \<Longrightarrow> \<not> links (last (link_chains ss ! i))"
proof (induction ss arbitrary: i)
  case (Cons s ss)
  show ?case
  proof (cases "links s")
    case True
    show ?thesis
    proof (cases "link_chains ss")
      case Nil
      with Cons.prems True show ?thesis by simp
    next
      case (Cons c cs)
      have "c \<noteq> []" using link_chains_linked [of c ss] Cons by simp
      with Cons Cons.IH [of i] Cons.prems True show ?thesis by (cases i) auto
    qed
  next
    case False
    with Cons show ?thesis by (cases i) auto
  qed
qed simp

lemma sint_ECANCELED [simp]: "sint ECANCELED = - 125"
  by (simp add: ECANCELED_def)

lemma run_sqes_acc:
  "run_sqes disp ss c (rs @ rs') m =
     and_then (run_sqes disp ss c rs' m) (\<lambda>(xs, m'). Inr (rs @ xs, m'))"
proof (induction ss arbitrary: c rs' m)
  case (Cons s ss)
  then show ?case by (cases "complete_one disp s c m") (auto split: prod.splits)
qed simp

lemma run_sqes_acc1:
  "run_sqes disp ss c [cd] m = and_then (run_sqes disp ss c [] m) (\<lambda>(xs, m'). Inr (cd # xs, m'))"
  using run_sqes_acc [of disp ss c "[cd]" "[]" m] by simp

lemma complete_one_simps:
  "complete_one disp s True m = Inr (completed ECANCELED s, links s, m)"
  "complete_one disp s False m = and_then (disp s m) (\<lambda>(r, m').
     Inr (completed r s, links s \<and> sint r < 0 \<and> \<not> is_hardlink s, m'))"
  by (auto simp: complete_one_def completed_def links_def Let_def fun_eq_iff
      intro!: arg_cong2 [where f = and_then])

lemma run_sqes_chains_both:
  "run_sqes disp ss False [] m = run_chains disp (link_chains ss) m"
  "run_sqes disp ss True [] m = (case link_chains ss of [] \<Rightarrow> Inr ([], m)
     | c # cs \<Rightarrow> and_then (run_chains disp cs m) (\<lambda>(rs, m').
         Inr (map (completed ECANCELED) c @ rs, m')))"
proof (induction ss arbitrary: m)
  case Nil
  {
    case 1
    show ?case by simp
  next
    case 2
    show ?case by simp
  }
next
  case (Cons s ss)
  {
    case 1
    show ?case
      by (cases "disp s m")
        (auto simp: complete_one_simps run_sqes_acc1 Cons.IH and_then_assoc split_def
          split: list.splits)
  next
    case 2
    show ?case
      by (auto simp: complete_one_simps run_sqes_acc1 Cons.IH and_then_assoc split_def
          split: list.splits)
  }
qed

text \<open>
  The loop itself on a chain that has been cancelled: nothing is dispatched up to the end of the
  chain, hard links or not.
\<close>

lemma run_sqes_cancelled:
  "c \<noteq> [] \<Longrightarrow> list_all links (butlast c) \<Longrightarrow> \<not> links (last c) \<Longrightarrow>
     run_sqes disp (c @ rest) True [] m = and_then (run_sqes disp rest False [] m) (\<lambda>(rs, m').
       Inr (map (completed ECANCELED) c @ rs, m'))"
proof (induction c)
  case (Cons s c)
  then show ?case
    by (cases "c = []") (simp_all add: complete_one_simps run_sqes_acc1 and_then_assoc split_def)
qed simp

text \<open>Without a soft link in the batch every entry is dispatched, whatever the others return.\<close>

fun run_plain ::
  "handler \<Rightarrow> io_uring_sqe list \<Rightarrow> umem \<Rightarrow> (CompletionData list \<times> umem) exec" where
  "run_plain disp [] m = Inr ([], m)"
| "run_plain disp (s # ss) m = and_then (disp s m) (\<lambda>(r, m').
     and_then (run_plain disp ss m') (\<lambda>(rs, m''). Inr (completed r s # rs, m'')))"

lemma run_sqes_plain:
  "list_all (\<lambda>s. is_link s \<longrightarrow> is_hardlink s) ss \<Longrightarrow> run_sqes disp ss False [] m = run_plain disp ss m"
proof (induction ss arbitrary: m)
  case (Cons s ss)
  then have "(links s \<and> b \<and> \<not> is_hardlink s) = False" for b by (auto simp: links_def)
  with Cons show ?case
    by (simp only: run_sqes.simps complete_one_simps) (simp add: run_sqes_acc1 and_then_assoc split_def)
qed simp

section \<open>Threads over any dispatcher\<close>

text \<open>One completion per entry, in order, carrying the entry's user data.\<close>

lemma run_sqes_user_data:
  "run_sqes disp ss c rs m = Inr (rs', m') \<Longrightarrow>
     \<exists>new. rs' = rs @ new \<and> map cd_user_data new = map sqe_user_data ss
       \<and> map cd_skip_success new = map is_skip_success ss"
proof (induction ss arbitrary: c rs m)
  case (Cons s ss)
  then obtain cd c1 m1 where 1: "complete_one disp s c m = Inr (cd, c1, m1)"
    "run_sqes disp ss c1 (rs @ [cd]) m1 = Inr (rs', m')"
    by (auto simp: and_then_eq_Inr)
  from Cons.IH [OF 1(2)] obtain new where new: "rs' = (rs @ [cd]) @ new"
    "map cd_user_data new = map sqe_user_data ss" "map cd_skip_success new = map is_skip_success ss"
    by blast
  moreover have "cd_user_data cd = sqe_user_data s" "cd_skip_success cd = is_skip_success s"
    using 1(1) by (auto simp: complete_one_def and_then_eq_Inr Let_def)
  ultimately show ?case by (intro exI [of _ "cd # new"]) simp
qed simp

text \<open>All pending threads, joined in the order they were spawned.\<close>

fun run_threads ::
  "handler \<Rightarrow> dispatch_thread list \<Rightarrow> umem \<Rightarrow> (CompletionData list \<times> umem) exec" where
  "run_threads disp [] m = Inr ([], m)"
| "run_threads disp (th # ths) m = and_then (thread_join disp th m) (\<lambda>(rs, m').
     and_then (run_threads disp ths m') (\<lambda>(rs', m''). Inr (rs @ rs', m'')))"

lemma thread_join_eq_Inr:
  "thread_join disp th m = Inr r \<longleftrightarrow>
     run_sqes disp (th_sqes th) (th_cancel_chain th) (th_results th) m = Inr r"
  by (auto simp: thread_join_def split: sum.splits fault.splits)

lemma thread_join_spawn:
  "thread_join disp (thread_spawn sqes) m = Inr r \<longleftrightarrow>
     run_chains disp (link_chains sqes) m = Inr r"
  by (simp add: thread_join_eq_Inr thread_spawn_def run_sqes_chains_both)

text \<open>
  The interface to the dispatcher: it may change the bytes of the user's memory but allocates
  and frees nothing.
\<close>

locale sqe_dispatcher =
  fixes disp :: handler
  assumes disp_dom: "disp sqe m = Inr (r, m') \<Longrightarrow> same_dom m m'"
begin

lemma complete_one_dom: "complete_one disp sqe c m = Inr (cd, c', m') \<Longrightarrow> same_dom m m'"
  by (auto simp: complete_one_def and_then_eq_Inr Let_def intro: disp_dom split: if_splits)

lemma run_sqes_dom: "run_sqes disp ss c rs m = Inr (rs', m') \<Longrightarrow> same_dom m m'"
proof (induction ss arbitrary: c rs m)
  case (Cons s ss)
  then obtain cd c1 m1 where "complete_one disp s c m = Inr (cd, c1, m1)"
    "run_sqes disp ss c1 (rs @ [cd]) m1 = Inr (rs', m')"
    by (auto simp: and_then_eq_Inr)
  with Cons.IH complete_one_dom show ?case by (blast intro: same_dom_trans)
qed simp

lemma run_threads_dom: "run_threads disp ths m = Inr (rs, m') \<Longrightarrow> same_dom m m'"
proof (induction ths arbitrary: rs m)
  case (Cons th ths)
  then obtain rs1 m1 rs2 where "thread_join disp th m = Inr (rs1, m1)"
    "run_threads disp ths m1 = Inr (rs2, m')"
    by (auto simp: and_then_eq_Inr)
  with Cons.IH show ?case by (blast intro: same_dom_trans run_sqes_dom thread_join_eq_Inr [THEN iffD1])
qed simp

end

text \<open>
  A dispatcher that moreover never panics: then \<open>expect\<close> at the join never fires, and a
  thread's run ends with all its results or with undefined behaviour.
\<close>

locale panic_free_dispatcher = sqe_dispatcher +
  assumes disp_no_panic: "no_panic (disp sqe m)"
begin

lemma complete_one_no_panic: "no_panic (complete_one disp sqe c m)"
  unfolding complete_one_def Let_def by (intro no_panic_intros disp_no_panic)

lemma run_sqes_no_panic: "no_panic (run_sqes disp ss c rs m)"
  by (induction ss arbitrary: c rs m) (auto intro!: no_panic_intros complete_one_no_panic)

lemma thread_join_run:
  "thread_join disp th m = run_sqes disp (th_sqes th) (th_cancel_chain th) (th_results th) m"
  using run_sqes_no_panic [of "th_sqes th" "th_cancel_chain th" "th_results th" m]
  by (auto simp: thread_join_def no_panic_def split: sum.splits fault.splits)

lemma run_threads_no_panic: "no_panic (run_threads disp ths m)"
  by (induction ths arbitrary: m) (auto intro!: no_panic_intros run_sqes_no_panic simp: thread_join_run)

end

interpretation kernel: panic_free_dispatcher dispatch_op
  by unfold_locales (auto intro: dispatch_op_same_dom dispatch_op_no_panic)

section \<open>The ring as the submitter sees it\<close>

text \<open>
  What \<open>post_cqe\<close> relies on of the completion entry type: after its raw writes the slot holds
  the completion, whatever was there before.
\<close>

definition write_cqe :: "'c cq_EntryMarker \<Rightarrow> io_uring_cqe \<Rightarrow> 'c \<Rightarrow> 'c exec" where
  "write_cqe cem cqe slot =
     (if cem_size cem > repr_c_size io_uring_cqe_fields
      then cem_zero_extra cem (cem_write_base cem cqe slot) else Inr (cem_write_base cem cqe slot))"

definition cqe_of :: "'c cq_EntryMarker \<Rightarrow> 'c \<Rightarrow> io_uring_cqe" where
  "cqe_of cem e = cq_entry_cqe (cem_into cem e)"

definition cqe_marker_ok :: "'c cq_EntryMarker \<Rightarrow> bool" where
  "cqe_marker_ok cem \<longleftrightarrow> (\<forall>cqe slot. \<exists>e. write_cqe cem cqe slot = Inr e \<and> cqe_of cem e = cqe)"

lemma cqe_size: "repr_c_size io_uring_cqe_fields = 16"
  by (simp add: io_uring_cqe_fields_def layout_simps)

lemma cqe_marker_ok_Entry [simp]: "cqe_marker_ok cq_Entry_marker"
  by (simp add: cqe_marker_ok_def write_cqe_def cqe_of_def cq_Entry_marker_def cqe_size)

lemma cqe_marker_ok_Entry32 [simp]: "cqe_marker_ok cq_Entry32_marker"
  by (simp add: cqe_marker_ok_def write_cqe_def cqe_of_def cq_Entry32_marker_def cqe_size
      cq_Entry_from_Entry32_def)

definition sub_inv :: "('s, 'c) Submitter \<Rightarrow> ('s, 'c) RingMemory \<Rightarrow> bool" where
  "sub_inv sub mem \<longleftrightarrow>
     ring_geom (sub_sq_ring_mask sub + 1) (sub_sq_ring_mask sub) (length (rm_sqes mem))
     \<and> dist (st_sq_head (rm_state mem)) (st_sq_tail (rm_state mem)) \<le> length (rm_sqes mem)
     \<and> ring_geom (sub_cq_ring_entries sub) (sub_cq_ring_mask sub) (length (rm_cqes mem))
     \<and> dist (st_cq_head (rm_state mem)) (st_cq_tail (rm_state mem)) \<le> length (rm_cqes mem)
     \<and> sub_cqe_stride sub = cem_size (sub_cqe_marker sub) \<and> cqe_marker_ok (sub_cqe_marker sub)
     \<and> (st_cq_overflow (rm_state mem) \<noteq> 0 \<longrightarrow> sub_sq_cq_overflow mem)"

definition sq_published :: "('s, 'c) Submitter \<Rightarrow> ('s, 'c) RingMemory \<Rightarrow> io_uring_sqe list" where
  "sq_published sub mem = map (sem_sqe (sub_sqe_marker sub))
     (ring_slice (rm_sqes mem) (sub_sq_ring_mask sub) (st_sq_head (rm_state mem))
        (dist (st_sq_head (rm_state mem)) (st_sq_tail (rm_state mem))))"

definition cq_posted :: "('s, 'c) Submitter \<Rightarrow> ('s, 'c) RingMemory \<Rightarrow> io_uring_cqe list" where
  "cq_posted sub mem = map (cqe_of (sub_cqe_marker sub))
     (ring_slice (rm_cqes mem) (sub_cq_ring_mask sub) (st_cq_head (rm_state mem))
        (dist (st_cq_head (rm_state mem)) (st_cq_tail (rm_state mem))))"

definition cq_free :: "('s, 'c) Submitter \<Rightarrow> ('s, 'c) RingMemory \<Rightarrow> nat" where
  "cq_free sub mem = unat (sub_cq_ring_entries sub)
     - dist (st_cq_head (rm_state mem)) (st_cq_tail (rm_state mem))"

subsection \<open>Reading entries\<close>

text \<open>The snapshot loop is the consumer's end of the submission ring.\<close>

definition sqe_get ::
  "('s, 'c) Submitter \<Rightarrow> u32 \<times> u32 \<times> ('s, 'c) RingMemory \<Rightarrow>
     (io_uring_sqe \<times> u32 \<times> u32 \<times> ('s, 'c) RingMemory) option exec"
where
  "sqe_get sub = (\<lambda>(h, t, mem). if h = t then Inr None
     else and_then (read_sqe sub h mem) (\<lambda>sqe. Inr (Some (sqe, h + 1, t, mem))))"

definition sqe_between :: "('s, 'c) Submitter \<Rightarrow> u32 \<times> u32 \<times> ('s, 'c) RingMemory \<Rightarrow> io_uring_sqe list"
where
  "sqe_between sub = (\<lambda>(h, t, mem). map (sem_sqe (sub_sqe_marker sub))
     (ring_slice (rm_sqes mem) (sub_sq_ring_mask sub) h (dist h t)))"

interpretation sqc: fifo_consumer
  "\<lambda>(h :: u32, t :: u32, mem).
     ring_geom (sub_sq_ring_mask sub + 1) (sub_sq_ring_mask sub) (length (rm_sqes mem))"
  "sqe_between sub" "sqe_get sub"
  for sub :: "('s, 'c) Submitter"
proof (unfold_locales, goal_cases)
  case (1 q)
  obtain h t mem where q: "q = (h, t, mem)" by (cases q)
  with 1 have "length (sqe_between sub (h, t, mem)) = 0" by simp
  with q show ?case by (simp add: sqe_between_def sqe_get_def)
next
  case (2 q x xs)
  obtain h t mem where q: "q = (h, t, mem)" by (cases q)
  with 2 have g: "ring_geom (sub_sq_ring_mask sub + 1) (sub_sq_ring_mask sub) (length (rm_sqes mem))"
    and b: "sqe_between sub (h, t, mem) = x # xs"
    by simp_all
  from b have ne: "h \<noteq> t" by (auto simp: sqe_between_def)
  then have d: "dist h t = Suc (dist (h + 1) t)"
    using dist_Suc_left [of h t] by (simp flip: neq0_conv)
  with b q ne ring_index_less [OF g, of h] g show ?case
    by (simp add: sqe_get_def read_sqe_def sqe_between_def ring_slice_Suc)
qed

lemma snapshot_sqes_get_n:
  "n \<le> dist h t \<Longrightarrow> get_n (sqe_get sub) n (h, t, mem) =
     and_then (snapshot_sqes sub n h mem) (\<lambda>(sqes, h'). Inr (sqes, h', t, mem))"
proof (induction n arbitrary: h)
  case (Suc n)
  then have ne: "h \<noteq> t" by auto
  with Suc have "n \<le> dist (h + 1) t" by (simp add: dist_Suc_left)
  with Suc ne show ?case
    by (simp add: sqe_get_def and_then_assoc split_def)
qed simp

lemma snapshot_sqes_head: "snapshot_sqes sub n h mem = Inr (sqes, h') \<Longrightarrow> h' = h + of_nat n"
proof (induction n arbitrary: h sqes h')
  case (Suc n)
  then obtain sqes' where "snapshot_sqes sub n (h + 1) mem = Inr (sqes', h')"
    by (auto simp: and_then_eq_Inr)
  from Suc.IH [OF this] show ?case by (simp add: algebra_simps)
qed simp

lemma snapshot_sqes_law:
  assumes "ring_geom (sub_sq_ring_mask sub + 1) (sub_sq_ring_mask sub) (length (rm_sqes mem))"
    and n: "n \<le> dist h t"
  shows "snapshot_sqes sub n h mem = Inr (take n (sqe_between sub (h, t, mem)), h + of_nat n)"
proof -
  have "\<exists>q'. get_n (sqe_get sub) n (h, t, mem) = Inr (take n (sqe_between sub (h, t, mem)), q')"
    using sqc.get_n_law [of sub "(h, t, mem)" n] assms(1) by auto
  then obtain h' where "snapshot_sqes sub n h mem = Inr (take n (sqe_between sub (h, t, mem)), h')"
    by (auto simp: snapshot_sqes_get_n [OF n] and_then_eq_Inr)
  with snapshot_sqes_head show ?thesis by blast
qed

lemma unat_min_word: "unat (min a b) = min (unat a) (unat (b :: 'a::len word))"
  by (simp add: min_def word_le_nat_alt)

lemma enqueue_sqes_law:
  fixes k :: u32
  assumes i: "sub_inv sub mem"
  defines "n \<equiv> min (unat k) (length (sq_published sub mem))"
  shows "\<exists>mem'. enqueue_sqes sub k mem = Inr (Inr (of_nat n), mem') \<and> sub_inv sub mem'
     \<and> sq_published sub mem' = drop n (sq_published sub mem)
     \<and> mem' = upd_state (\<lambda>st. st\<lparr>st_sq_head := st_sq_head st + of_nat n,
          st_pending := st_pending st @
            (if n = 0 then [] else [thread_spawn (take n (sq_published sub mem))])\<rparr>) mem"
proof -
  let ?h = "st_sq_head (rm_state mem)" and ?t = "st_sq_tail (rm_state mem)"
  let ?p = "min k (?t - ?h)"
  let ?mem' = "upd_state (\<lambda>st. st\<lparr>st_sq_head := st_sq_head st + of_nat n,
    st_pending := st_pending st @
      (if n = 0 then [] else [thread_spawn (take n (sq_published sub mem))])\<rparr>) mem"
  have pub: "sqe_between sub (?h, ?t, mem) = sq_published sub mem"
    by (simp add: sqe_between_def sq_published_def)
  have len: "length (sq_published sub mem) = dist ?h ?t" by (simp add: sq_published_def)
  have p: "unat ?p = n" by (simp add: n_def len unat_min_word dist_def)
  have pn: "?p = of_nat n" unfolding p [symmetric] by simp
  have n: "n \<le> dist ?h ?t" by (simp add: n_def len)
  from i have g: "ring_geom (sub_sq_ring_mask sub + 1) (sub_sq_ring_mask sub) (length (rm_sqes mem))"
    by (simp add: sub_inv_def)
  have d: "dist (?h + of_nat n) ?t = dist ?h ?t - n" using n by (rule dist_split)
  have "enqueue_sqes sub k mem = Inr (Inr (of_nat n), ?mem')"
  proof (cases "n = 0")
    case True
    then have "?p = 0" using pn by simp
    with True show ?thesis by (simp add: enqueue_sqes_def upd_state_def)
  next
    case False
    then have "?p \<noteq> 0" using p by (metis unat_0)
    moreover have "ucast ?p = (of_nat n :: usize)" unfolding p [symmetric] by simp
    ultimately show ?thesis using False snapshot_sqes_law [OF g n]
      by (simp add: enqueue_sqes_def Let_def p pub upd_state_def)
  qed
  moreover have "sub_inv sub ?mem'"
    using i d by (auto simp: sub_inv_def sub_sq_cq_overflow_def)
  moreover have "sq_published sub ?mem' = drop n (sq_published sub mem)"
    using d n by (simp add: sq_published_def drop_map drop_ring_slice)
  ultimately show ?thesis by blast
qed

subsection \<open>Posting\<close>

text \<open>What posting a completion leaves alone.\<close>

definition post_frame :: "('s, 'c) RingMemory \<Rightarrow> ('s, 'c) RingMemory \<Rightarrow> bool" where
  "post_frame mem mem' \<longleftrightarrow> rm_sqes mem' = rm_sqes mem
     \<and> st_sq_head (rm_state mem') = st_sq_head (rm_state mem)
     \<and> st_sq_tail (rm_state mem') = st_sq_tail (rm_state mem)
     \<and> st_sq_dropped (rm_state mem') = st_sq_dropped (rm_state mem)
     \<and> st_cq_head (rm_state mem') = st_cq_head (rm_state mem)
     \<and> st_cq_flags (rm_state mem') = st_cq_flags (rm_state mem)
     \<and> st_pending (rm_state mem') = st_pending (rm_state mem)
     \<and> length (rm_cqes mem') = length (rm_cqes mem)"

lemma post_frame_refl [simp]: "post_frame mem mem"
  by (simp add: post_frame_def)

lemma post_frame_trans: "post_frame a b \<Longrightarrow> post_frame b c \<Longrightarrow> post_frame a c"
  by (simp add: post_frame_def)

lemma length_cq_posted:
  "length (cq_posted sub mem) = dist (st_cq_head (rm_state mem)) (st_cq_tail (rm_state mem))"
  by (simp add: cq_posted_def)

lemma or_flag_ne_0: "b \<noteq> 0 \<Longrightarrow> (a OR b) AND b \<noteq> (0 :: 'a::len word)"
proof
  assume "b \<noteq> 0" "(a OR b) AND b = 0"
  then have "b AND b = 0" by (simp add: bit.conj_disj_distrib2 or_eq_0_iff)
  with \<open>b \<noteq> 0\<close> show False by simp
qed

lemma post_cqe_full:
  assumes i: "sub_inv sub mem" and f: "cq_free sub mem = 0"
  obtains mem' where "post_cqe sub u r fl mem = Inr mem'" "sub_inv sub mem'"
    "rm_cqes mem' = rm_cqes mem" "st_cq_tail (rm_state mem') = st_cq_tail (rm_state mem)"
    "st_cq_overflow (rm_state mem') = st_cq_overflow (rm_state mem) + 1" "post_frame mem mem'"
    "sub_sq_cq_overflow mem'"
proof -
  have full: "st_cq_tail (rm_state mem) - st_cq_head (rm_state mem) \<ge> sub_cq_ring_entries sub"
    using f by (simp add: cq_free_def dist_def word_le_nat_alt)
  have nz: "IORING_SQ_CQ_OVERFLOW \<noteq> 0" by (simp add: sys_consts)
  let ?o = "st_cq_overflow (rm_state mem)"
  let ?m1 = "upd_state (\<lambda>st. st\<lparr>st_cq_overflow := ?o + 1\<rparr>) mem"
  let ?mem' = "if ?o = 0 then upd_state (\<lambda>st. st\<lparr>st_sq_flags :=
      st_sq_flags st OR IORING_SQ_CQ_OVERFLOW\<rparr>) ?m1 else ?m1"
  have "post_cqe sub u r fl mem = Inr ?mem'" using full by (simp add: post_cqe_def Let_def)
  moreover have o: "sub_sq_cq_overflow ?mem'"
    using i nz by (auto simp: sub_inv_def sub_sq_cq_overflow_def or_flag_ne_0)
  moreover have "sub_inv sub ?mem'" using i o by (auto simp: sub_inv_def)
  ultimately show ?thesis by (intro that [of ?mem']) (auto simp: post_frame_def)
qed

lemma post_cqe_room:
  assumes i: "sub_inv sub mem" and f: "0 < cq_free sub mem"
  obtains e where
    "post_cqe sub u r fl mem =
       Inr (upd_state (\<lambda>st. st\<lparr>st_cq_tail := st_cq_tail st + 1\<rparr>)
         (mem\<lparr>rm_cqes := (rm_cqes mem)
            [ring_index (sub_cq_ring_mask sub) (st_cq_tail (rm_state mem)) := e]\<rparr>))"
    "cqe_of (sub_cqe_marker sub) e = \<lparr>cqe_user_data = u, cqe_res = r, cqe_flags = fl\<rparr>"
    "write_cqe (sub_cqe_marker sub) \<lparr>cqe_user_data = u, cqe_res = r, cqe_flags = fl\<rparr>
       (rm_cqes mem ! ring_index (sub_cq_ring_mask sub) (st_cq_tail (rm_state mem))) = Inr e"
proof -
  let ?i = "ring_index (sub_cq_ring_mask sub) (st_cq_tail (rm_state mem))"
  let ?cqe = "\<lparr>cqe_user_data = u, cqe_res = r, cqe_flags = fl\<rparr>"
  from i have g: "ring_geom (sub_cq_ring_entries sub) (sub_cq_ring_mask sub) (length (rm_cqes mem))"
    and s: "sub_cqe_stride sub = cem_size (sub_cqe_marker sub)"
    and ok: "cqe_marker_ok (sub_cqe_marker sub)"
    by (simp_all add: sub_inv_def)
  from ok obtain e where e: "write_cqe (sub_cqe_marker sub) ?cqe (rm_cqes mem ! ?i) = Inr e"
    "cqe_of (sub_cqe_marker sub) e = ?cqe"
    unfolding cqe_marker_ok_def by blast
  have "\<not> st_cq_tail (rm_state mem) - st_cq_head (rm_state mem) \<ge> sub_cq_ring_entries sub"
    using f by (simp add: cq_free_def dist_def word_le_nat_alt)
  with e ring_index_less [OF g] s show ?thesis
    by (intro that [of e]) (auto simp: post_cqe_def Let_def write_cqe_def upd_state_def)
qed

lemma post_cqe_law:
  assumes i: "sub_inv sub mem"
  shows "\<exists>mem'. post_cqe sub u r fl mem = Inr mem' \<and> sub_inv sub mem'
     \<and> cq_posted sub mem' = (if 0 < cq_free sub mem
         then cq_posted sub mem @ [\<lparr>cqe_user_data = u, cqe_res = r, cqe_flags = fl\<rparr>]
         else cq_posted sub mem)
     \<and> cq_free sub mem' = cq_free sub mem - 1
     \<and> st_cq_overflow (rm_state mem') =
         st_cq_overflow (rm_state mem) + (if 0 < cq_free sub mem then 0 else 1)
     \<and> post_frame mem mem'"
proof (cases "cq_free sub mem = 0")
  case True
  obtain mem' where "post_cqe sub u r fl mem = Inr mem'" "sub_inv sub mem'"
    "rm_cqes mem' = rm_cqes mem" "st_cq_tail (rm_state mem') = st_cq_tail (rm_state mem)"
    "st_cq_overflow (rm_state mem') = st_cq_overflow (rm_state mem) + 1" "post_frame mem mem'"
    using post_cqe_full [OF i True] by blast
  with True show ?thesis by (auto simp: cq_posted_def cq_free_def post_frame_def)
next
  case False
  let ?h = "st_cq_head (rm_state mem)" and ?t = "st_cq_tail (rm_state mem)"
  from i have g: "ring_geom (sub_cq_ring_entries sub) (sub_cq_ring_mask sub) (length (rm_cqes mem))"
    by (simp add: sub_inv_def)
  from False ring_geom_entries [OF g] have lt: "dist ?h ?t < length (rm_cqes mem)"
    "length (rm_cqes mem) \<le> 2 ^ 31" "length (rm_cqes mem) = unat (sub_cq_ring_entries sub)"
    by (simp_all add: cq_free_def)
  then have s: "dist ?h (?t + 1) = Suc (dist ?h ?t)" by (simp add: dist_Suc_right)
  from False have "0 < cq_free sub mem" by simp
  then obtain e where e: "post_cqe sub u r fl mem =
      Inr (upd_state (\<lambda>st. st\<lparr>st_cq_tail := st_cq_tail st + 1\<rparr>)
        (mem\<lparr>rm_cqes := (rm_cqes mem)[ring_index (sub_cq_ring_mask sub) ?t := e]\<rparr>))"
    "cqe_of (sub_cqe_marker sub) e = \<lparr>cqe_user_data = u, cqe_res = r, cqe_flags = fl\<rparr>"
    using post_cqe_room [OF i] by blast
  from ring_slice_put [OF g lt(1), of ?h e] e(2) s lt i False show ?thesis
    unfolding e(1)
    by (auto simp: cq_posted_def cq_free_def sub_inv_def sub_sq_cq_overflow_def post_frame_def)
qed

text \<open>\<open>post_cqe\<close> on a whole completion, the producer's end of the completion ring.\<close>

definition cqe_put ::
  "('s, 'c) Submitter \<Rightarrow> io_uring_cqe \<Rightarrow> ('s, 'c) RingMemory \<Rightarrow> ('s, 'c) RingMemory exec" where
  "cqe_put sub cqe mem = post_cqe sub (cqe_user_data cqe) (cqe_res cqe) (cqe_flags cqe) mem"

interpretation cqp: counting_producer "sub_inv sub" "cq_posted sub" "cq_free sub" "cqe_put sub"
  cqueue_overflow
  for sub :: "('s, 'c) Submitter"
proof unfold_locales
  fix mem :: "('s, 'c) RingMemory" and cqe
  assume "sub_inv sub mem"
  from post_cqe_law [OF this, of "cqe_user_data cqe" "cqe_res cqe" "cqe_flags cqe"]
  show "\<exists>q'. cqe_put sub cqe mem = Inr q' \<and> sub_inv sub q'
      \<and> cq_posted sub q' = (if 0 < cq_free sub mem then cq_posted sub mem @ [cqe] else cq_posted sub mem)
      \<and> cq_free sub q' = cq_free sub mem - 1"
    unfolding cqe_put_def by auto
next
  fix mem mem' :: "('s, 'c) RingMemory" and cqe
  assume "sub_inv sub mem" "cqe_put sub cqe mem = Inr mem'"
  with post_cqe_law [of sub mem "cqe_user_data cqe" "cqe_res cqe" "cqe_flags cqe"]
  show "cqueue_overflow mem' = cqueue_overflow mem + (if 0 < cq_free sub mem then 0 else 1)"
    by (auto simp: cqe_put_def cqueue_overflow_def)
qed

lemma put_all_frame:
  "sub_inv sub mem \<Longrightarrow> put_all (cqe_put sub) cqes mem = Inr mem' \<Longrightarrow> post_frame mem mem'"
proof (induction cqes arbitrary: mem)
  case (Cons cqe cqes)
  then obtain mem1 where 1: "cqe_put sub cqe mem = Inr mem1" "put_all (cqe_put sub) cqes mem1 = Inr mem'"
    by (auto simp: and_then_eq_Inr)
  with post_cqe_law [OF Cons.prems(1), of "cqe_user_data cqe" "cqe_res cqe" "cqe_flags cqe"]
  have "sub_inv sub mem1" "post_frame mem mem1" by (auto simp: cqe_put_def)
  with Cons.IH 1 show ?case by (blast intro: post_frame_trans)
qed simp

section \<open>Joining\<close>

text \<open>The completions a list of results becomes: successes with the skip flag are left out.\<close>

definition visible :: "CompletionData \<Rightarrow> bool" where
  "visible cd \<longleftrightarrow> \<not> (cd_skip_success cd \<and> sint (cd_result cd) \<ge> 0)"

definition cqe_of_cd :: "CompletionData \<Rightarrow> io_uring_cqe" where
  "cqe_of_cd cd = \<lparr>cqe_user_data = cd_user_data cd, cqe_res = cd_result cd, cqe_flags = 0\<rparr>"

definition cqes_of :: "CompletionData list \<Rightarrow> io_uring_cqe list" where
  "cqes_of cds = map cqe_of_cd (filter visible cds)"

lemma cqes_of_Nil [simp]: "cqes_of [] = []"
  by (simp add: cqes_of_def)

lemma cqes_of_append [simp]: "cqes_of (xs @ ys) = cqes_of xs @ cqes_of ys"
  by (simp add: cqes_of_def)

lemma post_results_put_all: "post_results sub cds mem = put_all (cqe_put sub) (cqes_of cds) mem"
  by (induction cds arbitrary: mem)
    (auto simp: cqes_of_def visible_def cqe_of_cd_def cqe_put_def intro!: arg_cong2 [where f = and_then])

lemma put_all_append:
  "put_all put (xs @ ys) q = and_then (put_all put xs q) (put_all put ys)"
  by (induction xs arbitrary: q) (auto simp: and_then_assoc intro!: arg_cong2 [where f = and_then])

lemma put_all_total:
  assumes "sub_inv sub mem"
  obtains mem' where "put_all (cqe_put sub) cqes mem = Inr mem'" "sub_inv sub mem'"
  using cqp.put_all_law [OF assms] by blast

lemma flush_batches_law:
  "sub_inv sub mem \<Longrightarrow> flush_batches sub ths mem m =
     and_then (run_threads dispatch_op ths m) (\<lambda>(rs, m').
       and_then (put_all (cqe_put sub) (cqes_of rs) mem) (\<lambda>mem'. Inr (mem', m')))"
proof (induction ths arbitrary: mem m)
  case (Cons th ths)
  show ?case
  proof (cases "thread_join dispatch_op th m")
    case (Inr r)
    obtain rs m1 where r: "r = (rs, m1)" by (cases r)
    obtain mem1 where "put_all (cqe_put sub) (cqes_of rs) mem = Inr mem1" "sub_inv sub mem1"
      using Cons.prems by (rule put_all_total)
    with Inr r Cons.IH show ?thesis
      by (auto simp: post_results_put_all and_then_assoc split_def put_all_append
          intro!: arg_cong2 [where f = and_then])
  qed simp
qed simp

lemma sub_inv_clear_pending [simp]:
  "sub_inv sub (upd_state (\<lambda>st. st\<lparr>st_pending := ths\<rparr>) mem) = sub_inv sub mem"
  by (simp add: sub_inv_def sub_sq_cq_overflow_def)

lemma cq_clear_pending [simp]:
  "cq_posted sub (upd_state (\<lambda>st. st\<lparr>st_pending := ths\<rparr>) mem) = cq_posted sub mem"
  "cq_free sub (upd_state (\<lambda>st. st\<lparr>st_pending := ths\<rparr>) mem) = cq_free sub mem"
  "cqueue_overflow (upd_state (\<lambda>st. st\<lparr>st_pending := ths\<rparr>) mem) = cqueue_overflow mem"
  by (simp_all add: cq_posted_def cq_free_def cqueue_overflow_def)

lemma flush_pending_law:
  assumes i: "sub_inv sub mem"
    and r: "run_threads dispatch_op (st_pending (rm_state mem)) m = Inr (rs, m')"
  shows "\<exists>mem'. flush_pending sub mem m = Inr (mem', m') \<and> sub_inv sub mem'
     \<and> cq_posted sub mem' = cq_posted sub mem @ take (cq_free sub mem) (cqes_of rs)
     \<and> cqueue_overflow mem' = cqueue_overflow mem + of_nat (length (cqes_of rs) - cq_free sub mem)
     \<and> st_pending (rm_state mem') = []
     \<and> rm_sqes mem' = rm_sqes mem
     \<and> st_sq_head (rm_state mem') = st_sq_head (rm_state mem)
     \<and> st_sq_tail (rm_state mem') = st_sq_tail (rm_state mem)
     \<and> st_cq_head (rm_state mem') = st_cq_head (rm_state mem)"
proof -
  let ?mem = "upd_state (\<lambda>st. st\<lparr>st_pending := []\<rparr>) mem"
  have i': "sub_inv sub ?mem" using i by simp
  from cqp.put_all_law [OF i', of "cqes_of rs"] obtain mem' where
    1: "put_all (cqe_put sub) (cqes_of rs) ?mem = Inr mem'" and 2: "sub_inv sub mem'"
      "cq_posted sub mem' = cq_posted sub mem @ take (cq_free sub mem) (cqes_of rs)"
    by auto
  have "cqueue_overflow mem' = cqueue_overflow mem + of_nat (length (cqes_of rs) - cq_free sub mem)"
    using cqp.put_all_lost [OF i' 1] by simp
  moreover have "post_frame ?mem mem'" using i' 1 by (rule put_all_frame)
  moreover have "flush_pending sub mem m = Inr (mem', m')"
    by (simp add: flush_pending_def flush_batches_law [OF i'] r 1)
  ultimately show ?thesis using 2 by (auto simp: post_frame_def)
qed

lemma flush_pending_fault:
  "sub_inv sub mem \<Longrightarrow> run_threads dispatch_op (st_pending (rm_state mem)) m = Inl e \<Longrightarrow>
     flush_pending sub mem m = Inl e"
  by (simp add: flush_pending_def flush_batches_law)

section \<open>Queue handles that are alive across a call\<close>

text \<open>
  \<open>IoUring::split\<close> hands out the submitter together with both queue handles, so a call can run
  while the handles hold cached positions.
\<close>

lemma enqueue_sqes_handle:
  fixes k :: u32
  assumes i: "sub_inv sub mem" and v: "sq_view sq mem"
    and e: "enqueue_sqes sub k mem = Inr (r, mem')"
  defines "n \<equiv> min (unat k) (length (sq_published sub mem))"
  shows "sq_view sq mem'" "sq_unconsumed sq mem' = drop n (sq_unconsumed sq mem)"
proof -
  let ?h = "st_sq_head (rm_state mem)" and ?t = "st_sq_tail (rm_state mem)"
  have mem': "rm_sqes mem' = rm_sqes mem" "st_sq_tail (rm_state mem') = ?t"
    "st_sq_head (rm_state mem') = ?h + of_nat n"
    using enqueue_sqes_law [OF i, of k] e by (auto simp: n_def)
  have n: "n \<le> dist ?h ?t" by (simp add: n_def sq_published_def)
  note d = sq_view_dist [OF v] and g = sq_view_entries [OF v]
  have n32: "n < 2 ^ 32" using n dist_less [of ?h ?t] by simp
  have "dist (sq_head sq) (?h + of_nat n) = dist (sq_head sq) ?h + n"
    using dist_chain [of "sq_head sq" ?h "?h + of_nat n"] v g n dist_add [OF n32, of ?h]
    by (simp add: sq_view_def)
  moreover have 2: "dist (?h + of_nat n) ?t = dist ?h ?t - n" using n by (rule dist_split)
  ultimately show "sq_view sq mem'" using v n mem' by (simp add: sq_view_def)
  have "n \<le> dist ?h (sq_tail sq)" using n d by simp
  then show "sq_unconsumed sq mem' = drop n (sq_unconsumed sq mem)"
    by (simp add: sq_unconsumed_def mem' drop_ring_slice dist_split)
qed

lemma cq_ready_take:
  "cq_view cq mem \<Longrightarrow> cq_ready cq mem = take (dist (cq_head cq) (cq_tail cq)) (cq_unread cq mem)"
  using cq_view_dist(2) [of cq mem] by (simp add: cq_ready_def cq_unread_def take_ring_slice)

lemma post_cqe_handle:
  assumes i: "sub_inv sub mem" and v: "cq_view cq mem"
    and q: "cq_queue cq = \<lparr>cqi_ring_mask = sub_cq_ring_mask sub, cqi_ring_entries = sub_cq_ring_entries sub\<rparr>"
    and p: "post_cqe sub u r fl mem = Inr mem'"
  shows "cq_view cq mem' \<and> cq_ready cq mem' = cq_ready cq mem
    \<and> map (cqe_of (sub_cqe_marker sub)) (cq_unread cq mem') =
        map (cqe_of (sub_cqe_marker sub)) (cq_unread cq mem)
        @ (if 0 < cq_free sub mem then [\<lparr>cqe_user_data = u, cqe_res = r, cqe_flags = fl\<rparr>] else [])"
proof (cases "cq_free sub mem = 0")
  case True
  have "rm_cqes mem' = rm_cqes mem" "st_cq_tail (rm_state mem') = st_cq_tail (rm_state mem)"
    "post_frame mem mem'"
    using post_cqe_full [OF i True, of u r fl] p by auto
  with v True show ?thesis by (simp add: cq_view_def cq_ready_def cq_unread_def post_frame_def)
next
  case False
  let ?h = "cq_head cq" and ?t = "st_cq_tail (rm_state mem)" and ?m = "sub_cq_ring_mask sub"
  from False have "0 < cq_free sub mem" by simp
  then obtain e where e: "mem' = upd_state (\<lambda>st. st\<lparr>st_cq_tail := st_cq_tail st + 1\<rparr>)
      (mem\<lparr>rm_cqes := (rm_cqes mem)[ring_index ?m ?t := e]\<rparr>)"
    "cqe_of (sub_cqe_marker sub) e = \<lparr>cqe_user_data = u, cqe_res = r, cqe_flags = fl\<rparr>"
    using post_cqe_room [OF i, of u r fl] p by auto
  note d = cq_view_dist [OF v] and n = cq_view_entries [OF v] and g = cq_view_geom [OF v]
  from False d q n have lt: "dist ?h ?t < length (rm_cqes mem)" by (simp add: cq_free_def)
  have s: "dist ?h (?t + 1) = Suc (dist ?h ?t)"
    "dist (cq_tail cq) (?t + 1) = Suc (dist (cq_tail cq) ?t)"
    using lt n d by (simp_all add: dist_Suc_right)
  have "cq_unread cq mem' = cq_unread cq mem @ [e]"
    using ring_slice_put [OF g lt, of ?h e] s q by (simp add: cq_unread_def e(1))
  moreover have v': "cq_view cq mem'"
    using v s False q d by (simp add: cq_view_def e(1) cq_free_def)
  moreover have "cq_ready cq mem' = cq_ready cq mem"
    using calculation(1) d(2) by (simp add: cq_ready_take [OF v] cq_ready_take [OF v'] cq_unread_def)
  ultimately show ?thesis using e(2) False by simp
qed

end
