(* ===== verification/Miring_Ring.thy ===== *)
theory Miring_Ring
  imports Miring_Submit_Laws
begin

text \<open>
  \<^verbatim>\<open>src/lib.rs\<close>: \<open>Builder\<close>, \<open>Parameters\<close> and \<open>IoUring\<close>.  The type
  parameters \<open>S\<close> and \<open>C\<close> of the source are the two markers an operation takes.  The
  heap memory of a ring is a field of the ring, so an operation on \<open>&self\<close> that changes it
  returns the ring.  \<open>ring_inv\<close> is the invariant of a ring; \<open>build\<close> establishes it and
  every operation keeps it.
\<close>

section \<open>Types\<close>

datatype Parameters = Parameters (parameters_0: io_uring_params)

datatype Builder = Builder (builder_params: io_uring_params)

record ('s, 'c) IoUring =
  ring_sq :: sq_Inner
  ring_cq :: cq_Inner
  ring_params :: Parameters
  ring_memory :: "('s, 'c) RingMemory"

section \<open>Builder\<close>

definition Builder_default :: "'s sq_EntryMarker \<Rightarrow> 'c cq_EntryMarker \<Rightarrow> Builder" where
  "Builder_default S C = Builder (io_uring_params_default
     \<lparr>prm_flags := sem_BUILD_FLAGS S OR cem_BUILD_FLAGS C\<rparr>)"

definition builder_or_flags :: "u32 \<Rightarrow> Builder \<Rightarrow> Builder" where
  "builder_or_flags f b = Builder ((builder_params b)\<lparr>prm_flags := prm_flags (builder_params b) OR f\<rparr>)"

definition setup_iopoll :: "Builder \<Rightarrow> Builder" where
  "setup_iopoll b = builder_or_flags IORING_SETUP_IOPOLL b"

definition setup_sqpoll :: "Builder \<Rightarrow> u32 \<Rightarrow> Builder" where
  "setup_sqpoll b idle = Builder ((builder_params (builder_or_flags IORING_SETUP_SQPOLL b))
     \<lparr>prm_sq_thread_idle := idle\<rparr>)"

definition setup_sqpoll_cpu :: "Builder \<Rightarrow> u32 \<Rightarrow> Builder" where
  "setup_sqpoll_cpu b cpu = Builder ((builder_params (builder_or_flags IORING_SETUP_SQ_AFF b))
     \<lparr>prm_sq_thread_cpu := cpu\<rparr>)"

definition setup_cqsize :: "Builder \<Rightarrow> u32 \<Rightarrow> Builder" where
  "setup_cqsize b entries = Builder ((builder_params (builder_or_flags IORING_SETUP_CQSIZE b))
     \<lparr>prm_cq_entries := entries\<rparr>)"

definition setup_clamp :: "Builder \<Rightarrow> Builder" where
  "setup_clamp b = builder_or_flags IORING_SETUP_CLAMP b"

definition setup_attach_wq :: "Builder \<Rightarrow> i32 \<Rightarrow> Builder" where
  "setup_attach_wq b fd = Builder ((builder_params (builder_or_flags IORING_SETUP_ATTACH_WQ b))
     \<lparr>prm_wq_fd := fd\<rparr>)"

definition setup_r_disabled :: "Builder \<Rightarrow> Builder" where
  "setup_r_disabled b = builder_or_flags IORING_SETUP_R_DISABLED b"

definition setup_submit_all :: "Builder \<Rightarrow> Builder" where
  "setup_submit_all b = builder_or_flags IORING_SETUP_SUBMIT_ALL b"

definition setup_coop_taskrun :: "Builder \<Rightarrow> Builder" where
  "setup_coop_taskrun b = builder_or_flags IORING_SETUP_COOP_TASKRUN b"

definition setup_taskrun_flag :: "Builder \<Rightarrow> Builder" where
  "setup_taskrun_flag b = builder_or_flags IORING_SETUP_TASKRUN_FLAG b"

definition setup_defer_taskrun :: "Builder \<Rightarrow> Builder" where
  "setup_defer_taskrun b = builder_or_flags IORING_SETUP_DEFER_TASKRUN b"

definition setup_single_issuer :: "Builder \<Rightarrow> Builder" where
  "setup_single_issuer b = builder_or_flags IORING_SETUP_SINGLE_ISSUER b"

definition dontfork :: "Builder \<Rightarrow> Builder" where
  "dontfork b = b"

text \<open>The two entry counts: an error, a panic of \<open>next_power_of_two\<close>, or a size.\<close>

definition build_cq_entries :: "io_uring_params \<Rightarrow> u32 \<Rightarrow> u32 io_Result exec" where
  "build_cq_entries params sq_entries =
     (if prm_flags params AND IORING_SETUP_CQSIZE \<noteq> 0
      then let cq = prm_cq_entries params in
        if cq = 0 then Inr (Inl InvalidInput)
        else and_then (next_power_of_two cq) (\<lambda>n. Inr (Inr n))
      else and_then (rust_mul sq_entries 2) (\<lambda>n. Inr (Inr (min n (push_bit 16 1)))))"

definition build_features :: u32 where
  "build_features = IORING_FEAT_SINGLE_MMAP OR IORING_FEAT_NODROP OR IORING_FEAT_SUBMIT_STABLE
     OR IORING_FEAT_RW_CUR_POS OR IORING_FEAT_CUR_PERSONALITY OR IORING_FEAT_FAST_POLL
     OR IORING_FEAT_POLL_32BITS OR IORING_FEAT_SQPOLL_NONFIXED OR IORING_FEAT_EXT_ARG
     OR IORING_FEAT_NATIVE_WORKERS OR IORING_FEAT_RSRC_TAGS OR IORING_FEAT_CQE_SKIP
     OR IORING_FEAT_LINKED_FILE OR IORING_FEAT_REG_REG_RING"

definition new_RingState :: RingState where
  "new_RingState = \<lparr>st_sq_head = 0, st_sq_tail = 0, st_sq_flags = 0, st_sq_dropped = 0,
     st_cq_head = 0, st_cq_tail = 0, st_cq_overflow = 0, st_cq_flags = 0, st_pending = []\<rparr>"

definition Builder_build ::
  "'s sq_EntryMarker \<Rightarrow> 'c cq_EntryMarker \<Rightarrow> Builder \<Rightarrow> u32 \<Rightarrow> ('s, 'c) IoUring io_Result exec"
where
  "Builder_build S C b entries =
     (if entries = 0 \<or> entries > push_bit 15 1 then Inr (Inl InvalidInput)
      else and_then (next_power_of_two entries) (\<lambda>sq_entries.
        and_then (build_cq_entries (builder_params b) sq_entries) (\<lambda>r. case r of
          Inl e \<Rightarrow> Inr (Inl e)
        | Inr cq_entries \<Rightarrow>
            and_then (rust_sub sq_entries 1) (\<lambda>sq_ring_mask.
            and_then (rust_sub cq_entries 1) (\<lambda>cq_ring_mask.
              let sqes = replicate (unat sq_entries) (sem_zeroed S);
                  cqes = replicate (unat cq_entries) (cem_zeroed C);
                  params = Parameters \<lparr>prm_sq_entries = sq_entries, prm_cq_entries = cq_entries,
                    prm_flags = prm_flags (builder_params b),
                    prm_sq_thread_cpu = prm_sq_thread_cpu (builder_params b),
                    prm_sq_thread_idle = prm_sq_thread_idle (builder_params b),
                    prm_features = build_features, prm_wq_fd = prm_wq_fd (builder_params b),
                    prm_resv = [0, 0, 0], prm_sq_off = io_sqring_offsets_default,
                    prm_cq_off = io_cqring_offsets_default\<rparr>
              in Inr (Inr \<lparr>ring_sq = \<lparr>sqi_ring_mask = sq_ring_mask, sqi_ring_entries = sq_entries\<rparr>,
                   ring_cq = \<lparr>cqi_ring_mask = cq_ring_mask, cqi_ring_entries = cq_entries\<rparr>,
                   ring_params = params,
                   ring_memory = \<lparr>rm_state = new_RingState, rm_sqes = sqes, rm_cqes = cqes\<rparr>\<rparr>))))))"

section \<open>Parameters\<close>

definition prm_has_flag :: "u32 \<Rightarrow> Parameters \<Rightarrow> bool" where
  "prm_has_flag f p \<longleftrightarrow> prm_flags (parameters_0 p) AND f \<noteq> 0"

definition prm_has_feature :: "u32 \<Rightarrow> Parameters \<Rightarrow> bool" where
  "prm_has_feature f p \<longleftrightarrow> prm_features (parameters_0 p) AND f \<noteq> 0"

definition is_setup_sqpoll :: "Parameters \<Rightarrow> bool" where
  "is_setup_sqpoll p \<longleftrightarrow> prm_has_flag IORING_SETUP_SQPOLL p"
definition is_setup_iopoll :: "Parameters \<Rightarrow> bool" where
  "is_setup_iopoll p \<longleftrightarrow> prm_has_flag IORING_SETUP_IOPOLL p"
definition is_setup_single_issuer :: "Parameters \<Rightarrow> bool" where
  "is_setup_single_issuer p \<longleftrightarrow> prm_has_flag IORING_SETUP_SINGLE_ISSUER p"
definition is_feature_single_mmap :: "Parameters \<Rightarrow> bool" where
  "is_feature_single_mmap p \<longleftrightarrow> prm_has_feature IORING_FEAT_SINGLE_MMAP p"
definition is_feature_nodrop :: "Parameters \<Rightarrow> bool" where
  "is_feature_nodrop p \<longleftrightarrow> prm_has_feature IORING_FEAT_NODROP p"
definition is_feature_submit_stable :: "Parameters \<Rightarrow> bool" where
  "is_feature_submit_stable p \<longleftrightarrow> prm_has_feature IORING_FEAT_SUBMIT_STABLE p"
definition is_feature_rw_cur_pos :: "Parameters \<Rightarrow> bool" where
  "is_feature_rw_cur_pos p \<longleftrightarrow> prm_has_feature IORING_FEAT_RW_CUR_POS p"
definition is_feature_cur_personality :: "Parameters \<Rightarrow> bool" where
  "is_feature_cur_personality p \<longleftrightarrow> prm_has_feature IORING_FEAT_CUR_PERSONALITY p"
definition is_feature_fast_poll :: "Parameters \<Rightarrow> bool" where
  "is_feature_fast_poll p \<longleftrightarrow> prm_has_feature IORING_FEAT_FAST_POLL p"
definition is_feature_poll_32bits :: "Parameters \<Rightarrow> bool" where
  "is_feature_poll_32bits p \<longleftrightarrow> prm_has_feature IORING_FEAT_POLL_32BITS p"
definition is_feature_sqpoll_nonfixed :: "Parameters \<Rightarrow> bool" where
  "is_feature_sqpoll_nonfixed p \<longleftrightarrow> prm_has_feature IORING_FEAT_SQPOLL_NONFIXED p"
definition is_feature_ext_arg :: "Parameters \<Rightarrow> bool" where
  "is_feature_ext_arg p \<longleftrightarrow> prm_has_feature IORING_FEAT_EXT_ARG p"
definition is_feature_native_workers :: "Parameters \<Rightarrow> bool" where
  "is_feature_native_workers p \<longleftrightarrow> prm_has_feature IORING_FEAT_NATIVE_WORKERS p"
definition is_feature_resource_tagging :: "Parameters \<Rightarrow> bool" where
  "is_feature_resource_tagging p \<longleftrightarrow> prm_has_feature IORING_FEAT_RSRC_TAGS p"
definition is_feature_skip_cqe_on_success :: "Parameters \<Rightarrow> bool" where
  "is_feature_skip_cqe_on_success p \<longleftrightarrow> prm_has_feature IORING_FEAT_CQE_SKIP p"
definition is_feature_linked_file :: "Parameters \<Rightarrow> bool" where
  "is_feature_linked_file p \<longleftrightarrow> prm_has_feature IORING_FEAT_LINKED_FILE p"
definition is_feature_recvsend_bundle :: "Parameters \<Rightarrow> bool" where
  "is_feature_recvsend_bundle p \<longleftrightarrow> prm_has_feature IORING_FEAT_RECVSEND_BUNDLE p"
definition is_feature_min_timeout :: "Parameters \<Rightarrow> bool" where
  "is_feature_min_timeout p \<longleftrightarrow> prm_has_feature IORING_FEAT_MIN_TIMEOUT p"
definition params_sq_entries :: "Parameters \<Rightarrow> u32" where
  "params_sq_entries p = prm_sq_entries (parameters_0 p)"
definition params_sq_thread_idle :: "Parameters \<Rightarrow> u32" where
  "params_sq_thread_idle p = prm_sq_thread_idle (parameters_0 p)"
definition params_cq_entries :: "Parameters \<Rightarrow> u32" where
  "params_cq_entries p = prm_cq_entries (parameters_0 p)"

section \<open>The ring\<close>

definition IoUring_builder :: "'s sq_EntryMarker \<Rightarrow> 'c cq_EntryMarker \<Rightarrow> Builder" where
  "IoUring_builder S C = Builder_default S C"

definition IoUring_new :: "u32 \<Rightarrow> (Entry, cq_Entry) IoUring io_Result exec" where
  "IoUring_new entries = Builder_build Entry_marker cq_Entry_marker
     (IoUring_builder Entry_marker cq_Entry_marker) entries"

definition IoUring_submitter ::
  "'s sq_EntryMarker \<Rightarrow> 'c cq_EntryMarker \<Rightarrow> ('s, 'c) IoUring \<Rightarrow> ('s, 'c) Submitter"
where
  "IoUring_submitter S C ring = \<lparr>sub_params = parameters_0 (ring_params ring),
     sub_sq_ring_mask = sqi_ring_mask (ring_sq ring), sub_sqe_marker = S,
     sub_sqe_stride = sem_size S, sub_cq_ring_mask = cqi_ring_mask (ring_cq ring),
     sub_cq_ring_entries = cqi_ring_entries (ring_cq ring), sub_cqe_marker = C,
     sub_cqe_stride = cem_size C\<rparr>"

definition IoUring_params :: "('s, 'c) IoUring \<Rightarrow> Parameters" where
  "IoUring_params ring = ring_params ring"

definition IoUring_submit_and_wait ::
  "'s sq_EntryMarker \<Rightarrow> 'c cq_EntryMarker \<Rightarrow> usize \<Rightarrow> ('s, 'c) IoUring \<Rightarrow> umem \<Rightarrow>
     (usize io_Result \<times> ('s, 'c) IoUring \<times> umem) exec"
where
  "IoUring_submit_and_wait S C want ring m =
     and_then (submitter_submit_and_wait (IoUring_submitter S C ring) want (ring_memory ring) m)
       (\<lambda>(r, mem, m'). Inr (r, ring\<lparr>ring_memory := mem\<rparr>, m'))"

definition IoUring_submit ::
  "'s sq_EntryMarker \<Rightarrow> 'c cq_EntryMarker \<Rightarrow> ('s, 'c) IoUring \<Rightarrow> umem \<Rightarrow>
     (usize io_Result \<times> ('s, 'c) IoUring \<times> umem) exec"
where
  "IoUring_submit S C ring m =
     and_then (submitter_submit (IoUring_submitter S C ring) (ring_memory ring) m)
       (\<lambda>(r, mem, m'). Inr (r, ring\<lparr>ring_memory := mem\<rparr>, m'))"

definition IoUring_flush_pending ::
  "'s sq_EntryMarker \<Rightarrow> 'c cq_EntryMarker \<Rightarrow> ('s, 'c) IoUring \<Rightarrow> umem \<Rightarrow>
     (('s, 'c) IoUring \<times> umem) exec"
where
  "IoUring_flush_pending S C ring m =
     and_then (flush_pending (IoUring_submitter S C ring) (ring_memory ring) m)
       (\<lambda>(mem, m'). Inr (ring\<lparr>ring_memory := mem\<rparr>, m'))"

definition IoUring_split ::
  "'s sq_EntryMarker \<Rightarrow> 'c cq_EntryMarker \<Rightarrow> ('s, 'c) IoUring \<Rightarrow> umem \<Rightarrow>
     ((('s, 'c) Submitter \<times> SubmissionQueue \<times> CompletionQueue) \<times> ('s, 'c) IoUring \<times> umem) exec"
where
  "IoUring_split S C ring m =
     and_then (IoUring_flush_pending S C ring m) (\<lambda>(ring', m').
       Inr ((IoUring_submitter S C ring', squeue_borrow (ring_sq ring') (ring_memory ring'),
             cqueue_borrow (ring_cq ring') (ring_memory ring')), ring', m'))"

definition IoUring_submission :: "('s, 'c) IoUring \<Rightarrow> SubmissionQueue" where
  "IoUring_submission ring = squeue_borrow (ring_sq ring) (ring_memory ring)"

definition IoUring_submission_shared :: "('s, 'c) IoUring \<Rightarrow> SubmissionQueue" where
  "IoUring_submission_shared ring = squeue_borrow_shared (ring_sq ring) (ring_memory ring)"

definition IoUring_completion ::
  "'s sq_EntryMarker \<Rightarrow> 'c cq_EntryMarker \<Rightarrow> ('s, 'c) IoUring \<Rightarrow> umem \<Rightarrow>
     (CompletionQueue \<times> ('s, 'c) IoUring \<times> umem) exec"
where
  "IoUring_completion S C ring m =
     and_then (IoUring_flush_pending S C ring m) (\<lambda>(ring', m').
       Inr (cqueue_borrow (ring_cq ring') (ring_memory ring'), ring', m'))"

definition IoUring_completion_shared ::
  "'s sq_EntryMarker \<Rightarrow> 'c cq_EntryMarker \<Rightarrow> ('s, 'c) IoUring \<Rightarrow> umem \<Rightarrow>
     (CompletionQueue \<times> ('s, 'c) IoUring \<times> umem) exec"
where
  "IoUring_completion_shared S C ring m =
     and_then (IoUring_flush_pending S C ring m) (\<lambda>(ring', m').
       Inr (cqueue_borrow_shared (ring_cq ring') (ring_memory ring'), ring', m'))"

definition IoUring_as_raw_fd :: "('s, 'c) IoUring \<Rightarrow> i32" where
  "IoUring_as_raw_fd ring = - 1"

text \<open>
  Dropping a ring joins its threads, ignoring their panics, and frees its memory; what is left
  is the user's memory.
\<close>

fun drop_batches :: "dispatch_thread list \<Rightarrow> umem \<Rightarrow> umem exec" where
  "drop_batches [] m = Inr m"
| "drop_batches (handle # batches) m =
     (case run_sqes dispatch_op (th_sqes handle) (th_cancel_chain handle) (th_results handle) m of
        Inr (_, m') \<Rightarrow> drop_batches batches m'
      | Inl (Panic _) \<Rightarrow> drop_batches batches m
      | Inl (UndefinedBehavior u) \<Rightarrow> UB u)"

definition RingMemory_drop :: "('s, 'c) RingMemory \<Rightarrow> umem \<Rightarrow> umem exec" where
  "RingMemory_drop mem m = drop_batches (st_pending (rm_state mem)) m"

end
