(* ===== verification/Miring_Ring_Laws.thy ===== *)
theory Miring_Ring_Laws
  imports Miring_Ring
begin

text \<open>
  What \<open>Builder::build\<close> makes of its arguments (sizes, errors, the one panic), the invariant
  of a ring and that the ring's operations keep it, and what a submission followed by reaping
  returns.
\<close>

section \<open>Building\<close>

lemma next_power_of_two_ok:
  assumes "n \<noteq> 0" "unat n \<le> 2 ^ 31"
  obtains p k where "next_power_of_two n = Inr p" "unat p = next_pow2_nat (unat n)"
    "k < 32" "unat p = 2 ^ k"
proof -
  obtain k where k: "next_pow2_nat (unat n) = 2 ^ k" using next_pow2_nat_power by blast
  have "(2::nat) ^ k \<le> 2 ^ 31" using next_pow2_nat_least [OF assms(2)] k by simp
  then have k31: "k \<le> 31" by (rule power_le_imp_le_exp [rotated]) simp
  then have "(2::nat) ^ k < 2 ^ 32" by (intro power_strict_increasing) auto
  with k k31 show ?thesis
    by (intro that [of "of_nat (2 ^ k)" k])
      (simp_all add: next_power_of_two_def unat_of_nat Let_def del: of_nat_power)
qed

lemma next_power_of_two_panic:
  assumes "unat n > 2 ^ 31"
  shows "next_power_of_two n = Inl (Panic Panic_overflow)"
proof -
  obtain k where k: "next_pow2_nat (unat n) = 2 ^ k" using next_pow2_nat_power by blast
  have "(2::nat) ^ 31 < 2 ^ k" using next_pow2_nat_ge [of "unat n"] assms k by simp
  then have "31 < k" by (rule power_less_imp_less_exp [rotated]) simp
  then have "(2::nat) ^ 32 \<le> 2 ^ k" by (intro power_increasing) auto
  with k show ?thesis by (simp add: next_power_of_two_def)
qed

definition entries_ok :: "u32 \<Rightarrow> bool" where
  "entries_ok entries \<longleftrightarrow> entries \<noteq> 0 \<and> entries \<le> push_bit 15 1"

definition wants_cqsize :: "Builder \<Rightarrow> bool" where
  "wants_cqsize b \<longleftrightarrow> prm_flags (builder_params b) AND IORING_SETUP_CQSIZE \<noteq> 0"

lemma unat_entries_ok: "entries_ok entries \<Longrightarrow> entries \<noteq> 0 \<and> unat entries \<le> 2 ^ 15"
  by (simp add: entries_ok_def word_le_nat_alt)

lemma build_sq_entries:
  assumes "entries_ok entries"
  obtains se k where "next_power_of_two entries = Inr se" "unat se = next_pow2_nat (unat entries)"
    "k \<le> 15" "unat se = 2 ^ k"
proof -
  have e: "entries \<noteq> 0" "unat entries \<le> 2 ^ 15" using unat_entries_ok [OF assms] by auto
  then have "unat entries \<le> 2 ^ 31" by simp
  with e(1) obtain se k where se: "next_power_of_two entries = Inr se"
    "unat se = next_pow2_nat (unat entries)" "unat se = 2 ^ k"
    by (rule next_power_of_two_ok)
  have "(2::nat) ^ k \<le> 2 ^ 15" using next_pow2_nat_least [OF e(2)] se by simp
  then have "k \<le> 15" by (rule power_le_imp_le_exp [rotated]) simp
  with se that show ?thesis by blast
qed

definition cq_size_of :: "Builder \<Rightarrow> u32 \<Rightarrow> nat" where
  "cq_size_of b entries = (if wants_cqsize b then next_pow2_nat (unat (prm_cq_entries (builder_params b)))
     else 2 * next_pow2_nat (unat entries))"

lemma build_cq_entries_ok:
  assumes e: "entries_ok entries" and se: "unat se = next_pow2_nat (unat entries)" "unat se = 2 ^ k" "k \<le> 15"
    and cq: "wants_cqsize b \<Longrightarrow> prm_cq_entries (builder_params b) \<noteq> 0
      \<and> unat (prm_cq_entries (builder_params b)) \<le> 2 ^ 31"
  obtains ce j where "build_cq_entries (builder_params b) se = Inr (Inr ce)"
    "unat ce = cq_size_of b entries" "j < 32" "unat ce = 2 ^ j"
proof (cases "wants_cqsize b")
  case True
  with cq obtain ce j where "next_power_of_two (prm_cq_entries (builder_params b)) = Inr ce"
    "unat ce = next_pow2_nat (unat (prm_cq_entries (builder_params b)))" "j < 32" "unat ce = 2 ^ j"
    using next_power_of_two_ok by metis
  with True cq that show ?thesis
    by (auto simp: build_cq_entries_def cq_size_of_def wants_cqsize_def)
next
  case False
  have "(2::nat) ^ k \<le> 2 ^ 15" using se by (intro power_increasing) auto
  then have lt: "unat se \<le> 2 ^ 15" using se by simp
  then have u: "unat (se * 2) = 2 ^ Suc k" using se by (simp add: unat_word_ariths)
  then have "se * 2 \<le> push_bit 16 1" using lt se by (simp add: word_le_nat_alt)
  then have "build_cq_entries (builder_params b) se = Inr (Inr (se * 2))"
    using False lt by (simp add: build_cq_entries_def wants_cqsize_def rust_mul_def min_def)
  then show ?thesis using u False se by (intro that [of "se * 2" "Suc k"]) (simp_all add: cq_size_of_def)
qed

section \<open>The invariant\<close>

definition ring_inv :: "'s sq_EntryMarker \<Rightarrow> 'c cq_EntryMarker \<Rightarrow> ('s, 'c) IoUring \<Rightarrow> bool" where
  "ring_inv S C ring \<longleftrightarrow> sub_inv (IoUring_submitter S C ring) (ring_memory ring)
     \<and> sqi_ring_entries (ring_sq ring) = sqi_ring_mask (ring_sq ring) + 1"

definition ring_sqes :: "'s sq_EntryMarker \<Rightarrow> 'c cq_EntryMarker \<Rightarrow> ('s, 'c) IoUring \<Rightarrow> io_uring_sqe list" where
  "ring_sqes S C ring = sq_published (IoUring_submitter S C ring) (ring_memory ring)"

definition ring_cqes :: "'s sq_EntryMarker \<Rightarrow> 'c cq_EntryMarker \<Rightarrow> ('s, 'c) IoUring \<Rightarrow> io_uring_cqe list" where
  "ring_cqes S C ring = cq_posted (IoUring_submitter S C ring) (ring_memory ring)"

definition ring_threads :: "('s, 'c) IoUring \<Rightarrow> dispatch_thread list" where
  "ring_threads ring = st_pending (rm_state (ring_memory ring))"

definition ring_cq_free :: "'s sq_EntryMarker \<Rightarrow> 'c cq_EntryMarker \<Rightarrow> ('s, 'c) IoUring \<Rightarrow> nat" where
  "ring_cq_free S C ring = cq_free (IoUring_submitter S C ring) (ring_memory ring)"

lemma rust_sub_1: "x \<noteq> 0 \<Longrightarrow> rust_sub x 1 = Inr (x - 1 :: u32)"
proof -
  assume "x \<noteq> 0"
  then have "unat x \<noteq> 0" by (simp add: unat_eq_zero)
  then have "1 \<le> x" by (simp add: word_le_nat_alt)
  then show ?thesis by (simp add: rust_sub_def checked_sub_def)
qed

lemma Builder_build_ok:
  assumes e: "entries_ok entries"
    and cq: "wants_cqsize b \<Longrightarrow> prm_cq_entries (builder_params b) \<noteq> 0
      \<and> unat (prm_cq_entries (builder_params b)) \<le> 2 ^ 31"
    and C: "cqe_marker_ok C"
  shows "\<exists>ring. Builder_build S C b entries = Inr (Inr ring) \<and> ring_inv S C ring
    \<and> unat (params_sq_entries (ring_params ring)) = next_pow2_nat (unat entries)
    \<and> unat (params_cq_entries (ring_params ring)) = cq_size_of b entries
    \<and> squeue_capacity (IoUring_submission ring) = ucast (params_sq_entries (ring_params ring))
    \<and> ring_cq_free S C ring = cq_size_of b entries
    \<and> ring_sqes S C ring = [] \<and> ring_cqes S C ring = [] \<and> ring_threads ring = []
    \<and> prm_flags (parameters_0 (ring_params ring)) = prm_flags (builder_params b)
    \<and> prm_features (parameters_0 (ring_params ring)) = build_features
    \<and> rm_state (ring_memory ring) = new_RingState"
proof -
  obtain se k where se: "next_power_of_two entries = Inr se" "unat se = next_pow2_nat (unat entries)"
    "k \<le> 15" "unat se = 2 ^ k"
    using e by (rule build_sq_entries)
  obtain ce j where ce: "build_cq_entries (builder_params b) se = Inr (Inr ce)"
    "unat ce = cq_size_of b entries" "j < 32" "unat ce = 2 ^ j"
    using build_cq_entries_ok [OF e se(2,4,3) cq] by blast
  have nz: "se \<noteq> 0" "ce \<noteq> 0" using se(4) ce(4) by (auto simp: unat_eq_zero)
  have geom: "ring_geom se (se - 1) (unat se)" "ring_geom ce (ce - 1) (unat ce)"
    unfolding ring_geom_def using se(3,4) ce(3,4) by (auto intro!: bexI [of _ k] bexI [of _ j])
  have e': "\<not> (entries = 0 \<or> entries > push_bit 15 1)" using e by (simp add: entries_ok_def not_less)
  show ?thesis
    using geom C e' se(2) ce(2)
    by (auto simp: Builder_build_def se(1) ce(1) rust_sub_1 nz Let_def ring_inv_def sub_inv_def
        IoUring_submitter_def new_RingState_def ring_sqes_def ring_cqes_def ring_threads_def
        sq_published_def cq_posted_def params_sq_entries_def params_cq_entries_def
        IoUring_submission_def squeue_borrow_def squeue_borrow_shared_def squeue_capacity_def
        ring_cq_free_def cq_free_def)
qed

lemma Builder_build_error:
  "Builder_build S C b entries = Inr (Inl err) \<longleftrightarrow>
     \<not> entries_ok entries \<or> wants_cqsize b \<and> prm_cq_entries (builder_params b) = 0"
proof (cases "entries_ok entries")
  case False
  then show ?thesis
    by (cases err) (auto simp: Builder_build_def entries_ok_def not_le)
next
  case True
  then have e': "\<not> (entries = 0 \<or> entries > push_bit 15 1)" by (simp add: entries_ok_def not_less)
  obtain se k where se: "next_power_of_two entries = Inr se" "unat se = 2 ^ k"
    using True by (rule build_sq_entries)
  show ?thesis
  proof (cases "wants_cqsize b \<and> prm_cq_entries (builder_params b) = 0")
    case True
    then show ?thesis using e' se
      by (cases err) (auto simp: Builder_build_def build_cq_entries_def wants_cqsize_def)
  next
    case False
    then show ?thesis using \<open>entries_ok entries\<close> e' se
      by (auto simp: Builder_build_def build_cq_entries_def wants_cqsize_def Let_def
          and_then_eq_Inr split: sum.splits if_splits)
  qed
qed

lemma Builder_build_fault:
  "Builder_build S C b entries = Inl f \<longleftrightarrow>
     entries_ok entries \<and> wants_cqsize b \<and> unat (prm_cq_entries (builder_params b)) > 2 ^ 31
     \<and> f = Panic Panic_overflow"
proof (cases "entries_ok entries")
  case False
  then show ?thesis by (auto simp: Builder_build_def entries_ok_def)
next
  case True
  let ?cq = "prm_cq_entries (builder_params b)"
  obtain se where se: "next_power_of_two entries = Inr se" using True by (rule build_sq_entries)
  have e': "\<not> (entries = 0 \<or> entries > push_bit 15 1)" using True by (simp add: entries_ok_def not_less)
  show ?thesis
  proof (cases "wants_cqsize b \<and> unat ?cq > 2 ^ 31")
    case big: True
    then have "?cq \<noteq> 0" by auto
    with big next_power_of_two_panic [of ?cq] True e' se show ?thesis
      by (auto simp: Builder_build_def build_cq_entries_def wants_cqsize_def)
  next
    case small: False
    show ?thesis
    proof (cases "wants_cqsize b \<and> ?cq = 0")
      case True
      then have "Builder_build S C b entries = Inr (Inl InvalidInput)"
        using Builder_build_error [of S C b entries InvalidInput] by simp
      with small show ?thesis by auto
    next
      case False
      with small have cq: "wants_cqsize b \<Longrightarrow> ?cq \<noteq> 0 \<and> unat ?cq \<le> 2 ^ 31" by auto
      obtain se' k where se': "next_power_of_two entries = Inr se'"
        "unat se' = next_pow2_nat (unat entries)" "k \<le> 15" "unat se' = 2 ^ k"
        using True by (rule build_sq_entries)
      obtain ce j where ce: "build_cq_entries (builder_params b) se' = Inr (Inr ce)" "unat ce = 2 ^ j"
        using build_cq_entries_ok [OF True se'(2,4,3) cq] by blast
      have "se' \<noteq> 0" "ce \<noteq> 0" using se'(4) ce(2) by (auto simp: unat_eq_zero)
      with small e' show ?thesis
        by (auto simp: Builder_build_def se'(1) ce(1) rust_sub_1 Let_def)
    qed
  qed
qed

section \<open>Operations on the ring\<close>

lemma submitter_memory [simp]:
  "IoUring_submitter S C (ring\<lparr>ring_memory := mem\<rparr>) = IoUring_submitter S C ring"
  by (simp add: IoUring_submitter_def)

lemma ring_inv_memory:
  "ring_inv S C ring \<Longrightarrow> ring_inv S C (ring\<lparr>ring_memory := mem\<rparr>) \<longleftrightarrow>
     sub_inv (IoUring_submitter S C ring) mem"
  by (simp add: ring_inv_def)

lemmas ring_view_defs = ring_sqes_def ring_cqes_def ring_threads_def ring_cq_free_def

lemma sub_sq_len_published:
  "ucast (sub_sq_len mem) = (of_nat (length (sq_published sub mem)) :: u32)"
  by (simp add: sub_sq_len_def sq_published_def dist_def)

lemma unat_of_nat_published:
  "unat (of_nat (length (sq_published sub mem)) :: u32) = length (sq_published sub mem)"
  by (simp add: sq_published_def dist_def unat_of_nat)

lemma enqueue_all_law:
  fixes sub :: "('s, 'c) Submitter"
  assumes "sub_inv sub mem"
  defines "n \<equiv> length (sq_published sub mem)"
  shows "\<exists>mem'. enqueue_sqes sub (of_nat n) mem = Inr (Inr (of_nat n), mem') \<and> sub_inv sub mem'
     \<and> sq_published sub mem' = []
     \<and> mem' = upd_state (\<lambda>st. st\<lparr>st_sq_head := st_sq_head st + of_nat n,
          st_pending := st_pending st @ (if n = 0 then [] else [thread_spawn (sq_published sub mem)])\<rparr>) mem"
  using enqueue_sqes_law [OF assms(1), of "of_nat n"]
  unfolding n_def unat_of_nat_published min.idem by simp

lemma IoUring_submit_law:
  assumes i: "ring_inv S C ring"
  shows "\<exists>ring'. IoUring_submit S C ring m = Inr (Inr (of_nat (length (ring_sqes S C ring))), ring', m)
     \<and> ring_inv S C ring' \<and> ring_sqes S C ring' = [] \<and> ring_cqes S C ring' = ring_cqes S C ring
     \<and> ring_threads ring' = ring_threads ring
         @ (if ring_sqes S C ring = [] then [] else [thread_spawn (ring_sqes S C ring)])
     \<and> ring_cq_free S C ring' = ring_cq_free S C ring
     \<and> ring_sq ring' = ring_sq ring \<and> ring_cq ring' = ring_cq ring
     \<and> rm_cqes (ring_memory ring') = rm_cqes (ring_memory ring)
     \<and> rm_sqes (ring_memory ring') = rm_sqes (ring_memory ring)"
proof -
  let ?sub = "IoUring_submitter S C ring" and ?mem = "ring_memory ring"
  let ?n = "length (sq_published ?sub ?mem)"
  have s: "sub_inv ?sub ?mem" using i by (simp add: ring_inv_def)
  have k: "ucast (sub_sq_len ?mem) = (of_nat ?n :: u32)"
    by (rule sub_sq_len_published)
  from enqueue_all_law [OF s] obtain mem' where
    e: "enqueue_sqes ?sub (of_nat ?n) ?mem = Inr (Inr (of_nat ?n), mem')" "sub_inv ?sub mem'"
      "sq_published ?sub mem' = []"
      "mem' = upd_state (\<lambda>st. st\<lparr>st_sq_head := st_sq_head st + of_nat ?n,
          st_pending := st_pending st @
            (if ?n = 0 then [] else [thread_spawn (sq_published ?sub ?mem)])\<rparr>) ?mem"
    by blast
  have "IoUring_submit S C ring m = Inr (Inr (of_nat ?n), ring\<lparr>ring_memory := mem'\<rparr>, m)"
    by (simp add: IoUring_submit_def submitter_submit_def submitter_submit_and_wait_def k e(1))
  with e i show ?thesis
    by (auto simp: ring_inv_memory ring_view_defs cq_posted_def cq_free_def)
qed

lemma IoUring_flush_pending_law:
  assumes i: "ring_inv S C ring" and r: "run_threads dispatch_op (ring_threads ring) m = Inr (rs, m')"
  shows "\<exists>ring'. IoUring_flush_pending S C ring m = Inr (ring', m') \<and> ring_inv S C ring'
     \<and> ring_cqes S C ring' = ring_cqes S C ring @ take (ring_cq_free S C ring) (cqes_of rs)
     \<and> cqueue_overflow (ring_memory ring') = cqueue_overflow (ring_memory ring)
         + of_nat (length (cqes_of rs) - ring_cq_free S C ring)
     \<and> ring_threads ring' = [] \<and> ring_sqes S C ring' = ring_sqes S C ring
     \<and> ring_sq ring' = ring_sq ring \<and> ring_cq ring' = ring_cq ring
     \<and> rm_sqes (ring_memory ring') = rm_sqes (ring_memory ring)"
proof -
  let ?sub = "IoUring_submitter S C ring" and ?mem = "ring_memory ring"
  have s: "sub_inv ?sub ?mem" using i by (simp add: ring_inv_def)
  from flush_pending_law [OF s, of m rs m'] r obtain mem' where
    "flush_pending ?sub ?mem m = Inr (mem', m')" "sub_inv ?sub mem'"
    "cq_posted ?sub mem' = cq_posted ?sub ?mem @ take (cq_free ?sub ?mem) (cqes_of rs)"
    "cqueue_overflow mem' = cqueue_overflow ?mem + of_nat (length (cqes_of rs) - cq_free ?sub ?mem)"
    "st_pending (rm_state mem') = []" "rm_sqes mem' = rm_sqes ?mem"
    "st_sq_head (rm_state mem') = st_sq_head (rm_state ?mem)"
    "st_sq_tail (rm_state mem') = st_sq_tail (rm_state ?mem)"
    by (auto simp: ring_threads_def)
  with i show ?thesis
    by (auto simp: IoUring_flush_pending_def ring_inv_memory ring_view_defs sq_published_def)
qed

lemma submit_and_wait_split:
  assumes "0 < want" and s: "IoUring_submit S C ring m = Inr (Inr n, ring', m1)"
  shows "IoUring_submit_and_wait S C want ring m =
    and_then (IoUring_flush_pending S C ring' m1) (\<lambda>(ring2, m2). Inr (Inr n, ring2, m2))"
proof -
  let ?sub = "IoUring_submitter S C ring"
  let ?e = "enqueue_sqes ?sub (ucast (sub_sq_len (ring_memory ring))) (ring_memory ring)"
  obtain x mem where e: "?e = Inr (x, mem)"
    using s by (auto simp: IoUring_submit_def submitter_submit_def submitter_submit_and_wait_def and_then_eq_Inr)
  with s have x: "x = Inr n" and r: "ring' = ring\<lparr>ring_memory := mem\<rparr>" "m1 = m"
    by (cases x; simp add: IoUring_submit_def submitter_submit_def submitter_submit_and_wait_def)+
  show ?thesis
    using assms(1) unfolding IoUring_submit_and_wait_def submitter_submit_and_wait_def IoUring_flush_pending_def r
    by (simp add: e x and_then_assoc split_def)
qed

text \<open>A handle borrowed from the ring sees the ring's queues.\<close>

lemma IoUring_submission_view:
  assumes "ring_inv S C ring"
  shows "sq_view (IoUring_submission ring) (ring_memory ring)"
    and "map (sem_sqe S) (sq_unconsumed (IoUring_submission ring) (ring_memory ring)) = ring_sqes S C ring"
    and "sq_room (IoUring_submission ring) =
           unat (sqi_ring_entries (ring_sq ring)) - length (ring_sqes S C ring)"
proof -
  show "sq_view (IoUring_submission ring) (ring_memory ring)"
    unfolding IoUring_submission_def using assms ring_geom_entries
    by (intro sq_view_borrow) (fastforce simp: ring_inv_def sub_inv_def IoUring_submitter_def)+
qed (simp_all add: IoUring_submission_def squeue_borrow_def squeue_borrow_shared_def
    unsync_load_def sq_unconsumed_def ring_sqes_def sq_published_def IoUring_submitter_def sq_room_def)

lemma cqueue_borrow_view:
  assumes "ring_inv S C ring"
  shows "cq_view (cqueue_borrow (ring_cq ring) (ring_memory ring)) (ring_memory ring)"
    and "map (cqe_of C) (cq_ready (cqueue_borrow (ring_cq ring) (ring_memory ring)) (ring_memory ring))
         = ring_cqes S C ring"
proof -
  show "cq_view (cqueue_borrow (ring_cq ring) (ring_memory ring)) (ring_memory ring)"
    using assms ring_geom_entries
    by (intro cq_view_borrow) (fastforce simp: ring_inv_def sub_inv_def IoUring_submitter_def)+
qed (simp add: cqueue_borrow_def cqueue_borrow_shared_def unsync_load_def cq_ready_def
    ring_cqes_def cq_posted_def IoUring_submitter_def)

text \<open>Giving a handle back publishes what was pushed, or what was popped.\<close>

lemma ring_inv_squeue_drop:
  assumes i: "ring_inv S C ring" and v: "sq_view sq mem" and q: "sq_queue sq = ring_sq ring"
    and f: "rm_state mem = rm_state (ring_memory ring)" "rm_cqes mem = rm_cqes (ring_memory ring)"
      "length (rm_sqes mem) = length (rm_sqes (ring_memory ring))"
  defines "ring' \<equiv> ring\<lparr>ring_memory := squeue_drop sq mem\<rparr>"
  shows "ring_inv S C ring'" "ring_sqes S C ring' = map (sem_sqe S) (sq_unconsumed sq mem)"
    "ring_cqes S C ring' = ring_cqes S C ring" "ring_threads ring' = ring_threads ring"
    "ring_cq_free S C ring' = ring_cq_free S C ring"
proof -
  have "dist (st_sq_head (rm_state mem)) (sq_tail sq) \<le> length (rm_sqes mem)"
    using v sq_view_dist [OF v] sq_view_entries [OF v] by (simp add: sq_view_def)
  then show "ring_inv S C ring'"
    using i f by (simp add: ring'_def ring_inv_def sub_inv_def squeue_drop_def IoUring_submitter_def
        sub_sq_cq_overflow_def)
qed (use q f in \<open>simp_all add: ring'_def ring_view_defs squeue_drop_def sq_published_def
    sq_unconsumed_def IoUring_submitter_def cq_posted_def cq_free_def\<close>)

lemma ring_inv_cqueue_drop:
  assumes i: "ring_inv S C ring" and v: "cq_view cq (ring_memory ring)" and q: "cq_queue cq = ring_cq ring"
  defines "ring' \<equiv> ring\<lparr>ring_memory := cqueue_drop cq (ring_memory ring)\<rparr>"
  shows "ring_inv S C ring'" "ring_cqes S C ring' = map (cqe_of C) (cq_unread cq (ring_memory ring))"
    "ring_sqes S C ring' = ring_sqes S C ring" "ring_threads ring' = ring_threads ring"
proof -
  have "dist (cq_head cq) (st_cq_tail (rm_state (ring_memory ring))) \<le> length (rm_cqes (ring_memory ring))"
    using v cq_view_dist [OF v] cq_view_entries [OF v] by (simp add: cq_view_def)
  then show "ring_inv S C ring'"
    using i by (simp add: ring'_def ring_inv_def sub_inv_def cqueue_drop_def IoUring_submitter_def
        sub_sq_cq_overflow_def)
qed (use q in \<open>simp_all add: ring'_def ring_view_defs cqueue_drop_def sq_published_def
    cq_unread_def IoUring_submitter_def cq_posted_def\<close>)

lemma cq_unread_borrow:
  "cq_unread (cqueue_borrow inner mem) mem = cq_ready (cqueue_borrow inner mem) mem"
  by (simp add: cq_unread_def cq_ready_def cqueue_borrow_def cqueue_borrow_shared_def)

text \<open>Dropping a ring runs every pending thread to its end, as a flush does.\<close>

lemma drop_batches_run:
  "drop_batches ths m = and_then (run_threads dispatch_op ths m) (\<lambda>(rs, m'). Inr m')"
proof (induction ths arbitrary: m)
  case (Cons th ths)
  have "no_panic (run_sqes dispatch_op (th_sqes th) (th_cancel_chain th) (th_results th) m)"
    by (rule kernel.run_sqes_no_panic)
  then show ?case
    by (cases "run_sqes dispatch_op (th_sqes th) (th_cancel_chain th) (th_results th) m")
      (auto simp: kernel.thread_join_run Cons.IH and_then_assoc split_def no_panic_def split: fault.splits)
qed simp

section \<open>A client's round trip\<close>

text \<open>
  The protocol of the crate's examples: push a batch, give the handle back, submit, take the
  completion queue, read everything in it, and give that handle back.
\<close>

definition client_round ::
  "'s sq_EntryMarker \<Rightarrow> 'c cq_EntryMarker \<Rightarrow> 's list \<Rightarrow> ('s, 'c) IoUring \<Rightarrow> umem \<Rightarrow>
     ((PushError + unit) \<times> usize io_Result \<times> 'c list \<times> ('s, 'c) IoUring \<times> umem) exec"
where
  "client_round S C es ring m =
     and_then (squeue_push_multiple es (IoUring_submission ring) (ring_memory ring)) (\<lambda>(pushed, sq, mem).
     and_then (IoUring_submit S C (ring\<lparr>ring_memory := squeue_drop sq mem\<rparr>) m) (\<lambda>(r, ring2, m2).
     and_then (IoUring_completion S C ring2 m2) (\<lambda>(cq, ring3, m3).
     and_then (cqueue_fill (unat (cqueue_len cq)) cq (ring_memory ring3)) (\<lambda>(cqes, cq').
       Inr (pushed, r, cqes, ring3\<lparr>ring_memory := cqueue_drop cq' (ring_memory ring3)\<rparr>, m3)))))"

definition ring_idle :: "'s sq_EntryMarker \<Rightarrow> 'c cq_EntryMarker \<Rightarrow> ('s, 'c) IoUring \<Rightarrow> bool" where
  "ring_idle S C ring \<longleftrightarrow> ring_inv S C ring \<and> ring_sqes S C ring = [] \<and> ring_cqes S C ring = []
     \<and> ring_threads ring = []"

lemma push_batch:
  assumes i: "ring_idle S C ring" and n: "length es \<le> unat (sqi_ring_entries (ring_sq ring))"
  obtains sq mem where
    "squeue_push_multiple es (IoUring_submission ring) (ring_memory ring) = Inr (Inr (), sq, mem)"
    "ring_inv S C (ring\<lparr>ring_memory := squeue_drop sq mem\<rparr>)"
    "ring_sqes S C (ring\<lparr>ring_memory := squeue_drop sq mem\<rparr>) = map (sem_sqe S) es"
    "ring_cqes S C (ring\<lparr>ring_memory := squeue_drop sq mem\<rparr>) = []"
    "ring_threads (ring\<lparr>ring_memory := squeue_drop sq mem\<rparr>) = []"
    "ring_cq_free S C (ring\<lparr>ring_memory := squeue_drop sq mem\<rparr>) = ring_cq_free S C ring"
proof -
  have inv: "ring_inv S C ring" and e: "ring_sqes S C ring = []" using i by (simp_all add: ring_idle_def)
  note v = IoUring_submission_view [OF inv]
  from v(2,3) e n have "length es \<le> sq_room (IoUring_submission ring)"
    and 0: "sq_unconsumed (IoUring_submission ring) (ring_memory ring) = []"
    by simp_all
  then obtain sq mem where p:
    "squeue_push_multiple es (IoUring_submission ring) (ring_memory ring) = Inr (Inr (), sq, mem)"
    "sq_view sq mem" "sq_unconsumed sq mem = es" "rm_state mem = rm_state (ring_memory ring)"
    "rm_cqes mem = rm_cqes (ring_memory ring)"
    using squeue_push_multiple_law [OF v(1), of es] by auto
  from squeue_push_multiple_queue [OF p(1)] have q: "sq_queue sq = ring_sq ring"
    and l: "length (rm_sqes mem) = length (rm_sqes (ring_memory ring))"
    by (simp_all add: IoUring_submission_def squeue_borrow_def squeue_borrow_shared_def)
  note d = ring_inv_squeue_drop [OF inv p(2) q p(4,5) l]
  with p(1,3) i show ?thesis by (intro that) (simp_all add: ring_idle_def)
qed

lemma reap_all:
  assumes i: "ring_inv S C ring" and e: "ring_sqes S C ring = []"
    and r: "run_threads dispatch_op (ring_threads ring) m = Inr (rs, m')"
  obtains cq ring1 cqes cq' where "IoUring_completion S C ring m = Inr (cq, ring1, m')"
    "cqueue_fill (unat (cqueue_len cq)) cq (ring_memory ring1) = Inr (cqes, cq')"
    "map (cqe_of C) cqes = ring_cqes S C ring @ take (ring_cq_free S C ring) (cqes_of rs)"
    "ring_idle S C (ring1\<lparr>ring_memory := cqueue_drop cq' (ring_memory ring1)\<rparr>)"
proof -
  from IoUring_flush_pending_law [OF i r] obtain ring1 where
    f: "IoUring_flush_pending S C ring m = Inr (ring1, m')" "ring_inv S C ring1"
      "ring_cqes S C ring1 = ring_cqes S C ring @ take (ring_cq_free S C ring) (cqes_of rs)"
      "ring_threads ring1 = []" "ring_sqes S C ring1 = []"
    by (auto simp: e)
  let ?cq = "cqueue_borrow (ring_cq ring1) (ring_memory ring1)"
  note v = cqueue_borrow_view [OF f(2)]
  let ?n = "length (cq_ready ?cq (ring_memory ring1))"
  from cqueue_pop_each_law [OF v(1), of ?n] obtain cq' where
    c: "cqueue_fill ?n ?cq (ring_memory ring1) = Inr (cq_ready ?cq (ring_memory ring1), cq')"
      "cq_view cq' (ring_memory ring1)" "cq_ready cq' (ring_memory ring1) = []"
      "cq_queue cq' = ring_cq ring1" "cq_tail cq' = cq_tail ?cq"
    by (auto simp: cqueue_fill_def cqueue_borrow_def cqueue_borrow_shared_def)
  have "cq_unread cq' (ring_memory ring1) = cq_ready cq' (ring_memory ring1)"
    using c(5) by (simp add: cq_unread_def cq_ready_def cqueue_borrow_def cqueue_borrow_shared_def)
  then have "ring_idle S C (ring1\<lparr>ring_memory := cqueue_drop cq' (ring_memory ring1)\<rparr>)"
    using ring_inv_cqueue_drop [OF f(2) c(2,4)] f c(3) by (simp add: ring_idle_def)
  with f c(1) v(2) show ?thesis
    by (intro that [of ?cq ring1 "cq_ready ?cq (ring_memory ring1)" cq']) (simp_all add: IoUring_completion_def)
qed

lemma client_round_law:
  assumes i: "ring_idle S C ring" and n: "length es \<le> unat (sqi_ring_entries (ring_sq ring))"
    and r: "run_chains dispatch_op (link_chains (map (sem_sqe S) es)) m = Inr (rs, m')"
  shows "\<exists>cqes ring'. client_round S C es ring m = Inr (Inr (), Inr (of_nat (length es)), cqes, ring', m')
    \<and> map (cqe_of C) cqes = take (ring_cq_free S C ring) (cqes_of rs) \<and> ring_idle S C ring'"
proof -
  obtain sq mem where p:
    "squeue_push_multiple es (IoUring_submission ring) (ring_memory ring) = Inr (Inr (), sq, mem)"
    and q: "ring_inv S C (ring\<lparr>ring_memory := squeue_drop sq mem\<rparr>)"
      "ring_sqes S C (ring\<lparr>ring_memory := squeue_drop sq mem\<rparr>) = map (sem_sqe S) es"
      "ring_cqes S C (ring\<lparr>ring_memory := squeue_drop sq mem\<rparr>) = []"
      "ring_threads (ring\<lparr>ring_memory := squeue_drop sq mem\<rparr>) = []"
      "ring_cq_free S C (ring\<lparr>ring_memory := squeue_drop sq mem\<rparr>) = ring_cq_free S C ring"
    using push_batch [OF i n] by blast
  from IoUring_submit_law [OF q(1), of m] q(2-5) obtain ring2 where s:
    "IoUring_submit S C (ring\<lparr>ring_memory := squeue_drop sq mem\<rparr>) m =
       Inr (Inr (of_nat (length es)), ring2, m)"
    "ring_inv S C ring2" "ring_sqes S C ring2 = []" "ring_cqes S C ring2 = []"
    "ring_threads ring2 = (if es = [] then [] else [thread_spawn (map (sem_sqe S) es)])"
    "ring_cq_free S C ring2 = ring_cq_free S C ring"
    by auto
  have "run_threads dispatch_op (ring_threads ring2) m = Inr (rs, m')"
    using r thread_join_spawn [of dispatch_op "map (sem_sqe S) es" m "(rs, m')"] by (auto simp: s(5))
  from reap_all [OF s(2,3) this] obtain cq ring3 cqes cq' where
    "IoUring_completion S C ring2 m = Inr (cq, ring3, m')"
    "cqueue_fill (unat (cqueue_len cq)) cq (ring_memory ring3) = Inr (cqes, cq')"
    "map (cqe_of C) cqes = ring_cqes S C ring2 @ take (ring_cq_free S C ring2) (cqes_of rs)"
    "ring_idle S C (ring3\<lparr>ring_memory := cqueue_drop cq' (ring_memory ring3)\<rparr>)"
    by blast
  with s p show ?thesis by (simp add: client_round_def)
qed

end
