(* ===== verification/Miring_Concurrency.thy ===== *)
theory Miring_Concurrency
  imports Miring_Ring_Laws "HOL-Library.Sublist"
begin

text \<open>
  The ring with its dispatch threads running concurrently with the application, as a step
  relation.  \<open>enqueue_sqes\<close> spawns a thread per batch; from then on each thread may at any time
  perform one iteration of its loop, while the application pushes, submits, reaps and changes
  its own memory.  Joining takes the oldest thread once it has finished and posts its results,
  which is one iteration of the loop of \<open>flush_pending\<close>.  The steps are the operations of
  \<open>Miring_Squeue\<close>, \<open>Miring_Cqueue\<close> and \<open>Miring_Submit\<close>; atomics are
  sequentially consistent here.

  Four histories are kept beside the state: the entries pushed, those accepted by submissions,
  the results of joined threads, and the completions the application has taken, with the number
  of completions that found the completion ring full.  The invariant relates them: whatever the
  schedule, entries are answered in the order they were pushed, each exactly once, and a
  completion is either delivered in that order or counted as an overflow.

  The steps of the dispatch threads alone terminate, never get stuck unless a dispatch faults,
  and the sequential \<open>flush_pending\<close> of \<open>Miring_Submit\<close> is one of their schedules; with
  a single batch outstanding it is the only outcome.
\<close>

record ('s, 'c) conf =
  cf_mem :: "('s, 'c) RingMemory"
  cf_umem :: umem
  cf_pushed :: "io_uring_sqe list"
  cf_accepted :: "io_uring_sqe list"
  cf_joined :: "CompletionData list"
  cf_reaped :: "io_uring_cqe list"
  cf_lost :: nat

definition sub_sq_inner :: "('s, 'c) Submitter \<Rightarrow> sq_Inner" where
  "sub_sq_inner sub = \<lparr>sqi_ring_mask = sub_sq_ring_mask sub, sqi_ring_entries = sub_sq_ring_mask sub + 1\<rparr>"

definition sub_cq_inner :: "('s, 'c) Submitter \<Rightarrow> cq_Inner" where
  "sub_cq_inner sub = \<lparr>cqi_ring_mask = sub_cq_ring_mask sub, cqi_ring_entries = sub_cq_ring_entries sub\<rparr>"

definition thread_next :: "dispatch_thread \<Rightarrow> CompletionData \<Rightarrow> bool \<Rightarrow> dispatch_thread" where
  "thread_next th cd c = \<lparr>th_sqes = tl (th_sqes th), th_cancel_chain = c, th_results = th_results th @ [cd]\<rparr>"

abbreviation cf_threads :: "('s, 'c) conf \<Rightarrow> dispatch_thread list" where
  "cf_threads cf \<equiv> st_pending (rm_state (cf_mem cf))"

abbreviation set_threads :: "dispatch_thread list \<Rightarrow> ('s, 'c) RingMemory \<Rightarrow> ('s, 'c) RingMemory" where
  "set_threads ths \<equiv> upd_state (\<lambda>st. st\<lparr>st_pending := ths\<rparr>)"

inductive kernel_step :: "('s, 'c) Submitter \<Rightarrow> ('s, 'c) conf \<Rightarrow> ('s, 'c) conf \<Rightarrow> bool"
  for sub :: "('s, 'c) Submitter"
where
  dispatch: "i < length (cf_threads cf) \<Longrightarrow> th_sqes (cf_threads cf ! i) = sqe # rest \<Longrightarrow>
     complete_one dispatch_op sqe (th_cancel_chain (cf_threads cf ! i)) (cf_umem cf) = Inr (cd, c, m) \<Longrightarrow>
     kernel_step sub cf (cf\<lparr>cf_mem := set_threads ((cf_threads cf)[i := thread_next (cf_threads cf ! i) cd c])
         (cf_mem cf), cf_umem := m\<rparr>)"
| join: "cf_threads cf = th # ths \<Longrightarrow> th_sqes th = [] \<Longrightarrow>
     post_results sub (th_results th) (set_threads ths (cf_mem cf)) = Inr mem \<Longrightarrow>
     kernel_step sub cf (cf\<lparr>cf_mem := mem, cf_joined := cf_joined cf @ th_results th,
       cf_lost := cf_lost cf + (length (cqes_of (th_results th)) - cq_free sub (cf_mem cf))\<rparr>)"

inductive ring_step :: "('s, 'c) Submitter \<Rightarrow> ('s, 'c) conf \<Rightarrow> ('s, 'c) conf \<Rightarrow> bool"
  for sub :: "('s, 'c) Submitter"
where
  app_push: "squeue_push e (squeue_borrow (sub_sq_inner sub) (cf_mem cf)) (cf_mem cf) = Inr (r, sq, mem) \<Longrightarrow>
     ring_step sub cf (cf\<lparr>cf_mem := squeue_drop sq mem,
       cf_pushed := cf_pushed cf @ (if r = Inr () then [sem_sqe (sub_sqe_marker sub) e] else [])\<rparr>)"
| app_submit: "enqueue_sqes sub k (cf_mem cf) = Inr (Inr n, mem) \<Longrightarrow>
     ring_step sub cf (cf\<lparr>cf_mem := mem,
       cf_accepted := cf_accepted cf @ take (unat n) (sq_published sub (cf_mem cf))\<rparr>)"
| app_reap: "cqueue_next (cqueue_borrow (sub_cq_inner sub) (cf_mem cf)) (cf_mem cf) = Inr (Some e, cq) \<Longrightarrow>
     ring_step sub cf (cf\<lparr>cf_mem := cqueue_drop cq (cf_mem cf),
       cf_reaped := cf_reaped cf @ [cqe_of (sub_cqe_marker sub) e]\<rparr>)"
| app_memory: "ring_step sub cf (cf\<lparr>cf_umem := m\<rparr>)"
| kernel: "kernel_step sub cf cf' \<Longrightarrow> ring_step sub cf cf'"

inductive_cases kernel_stepE: "kernel_step sub cf cf'"
inductive_cases ring_stepE: "ring_step sub cf cf'"

section \<open>The invariant\<close>

text \<open>The user data a thread has answered or will answer, in its order.\<close>

definition thread_owes :: "dispatch_thread \<Rightarrow> u64 list" where
  "thread_owes th = map cd_user_data (th_results th) @ map sqe_user_data (th_sqes th)"

definition conf_inv :: "('s, 'c) Submitter \<Rightarrow> ('s, 'c) conf \<Rightarrow> bool" where
  "conf_inv sub cf \<longleftrightarrow> sub_inv sub (cf_mem cf)
     \<and> cf_pushed cf = cf_accepted cf @ sq_published sub (cf_mem cf)
     \<and> map cd_user_data (cf_joined cf) @ concat (map thread_owes (cf_threads cf))
         = map sqe_user_data (cf_accepted cf)
     \<and> subseq (cf_reaped cf @ cq_posted sub (cf_mem cf)) (cqes_of (cf_joined cf))
     \<and> length (cf_reaped cf @ cq_posted sub (cf_mem cf)) + cf_lost cf = length (cqes_of (cf_joined cf))
     \<and> cqueue_overflow (cf_mem cf) = of_nat (cf_lost cf)"

definition conf_init :: "('s, 'c) RingMemory \<Rightarrow> umem \<Rightarrow> ('s, 'c) conf" where
  "conf_init mem m = \<lparr>cf_mem = mem, cf_umem = m, cf_pushed = [], cf_accepted = [], cf_joined = [], cf_reaped = [],
     cf_lost = 0\<rparr>"

text \<open>A ring just built: nothing pushed, pending or posted, no overflow.\<close>

definition ring_start :: "('s, 'c) Submitter \<Rightarrow> ('s, 'c) RingMemory \<Rightarrow> bool" where
  "ring_start sub mem \<longleftrightarrow> sub_inv sub mem \<and> sq_published sub mem = [] \<and> st_pending (rm_state mem) = []
     \<and> cq_posted sub mem = [] \<and> cqueue_overflow mem = 0"

lemma conf_inv_init: "ring_start sub mem \<Longrightarrow> conf_inv sub (conf_init mem m)"
  by (simp add: ring_start_def conf_inv_def conf_init_def)

subsection \<open>One lemma per step\<close>

lemma sq_unchanged:
  assumes "rm_sqes mem' = rm_sqes mem" "st_sq_head (rm_state mem') = st_sq_head (rm_state mem)"
    "st_sq_tail (rm_state mem') = st_sq_tail (rm_state mem)"
  shows "sq_published sub mem' = sq_published sub mem"
  using assms by (simp add: sq_published_def)

lemma push_sub_inv:
  assumes i: "sub_inv sub mem"
    and p: "squeue_push e (squeue_borrow (sub_sq_inner sub) mem) mem = Inr (r, sq, mem')"
  shows "sub_inv sub (squeue_drop sq mem')" "rm_state mem' = rm_state mem" "rm_cqes mem' = rm_cqes mem"
    "sq_published sub (squeue_drop sq mem') = sq_published sub mem
       @ (if r = Inr () then [sem_sqe (sub_sqe_marker sub) e] else [])"
proof -
  let ?sq = "squeue_borrow (sub_sq_inner sub) mem"
  have v: "sq_view ?sq mem"
    using i ring_geom_entries by (intro sq_view_borrow) (fastforce simp: sub_inv_def sub_sq_inner_def)+
  from squeue_push_law [OF v, of e] p have v': "sq_view sq mem'"
    and f: "rm_state mem' = rm_state mem" "rm_cqes mem' = rm_cqes mem"
    and u: "sq_unconsumed sq mem' = sq_unconsumed ?sq mem @ (if r = Inr () then [e] else [])"
    by (auto split: if_splits)
  from squeue_push_queue [OF p] have l: "length (rm_sqes mem') = length (rm_sqes mem)"
    and q: "sq_queue sq = sub_sq_inner sub"
    by (simp_all add: squeue_borrow_def squeue_borrow_shared_def)
  have "dist (st_sq_head (rm_state mem')) (sq_tail sq) \<le> length (rm_sqes mem')"
    using v' sq_view_dist [OF v'] sq_view_entries [OF v'] by (simp add: sq_view_def)
  with i f l show "sub_inv sub (squeue_drop sq mem')"
    by (simp add: sub_inv_def squeue_drop_def sub_sq_cq_overflow_def)
  have "sq_published sub (squeue_drop sq mem') = map (sem_sqe (sub_sqe_marker sub)) (sq_unconsumed sq mem')"
    using q f by (simp add: sq_published_def squeue_drop_def sq_unconsumed_def sub_sq_inner_def)
  moreover have "map (sem_sqe (sub_sqe_marker sub)) (sq_unconsumed ?sq mem) = sq_published sub mem"
    by (simp add: sq_published_def sq_unconsumed_def squeue_borrow_def squeue_borrow_shared_def
        unsync_load_def sub_sq_inner_def)
  ultimately show "sq_published sub (squeue_drop sq mem') = sq_published sub mem
    @ (if r = Inr () then [sem_sqe (sub_sqe_marker sub) e] else [])"
    by (simp add: u)
  show "rm_state mem' = rm_state mem" "rm_cqes mem' = rm_cqes mem" by (fact f)+
qed

lemma conf_inv_push:
  assumes "conf_inv sub cf"
    and "squeue_push e (squeue_borrow (sub_sq_inner sub) (cf_mem cf)) (cf_mem cf) = Inr (r, sq, mem)"
  shows "conf_inv sub (cf\<lparr>cf_mem := squeue_drop sq mem,
    cf_pushed := cf_pushed cf @ (if r = Inr () then [sem_sqe (sub_sqe_marker sub) e] else [])\<rparr>)"
proof -
  have i: "sub_inv sub (cf_mem cf)" using assms(1) by (simp add: conf_inv_def)
  note p = push_sub_inv [OF i assms(2)]
  have "cq_posted sub (squeue_drop sq mem) = cq_posted sub (cf_mem cf)"
    "cqueue_overflow (squeue_drop sq mem) = cqueue_overflow (cf_mem cf)"
    using p by (simp_all add: squeue_drop_def cq_posted_def cqueue_overflow_def)
  with assms(1) p show ?thesis by (simp add: conf_inv_def squeue_drop_def)
qed

lemma conf_inv_submit:
  assumes c: "conf_inv sub cf" and e: "enqueue_sqes sub k (cf_mem cf) = Inr (Inr n, mem)"
  shows "conf_inv sub (cf\<lparr>cf_mem := mem,
    cf_accepted := cf_accepted cf @ take (unat n) (sq_published sub (cf_mem cf))\<rparr>)"
proof -
  let ?mem = "cf_mem cf" and ?l = "min (unat k) (length (sq_published sub (cf_mem cf)))"
  have i: "sub_inv sub ?mem" using c by (simp add: conf_inv_def)
  let ?upd = "\<lambda>st. st\<lparr>st_sq_head := st_sq_head st + of_nat ?l,
     st_pending := st_pending st @ (if ?l = 0 then [] else [thread_spawn (take ?l (sq_published sub ?mem))])\<rparr>"
  obtain mem' where m': "enqueue_sqes sub k ?mem = Inr (Inr (of_nat ?l), mem')" "sub_inv sub mem'"
    "sq_published sub mem' = drop ?l (sq_published sub ?mem)" "mem' = upd_state ?upd ?mem"
    using enqueue_sqes_law [OF i, of k] by blast
  with e have n: "n = of_nat ?l" and i': "sub_inv sub mem" and mem: "mem = upd_state ?upd ?mem"
    and q: "sq_published sub mem = drop ?l (sq_published sub ?mem)"
    by simp_all
  have "?l < 2 ^ 32" using unat_u32_lt [of k] by simp
  then have u: "unat n = ?l" unfolding n by (simp add: unat_of_nat)
  have o: "cq_posted sub mem = cq_posted sub ?mem" "cqueue_overflow mem = cqueue_overflow ?mem"
    unfolding mem by (simp_all add: cq_posted_def cqueue_overflow_def)
  have "concat (map thread_owes (st_pending (rm_state mem))) =
      concat (map thread_owes (cf_threads cf)) @ map sqe_user_data (take ?l (sq_published sub ?mem))"
    unfolding mem by (simp add: thread_owes_def thread_spawn_def)
  then have "map cd_user_data (cf_joined cf) @ concat (map thread_owes (st_pending (rm_state mem)))
      = map sqe_user_data (cf_accepted cf @ take ?l (sq_published sub ?mem))"
    using c by (simp add: conf_inv_def flip: append_assoc)
  with c i' o u q show ?thesis by (simp add: conf_inv_def)
qed

lemma conf_inv_reap:
  assumes c: "conf_inv sub cf"
    and e: "cqueue_next (cqueue_borrow (sub_cq_inner sub) (cf_mem cf)) (cf_mem cf) = Inr (Some e, cq)"
  shows "conf_inv sub (cf\<lparr>cf_mem := cqueue_drop cq (cf_mem cf),
    cf_reaped := cf_reaped cf @ [cqe_of (sub_cqe_marker sub) e]\<rparr>)"
proof -
  let ?mem = "cf_mem cf" and ?cq = "cqueue_borrow (sub_cq_inner sub) (cf_mem cf)"
  have i: "sub_inv sub ?mem" using c by (simp add: conf_inv_def)
  have v: "cq_view ?cq ?mem"
    using i ring_geom_entries by (intro cq_view_borrow) (fastforce simp: sub_inv_def sub_cq_inner_def)+
  have r: "cq_posted sub ?mem = map (cqe_of (sub_cqe_marker sub)) (cq_ready ?cq ?mem)"
    by (simp add: cq_posted_def cq_ready_def cqueue_borrow_def cqueue_borrow_shared_def
        unsync_load_def sub_cq_inner_def)
  obtain es where es: "cq_ready ?cq ?mem = e # es"
    using cqueue_next_front [OF v] cqueue_next_empty [of ?cq ?mem] e
    by (cases "cq_ready ?cq ?mem") auto
  have ne: "cq_head ?cq \<noteq> cq_tail ?cq" using es by (auto simp: cq_ready_def)
  obtain cq' where p: "cqueue_pop ?cq ?mem = Inr (e, cq')" "cq_view cq' ?mem" "cq_ready cq' ?mem = es"
    "cq_queue cq' = cq_queue ?cq" "cq_tail cq' = cq_tail ?cq"
    using cqueue_pop_law [OF v es] by blast
  with e ne have cq: "cq' = cq" by (simp add: cqueue_next_def)
  have "dist (cq_head cq) (st_cq_tail (rm_state ?mem)) \<le> length (rm_cqes ?mem)"
    using p(2) cq_view_dist [OF p(2)] cq_view_entries [OF p(2)] cq by (simp add: cq_view_def)
  then have "sub_inv sub (cqueue_drop cq ?mem)"
    using i by (simp add: sub_inv_def cqueue_drop_def sub_sq_cq_overflow_def)
  moreover have "cq_posted sub (cqueue_drop cq ?mem) = map (cqe_of (sub_cqe_marker sub)) es"
    using p(3-5) cq by (simp add: cq_posted_def cqueue_drop_def cq_ready_def cqueue_borrow_def
        cqueue_borrow_shared_def sub_cq_inner_def)
  moreover have "sq_published sub (cqueue_drop cq ?mem) = sq_published sub ?mem"
    by (rule sq_unchanged) (simp_all add: cqueue_drop_def)
  ultimately show ?thesis
    using c r es by (simp add: conf_inv_def cqueue_drop_def cqueue_overflow_def)
qed

lemma thread_owes_next:
  assumes "i < length ths" "th_sqes (ths ! i) = sqe # rest"
    "complete_one dispatch_op sqe (th_cancel_chain (ths ! i)) m = Inr (cd, b, m')"
  shows "map thread_owes (ths[i := thread_next (ths ! i) cd b]) = map thread_owes ths"
proof -
  have "cd_user_data cd = sqe_user_data sqe"
    using assms(3) by (auto simp: complete_one_def and_then_eq_Inr Let_def)
  then have "thread_owes (thread_next (ths ! i) cd b) = thread_owes (ths ! i)"
    using assms(2) by (simp add: thread_owes_def thread_next_def)
  then show ?thesis using assms(1) by (simp add: map_update list_update_same_conv)
qed

lemma conf_inv_dispatch:
  assumes c: "conf_inv sub cf" and i: "i < length (cf_threads cf)"
    and s: "th_sqes (cf_threads cf ! i) = sqe # rest"
    and d: "complete_one dispatch_op sqe (th_cancel_chain (cf_threads cf ! i)) (cf_umem cf) = Inr (cd, b, m)"
  shows "conf_inv sub (cf\<lparr>cf_mem := set_threads ((cf_threads cf)[i := thread_next (cf_threads cf ! i) cd b])
      (cf_mem cf), cf_umem := m\<rparr>)"
  using c thread_owes_next [OF i s d] sq_unchanged [of "set_threads _ (cf_mem cf)" "cf_mem cf" sub]
  by (simp add: conf_inv_def)

lemma conf_inv_join:
  assumes c: "conf_inv sub cf" and th: "cf_threads cf = th # ths" "th_sqes th = []"
    and p: "post_results sub (th_results th) (set_threads ths (cf_mem cf)) = Inr mem"
  shows "conf_inv sub (cf\<lparr>cf_mem := mem, cf_joined := cf_joined cf @ th_results th,
    cf_lost := cf_lost cf + (length (cqes_of (th_results th)) - cq_free sub (cf_mem cf))\<rparr>)"
proof -
  let ?mem = "set_threads ths (cf_mem cf)" and ?cs = "cqes_of (th_results th)"
  let ?n = "cq_free sub (cf_mem cf)"
  have i: "sub_inv sub ?mem" using c by (simp add: conf_inv_def)
  have p': "put_all (cqe_put sub) ?cs ?mem = Inr mem" using p by (simp add: post_results_put_all)
  from cqp.put_all_law [OF i, of ?cs] p' have q: "sub_inv sub mem"
    "cq_posted sub mem = cq_posted sub (cf_mem cf) @ take ?n ?cs"
    by auto
  have l: "cqueue_overflow mem = cqueue_overflow (cf_mem cf) + of_nat (length ?cs - ?n)"
    using cqp.put_all_lost [OF i p'] by simp
  have f: "st_pending (rm_state mem) = ths" "sq_published sub mem = sq_published sub (cf_mem cf)"
    using put_all_frame [OF i p'] by (simp_all add: post_frame_def sq_published_def)
  have "subseq ((cf_reaped cf @ cq_posted sub (cf_mem cf)) @ take ?n ?cs) (cqes_of (cf_joined cf) @ ?cs)"
    using c by (intro list_emb_append_mono) (auto simp: conf_inv_def intro: prefix_imp_subseq take_is_prefix)
  with c q l f th show ?thesis
    by (auto simp: conf_inv_def thread_owes_def)
qed

lemma conf_inv_kernel: "kernel_step sub cf cf' \<Longrightarrow> conf_inv sub cf \<Longrightarrow> conf_inv sub cf'"
  by (erule kernel_stepE) (simp_all only: conf_inv_dispatch conf_inv_join)

lemma ring_step_inv: "ring_step sub cf cf' \<Longrightarrow> conf_inv sub cf \<Longrightarrow> conf_inv sub cf'"
proof (erule ring_stepE)
  fix m
  assume "conf_inv sub cf" "cf' = cf\<lparr>cf_umem := m\<rparr>"
  then show ?thesis by (simp add: conf_inv_def)
qed (simp_all only: conf_inv_push conf_inv_submit conf_inv_reap conf_inv_kernel)

lemma reachable_inv:
  "(ring_step sub)\<^sup>*\<^sup>* cf cf' \<Longrightarrow> conf_inv sub cf \<Longrightarrow> conf_inv sub cf'"
  by (induction rule: rtranclp_induct) (auto intro: ring_step_inv)

section \<open>The dispatch threads alone\<close>

text \<open>Every step of a thread or join uses up an entry or a thread.\<close>

definition work :: "('s, 'c) conf \<Rightarrow> nat" where
  "work cf = (\<Sum>th \<leftarrow> cf_threads cf. Suc (length (th_sqes th)))"

lemma post_cqe_set_threads:
  "post_cqe sub u r fl (set_threads ths mem) =
     and_then (post_cqe sub u r fl mem) (\<lambda>mem'. Inr (set_threads ths mem'))"
  by (cases mem; cases "cem_zero_extra (sub_cqe_marker sub) (cem_write_base (sub_cqe_marker sub)
        \<lparr>cqe_user_data = u, cqe_res = r, cqe_flags = fl\<rparr>
        (rm_cqes mem ! ring_index (sub_cq_ring_mask sub) (st_cq_tail (rm_state mem))))")
    (simp_all add: post_cqe_def upd_state_def Let_def)

lemma post_results_set_threads:
  "post_results sub cds (set_threads ths mem) =
     and_then (post_results sub cds mem) (\<lambda>mem'. Inr (set_threads ths mem'))"
proof (induction cds arbitrary: mem)
  case (Cons cd cds)
  show ?case
    by (cases "post_cqe sub (cd_user_data cd) (cd_result cd) 0 mem")
      (simp_all add: post_cqe_set_threads Cons.IH)
qed simp

lemma post_results_threads:
  "post_results sub cds (set_threads ths mem) = Inr mem' \<Longrightarrow> st_pending (rm_state mem') = ths"
  by (auto simp: post_results_set_threads and_then_eq_Inr)

lemma work_dispatch:
  assumes "i < length ths" "th_sqes (ths ! i) = sqe # rest"
  shows "(\<Sum>th \<leftarrow> ths[i := thread_next (ths ! i) cd c]. Suc (length (th_sqes th)))
    < (\<Sum>th \<leftarrow> ths. Suc (length (th_sqes th)))"
  using assms
proof (induction ths arbitrary: i)
  case (Cons th ths)
  then show ?case by (cases i) (auto simp: thread_next_def)
qed simp

lemma kernel_step_work: "kernel_step sub cf cf' \<Longrightarrow> work cf' < work cf"
  by (erule kernel_stepE) (simp_all add: work_def work_dispatch post_results_threads)

lemma kernel_step_enabled:
  assumes i: "sub_inv sub (cf_mem cf)" and t: "cf_threads cf = th # ths"
    and d: "\<And>sqe rest. th_sqes th = sqe # rest \<Longrightarrow>
      \<exists>r. complete_one dispatch_op sqe (th_cancel_chain th) (cf_umem cf) = Inr r"
  shows "\<exists>cf'. kernel_step sub cf cf'"
proof (cases "th_sqes th")
  case Nil
  have "sub_inv sub (set_threads ths (cf_mem cf))" using i by simp
  then obtain mem where "post_results sub (th_results th) (set_threads ths (cf_mem cf)) = Inr mem"
    unfolding post_results_put_all by (rule put_all_total)
  with t Nil show ?thesis by (blast intro: kernel_step.join)
next
  case (Cons sqe rest)
  with d obtain cd c m where "complete_one dispatch_op sqe (th_cancel_chain th) (cf_umem cf) = Inr (cd, c, m)"
    by (metis prod_cases3)
  with t Cons show ?thesis using kernel_step.dispatch [of 0 cf] by fastforce
qed

subsection \<open>The sequential model is a schedule\<close>

abbreviation flush_of :: "('s, 'c) Submitter \<Rightarrow> ('s, 'c) conf \<Rightarrow> (('s, 'c) RingMemory \<times> umem) exec" where
  "flush_of sub cf \<equiv> flush_pending sub (cf_mem cf) (cf_umem cf)"

lemma set_threads_set_threads [simp]: "set_threads a (set_threads b mem) = set_threads a mem"
  by (simp add: upd_state_def)

lemma set_threads_same: "st_pending (rm_state mem) = ths \<Longrightarrow> set_threads ths mem = mem"
  by (cases mem) (auto simp: upd_state_def)

lemma flush_of_idle: "cf_threads cf = [] \<Longrightarrow> flush_of sub cf = Inr (cf_mem cf, cf_umem cf)"
  by (simp add: flush_pending_def set_threads_same)

lemma thread_join_next:
  assumes "th_sqes th = sqe # rest"
    and "complete_one dispatch_op sqe (th_cancel_chain th) m = Inr (cd, c, m')"
  shows "thread_join dispatch_op (thread_next th cd c) m' = thread_join dispatch_op th m"
  using assms by (simp add: thread_join_def thread_next_def)

lemma flush_of_dispatch:
  assumes "cf_threads cf = th # ths" "th_sqes th = sqe # rest"
    and "complete_one dispatch_op sqe (th_cancel_chain th) (cf_umem cf) = Inr (cd, c, m)"
  shows "flush_of sub (cf\<lparr>cf_mem := set_threads (thread_next th cd c # ths) (cf_mem cf), cf_umem := m\<rparr>)
    = flush_of sub cf"
  using assms(1) thread_join_next [OF assms(2,3)] by (simp add: flush_pending_def)

lemma flush_of_join:
  assumes "cf_threads cf = th # ths" "th_sqes th = []"
    and "post_results sub (th_results th) (set_threads ths (cf_mem cf)) = Inr mem"
  shows "flush_pending sub mem (cf_umem cf) = flush_of sub cf"
proof -
  obtain mem0 where m: "post_results sub (th_results th) (cf_mem cf) = Inr mem0" "mem = set_threads ths mem0"
    using assms(3) by (auto simp: post_results_set_threads and_then_eq_Inr)
  show ?thesis
    using assms(1,2) m by (simp add: flush_pending_def thread_join_def post_results_set_threads)
qed

lemma flush_schedule:
  assumes "flush_of sub cf = Inr (mem, m)"
  shows "\<exists>cf'. (kernel_step sub)\<^sup>*\<^sup>* cf cf' \<and> cf_mem cf' = mem \<and> cf_umem cf' = m \<and> cf_threads cf' = []"
  using assms
proof (induction "work cf" arbitrary: cf rule: less_induct)
  case less
  have step: ?case if k: "kernel_step sub cf cf1" and f: "flush_of sub cf1 = flush_of sub cf" for cf1
  proof -
    obtain cf' where "(kernel_step sub)\<^sup>*\<^sup>* cf1 cf'" "cf_mem cf' = mem" "cf_umem cf' = m" "cf_threads cf' = []"
      using less.hyps [OF kernel_step_work [OF k]] f less.prems by metis
    with k show ?thesis by (blast intro: converse_rtranclp_into_rtranclp)
  qed
  show ?case
  proof (cases "cf_threads cf")
    case Nil
    with less.prems show ?thesis by (auto simp: flush_of_idle)
  next
    case t: (Cons th ths)
    show ?thesis
    proof (cases "th_sqes th")
      case Nil
      with less.prems t obtain mem0 where
        "post_results sub (th_results th) (set_threads [] (cf_mem cf)) = Inr mem0"
        by (auto simp: flush_pending_def thread_join_def and_then_eq_Inr)
      then obtain mem1 where
        p: "post_results sub (th_results th) (set_threads ths (cf_mem cf)) = Inr mem1"
        by (auto simp: post_results_set_threads and_then_eq_Inr)
      show ?thesis
        using flush_of_join [OF t Nil p] by (intro step [OF kernel_step.join [OF t Nil p]]) simp
    next
      case (Cons sqe rest)
      with less.prems t obtain cd c m1 where
        d: "complete_one dispatch_op sqe (th_cancel_chain th) (cf_umem cf) = Inr (cd, c, m1)"
        by (auto simp: flush_pending_def and_then_eq_Inr thread_join_eq_Inr)
      have "kernel_step sub cf (cf\<lparr>cf_mem := set_threads (thread_next th cd c # ths) (cf_mem cf), cf_umem := m1\<rparr>)"
        using t Cons d kernel_step.dispatch [of 0 cf sqe rest cd c m1 sub] by simp
      then show ?thesis by (rule step) (rule flush_of_dispatch [OF t Cons d])
    qed
  qed
qed

text \<open>With one batch outstanding the schedule does not matter.\<close>

lemma kernel_step_flush:
  assumes "kernel_step sub cf cf'" "length (cf_threads cf) \<le> 1"
  shows "flush_of sub cf' = flush_of sub cf \<and> length (cf_threads cf') \<le> 1"
  using assms
proof (cases rule: kernel_step.cases)
  case (dispatch i sqe rest cd c m)
  with assms(2) obtain th where "cf_threads cf = [th]" "i = 0" by (cases "cf_threads cf") auto
  with dispatch show ?thesis using flush_of_dispatch [of cf th "[]" sqe rest cd c m sub] by simp
next
  case (join th ths mem)
  with assms(2) show ?thesis by (simp add: flush_of_join post_results_threads)
qed

lemma single_batch_flush:
  assumes "(kernel_step sub)\<^sup>*\<^sup>* cf cf'" "length (cf_threads cf) \<le> 1"
  shows "flush_of sub cf' = flush_of sub cf \<and> length (cf_threads cf') \<le> 1"
  using assms by (induction rule: rtranclp_induct) (auto dest: kernel_step_flush)

end
