(* ===== verification/Miring_Dispatch_Props.thy ===== *)
theory Miring_Dispatch_Props
  imports Miring_Dispatch_Spec
begin

text \<open>
  The properties of the dispatcher of \<^verbatim>\<open>src/submit.rs\<close>: what each group of opcodes
  does to the user's memory and returns, which calls are undefined behaviour, and that nothing
  is allocated, freed or left to a panic.  The examples use a memory with one page of
  initialised bytes at address 4096.
\<close>

definition page_mem :: umem where
  "page_mem = (\<lambda>a. if 4096 \<le> a \<and> a < 8192 then Some (Byte 7) else None)"

definition example_sqe :: "u32 \<Rightarrow> u64 \<Rightarrow> u32 \<Rightarrow> io_uring_sqe" where
  "example_sqe opc addr len =
     io_uring_sqe_default\<lparr>sqe_opcode := ucast opc, sqe_addr := addr, sqe_len := len\<rparr>"

lemma example_sqe_simps [simp]:
  "sqe_opcode (example_sqe opc a n) = ucast opc" "sqe_addr (example_sqe opc a n) = a"
  "sqe_len (example_sqe opc a n) = n"
  by (simp_all add: example_sqe_def)

lemma page_mem_at: "i < 4096 \<Longrightarrow> page_mem (4096 + of_nat i) = Some (Byte 7)"
  by (simp add: page_mem_def word_le_nat_alt word_less_nat_alt unat_word_ariths unat_of_nat)

lemma page_mem_ok: "n \<le> 4096 \<Longrightarrow> live page_mem 4096 n \<and> readable page_mem 4096 n"
  by (simp add: readable_def live_def page_mem_at)

lemma page_mem_ok_at: "k + n \<le> 4096 \<Longrightarrow> live page_mem (4096 + of_nat k) n"
  using page_mem_at [of "k + _"]
  by (auto simp: live_def unat_word_ariths unat_of_nat add.assoc simp flip: of_nat_add)

section \<open>The match on the opcode\<close>

lemma dispatch_op_fill:
  "ucast (sqe_opcode sqe) \<in> {IORING_OP_READ, IORING_OP_READ_FIXED, IORING_OP_RECV, IORING_OP_READ_MULTISHOT}
   \<Longrightarrow> dispatch_op sqe m = dispatch_buf_fill sqe m"
  by (elim insertE emptyE; simp add: dispatch_op_def sys_consts)

lemma dispatch_op_sink:
  "ucast (sqe_opcode sqe) \<in> {IORING_OP_WRITE, IORING_OP_WRITE_FIXED, IORING_OP_SEND, IORING_OP_SEND_ZC}
   \<Longrightarrow> dispatch_op sqe m = dispatch_buf_sink sqe m"
  by (elim insertE emptyE; simp add: dispatch_op_def sys_consts)

lemma dispatch_op_readv:
  "ucast (sqe_opcode sqe) \<in> {IORING_OP_READV, IORING_OP_READV_FIXED} \<Longrightarrow>
     dispatch_op sqe m = dispatch_readv sqe m"
  by (elim insertE emptyE; simp add: dispatch_op_def sys_consts)

lemma dispatch_op_writev:
  "ucast (sqe_opcode sqe) \<in> {IORING_OP_WRITEV, IORING_OP_WRITEV_FIXED} \<Longrightarrow>
     dispatch_op sqe m = dispatch_writev sqe m"
  by (elim insertE emptyE; simp add: dispatch_op_def sys_consts)

lemma dispatch_op_path:
  "ucast (sqe_opcode sqe) \<in> {IORING_OP_OPENAT, IORING_OP_UNLINKAT, IORING_OP_MKDIRAT} \<Longrightarrow>
     dispatch_op sqe m = (if ucast (sqe_opcode sqe) = IORING_OP_OPENAT then dispatch_openat sqe m
       else dispatch_pathname sqe m)"
  by (elim insertE emptyE; simp add: dispatch_op_def sys_consts)

section \<open>Single buffers\<close>

text \<open>C30: the read-like opcodes (\<open>READ\<close>, \<open>READ_FIXED\<close>, \<open>RECV\<close>, \<open>READ_MULTISHOT\<close>) with a
  null buffer or length zero do nothing and return 0; otherwise they set exactly the bytes of the
  buffer to zero and return its length if all of it is live, and are undefined behaviour if
  not.\<close>

theorem read_ops_zero_the_buffer:
  assumes "ucast (sqe_opcode sqe) \<in>
    {IORING_OP_READ, IORING_OP_READ_FIXED, IORING_OP_RECV, IORING_OP_READ_MULTISHOT}"
  shows "dispatch_op sqe m =
    (if sqe_addr sqe = 0 \<or> sqe_len sqe = 0 then Inr (0, m)
     else if live m (sqe_addr sqe) (unat (sqe_len sqe))
     then Inr (sqe_len sqe, zeroed m (region (sqe_addr sqe) (unat (sqe_len sqe))))
     else UB UB_out_of_bounds)"
  unfolding dispatch_buf_fill_eq [symmetric] using assms by (rule dispatch_op_fill)

theorem read_ops_zero_the_buffer_witness:
  "dispatch_op (example_sqe IORING_OP_READ 4096 8) page_mem = Inr (8, zeroed page_mem (region 4096 8))
   \<and> dispatch_op (example_sqe IORING_OP_RECV 0 8) page_mem = Inr (0, page_mem)"
  using read_ops_zero_the_buffer [of "example_sqe IORING_OP_READ 4096 8" page_mem]
    read_ops_zero_the_buffer [of "example_sqe IORING_OP_RECV 0 8" page_mem]
  by (simp add: sys_consts page_mem_ok)

text \<open>the write-like opcodes (\<open>WRITE\<close>, \<open>WRITE_FIXED\<close>, \<open>SEND\<close>, \<open>SEND_ZC\<close>) never change
  memory; they return the length if every byte of the buffer is live and initialised, and are
  undefined behaviour of the matching kind otherwise.\<close>

theorem write_ops_read_the_buffer:
  assumes "ucast (sqe_opcode sqe) \<in>
    {IORING_OP_WRITE, IORING_OP_WRITE_FIXED, IORING_OP_SEND, IORING_OP_SEND_ZC}"
  shows "dispatch_op sqe m =
    (if sqe_addr sqe = 0 \<or> sqe_len sqe = 0 then Inr (0, m)
     else if readable m (sqe_addr sqe) (unat (sqe_len sqe)) then Inr (sqe_len sqe, m)
     else if live m (sqe_addr sqe) (unat (sqe_len sqe)) then UB UB_uninit
     else UB UB_out_of_bounds)"
  unfolding dispatch_buf_sink_eq [symmetric] using assms by (rule dispatch_op_sink)

theorem write_ops_read_the_buffer_witness:
  "dispatch_op (example_sqe IORING_OP_SEND 4096 8) page_mem = Inr (8, page_mem)
   \<and> dispatch_op (example_sqe IORING_OP_WRITE 4096 8) (\<lambda>_. Some Uninit) = UB UB_uninit"
proof -
  have "\<not> readable (\<lambda>_. Some Uninit) 4096 8" by (auto simp: readable_def intro!: exI [of _ 0])
  moreover have "live (\<lambda>_. Some Uninit) 4096 8" by (simp add: live_def)
  ultimately show ?thesis
    using write_ops_read_the_buffer [of "example_sqe IORING_OP_SEND 4096 8" page_mem]
      write_ops_read_the_buffer [of "example_sqe IORING_OP_WRITE 4096 8" "\<lambda>_. Some Uninit"]
    by (simp add: sys_consts page_mem_ok)
qed

text \<open>a length of \<open>2 ^ 31\<close> or more comes back as a negative number: the handlers return
  \<open>len as i32\<close>, so a read that filled the whole buffer looks like a failed one.\<close>

theorem long_read_looks_failed:
  assumes "ucast (sqe_opcode sqe) \<in>
      {IORING_OP_READ, IORING_OP_READ_FIXED, IORING_OP_RECV, IORING_OP_READ_MULTISHOT}"
    and "sqe_addr sqe \<noteq> 0" "2 ^ 31 \<le> unat (sqe_len sqe)" "live m (sqe_addr sqe) (unat (sqe_len sqe))"
  shows "\<exists>r. dispatch_op sqe m = Inr (r, zeroed m (region (sqe_addr sqe) (unat (sqe_len sqe))))
           \<and> sint r = int (unat (sqe_len sqe)) - 2 ^ 32 \<and> sint r < 0"
proof -
  have "sint (sqe_len sqe) = int (unat (sqe_len sqe)) - 2 ^ 32"
    using assms(3) by (rule sint_large)
  moreover have "unat (sqe_len sqe) < 2 ^ 32" by (rule order_less_le_trans [OF unsigned_less]) simp
  moreover have "sqe_len sqe \<noteq> 0" using assms(3) by auto
  moreover have "dispatch_op sqe m = dispatch_buf_fill sqe m"
    using assms(1) by (rule dispatch_op_fill)
  ultimately show ?thesis using assms(2,4) by (simp add: dispatch_buf_fill_eq del: of_nat_unat)
qed

theorem long_read_looks_failed_witness:
  "\<exists>r. dispatch_op (example_sqe IORING_OP_READ 4096 (2 ^ 31)) (\<lambda>_. Some Uninit) =
       Inr (r, zeroed (\<lambda>_. Some Uninit) (region 4096 (2 ^ 31))) \<and> sint r = - (2 ^ 31)"
  using long_read_looks_failed [of "example_sqe IORING_OP_READ 4096 (2 ^ 31)" "\<lambda>_. Some Uninit"]
  by (auto simp: sys_consts live_def)

section \<open>Vectored operations\<close>

lemma slice_check_array:
  "a \<noteq> 0 \<Longrightarrow> unat a mod 8 = 0 \<Longrightarrow> live m a (unat (n :: u32) * 16) \<Longrightarrow> slice_check m a (unat n) 16 8 = Inr ()"
proof -
  have "unat n < 2 ^ 32" by (rule order_less_le_trans [OF unsigned_less]) simp
  then show "a \<noteq> 0 \<Longrightarrow> unat a mod 8 = 0 \<Longrightarrow> live m a (unat n * 16) \<Longrightarrow> ?thesis" by simp
qed

text \<open>C31: \<open>READV\<close> and \<open>READV_FIXED\<close> walk the iovec array while they overwrite the buffers; when
  no buffer overlaps the array this is the same as decoding the whole array first: the union of
  the buffers is zeroed and nothing else, and the result is the saturated sum of the lengths cut
  to 32 bits.\<close>

theorem readv_scatters:
  assumes "ucast (sqe_opcode sqe) \<in> {IORING_OP_READV, IORING_OP_READV_FIXED}"
    and "sqe_addr sqe \<noteq> 0" "sqe_len sqe \<noteq> 0"
    and "unat (sqe_addr sqe) mod 8 = 0" "live m (sqe_addr sqe) (unat (sqe_len sqe) * 16)"
    and "decode_iovs (unat (sqe_len sqe)) (sqe_addr sqe) m = Inr rs" "iovs_live m rs"
    and "iov_bytes rs \<inter> region (sqe_addr sqe) (16 * unat (sqe_len sqe)) = {}"
  shows "dispatch_op sqe m = Inr (ucast (iov_total 0 rs), zeroed m (iov_bytes rs))
    \<and> unat (iov_total 0 rs) = min (2 ^ 64 - 1) (sum_list (map (unat \<circ> snd) rs))"
proof -
  have "dispatch_op sqe m = dispatch_readv sqe m"
    using assms(1) by (rule dispatch_op_readv)
  moreover have "slice_check m (sqe_addr sqe) (unat (sqe_len sqe)) 16 8 = Inr ()"
    using assms(2,4,5) by (rule slice_check_array)
  ultimately show ?thesis
    using assms(2,3) fill_iovs_ref [OF assms(6-8), of 0] unat_iov_total [of 0 rs]
    by (simp only: dispatch_readv_def Let_def unat_ucast_u32 ucast_u32_eq_0 if_False simp_thms
        and_then_simps case_prod_conv unat_0 add_0)
qed

text \<open>The memory of the witness: one iovec at 4096 that names the 4 bytes at 4200.\<close>

definition iov_mem :: umem where
  "iov_mem = store page_mem 4096 (to_le_bytes 8 (4200 :: u64) @ to_le_bytes 8 (4 :: u64))"

lemma iov_mem_dom: "same_dom page_mem iov_mem"
  unfolding iov_mem_def by (rule same_dom_store) (simp add: page_mem_ok)

lemma iov_mem_live: "k + n \<le> 4096 \<Longrightarrow> live iov_mem (4096 + of_nat k) n"
  by (simp add: same_dom_live [OF iov_mem_dom] page_mem_ok_at)

lemma iov_mem_word:
  "load iov_mem 4096 8 = Inr (to_le_bytes 8 (4200 :: u64))"
  "load iov_mem 4104 8 = Inr (to_le_bytes 8 (4 :: u64))"
  using load_store_part [of "to_le_bytes 8 (4200 :: u64) @ to_le_bytes 8 (4 :: u64)" 0 8 page_mem 4096]
    load_store_part [of "to_le_bytes 8 (4200 :: u64) @ to_le_bytes 8 (4 :: u64)" 8 8 page_mem 4096]
  by (simp_all add: iov_mem_def)

lemma iov_mem_decode: "decode_iovs 1 4096 iov_mem = Inr [(4200, 4)]"
proof -
  have "live iov_mem 4096 8" "live iov_mem 4104 8"
    using iov_mem_live [of 0 8] iov_mem_live [of 8 8] by simp_all
  then have "read_u64 iov_mem 4096 = Inr 4200" "read_u64 iov_mem 4104 = Inr 4"
    by (simp_all add: read_u64_def ptr_read_def deref_check_def iov_mem_word from_to_le_bytes)
  then show ?thesis by (simp add: pair_at_def)
qed

lemma iov_mem_buffers: "iovs_live iov_mem [(4200, 4)]" "iov_bytes [(4200, 4)] \<inter> region 4096 16 = {}"
proof -
  show "iovs_live iov_mem [(4200, 4)]" using iov_mem_live [of 104 4] by (simp add: iovs_live_def)
  have "(4200 + of_nat i :: u64) \<noteq> 4096 + of_nat j" if "i < 4" "j < 16" for i j
  proof
    assume "(4200 + of_nat i :: u64) = 4096 + of_nat j"
    then have "unat (4200 + of_nat i :: u64) = unat (4096 + of_nat j :: u64)" by (rule arg_cong)
    with that show False by (simp add: unat_word_ariths unat_of_nat)
  qed
  then show "iov_bytes [(4200, 4)] \<inter> region 4096 16 = {}" by (auto simp: iov_bytes_def region_def)
qed

theorem readv_scatters_witness:
  "dispatch_op (example_sqe IORING_OP_READV 4096 1) iov_mem =
     Inr (4, zeroed iov_mem (iov_bytes [(4200, 4)]))"
  using readv_scatters [of "example_sqe IORING_OP_READV 4096 1" iov_mem "[(4200, 4)]"]
    iov_mem_decode iov_mem_buffers iov_mem_live [of 0 16]
  by (simp add: sys_consts iov_total_def saturating_add_def)

text \<open>\<open>WRITEV\<close> and \<open>WRITEV_FIXED\<close> read every byte of every buffer of the array, change
  nothing, and return the same count as a \<open>READV\<close> of that array would.\<close>

theorem writev_gathers:
  assumes "ucast (sqe_opcode sqe) \<in> {IORING_OP_WRITEV, IORING_OP_WRITEV_FIXED}"
    and "sqe_addr sqe \<noteq> 0" "sqe_len sqe \<noteq> 0"
    and "unat (sqe_addr sqe) mod 8 = 0" "live m (sqe_addr sqe) (unat (sqe_len sqe) * 16)"
    and "decode_iovs (unat (sqe_len sqe)) (sqe_addr sqe) m = Inr rs" "iovs_readable m rs"
  shows "dispatch_op sqe m = Inr (ucast (iov_total 0 rs), m)"
proof -
  have "dispatch_op sqe m = dispatch_writev sqe m"
    using assms(1) by (rule dispatch_op_writev)
  moreover have "slice_check m (sqe_addr sqe) (unat (sqe_len sqe)) 16 8 = Inr ()"
    using assms(2,4,5) by (rule slice_check_array)
  ultimately show ?thesis
    using assms(2,3) sink_iovs_ref [OF assms(6,7), of 0 0]
    by (simp only: dispatch_writev_def Let_def unat_ucast_u32 ucast_u32_eq_0 if_False simp_thms
        and_then_simps)
qed

theorem writev_gathers_witness:
  "dispatch_op (example_sqe IORING_OP_WRITEV 4096 1) iov_mem = Inr (4, iov_mem)"
proof -
  have "iov_mem (4200 + of_nat i) = Some (Byte 7)" if "i < 4" for i
  proof -
    have "4200 + of_nat i \<notin> region 4096 16"
      using iov_mem_buffers(2) that by (auto simp: iov_bytes_def region_def)
    then have "iov_mem (4200 + of_nat i) = page_mem (4200 + of_nat i)"
      by (simp add: iov_mem_def store_frame)
    then show ?thesis using page_mem_at [of "104 + i"] that by (simp add: add.assoc)
  qed
  then have "iovs_readable iov_mem [(4200, 4)]"
    using iov_mem_live [of 104 4] by (simp add: iovs_readable_def readable_def)
  then show ?thesis
    using writev_gathers [of "example_sqe IORING_OP_WRITEV 4096 1" iov_mem "[(4200, 4)]"]
      iov_mem_decode iov_mem_live [of 0 16]
    by (simp add: sys_consts iov_total_def saturating_add_def)
qed

section \<open>Paths\<close>

text \<open>the single-path opcodes (\<open>OPENAT\<close>, \<open>UNLINKAT\<close>, \<open>MKDIRAT\<close>) return exactly when the
  path pointer is null (then \<open>-EFAULT\<close>) or points to a string of initialised bytes with a
  terminating NUL inside live memory; in every other case the byte walk is undefined behaviour.
  They never change memory, and the walk always ends.\<close>

theorem path_ops_need_a_string:
  assumes "ucast (sqe_opcode sqe) \<in> {IORING_OP_OPENAT, IORING_OP_UNLINKAT, IORING_OP_MKDIRAT}"
  shows "if sqe_addr sqe = 0 then dispatch_op sqe m = Inr (EFAULT, m)
    else if \<exists>n. cstr_at m (sqe_addr sqe) n
    then dispatch_op sqe m = Inr (if ucast (sqe_opcode sqe) = IORING_OP_OPENAT then 42 else 0, m)
    else (\<exists>u. dispatch_op sqe m = UB u)"
proof -
  have op: "dispatch_op sqe m = (if sqe_addr sqe = 0 then Inr (EFAULT, m)
      else and_then (walk_cstr m (sqe_addr sqe))
        (\<lambda>_. Inr (if ucast (sqe_opcode sqe) = IORING_OP_OPENAT then 42 else 0, m)))"
    using dispatch_op_path [OF assms, of m] assms
    by (elim insertE emptyE; simp add: sys_consts dispatch_openat_def dispatch_pathname_def)
  show ?thesis
  proof (cases "walk_cstr m (sqe_addr sqe)")
    case (Inl f)
    then obtain u where "f = UndefinedBehavior u"
      using no_panic_walk_cstr [of m "sqe_addr sqe"] by (cases f) (auto simp: no_panic_def)
    moreover have "\<not> (\<exists>n. cstr_at m (sqe_addr sqe) n)" using Inl walk_cstr_iff [of m "sqe_addr sqe"] by simp
    ultimately show ?thesis unfolding op using Inl by simp
  next
    case (Inr v)
    then have "\<exists>n. cstr_at m (sqe_addr sqe) n" using walk_cstr_iff [of m "sqe_addr sqe"] by simp
    then show ?thesis unfolding op using Inr by simp
  qed
qed

lemma no_cstr_page: "\<not> cstr_at page_mem 4096 n"
proof
  assume c: "cstr_at page_mem 4096 n"
  have *: "page_mem a \<noteq> Some (Byte 0)" for a by (simp add: page_mem_def)
  from c have "page_mem (4096 + of_nat n) = Some (Byte 0)" by (simp add: cstr_at_def)
  with * show False by blast
qed

theorem path_ops_need_a_string_witness:
  "dispatch_op (example_sqe IORING_OP_OPENAT 4096 0) (page_mem(4096 \<mapsto> Byte 47, 4097 \<mapsto> Byte 0))
     = Inr (42, page_mem(4096 \<mapsto> Byte 47, 4097 \<mapsto> Byte 0))
   \<and> (\<exists>u. dispatch_op (example_sqe IORING_OP_OPENAT 4096 0) page_mem = UB u)"
proof -
  have "cstr_at (page_mem(4096 \<mapsto> Byte 47, 4097 \<mapsto> Byte 0)) 4096 1" by (simp add: cstr_at_def)
  then have "\<exists>n. cstr_at (page_mem(4096 \<mapsto> Byte 47, 4097 \<mapsto> Byte 0)) 4096 n" by blast
  moreover have no: "Ex (cstr_at page_mem 4096) = False" using no_cstr_page by blast
  ultimately show ?thesis
    using path_ops_need_a_string [of "example_sqe IORING_OP_OPENAT 4096 0"
        "page_mem(4096 \<mapsto> Byte 47, 4097 \<mapsto> Byte 0)"]
      path_ops_need_a_string [of "example_sqe IORING_OP_OPENAT 4096 0" page_mem]
    by (simp add: sys_consts no)
qed

section \<open>All opcodes\<close>

text \<open>no opcode allocates or frees user memory, whatever its arguments, and no opcode panics:
  a dispatch ends with a result or is undefined behaviour.\<close>

theorem dispatch_keeps_allocations:
  "case dispatch_op sqe m of
     Inr (r, m') \<Rightarrow> dom m' = dom m
   | Inl f \<Rightarrow> (\<exists>u. f = UndefinedBehavior u)"
proof (cases "dispatch_op sqe m")
  case (Inl f)
  with dispatch_op_no_panic [of sqe m] show ?thesis by (cases f) (auto simp: no_panic_def)
next
  case (Inr x)
  with dispatch_op_same_dom [of sqe m] show ?thesis by (cases x) (auto simp: same_dom_def)
qed

text \<open>an opcode outside the fourteen that hand data to the application leaves the memory as
  it is.\<close>

theorem other_ops_only_read:
  assumes "dispatch_op sqe m = Inr (r, m')"
    and "ucast (sqe_opcode sqe) \<notin> {IORING_OP_READ, IORING_OP_READ_FIXED, IORING_OP_RECV,
      IORING_OP_READV, IORING_OP_RECVMSG, IORING_OP_ACCEPT, IORING_OP_STATX, IORING_OP_FGETXATTR,
      IORING_OP_GETXATTR, IORING_OP_EPOLL_WAIT, IORING_OP_READV_FIXED, IORING_OP_READ_MULTISHOT,
      IORING_OP_WAITID, IORING_OP_PIPE}"
  shows "m' = m"
  using assms unfolding writes_memory_def [symmetric] by (rule dispatch_op_read_only)

theorem other_ops_only_read_witness:
  "dispatch_op (example_sqe IORING_OP_TIMEOUT 4096 1) page_mem = Inr (ETIME, page_mem)"
proof -
  have "\<exists>m'. dispatch_op (example_sqe IORING_OP_TIMEOUT 4096 1) page_mem = Inr (ETIME, m')"
    using page_mem_ok [of 16] readable_load [of page_mem 4096 16]
    by (auto simp: dispatch_op_def dispatch_timeout_def ptr_read_def deref_check_def sys_consts)
  then obtain m' where "dispatch_op (example_sqe IORING_OP_TIMEOUT 4096 1) page_mem = Inr (ETIME, m')" ..
  with other_ops_only_read [OF this] show ?thesis by (simp add: sys_consts)
qed

end
