(* ===== verification/Miring_Example.thy ===== *)
theory Miring_Example
  imports Miring_Concurrency Miring_Dispatch_Props
begin

text \<open>
  Concrete rings, entries and configurations that the witnesses of the development share.  They
  model no code.
\<close>

section \<open>An example ring\<close>

text \<open>
  A ring of four entries on both sides whose positions are about to wrap: three submissions
  lie between position \<open>2 ^ 32 - 2\<close> and position \<open>1\<close>, three completions between
  \<open>2 ^ 32 - 1\<close> and \<open>2\<close>.
\<close>

definition nop_entry :: "u64 \<Rightarrow> Entry" where
  "nop_entry u = Entry (io_uring_sqe_default\<lparr>sqe_user_data := u\<rparr>)"

definition example_mem :: "(Entry, cq_Entry) RingMemory" where
  "example_mem = \<lparr>rm_state = new_RingState
       \<lparr>st_sq_head := - 2, st_sq_tail := 1, st_cq_head := - 1, st_cq_tail := 2\<rparr>,
     rm_sqes = [nop_entry 13, nop_entry 14, nop_entry 11, nop_entry 12],
     rm_cqes = replicate 4 (cq_Entry io_uring_cqe_default)\<rparr>"

definition example_ring :: "(Entry, cq_Entry) IoUring" where
  "example_ring = \<lparr>ring_sq = \<lparr>sqi_ring_mask = 3, sqi_ring_entries = 4\<rparr>,
     ring_cq = \<lparr>cqi_ring_mask = 3, cqi_ring_entries = 4\<rparr>,
     ring_params = Parameters io_uring_params_default, ring_memory = example_mem\<rparr>"

definition example_sub :: "(Entry, cq_Entry) Submitter" where
  "example_sub = IoUring_submitter Entry_marker cq_Entry_marker example_ring"

lemmas example_defs = example_sub_def IoUring_submitter_def example_ring_def example_mem_def
  new_RingState_def nop_entry_def

lemma geom4 [simp]: "ring_geom 4 3 4" "ring_geom 4 3 (Suc (Suc (Suc (Suc 0))))"
  by (auto simp: ring_geom_def intro!: bexI [of _ 2])

lemma example_ring_inv [simp]: "ring_inv Entry_marker cq_Entry_marker example_ring"
  by (simp add: ring_inv_def sub_inv_def example_defs dist_def)

lemma example_sub_inv [simp]: "sub_inv example_sub example_mem"
  using example_ring_inv by (simp add: ring_inv_def example_sub_def example_ring_def)

lemma example_sq_view [simp]: "sq_view (IoUring_submission example_ring) example_mem"
  using IoUring_submission_view(1) [OF example_ring_inv] by (simp add: example_ring_def)

lemma example_sq_room [simp]: "sq_room (IoUring_submission example_ring) = 1"
  by (simp add: sq_room_def IoUring_submission_def squeue_borrow_def squeue_borrow_shared_def
      unsync_load_def example_defs dist_def)

lemma nop_entry_user_data [simp]: "sqe_user_data (entry_sqe (nop_entry u)) = u"
  by (simp add: nop_entry_def)

lemma example_published:
  "sq_published example_sub example_mem = map (entry_sqe \<circ> nop_entry) [11, 12, 13]"
  by (simp add: sq_published_def example_defs dist_def Entry_marker_def ring_slice_def ring_index_def upt_rec)

section \<open>Entries with links\<close>

definition linked :: "u8 \<Rightarrow> u8 \<Rightarrow> u64 \<Rightarrow> io_uring_sqe" where
  "linked opc fl u = io_uring_sqe_default\<lparr>sqe_opcode := opc, sqe_flags := fl, sqe_user_data := u\<rparr>"

lemma linked_simps [simp]:
  "sqe_opcode (linked opc fl u) = opc" "sqe_user_data (linked opc fl u) = u"
  "is_link (linked opc fl u) \<longleftrightarrow> fl AND Flags_IO_LINK \<noteq> 0"
  "is_hardlink (linked opc fl u) \<longleftrightarrow> fl AND Flags_IO_HARDLINK \<noteq> 0"
  "is_skip_success (linked opc fl u) \<longleftrightarrow> fl AND Flags_SKIP_SUCCESS \<noteq> 0"
  by (simp_all add: linked_def is_link_def is_hardlink_def is_skip_success_def)

lemmas flag_consts = Flags_IO_LINK_def Flags_IO_HARDLINK_def Flags_SKIP_SUCCESS_def sys_consts

lemma dispatch_linked_nop: "dispatch_op (linked 0 fl u) m = Inr (0, m)"
  by (simp add: dispatch_op_def sys_consts dispatch_nop_def linked_def io_uring_sqe_default_def)

lemma dispatch_linked_bad: "dispatch_op (linked 200 fl u) m = Inr (ENOSYS, m)"
  by (rule dispatch_op_unhandled) (simp add: handled_iff IORING_OP_LAST_def)

section \<open>A ring just built\<close>

definition start_mem :: "(Entry, cq_Entry) RingMemory" where
  "start_mem = example_mem\<lparr>rm_state := new_RingState\<rparr>"

definition idle_ring :: "(Entry, cq_Entry) IoUring" where
  "idle_ring = example_ring\<lparr>ring_memory := start_mem\<rparr>"

lemma start_sub_inv: "sub_inv example_sub start_mem"
  by (simp add: sub_inv_def start_mem_def example_defs)

lemma idle_ring_idle: "ring_idle Entry_marker cq_Entry_marker idle_ring"
proof -
  have "ring_inv Entry_marker cq_Entry_marker idle_ring"
    unfolding idle_ring_def ring_inv_memory [OF example_ring_inv]
    by (rule start_sub_inv [unfolded example_sub_def])
  then show ?thesis
    by (simp add: ring_idle_def ring_view_defs idle_ring_def start_mem_def sq_published_def cq_posted_def
        new_RingState_def)
qed

lemma example_ring_start: "ring_start example_sub start_mem"
  using start_sub_inv
  by (simp add: ring_start_def start_mem_def sq_published_def cq_posted_def cqueue_overflow_def new_RingState_def)

lemma example_push_step:
  "\<exists>cf. ring_step example_sub (conf_init start_mem page_mem) cf \<and> cf_pushed cf = [entry_sqe (nop_entry 1)]
     \<and> cf_accepted cf = [] \<and> cf_threads cf = []"
proof -
  let ?cf = "conf_init start_mem page_mem"
  have v: "sq_view (squeue_borrow (sub_sq_inner example_sub) start_mem) start_mem"
    "0 < sq_room (squeue_borrow (sub_sq_inner example_sub) start_mem)"
    by (simp_all add: sq_view_def squeue_borrow_def squeue_borrow_shared_def unsync_load_def sub_sq_inner_def
        start_mem_def example_defs sq_room_def)
  obtain sq mem where
    p: "squeue_push (nop_entry 1) (squeue_borrow (sub_sq_inner example_sub) (cf_mem ?cf)) (cf_mem ?cf) = Inr (Inr (), sq, mem)"
      "rm_state mem = rm_state start_mem"
    using squeue_push_law [OF v(1), of "nop_entry 1"] v(2) by (auto simp: conf_init_def)
  show ?thesis
    by (intro exI conjI, rule ring_step.app_push [OF p(1)])
      (use p(2) in \<open>simp_all add: conf_init_def squeue_drop_def start_mem_def example_defs Entry_marker_def\<close>)
qed

section \<open>One outstanding batch\<close>

definition busy_conf :: "(Entry, cq_Entry) conf" where
  "busy_conf = conf_init (set_threads [thread_spawn [linked 0 0 1]] start_mem) page_mem"

lemma busy_conf_simps:
  "sub_inv example_sub (cf_mem busy_conf)" "cf_threads busy_conf = [thread_spawn [linked 0 0 1]]"
  "cf_umem busy_conf = page_mem"
  using start_sub_inv by (simp_all add: busy_conf_def conf_init_def)

end
