(* ===== verification/Miring_Session.thy ===== *)
theory Miring_Session
  imports Miring_Example
begin

text \<open>
  A client that holds its handles: after \<open>IoUring::split\<close> the application keeps a
  \<open>SubmissionQueue\<close>, a \<open>CompletionQueue\<close> and the \<open>Submitter\<close> alive at the same time, calls
  their operations in any order, and the dispatch threads and joins run in between.  The handles
  work on cached positions, so the submitter may take entries that the handle still counts as
  queued, and completions may be posted that the other handle does not see yet.  The calls are those
  of \<open>Miring_Squeue\<close>, \<open>Miring_Cqueue\<close> and \<open>Miring_Submit\<close>; the steps of threads and joins, and the
  histories, are those of \<open>Miring_Concurrency\<close>.

  The result: no call ever panics or touches memory outside the arrays, nothing is lost between the
  handle and the submitter, and the completions taken so far and those still to be read are the
  results in order, up to the counted overflow.
\<close>

section \<open>The calls\<close>

record ('s, 'c) session =
  ss_conf :: "('s, 'c) conf"
  ss_sq :: SubmissionQueue
  ss_cq :: CompletionQueue

abbreviation ss_mem :: "('s, 'c) session \<Rightarrow> ('s, 'c) RingMemory" where
  "ss_mem s \<equiv> cf_mem (ss_conf s)"

text \<open>\<open>Sq_drop\<close> and \<open>Cq_drop\<close> drop the handle and borrow a new one.\<close>

datatype 's call = Push 's | Push_multiple "'s list" | Sq_sync | Sq_drop
  | Next | Fill nat | Cq_sync | Cq_drop | Enter u32

definition upd_sq ::
  "SubmissionQueue \<Rightarrow> ('s, 'c) RingMemory \<Rightarrow> io_uring_sqe list \<Rightarrow> ('s, 'c) session \<Rightarrow> ('s, 'c) session"
where
  "upd_sq sq mem sqes s = s\<lparr>ss_sq := sq,
     ss_conf := (ss_conf s)\<lparr>cf_mem := mem, cf_pushed := cf_pushed (ss_conf s) @ sqes\<rparr>\<rparr>"

definition upd_cq ::
  "CompletionQueue \<Rightarrow> ('s, 'c) RingMemory \<Rightarrow> io_uring_cqe list \<Rightarrow> ('s, 'c) session \<Rightarrow> ('s, 'c) session"
where
  "upd_cq cq mem cqes s = s\<lparr>ss_cq := cq,
     ss_conf := (ss_conf s)\<lparr>cf_mem := mem, cf_reaped := cf_reaped (ss_conf s) @ cqes\<rparr>\<rparr>"

fun session_call :: "('s, 'c) Submitter \<Rightarrow> 's call \<Rightarrow> ('s, 'c) session \<Rightarrow> ('s, 'c) session exec" where
  "session_call sub (Push e) s =
     and_then (squeue_push e (ss_sq s) (ss_mem s)) (\<lambda>(r, sq, mem).
       Inr (upd_sq sq mem (if r = Inr () then [sem_sqe (sub_sqe_marker sub) e] else []) s))"
| "session_call sub (Push_multiple es) s =
     and_then (squeue_push_multiple es (ss_sq s) (ss_mem s)) (\<lambda>(r, sq, mem).
       Inr (upd_sq sq mem (if r = Inr () then map (sem_sqe (sub_sqe_marker sub)) es else []) s))"
| "session_call sub Sq_sync s = (case squeue_sync (ss_sq s) (ss_mem s) of (sq, mem) \<Rightarrow> Inr (upd_sq sq mem [] s))"
| "session_call sub Sq_drop s = (let mem = squeue_drop (ss_sq s) (ss_mem s) in
     Inr (upd_sq (squeue_borrow (sq_queue (ss_sq s)) mem) mem [] s))"
| "session_call sub Next s =
     and_then (cqueue_next (ss_cq s) (ss_mem s)) (\<lambda>(r, cq).
       Inr (upd_cq cq (ss_mem s) (case r of None \<Rightarrow> [] | Some e \<Rightarrow> [cqe_of (sub_cqe_marker sub) e]) s))"
| "session_call sub (Fill n) s =
     and_then (cqueue_fill n (ss_cq s) (ss_mem s)) (\<lambda>(es, cq).
       Inr (upd_cq cq (ss_mem s) (map (cqe_of (sub_cqe_marker sub)) es) s))"
| "session_call sub Cq_sync s = (case cqueue_sync (ss_cq s) (ss_mem s) of (cq, mem) \<Rightarrow> Inr (upd_cq cq mem [] s))"
| "session_call sub Cq_drop s = (let mem = cqueue_drop (ss_cq s) (ss_mem s) in
     Inr (upd_cq (cqueue_borrow (cq_queue (ss_cq s)) mem) mem [] s))"
| "session_call sub (Enter k) s =
     and_then (enqueue_sqes sub k (ss_mem s)) (\<lambda>(r, mem).
       Inr (s\<lparr>ss_conf := (ss_conf s)\<lparr>cf_mem := mem, cf_accepted := cf_accepted (ss_conf s) @
         (case r of Inl _ \<Rightarrow> [] | Inr n \<Rightarrow> take (unat n) (sq_published sub (ss_mem s)))\<rparr>\<rparr>))"

inductive session_step :: "('s, 'c) Submitter \<Rightarrow> ('s, 'c) session \<Rightarrow> ('s, 'c) session \<Rightarrow> bool"
  for sub :: "('s, 'c) Submitter"
where
  call: "session_call sub c s = Inr s' \<Longrightarrow> session_step sub s s'"
| memory: "session_step sub s (s\<lparr>ss_conf := (ss_conf s)\<lparr>cf_umem := m\<rparr>\<rparr>)"
| kernel: "kernel_step sub (ss_conf s) cf \<Longrightarrow> session_step sub s (s\<lparr>ss_conf := cf\<rparr>)"

inductive_cases session_stepE: "session_step sub s s'"

text \<open>What \<open>split\<close> returns, with empty histories.\<close>

definition session_init ::
  "SubmissionQueue \<Rightarrow> CompletionQueue \<Rightarrow> ('s, 'c) RingMemory \<Rightarrow> umem \<Rightarrow> ('s, 'c) session"
where
  "session_init sq cq mem m = \<lparr>ss_conf = conf_init mem m, ss_sq = sq, ss_cq = cq\<rparr>"

section \<open>The invariant\<close>

text \<open>Entries the handle has pushed and the submitter has not taken; completions posted and not taken.\<close>

abbreviation ss_queued :: "('s, 'c) Submitter \<Rightarrow> ('s, 'c) session \<Rightarrow> io_uring_sqe list" where
  "ss_queued sub s \<equiv> map (sem_sqe (sub_sqe_marker sub)) (sq_unconsumed (ss_sq s) (ss_mem s))"

abbreviation ss_unread :: "('s, 'c) Submitter \<Rightarrow> ('s, 'c) session \<Rightarrow> io_uring_cqe list" where
  "ss_unread sub s \<equiv> map (cqe_of (sub_cqe_marker sub)) (cq_unread (ss_cq s) (ss_mem s))"

definition sq_live :: "('s, 'c) Submitter \<Rightarrow> ('s, 'c) RingMemory \<Rightarrow> SubmissionQueue \<Rightarrow> bool" where
  "sq_live sub mem sq \<longleftrightarrow> sq_view sq mem \<and> sq_queue sq = sub_sq_inner sub"

definition cq_live :: "('s, 'c) Submitter \<Rightarrow> ('s, 'c) RingMemory \<Rightarrow> CompletionQueue \<Rightarrow> bool" where
  "cq_live sub mem cq \<longleftrightarrow> cq_view cq mem \<and> cq_queue cq = sub_cq_inner sub"

definition session_inv :: "('s, 'c) Submitter \<Rightarrow> ('s, 'c) session \<Rightarrow> bool" where
  "session_inv sub s \<longleftrightarrow> sub_inv sub (ss_mem s) \<and> sq_live sub (ss_mem s) (ss_sq s) \<and> cq_live sub (ss_mem s) (ss_cq s)
     \<and> cf_pushed (ss_conf s) = cf_accepted (ss_conf s) @ ss_queued sub s
     \<and> map cd_user_data (cf_joined (ss_conf s)) @ concat (map thread_owes (cf_threads (ss_conf s)))
         = map sqe_user_data (cf_accepted (ss_conf s))
     \<and> subseq (cf_reaped (ss_conf s) @ ss_unread sub s) (cqes_of (cf_joined (ss_conf s)))
     \<and> length (cf_reaped (ss_conf s) @ ss_unread sub s) + cf_lost (ss_conf s)
         = length (cqes_of (cf_joined (ss_conf s)))
     \<and> cqueue_overflow (ss_mem s) = of_nat (cf_lost (ss_conf s))"

text \<open>A call on one handle leaves the other side of the ring alone.\<close>

definition cq_same :: "('s, 'c) RingMemory \<Rightarrow> ('s, 'c) RingMemory \<Rightarrow> bool" where
  "cq_same mem mem' \<longleftrightarrow> rm_cqes mem' = rm_cqes mem \<and> st_cq_head (rm_state mem') = st_cq_head (rm_state mem)
     \<and> st_cq_tail (rm_state mem') = st_cq_tail (rm_state mem)"

definition sq_same :: "('s, 'c) RingMemory \<Rightarrow> ('s, 'c) RingMemory \<Rightarrow> bool" where
  "sq_same mem mem' \<longleftrightarrow> rm_sqes mem' = rm_sqes mem \<and> st_sq_head (rm_state mem') = st_sq_head (rm_state mem)
     \<and> st_sq_tail (rm_state mem') = st_sq_tail (rm_state mem)"

lemma cq_same_live:
  assumes "cq_same mem mem'"
  shows "cq_live sub mem' cq = cq_live sub mem cq" "cq_unread cq mem' = cq_unread cq mem"
  using assms by (simp_all add: cq_same_def cq_live_def cq_view_def cq_unread_def)

lemma sq_same_live:
  assumes "sq_same mem mem'"
  shows "sq_live sub mem' sq = sq_live sub mem sq" "sq_unconsumed sq mem' = sq_unconsumed sq mem"
  using assms by (simp_all add: sq_same_def sq_live_def sq_view_def sq_unconsumed_def)

lemma session_inv_sq:
  assumes "session_inv sub s" "sub_inv sub mem" "sq_live sub mem sq" "cq_same (ss_mem s) mem"
    and "map (sem_sqe (sub_sqe_marker sub)) (sq_unconsumed sq mem) = ss_queued sub s @ sqes"
    and "st_cq_overflow (rm_state mem) = st_cq_overflow (rm_state (ss_mem s))"
      "st_pending (rm_state mem) = cf_threads (ss_conf s)"
  shows "session_inv sub (upd_sq sq mem sqes s)"
  using assms cq_same_live [OF assms(4)] by (simp add: session_inv_def upd_sq_def cqueue_overflow_def)

lemma session_inv_cq:
  assumes "session_inv sub s" "sub_inv sub mem" "cq_live sub mem cq" "sq_same (ss_mem s) mem"
    and "ss_unread sub s = cqes @ map (cqe_of (sub_cqe_marker sub)) (cq_unread cq mem)"
    and "st_cq_overflow (rm_state mem) = st_cq_overflow (rm_state (ss_mem s))"
      "st_pending (rm_state mem) = cf_threads (ss_conf s)"
  shows "session_inv sub (upd_cq cq mem cqes s)"
  using assms sq_same_live [OF assms(4)]
    arg_cong [OF assms(5), of length]
  by (simp add: session_inv_def upd_cq_def cqueue_overflow_def)

subsection \<open>One lemma per call\<close>

lemma sub_inv_push:
  assumes "sub_inv sub mem" "rm_state mem' = rm_state mem" "rm_cqes mem' = rm_cqes mem"
    "length (rm_sqes mem') = length (rm_sqes mem)"
  shows "sub_inv sub mem'"
  using assms by (simp add: sub_inv_def sub_sq_cq_overflow_def)

lemma sub_inv_publish:
  assumes "sub_inv sub mem" "sq_live sub mem sq"
  shows "sub_inv sub (upd_state (\<lambda>st. st\<lparr>st_sq_tail := sq_tail sq\<rparr>) mem)"
proof -
  have v: "sq_view sq mem" using assms(2) by (simp add: sq_live_def)
  then have "dist (st_sq_head (rm_state mem)) (sq_tail sq) \<le> length (rm_sqes mem)"
    using sq_view_dist [OF v] sq_view_entries [OF v] by (simp add: sq_view_def)
  with assms(1) show ?thesis by (simp add: sub_inv_def sub_sq_cq_overflow_def)
qed

lemma sub_inv_give_back:
  assumes "sub_inv sub mem" "cq_live sub mem cq"
  shows "sub_inv sub (upd_state (\<lambda>st. st\<lparr>st_cq_head := cq_head cq\<rparr>) mem)"
proof -
  have v: "cq_view cq mem" using assms(2) by (simp add: cq_live_def)
  then have "dist (cq_head cq) (st_cq_tail (rm_state mem)) \<le> length (rm_cqes mem)"
    using cq_view_dist [OF v] cq_view_entries [OF v] by (simp add: cq_view_def)
  with assms(1) show ?thesis by (simp add: sub_inv_def sub_sq_cq_overflow_def)
qed

lemma session_invD:
  assumes "session_inv sub s"
  shows "sub_inv sub (ss_mem s)" "sq_live sub (ss_mem s) (ss_sq s)" "cq_live sub (ss_mem s) (ss_cq s)"
    "sq_view (ss_sq s) (ss_mem s)" "cq_view (ss_cq s) (ss_mem s)"
  using assms by (simp_all add: session_inv_def sq_live_def cq_live_def)

lemma session_push:
  assumes i: "session_inv sub s"
  shows "\<exists>s'. session_call sub (Push e) s = Inr s' \<and> session_inv sub s'"
proof -
  note d = session_invD [OF i]
  obtain sq mem where p: "squeue_push e (ss_sq s) (ss_mem s) =
      Inr (if 0 < sq_room (ss_sq s) then Inr () else Inl PushError, sq, mem)"
    "sq_view sq mem" "rm_state mem = rm_state (ss_mem s)" "rm_cqes mem = rm_cqes (ss_mem s)"
    "sq_unconsumed sq mem = sq_unconsumed (ss_sq s) (ss_mem s) @ (if 0 < sq_room (ss_sq s) then [e] else [])"
    using squeue_push_law [OF d(4), of e] by blast
  have "session_inv sub (upd_sq sq mem (if 0 < sq_room (ss_sq s) then [sem_sqe (sub_sqe_marker sub) e] else []) s)"
    using p squeue_push_queue [OF p(1)] d by (intro session_inv_sq [OF i])
      (auto simp: sq_live_def cq_same_def intro: sub_inv_push)
  with p(1) show ?thesis by (simp split: if_splits)
qed

lemma session_push_multiple:
  assumes i: "session_inv sub s"
  shows "\<exists>s'. session_call sub (Push_multiple es) s = Inr s' \<and> session_inv sub s'"
proof -
  note d = session_invD [OF i]
  let ?ok = "length es \<le> sq_room (ss_sq s)"
  obtain sq mem where p: "squeue_push_multiple es (ss_sq s) (ss_mem s) =
      Inr (if ?ok then Inr () else Inl PushError, sq, mem)"
    "sq_view sq mem" "rm_state mem = rm_state (ss_mem s)" "rm_cqes mem = rm_cqes (ss_mem s)"
    "sq_unconsumed sq mem = sq_unconsumed (ss_sq s) (ss_mem s) @ (if ?ok then es else [])"
    using squeue_push_multiple_law [OF d(4), of es] by (auto split: if_splits)
  have "session_inv sub (upd_sq sq mem (if ?ok then map (sem_sqe (sub_sqe_marker sub)) es else []) s)"
    using p squeue_push_multiple_queue [OF p(1)] d by (intro session_inv_sq [OF i])
      (auto simp: sq_live_def cq_same_def intro: sub_inv_push)
  with p(1) show ?thesis by (simp split: if_splits)
qed

lemma session_sq_sync:
  assumes i: "session_inv sub s"
  shows "\<exists>s'. session_call sub Sq_sync s = Inr s' \<and> session_inv sub s'"
proof -
  note d = session_invD [OF i]
  obtain sq mem where q: "squeue_sync (ss_sq s) (ss_mem s) = (sq, mem)" by (cases "squeue_sync (ss_sq s) (ss_mem s)")
  then have m: "mem = upd_state (\<lambda>st. st\<lparr>st_sq_tail := sq_tail (ss_sq s)\<rparr>) (ss_mem s)" "sq_queue sq = sq_queue (ss_sq s)"
    by (auto simp: squeue_sync_def Let_def)
  have "session_inv sub (upd_sq sq mem [] s)"
    using squeue_sync_law [OF d(4)] q m d sub_inv_publish [OF d(1,2)] by (intro session_inv_sq [OF i])
      (simp_all add: sq_live_def cq_same_def)
  with q show ?thesis by simp
qed

lemma session_sq_drop:
  assumes i: "session_inv sub s"
  shows "\<exists>s'. session_call sub Sq_drop s = Inr s' \<and> session_inv sub s'"
proof -
  note d = session_invD [OF i]
  let ?mem = "squeue_drop (ss_sq s) (ss_mem s)"
  have m: "?mem = upd_state (\<lambda>st. st\<lparr>st_sq_tail := sq_tail (ss_sq s)\<rparr>) (ss_mem s)" by (simp add: squeue_drop_def)
  have "session_inv sub (upd_sq (squeue_borrow (sq_queue (ss_sq s)) ?mem) ?mem [] s)"
    using squeue_drop_law [OF d(4)] d sub_inv_publish [OF d(1,2)] unfolding m by (intro session_inv_sq [OF i])
      (simp_all add: sq_live_def cq_same_def squeue_borrow_def squeue_borrow_shared_def)
  then show ?thesis by (simp add: Let_def)
qed

lemma cq_unread_pop_each:
  assumes "cq_view cq mem" "cq_view cq' mem" "cq_queue cq' = cq_queue cq" "cq_tail cq' = cq_tail cq"
    "cq_ready cq mem = es @ cq_ready cq' mem"
  shows "cq_unread cq mem = es @ cq_unread cq' mem"
  using cq_unread_ready [OF assms(1)] cq_unread_ready [OF assms(2)] assms(3-5) by simp

lemma session_next:
  assumes i: "session_inv sub s"
  shows "\<exists>s'. session_call sub Next s = Inr s' \<and> session_inv sub s'"
proof (cases "cq_ready (ss_cq s) (ss_mem s)")
  case Nil
  with session_invD [OF i] show ?thesis
    by (auto simp: cqueue_next_empty sq_same_def intro!: session_inv_cq [OF i])
next
  case (Cons e es)
  note d = session_invD [OF i]
  obtain cq where p: "cqueue_pop (ss_cq s) (ss_mem s) = Inr (e, cq)" "cq_view cq (ss_mem s)"
    "cq_ready cq (ss_mem s) = es" "cq_queue cq = cq_queue (ss_cq s)" "cq_tail cq = cq_tail (ss_cq s)"
    using cqueue_pop_law [OF d(5) Cons] by blast
  have "cq_head (ss_cq s) \<noteq> cq_tail (ss_cq s)" using Cons by (auto simp: cq_ready_def)
  with p(1) have "cqueue_next (ss_cq s) (ss_mem s) = Inr (Some e, cq)" by (simp add: cqueue_next_def)
  moreover have "session_inv sub (upd_cq cq (ss_mem s) [cqe_of (sub_cqe_marker sub) e] s)"
    using d p Cons cq_unread_pop_each [OF d(5) p(2), of "[e]"] by (intro session_inv_cq [OF i])
      (simp_all add: cq_live_def sq_same_def)
  ultimately show ?thesis by simp
qed

lemma session_fill:
  assumes i: "session_inv sub s"
  shows "\<exists>s'. session_call sub (Fill n) s = Inr s' \<and> session_inv sub s'"
proof -
  note d = session_invD [OF i]
  let ?k = "min (length (cq_ready (ss_cq s) (ss_mem s))) n"
  obtain cq where p: "cqueue_pop_each ?k (ss_cq s) (ss_mem s) = Inr (take ?k (cq_ready (ss_cq s) (ss_mem s)), cq)"
    "cq_view cq (ss_mem s)" "cq_ready cq (ss_mem s) = drop ?k (cq_ready (ss_cq s) (ss_mem s))"
    "cq_queue cq = cq_queue (ss_cq s)" "cq_tail cq = cq_tail (ss_cq s)"
    using cqueue_pop_each_law [OF d(5), of ?k] by auto
  let ?es = "take ?k (cq_ready (ss_cq s) (ss_mem s))"
  have "cqueue_fill n (ss_cq s) (ss_mem s) = Inr (?es, cq)" using p(1) by (simp add: cqueue_fill_def)
  moreover have "session_inv sub (upd_cq cq (ss_mem s) (map (cqe_of (sub_cqe_marker sub)) ?es) s)"
    using d p cq_unread_pop_each [OF d(5) p(2), of ?es] by (intro session_inv_cq [OF i])
      (simp_all add: cq_live_def sq_same_def)
  ultimately show ?thesis by simp
qed

lemma session_cq_sync:
  assumes i: "session_inv sub s"
  shows "\<exists>s'. session_call sub Cq_sync s = Inr s' \<and> session_inv sub s'"
proof -
  note d = session_invD [OF i]
  obtain cq mem where q: "cqueue_sync (ss_cq s) (ss_mem s) = (cq, mem)" by (cases "cqueue_sync (ss_cq s) (ss_mem s)")
  then have m: "mem = upd_state (\<lambda>st. st\<lparr>st_cq_head := cq_head (ss_cq s)\<rparr>) (ss_mem s)" "cq_queue cq = cq_queue (ss_cq s)"
    "cq_head cq = cq_head (ss_cq s)"
    by (auto simp: cqueue_sync_def Let_def)
  then have "cq_unread cq mem = cq_unread (ss_cq s) (ss_mem s)" by (simp add: cq_unread_def)
  then have "session_inv sub (upd_cq cq mem [] s)"
    using cqueue_sync_law [OF d(5)] q m d sub_inv_give_back [OF d(1,3)] by (intro session_inv_cq [OF i])
      (simp_all add: cq_live_def sq_same_def)
  with q show ?thesis by simp
qed

lemma session_cq_drop:
  assumes i: "session_inv sub s"
  shows "\<exists>s'. session_call sub Cq_drop s = Inr s' \<and> session_inv sub s'"
proof -
  note d = session_invD [OF i]
  let ?mem = "cqueue_drop (ss_cq s) (ss_mem s)"
  have m: "?mem = upd_state (\<lambda>st. st\<lparr>st_cq_head := cq_head (ss_cq s)\<rparr>) (ss_mem s)" by (simp add: cqueue_drop_def)
  have "session_inv sub (upd_cq (cqueue_borrow (cq_queue (ss_cq s)) ?mem) ?mem [] s)"
    using cqueue_drop_law [OF d(5)] d sub_inv_give_back [OF d(1,3)] cq_unread_borrow [of "cq_queue (ss_cq s)" ?mem]
    unfolding m by (intro session_inv_cq [OF i])
      (simp_all add: cq_live_def sq_same_def cqueue_borrow_def cqueue_borrow_shared_def)
  then show ?thesis by (simp add: Let_def)
qed

lemma published_prefix:
  assumes "sq_live sub mem sq"
  shows "prefix (sq_published sub mem) (map (sem_sqe (sub_sqe_marker sub)) (sq_unconsumed sq mem))"
proof -
  have "sq_view sq mem" "sqi_ring_mask (sq_queue sq) = sub_sq_ring_mask sub"
    using assms by (simp_all add: sq_live_def sub_sq_inner_def)
  then show ?thesis
    using sq_view_dist(2) [of sq mem] by (simp add: sq_published_def sq_unconsumed_def ring_slice_append)
qed

lemma session_enter:
  assumes i: "session_inv sub s"
  shows "\<exists>s'. session_call sub (Enter k) s = Inr s' \<and> session_inv sub s'"
proof -
  note d = session_invD [OF i]
  let ?p = "sq_published sub (ss_mem s)"
  define n where "n = min (unat k) (length ?p)"
  obtain mem where e: "enqueue_sqes sub k (ss_mem s) = Inr (Inr (of_nat n), mem)" "sub_inv sub mem"
    and mem: "mem = upd_state (\<lambda>st. st\<lparr>st_sq_head := st_sq_head st + of_nat n,
      st_pending := st_pending st @ (if n = 0 then [] else [thread_spawn (take n ?p)])\<rparr>) (ss_mem s)"
    using enqueue_sqes_law [OF d(1), of k] unfolding n_def by blast
  have "n < 2 ^ 32" using unat_u32_lt [of k] by (simp add: n_def)
  then have n: "unat (of_nat n :: usize) = n" by (simp add: unat_of_nat)
  note h = enqueue_sqes_handle [OF d(1,4) e(1), folded n_def]
  have t: "map (sem_sqe (sub_sqe_marker sub)) (take n (sq_unconsumed (ss_sq s) (ss_mem s))) = take n ?p"
    using published_prefix [OF d(2)] by (auto simp: prefix_def n_def simp flip: take_map)
  have q: "ss_queued sub s = take n ?p @ map (sem_sqe (sub_sqe_marker sub)) (sq_unconsumed (ss_sq s) mem)"
    using h(2) t by (metis append_take_drop_id map_append)
  have "concat (map thread_owes (st_pending (rm_state mem))) =
      concat (map thread_owes (cf_threads (ss_conf s))) @ map sqe_user_data (take n ?p)"
    by (simp add: mem thread_owes_def thread_spawn_def)
  then have o: "map cd_user_data (cf_joined (ss_conf s)) @ concat (map thread_owes (st_pending (rm_state mem)))
      = map sqe_user_data (cf_accepted (ss_conf s) @ take n ?p)"
    using i by (simp add: session_inv_def flip: append_assoc)
  have "cq_same (ss_mem s) mem" "cqueue_overflow mem = cqueue_overflow (ss_mem s)"
    by (simp_all add: mem cq_same_def cqueue_overflow_def)
  then have "session_inv sub (s\<lparr>ss_conf := (ss_conf s)\<lparr>cf_mem := mem,
      cf_accepted := cf_accepted (ss_conf s) @ take n ?p\<rparr>\<rparr>)"
    using i e(2) h(1) d(2) q o cq_same_live [of "ss_mem s" mem] by (simp add: session_inv_def sq_live_def)
  with e(1) n show ?thesis by simp
qed

text \<open>For a live handle too, \<open>post_cqe\<close> is the producer of the completion ring.\<close>

interpretation cqh: bounded_producer "\<lambda>mem. sub_inv sub mem \<and> cq_live sub mem cq"
  "\<lambda>mem. map (cqe_of (sub_cqe_marker sub)) (cq_unread cq mem)" "cq_free sub" "cqe_put sub"
  for sub :: "('s, 'c) Submitter" and cq :: CompletionQueue
proof (unfold_locales, goal_cases)
  case (1 mem cqe)
  from post_cqe_law [of sub mem "cqe_user_data cqe" "cqe_res cqe" "cqe_flags cqe"] 1 obtain mem' where
    p: "cqe_put sub cqe mem = Inr mem'" "sub_inv sub mem'" "cq_free sub mem' = cq_free sub mem - 1"
    by (auto simp: cqe_put_def)
  with post_cqe_handle [of sub mem cq "cqe_user_data cqe" "cqe_res cqe" "cqe_flags cqe" mem'] 1 show ?case
    by (auto simp: cq_live_def sub_cq_inner_def cqe_put_def)
qed

lemma handle_set_threads [simp]:
  "sq_live sub (set_threads ths mem) sq = sq_live sub mem sq"
  "cq_live sub (set_threads ths mem) cq = cq_live sub mem cq"
  "sq_unconsumed sq (set_threads ths mem) = sq_unconsumed sq mem"
  "cq_unread cq (set_threads ths mem) = cq_unread cq mem"
  by (simp_all add: sq_live_def sq_view_def cq_live_def cq_view_def sq_unconsumed_def cq_unread_def)

lemma session_dispatch:
  assumes c: "session_inv sub s" and i: "i < length (cf_threads (ss_conf s))"
    and t: "th_sqes (cf_threads (ss_conf s) ! i) = sqe # rest"
    and d: "complete_one dispatch_op sqe (th_cancel_chain (cf_threads (ss_conf s) ! i)) (cf_umem (ss_conf s)) = Inr (cd, b, m)"
  shows "session_inv sub (s\<lparr>ss_conf := (ss_conf s)\<lparr>cf_mem := set_threads
    ((cf_threads (ss_conf s))[i := thread_next (cf_threads (ss_conf s) ! i) cd b]) (ss_mem s), cf_umem := m\<rparr>\<rparr>)"
  using c thread_owes_next [OF i t d] by (simp add: session_inv_def)

lemma session_join:
  assumes c: "session_inv sub s" and th: "cf_threads (ss_conf s) = th # ths" "th_sqes th = []"
    and p: "post_results sub (th_results th) (set_threads ths (ss_mem s)) = Inr mem"
  shows "session_inv sub (s\<lparr>ss_conf := (ss_conf s)\<lparr>cf_mem := mem,
    cf_joined := cf_joined (ss_conf s) @ th_results th,
    cf_lost := cf_lost (ss_conf s) + (length (cqes_of (th_results th)) - cq_free sub (ss_mem s))\<rparr>\<rparr>)"
proof -
  let ?mem = "set_threads ths (ss_mem s)" and ?cs = "cqes_of (th_results th)"
  let ?n = "cq_free sub (ss_mem s)"
  note d = session_invD [OF c]
  have i: "sub_inv sub ?mem \<and> cq_live sub ?mem (ss_cq s)" using d by simp
  have p': "put_all (cqe_put sub) ?cs ?mem = Inr mem" using p by (simp add: post_results_put_all)
  from cqh.put_all_law [OF i, of ?cs] p' have q: "sub_inv sub mem" "cq_live sub mem (ss_cq s)"
    "map (cqe_of (sub_cqe_marker sub)) (cq_unread (ss_cq s) mem) = ss_unread sub s @ take ?n ?cs"
    by auto
  have l: "cqueue_overflow mem = cqueue_overflow (ss_mem s) + of_nat (length ?cs - ?n)"
    using cqp.put_all_lost [OF conjunct1 [OF i] p'] by simp
  have f: "post_frame ?mem mem" using put_all_frame [OF conjunct1 [OF i] p'] .
  then have "sq_same ?mem mem" "st_pending (rm_state mem) = ths" by (simp_all add: post_frame_def sq_same_def)
  note s = sq_same_live [OF this(1)] this(2)
  have "subseq ((cf_reaped (ss_conf s) @ ss_unread sub s) @ take ?n ?cs) (cqes_of (cf_joined (ss_conf s)) @ ?cs)"
    using c by (intro list_emb_append_mono) (auto simp: session_inv_def intro: prefix_imp_subseq take_is_prefix)
  with c q(1,2) l s th show ?thesis
    using arg_cong [OF q(3), of length] by (auto simp: session_inv_def thread_owes_def q(3))
qed

section \<open>Reachable sessions\<close>

lemma session_call_total:
  assumes "session_inv sub s"
  shows "\<exists>s'. session_call sub c s = Inr s' \<and> session_inv sub s'"
  using assms
  by (cases c) (simp_all only: session_push session_push_multiple session_sq_sync session_sq_drop session_next
      session_fill session_cq_sync session_cq_drop session_enter)

lemma session_inv_kernel:
  "kernel_step sub (ss_conf s) cf \<Longrightarrow> session_inv sub s \<Longrightarrow> session_inv sub (s\<lparr>ss_conf := cf\<rparr>)"
  by (erule kernel_stepE) (simp_all only: session_dispatch session_join)

lemma session_inv_step:
  assumes "session_step sub s s'" "session_inv sub s"
  shows "session_inv sub s'"
  using assms
proof (cases rule: session_step.cases)
  case (call c)
  with session_call_total [OF assms(2), of c] show ?thesis by simp
next
  case (memory m)
  with assms(2) show ?thesis by (simp add: session_inv_def)
qed (simp add: session_inv_kernel assms(2))

lemma session_reachable:
  "(session_step sub)\<^sup>*\<^sup>* s s' \<Longrightarrow> session_inv sub s \<Longrightarrow> session_inv sub s'"
  by (induction rule: rtranclp_induct) (auto intro: session_inv_step)

text \<open>\<open>split\<close> on a ring just built starts a session.\<close>

lemma split_start:
  assumes b: "Builder_build S C b entries = Inr (Inr ring)" and C: "cqe_marker_ok C"
    and s: "IoUring_split S C ring m = Inr ((sub, sq, cq), ring', m')"
  shows "session_inv sub (session_init sq cq (ring_memory ring') m')" "sub = IoUring_submitter S C ring"
    "sub_sqe_marker sub = S" "sub_cqe_marker sub = C" "m' = m"
proof -
  have e: "entries_ok entries" and w: "wants_cqsize b \<Longrightarrow> prm_cq_entries (builder_params b) \<noteq> 0
      \<and> unat (prm_cq_entries (builder_params b)) \<le> 2 ^ 31"
    using Builder_build_error [of S C b entries InvalidInput]
      Builder_build_fault [of S C b entries "Panic Panic_overflow"] b by auto
  have r: "ring_inv S C ring" "rm_state (ring_memory ring) = new_RingState"
    using Builder_build_ok [of entries b C S, OF e w C] b by auto
  have t: "set_threads [] (ring_memory ring) = ring_memory ring"
    using r(2) by (intro set_threads_same) (simp add: new_RingState_def)
  then have "IoUring_flush_pending S C ring m = Inr (ring, m)"
    using r(2) by (simp add: IoUring_flush_pending_def flush_pending_def new_RingState_def)
  with s show sub: "sub = IoUring_submitter S C ring" and "m' = m" by (auto simp: IoUring_split_def)
  then show "sub_sqe_marker sub = S" "sub_cqe_marker sub = C" by (simp_all add: IoUring_submitter_def)
  have f: "ring' = ring" "sq = squeue_borrow (ring_sq ring) (ring_memory ring)"
    "cq = cqueue_borrow (ring_cq ring) (ring_memory ring)"
    using s \<open>IoUring_flush_pending S C ring m = Inr (ring, m)\<close> by (auto simp: IoUring_split_def)
  have q: "ring_sq ring = sub_sq_inner sub" "ring_cq ring = sub_cq_inner sub"
    using r(1) sub by (simp_all add: ring_inv_def sub_sq_inner_def sub_cq_inner_def IoUring_submitter_def)
  have "sq_view sq (ring_memory ring)" "cq_view cq (ring_memory ring)"
    using IoUring_submission_view(1) [OF r(1)] cqueue_borrow_view(1) [OF r(1)] f by (simp_all add: IoUring_submission_def)
  moreover have "sub_inv sub (ring_memory ring)" using r(1) sub by (simp add: ring_inv_def)
  moreover have "sq_unconsumed sq (ring_memory ring) = []" "cq_unread cq (ring_memory ring) = []"
    "cqueue_overflow (ring_memory ring) = 0" "st_pending (rm_state (ring_memory ring)) = []"
    using r(2) by (simp_all add: f squeue_borrow_def squeue_borrow_shared_def cqueue_borrow_def
        cqueue_borrow_shared_def unsync_load_def sq_unconsumed_def cq_unread_def new_RingState_def cqueue_overflow_def)
  ultimately show "session_inv sub (session_init sq cq (ring_memory ring') m')"
    using q f by (simp add: session_inv_def session_init_def conf_init_def sq_live_def cq_live_def
        squeue_borrow_def squeue_borrow_shared_def cqueue_borrow_def cqueue_borrow_shared_def)
qed

section \<open>The property\<close>

text \<open>C2: a client that keeps both handles and the submitter of a split ring, calls \<open>push\<close>,
  \<open>push_multiple\<close>, \<open>sync\<close>, \<open>next\<close>, \<open>fill\<close> and \<open>enter\<close> on them in any order, drops and borrows
  handles again, and changes its memory, while the dispatch threads and joins run in between:
  every call returns, without panic or an access outside the arrays; what was pushed is what the
  submitter has accepted followed by what is still queued, which fits the ring; accepted entries are
  answered in their order; the completions taken and those still unread are the visible results in
  order, except for those that the overflow counter counts (modulo \<open>2 ^ 32\<close>); and when everything has been
  joined and read without overflow, the client has got exactly the results of all its entries.\<close>

theorem split_handles_keep_order:
  assumes "Builder_build S C b entries = Inr (Inr ring)" "cqe_marker_ok C"
    and "IoUring_split S C ring m = Inr ((sub, sq, cq), ring', m')"
    and "(session_step sub)\<^sup>*\<^sup>* (session_init sq cq (ring_memory ring') m') s"
  shows "(\<exists>s'. session_call sub c s = Inr s')
    \<and> cf_pushed (ss_conf s) = cf_accepted (ss_conf s) @ map (sem_sqe S) (sq_unconsumed (ss_sq s) (ss_mem s))
    \<and> length (sq_unconsumed (ss_sq s) (ss_mem s)) \<le> unat (squeue_capacity (ss_sq s))
    \<and> prefix (map cd_user_data (cf_joined (ss_conf s))) (map sqe_user_data (cf_accepted (ss_conf s)))
    \<and> subseq (cf_reaped (ss_conf s) @ map (cqe_of C) (cq_unread (ss_cq s) (ss_mem s)))
        (cqes_of (cf_joined (ss_conf s)))
    \<and> length (cf_reaped (ss_conf s)) + length (cq_unread (ss_cq s) (ss_mem s)) + cf_lost (ss_conf s)
        = length (cqes_of (cf_joined (ss_conf s)))
    \<and> cqueue_overflow (ss_mem s) = of_nat (cf_lost (ss_conf s))
    \<and> (cf_threads (ss_conf s) = [] \<and> sq_unconsumed (ss_sq s) (ss_mem s) = []
        \<and> cq_unread (ss_cq s) (ss_mem s) = [] \<and> cf_lost (ss_conf s) = 0 \<longrightarrow>
        cf_reaped (ss_conf s) = cqes_of (cf_joined (ss_conf s))
        \<and> map cd_user_data (cf_joined (ss_conf s)) = map sqe_user_data (cf_pushed (ss_conf s)))"
proof -
  have i: "session_inv sub s" "sub_sqe_marker sub = S" "sub_cqe_marker sub = C"
    using session_reachable [OF assms(4)] split_start [OF assms(1-3)] by simp_all
  then have "prefix (map cd_user_data (cf_joined (ss_conf s))) (map sqe_user_data (cf_accepted (ss_conf s)))"
    by (metis session_inv_def prefixI)
  moreover have "length (sq_unconsumed (ss_sq s) (ss_mem s)) \<le> unat (squeue_capacity (ss_sq s))"
    using session_invD(4) [OF i(1)] sq_view_dist(2) [OF session_invD(4) [OF i(1)]]
    by (simp add: sq_view_def sq_unconsumed_def)
  ultimately show ?thesis
    using i session_call_total [OF i(1), of c]
      subseq_same_length [of "cf_reaped (ss_conf s)" "cqes_of (cf_joined (ss_conf s))"]
    by (auto simp: session_inv_def)
qed

text \<open>
  A client that pushes two entries, publishes only the first, and submits: a run of calls.
\<close>

fun session_calls :: "('s, 'c) Submitter \<Rightarrow> 's call list \<Rightarrow> ('s, 'c) session \<Rightarrow> ('s, 'c) session exec" where
  "session_calls sub [] s = Inr s"
| "session_calls sub (c # cs) s = and_then (session_call sub c s) (session_calls sub cs)"

lemma session_calls_reach: "session_calls sub cs s = Inr s' \<Longrightarrow> (session_step sub)\<^sup>*\<^sup>* s s'"
  by (induction sub cs s rule: session_calls.induct)
    (auto simp: and_then_eq_Inr intro: session_step.call converse_rtranclp_into_rtranclp)

definition split_ring :: "(Entry, cq_Entry) IoUring" where
  "split_ring = \<lparr>ring_sq = \<lparr>sqi_ring_mask = 1, sqi_ring_entries = 2\<rparr>,
     ring_cq = \<lparr>cqi_ring_mask = 3, cqi_ring_entries = 4\<rparr>,
     ring_params = Parameters (io_uring_params_default\<lparr>prm_sq_entries := 2, prm_cq_entries := 4,
       prm_features := build_features\<rparr>),
     ring_memory = \<lparr>rm_state = new_RingState, rm_sqes = replicate 2 (sem_zeroed Entry_marker),
       rm_cqes = replicate 4 (cem_zeroed cq_Entry_marker)\<rparr>\<rparr>"

lemma split_ring_built:
  "Builder_build Entry_marker cq_Entry_marker (Builder_default Entry_marker cq_Entry_marker) 2 = Inr (Inr split_ring)"
  by (simp add: Builder_build_def Builder_default_def Entry_marker_def cq_Entry_marker_def split_ring_def
      build_cq_entries_def io_uring_params_default_def sys_consts next_power_of_two_def next_pow2_nat.simps
      Let_def rust_sub_def checked_sub_def rust_mul_def)

abbreviation split_sub :: "(Entry, cq_Entry) Submitter" where
  "split_sub \<equiv> IoUring_submitter Entry_marker cq_Entry_marker split_ring"

lemma split_ring_split:
  "IoUring_split Entry_marker cq_Entry_marker split_ring page_mem =
     Inr ((split_sub, squeue_borrow (ring_sq split_ring) (ring_memory split_ring),
       cqueue_borrow (ring_cq split_ring) (ring_memory split_ring)), split_ring, page_mem)"
  by (simp add: IoUring_split_def IoUring_flush_pending_def flush_pending_def split_ring_def new_RingState_def upd_state_def)

lemma split_ring_calls:
  "\<exists>s. session_calls split_sub [Push (nop_entry 1), Sq_sync, Push (nop_entry 2), Enter 5]
         (session_init (squeue_borrow (ring_sq split_ring) (ring_memory split_ring))
           (cqueue_borrow (ring_cq split_ring) (ring_memory split_ring)) (ring_memory split_ring) page_mem) = Inr s
     \<and> cf_pushed (ss_conf s) = [entry_sqe (nop_entry 1), entry_sqe (nop_entry 2)]
     \<and> cf_accepted (ss_conf s) = [entry_sqe (nop_entry 1)]"
  by (simp add: split_ring_def IoUring_submitter_def session_init_def conf_init_def squeue_push_def squeue_is_full_def
      squeue_push_unchecked_def squeue_len_def squeue_capacity_def squeue_borrow_def squeue_borrow_shared_def unsync_load_def
      cqueue_borrow_def cqueue_borrow_shared_def new_RingState_def Let_def ring_index_def upd_sq_def squeue_sync_def
      enqueue_sqes_def upd_state_def read_sqe_def sq_published_def Entry_marker_def ring_slice_def dist_def min_def upt_rec word_le_nat_alt)

theorem split_handles_keep_order_witness:
  "\<exists>s. (session_step split_sub)\<^sup>*\<^sup>* (session_init (squeue_borrow (ring_sq split_ring) (ring_memory split_ring))
         (cqueue_borrow (ring_cq split_ring) (ring_memory split_ring)) (ring_memory split_ring) page_mem) s
     \<and> cf_accepted (ss_conf s) = [entry_sqe (nop_entry 1)]
     \<and> map (sem_sqe Entry_marker) (sq_unconsumed (ss_sq s) (ss_mem s)) = [entry_sqe (nop_entry 2)]
     \<and> (\<exists>s'. session_call split_sub Cq_sync s = Inr s')"
proof -
  obtain s where s: "session_calls split_sub [Push (nop_entry 1), Sq_sync, Push (nop_entry 2), Enter 5]
       (session_init (squeue_borrow (ring_sq split_ring) (ring_memory split_ring))
         (cqueue_borrow (ring_cq split_ring) (ring_memory split_ring)) (ring_memory split_ring) page_mem) = Inr s"
    "cf_pushed (ss_conf s) = [entry_sqe (nop_entry 1), entry_sqe (nop_entry 2)]"
    "cf_accepted (ss_conf s) = [entry_sqe (nop_entry 1)]"
    using split_ring_calls by blast
  from split_handles_keep_order [OF split_ring_built cqe_marker_ok_Entry split_ring_split
      session_calls_reach [OF s(1)], of Cq_sync] s session_calls_reach [OF s(1)]
  show ?thesis by auto
qed

end
