(* ===== verification/Miring_Weak_Memory.thy ===== *)
theory Miring_Weak_Memory
  imports Miring_Submit_Laws "HOL-Library.Sublist"
begin

text \<open>
  The rings under release/acquire memory.  After \<open>IoUring::split\<close>, or with the \<open>_shared\<close>
  borrows, the two ends of a ring may be used by different threads.  This theory looks at one ring
  at the level of its single accesses: atomic loads and stores of the two positions, with the
  orderings written in the source, and plain reads and writes of the slots.

  The memory model is that of C11 for these orderings, given by views.  A position is the history of
  the values stored to it; a load may return any of them that is not older than what the agent
  already knows, so values may be stale.  A release store attaches the storing agent's view to its
  message, an acquire load joins the view of the message it returns.  An agent's view also counts, for
  either agent, how many of that agent's slot accesses happen before; an access to a slot that a
  conflicting access does not happen before is a data race, which is undefined behaviour.

  The agents run small programs, one per operation of the source, that interleave instruction by
  instruction.  The result is that no interleaving and no choice of stale values leads to a data
  race or an access outside the array, and that what comes out of the ring is what went in, in order.
\<close>

section \<open>Memory\<close>

text \<open>\<open>std::sync::atomic::Ordering\<close>\<close>

datatype Ordering = Relaxed | Release | Acquire | AcqRel | SeqCst

definition releases :: "Ordering \<Rightarrow> bool" where
  "releases o' \<longleftrightarrow> o' \<in> {Release, AcqRel, SeqCst}"

definition acquires :: "Ordering \<Rightarrow> bool" where
  "acquires o' \<longleftrightarrow> o' \<in> {Acquire, AcqRel, SeqCst}"

text \<open>The producer is the only one to store the tail, the consumer the only one to store the head.\<close>

datatype agent = Producer | Consumer

datatype position = Head | Tail

definition own :: "agent \<Rightarrow> position" where
  "own a = (case a of Producer \<Rightarrow> Tail | Consumer \<Rightarrow> Head)"

definition other :: "agent \<Rightarrow> agent" where
  "other a = (case a of Producer \<Rightarrow> Consumer | Consumer \<Rightarrow> Producer)"

record view =
  vw_clock :: "agent \<Rightarrow> nat"
  vw_seen :: "position \<Rightarrow> nat"

record message =
  mg_val :: u32
  mg_view :: view

text \<open>A slot with the times of its last accesses by either agent.\<close>

record 'e cell =
  cl_val :: 'e
  cl_writes :: "agent \<Rightarrow> nat"
  cl_reads :: "agent \<Rightarrow> nat"

text \<open>
  The programs: a load goes to the agent's register for the position, a store takes the value from
  there; \<open>Write\<close> and \<open>Read\<close> access the slot at the tail or head register and advance it; \<open>Test\<close>
  continues according to the registers.
\<close>

datatype 'e instr =
    Load position Ordering
  | Store position Ordering
  | Write 'e
  | Read
  | Test "(position \<Rightarrow> u32) \<Rightarrow> 'e instr list"

text \<open>The state; \<open>wk_put\<close> and \<open>wk_got\<close> are histories of the accesses to the slots.\<close>

record 'e weak =
  wk_msgs :: "position \<Rightarrow> message list"
  wk_cells :: "'e cell list"
  wk_view :: "agent \<Rightarrow> view"
  wk_regs :: "agent \<Rightarrow> position \<Rightarrow> u32"
  wk_code :: "agent \<Rightarrow> 'e instr list"
  wk_put :: "'e list"
  wk_got :: "'e list"

definition bot_view :: view where
  "bot_view = \<lparr>vw_clock = (\<lambda>_. 0), vw_seen = (\<lambda>_. 0)\<rparr>"

definition join_view :: "view \<Rightarrow> view \<Rightarrow> view" where
  "join_view v w = \<lparr>vw_clock = (\<lambda>a. max (vw_clock v a) (vw_clock w a)),
     vw_seen = (\<lambda>p. max (vw_seen v p) (vw_seen w p))\<rparr>"

definition happened :: "(agent \<Rightarrow> nat) \<Rightarrow> view \<Rightarrow> bool" where
  "happened c v \<longleftrightarrow> c Producer \<le> vw_clock v Producer \<and> c Consumer \<le> vw_clock v Consumer"

definition load_at :: "agent \<Rightarrow> position \<Rightarrow> Ordering \<Rightarrow> nat \<Rightarrow> 'e weak \<Rightarrow> 'e weak" where
  "load_at a p o' k s = (let m = wk_msgs s p ! k;
       v = (wk_view s a)\<lparr>vw_seen := (vw_seen (wk_view s a))(p := k)\<rparr> in
     s\<lparr>wk_view := (wk_view s)(a := if acquires o' then join_view v (mg_view m) else v),
       wk_regs := (wk_regs s)(a := (wk_regs s a)(p := mg_val m))\<rparr>)"

definition store_at :: "agent \<Rightarrow> position \<Rightarrow> Ordering \<Rightarrow> 'e weak \<Rightarrow> 'e weak" where
  "store_at a p o' s = (let k = length (wk_msgs s p);
       v = (wk_view s a)\<lparr>vw_seen := (vw_seen (wk_view s a))(p := k)\<rparr>;
       m = \<lparr>mg_val = wk_regs s a p,
            mg_view = if releases o' then v else bot_view\<lparr>vw_seen := (vw_seen bot_view)(p := k)\<rparr>\<rparr> in
     s\<lparr>wk_msgs := (wk_msgs s)(p := wk_msgs s p @ [m]), wk_view := (wk_view s)(a := v)\<rparr>)"

definition tick :: "agent \<Rightarrow> view \<Rightarrow> view" where
  "tick a v = v\<lparr>vw_clock := (vw_clock v)(a := Suc (vw_clock v a))\<rparr>"

definition write_at :: "u32 \<Rightarrow> agent \<Rightarrow> 'e \<Rightarrow> 'e weak \<Rightarrow> 'e weak exec" where
  "write_at msk a e s = (let i = ring_index msk (wk_regs s a Tail); c = wk_cells s ! i;
       v = tick a (wk_view s a) in
     if length (wk_cells s) \<le> i then Inl (UndefinedBehavior UB_out_of_bounds)
     else if happened (cl_writes c) (wk_view s a) \<and> happened (cl_reads c) (wk_view s a)
     then Inr (s\<lparr>wk_cells := (wk_cells s)[i := c\<lparr>cl_val := e, cl_writes := (cl_writes c)(a := vw_clock v a)\<rparr>],
       wk_view := (wk_view s)(a := v),
       wk_regs := (wk_regs s)(a := (wk_regs s a)(Tail := wk_regs s a Tail + 1)), wk_put := wk_put s @ [e]\<rparr>)
     else Inl (UndefinedBehavior UB_data_race))"

definition read_at :: "u32 \<Rightarrow> agent \<Rightarrow> 'e weak \<Rightarrow> 'e weak exec" where
  "read_at msk a s = (let i = ring_index msk (wk_regs s a Head); c = wk_cells s ! i;
       v = tick a (wk_view s a) in
     if length (wk_cells s) \<le> i then Inl (UndefinedBehavior UB_out_of_bounds)
     else if happened (cl_writes c) (wk_view s a)
     then Inr (s\<lparr>wk_cells := (wk_cells s)[i := c\<lparr>cl_reads := (cl_reads c)(a := vw_clock v a)\<rparr>],
       wk_view := (wk_view s)(a := v),
       wk_regs := (wk_regs s)(a := (wk_regs s a)(Head := wk_regs s a Head + 1)),
       wk_got := wk_got s @ [cl_val c]\<rparr>)
     else Inl (UndefinedBehavior UB_data_race))"

text \<open>One instruction; \<open>k\<close> is the message that a load returns.\<close>

fun run_instr :: "u32 \<Rightarrow> agent \<Rightarrow> nat \<Rightarrow> 'e instr \<Rightarrow> 'e weak \<Rightarrow> 'e weak exec" where
  "run_instr msk a k (Load p o') s = Inr (load_at a p o' k s)"
| "run_instr msk a k (Store p o') s = Inr (store_at a p o' s)"
| "run_instr msk a k (Write e) s = write_at msk a e s"
| "run_instr msk a k Read s = read_at msk a s"
| "run_instr msk a k (Test f) s = Inr (s\<lparr>wk_code := (wk_code s)(a := f (wk_regs s a) @ wk_code s a)\<rparr>)"

fun may_load :: "agent \<Rightarrow> nat \<Rightarrow> 'e instr \<Rightarrow> 'e weak \<Rightarrow> bool" where
  "may_load a k (Load p o') s \<longleftrightarrow> vw_seen (wk_view s a) p \<le> k \<and> k < length (wk_msgs s p)"
| "may_load a k i s \<longleftrightarrow> True"

text \<open>\<open>ops a s\<close>: the programs that the agent may start.\<close>

inductive weak_step :: "u32 \<Rightarrow> (agent \<Rightarrow> 'e weak \<Rightarrow> 'e instr list set) \<Rightarrow> 'e weak \<Rightarrow> 'e weak \<Rightarrow> bool"
  for msk :: u32 and ops :: "agent \<Rightarrow> 'e weak \<Rightarrow> 'e instr list set"
where
  call: "wk_code s a = [] \<Longrightarrow> code \<in> ops a s \<Longrightarrow> weak_step msk ops s (s\<lparr>wk_code := (wk_code s)(a := code)\<rparr>)"
| instr: "wk_code s a = i # code \<Longrightarrow> may_load a k i s \<Longrightarrow>
     run_instr msk a k i (s\<lparr>wk_code := (wk_code s)(a := code)\<rparr>) = Inr s' \<Longrightarrow> weak_step msk ops s s'"

inductive_cases weak_stepE: "weak_step msk ops s s'"

text \<open>A ring just built: both positions are zero and every agent knows so.\<close>

definition weak_start :: "'e list \<Rightarrow> 'e weak" where
  "weak_start slots = \<lparr>wk_msgs = (\<lambda>_. [\<lparr>mg_val = 0, mg_view = bot_view\<rparr>]),
     wk_cells = map (\<lambda>e. \<lparr>cl_val = e, cl_writes = (\<lambda>_. 0), cl_reads = (\<lambda>_. 0)\<rparr>) slots,
     wk_view = (\<lambda>_. bot_view), wk_regs = (\<lambda>_ _. 0), wk_code = (\<lambda>_. []), wk_put = [], wk_got = []\<rparr>"

section \<open>The programs of the source\<close>

text \<open>\<^verbatim>\<open>squeue.rs\<close>: \<open>borrow_shared\<close>, \<open>sync\<close>, \<open>push\<close> and \<open>push_multiple\<close> with \<open>push_unchecked\<close>, \<open>drop\<close>\<close>

definition squeue_borrow_code :: "'e instr list" where
  "squeue_borrow_code = [Load Head Acquire, Load Tail Relaxed]"

definition squeue_sync_code :: "'e instr list" where
  "squeue_sync_code = [Store Tail Release, Load Head Acquire]"

definition squeue_push_code :: "u32 \<Rightarrow> 'e \<Rightarrow> 'e instr list" where
  "squeue_push_code entries e = [Test (\<lambda>r. if r Tail - r Head = entries then [] else [Write e])]"

definition squeue_push_multiple_code :: "u32 \<Rightarrow> 'e list \<Rightarrow> 'e instr list" where
  "squeue_push_multiple_code entries es =
     [Test (\<lambda>r. if unat entries - unat (r Tail - r Head) < length es then [] else map Write es)]"

definition squeue_drop_code :: "'e instr list" where
  "squeue_drop_code = [Store Tail Release]"

text \<open>\<^verbatim>\<open>submit.rs\<close>: \<open>sq_len\<close>, \<open>enqueue_sqes\<close>, \<open>post_cqe\<close>\<close>

definition sq_len_code :: "'e instr list" where
  "sq_len_code = [Load Head Acquire, Load Tail Acquire]"

definition enqueue_sqes_code :: "u32 \<Rightarrow> 'e instr list" where
  "enqueue_sqes_code to_submit = [Load Head Acquire, Load Tail Acquire,
     Test (\<lambda>r. let n = min to_submit (r Tail - r Head) in
       if n = 0 then [] else replicate (unat n) Read @ [Store Head Release])]"

definition post_cqe_code :: "u32 \<Rightarrow> 'e \<Rightarrow> 'e instr list" where
  "post_cqe_code entries c = [Load Tail Acquire, Load Head Acquire,
     Test (\<lambda>r. if r Tail - r Head \<ge> entries then [] else [Write c, Store Tail Release])]"

text \<open>\<^verbatim>\<open>cqueue.rs\<close>: \<open>borrow_shared\<close>, \<open>sync\<close>, \<open>next\<close> and \<open>fill\<close> with \<open>pop\<close>, \<open>drop\<close>\<close>

definition cqueue_borrow_code :: "'e instr list" where
  "cqueue_borrow_code = [Load Head Relaxed, Load Tail Acquire]"

definition cqueue_sync_code :: "'e instr list" where
  "cqueue_sync_code = [Store Head Release, Load Tail Acquire]"

definition cqueue_next_code :: "'e instr list" where
  "cqueue_next_code = [Test (\<lambda>r. if r Head \<noteq> r Tail then [Read] else [])]"

definition cqueue_fill_code :: "nat \<Rightarrow> 'e instr list" where
  "cqueue_fill_code n = [Test (\<lambda>r. replicate (min (unat (r Tail - r Head)) n) Read)]"

definition cqueue_drop_code :: "'e instr list" where
  "cqueue_drop_code = [Store Head Release]"

lemmas code_defs = squeue_borrow_code_def squeue_sync_code_def squeue_push_code_def squeue_push_multiple_code_def
  squeue_drop_code_def
  sq_len_code_def enqueue_sqes_code_def post_cqe_code_def cqueue_borrow_code_def cqueue_sync_code_def
  cqueue_next_code_def cqueue_fill_code_def cqueue_drop_code_def

text \<open>
  What the two sides of each ring call.  A handle is borrowed only when the one before it has been
  dropped, so that its position is published; the rest may be called at any time.
\<close>

definition published :: "agent \<Rightarrow> 'e weak \<Rightarrow> bool" where
  "published a s \<longleftrightarrow> mg_val (last (wk_msgs s (own a))) = wk_regs s a (own a)"

definition sq_ops :: "u32 \<Rightarrow> agent \<Rightarrow> 'e weak \<Rightarrow> 'e instr list set" where
  "sq_ops entries a s = (case a of
     Producer \<Rightarrow> {squeue_sync_code, squeue_drop_code} \<union> range (squeue_push_code entries)
       \<union> range (squeue_push_multiple_code entries)
       \<union> (if published a s then {squeue_borrow_code} else {})
   | Consumer \<Rightarrow> {sq_len_code} \<union> range enqueue_sqes_code)"

definition cq_ops :: "u32 \<Rightarrow> agent \<Rightarrow> 'e weak \<Rightarrow> 'e instr list set" where
  "cq_ops entries a s = (case a of
     Producer \<Rightarrow> range (post_cqe_code entries)
   | Consumer \<Rightarrow> {cqueue_sync_code, cqueue_drop_code, cqueue_next_code} \<union> range cqueue_fill_code
       \<union> (if published a s then {cqueue_borrow_code} else {}))"

section \<open>Disciplined programs\<close>

text \<open>
  What the protocol asks of a program: foreign positions are loaded with acquire, the own position is
  stored with release and loaded only when it is published, a slot is written only when the registers
  show room and read only when they show an entry.  \<open>fin\<close> asks for a published position at the end.
\<close>

inductive code_ok :: "u32 \<Rightarrow> agent \<Rightarrow> bool \<Rightarrow> bool \<Rightarrow> (position \<Rightarrow> u32) \<Rightarrow> 'e instr list \<Rightarrow> bool"
  for entries :: u32 and a :: agent and fin :: bool
where
  Done: "(fin \<Longrightarrow> b) \<Longrightarrow> code_ok entries a fin b r []"
| Load_own: "code_ok entries a fin True r is \<Longrightarrow> p = own a \<Longrightarrow> code_ok entries a fin True r (Load p o' # is)"
| Load_other: "acquires o' \<Longrightarrow> p = own (other a) \<Longrightarrow>
    (\<And>v. dist ((r(p := v)) Head) ((r(p := v)) Tail) \<le> unat entries \<Longrightarrow> code_ok entries a fin b (r(p := v)) is) \<Longrightarrow>
    code_ok entries a fin b r (Load p o' # is)"
| Store: "releases o' \<Longrightarrow> p = own a \<Longrightarrow> code_ok entries a fin True r is \<Longrightarrow>
    code_ok entries a fin b r (Store p o' # is)"
| Write: "a = Producer \<Longrightarrow> dist (r Head) (r Tail) < unat entries \<Longrightarrow>
    code_ok entries a fin False (r(Tail := r Tail + 1)) is \<Longrightarrow> code_ok entries a fin b r (Write e # is)"
| Read: "a = Consumer \<Longrightarrow> r Head \<noteq> r Tail \<Longrightarrow>
    code_ok entries a fin False (r(Head := r Head + 1)) is \<Longrightarrow> code_ok entries a fin b r (Read # is)"
| Test: "code_ok entries a fin b r (f r @ is) \<Longrightarrow> code_ok entries a fin b r (Test f # is)"

inductive_simps code_ok_simps:
  "code_ok entries a fin b r []"
  "code_ok entries a fin b r (Load p o' # is)"
  "code_ok entries a fin b r (Store p o' # is)"
  "code_ok entries a fin b r (Write e # is)"
  "code_ok entries a fin b r (Read # is)"
  "code_ok entries a fin b r (Test f # is)"

section \<open>The invariant of the memory\<close>

definition view_le :: "view \<Rightarrow> view \<Rightarrow> bool" where
  "view_le v w \<longleftrightarrow> (\<forall>a. vw_clock v a \<le> vw_clock w a) \<and> (\<forall>p. vw_seen v p \<le> vw_seen w p)"

text \<open>How many slots an agent has accessed, and how many accesses it knows of.\<close>

definition count :: "agent \<Rightarrow> 'e weak \<Rightarrow> nat" where
  "count a s = (case a of Producer \<Rightarrow> length (wk_put s) | Consumer \<Rightarrow> length (wk_got s))"

abbreviation knows :: "agent \<Rightarrow> 'e weak \<Rightarrow> agent \<Rightarrow> nat" where
  "knows a s \<equiv> vw_clock (wk_view s a)"

definition agent_inv :: "agent \<Rightarrow> 'e weak \<Rightarrow> bool" where
  "agent_inv a s \<longleftrightarrow> knows a s a = count a s
     \<and> wk_regs s a (own a) = of_nat (count a s)
     \<and> wk_regs s a (own (other a)) = of_nat (knows a s (other a))
     \<and> vw_seen (wk_view s a) (own (other a)) < length (wk_msgs s (own (other a)))
     \<and> knows a s (other a)
        \<le> vw_clock (mg_view (wk_msgs s (own (other a)) ! vw_seen (wk_view s a) (own (other a)))) (other a)"

definition msgs_inv :: "agent \<Rightarrow> 'e weak \<Rightarrow> bool" where
  "msgs_inv a s \<longleftrightarrow> (let ms = wk_msgs s (own a) in ms \<noteq> []
     \<and> vw_seen (wk_view s a) (own a) = length ms - 1
     \<and> (\<forall>m \<in> set ms. mg_val m = of_nat (vw_clock (mg_view m) a) \<and> view_le (mg_view m) (wk_view s a))
     \<and> (\<forall>k < length ms. vw_seen (mg_view (ms ! k)) (own a) = k)
     \<and> sorted (map (\<lambda>m. vw_clock (mg_view m) a) ms))"

definition room_inv :: "nat \<Rightarrow> 'e weak \<Rightarrow> bool" where
  "room_inv n s \<longleftrightarrow> knows Producer s Consumer \<le> length (wk_got s)
     \<and> length (wk_got s) \<le> knows Consumer s Producer
     \<and> knows Consumer s Producer \<le> length (wk_put s)
     \<and> length (wk_put s) \<le> knows Producer s Consumer + n"

definition cells_inv :: "nat \<Rightarrow> 'e weak \<Rightarrow> bool" where
  "cells_inv n s \<longleftrightarrow> length (wk_cells s) = n
     \<and> (\<forall>c \<in> set (wk_cells s). cl_writes c Consumer = 0 \<and> cl_reads c Producer = 0
          \<and> cl_writes c Producer \<le> length (wk_put s))
     \<and> (\<forall>j < length (wk_put s). length (wk_put s) \<le> j + n \<longrightarrow>
          cl_val (wk_cells s ! (j mod n)) = wk_put s ! j \<and> cl_writes (wk_cells s ! (j mod n)) Producer = Suc j)
     \<and> (\<forall>i < n. cl_reads (wk_cells s ! i) Consumer = 0
          \<or> (\<exists>j < length (wk_got s). cl_reads (wk_cells s ! i) Consumer = Suc j \<and> j mod n = i))"

definition mem_inv :: "nat \<Rightarrow> 'e weak \<Rightarrow> bool" where
  "mem_inv n s \<longleftrightarrow> agent_inv Producer s \<and> agent_inv Consumer s \<and> msgs_inv Producer s \<and> msgs_inv Consumer s
     \<and> room_inv n s \<and> cells_inv n s \<and> wk_got s = take (length (wk_got s)) (wk_put s)"

text \<open>The own position is published: the last message carries the count.\<close>

definition pub :: "agent \<Rightarrow> 'e weak \<Rightarrow> bool" where
  "pub a s \<longleftrightarrow> vw_clock (mg_view (last (wk_msgs s (own a)))) a = count a s"

lemma agent_simps [simp]:
  "own Producer = Tail" "own Consumer = Head" "other Producer = Consumer" "other Consumer = Producer"
  "other (other a) = a" "other a \<noteq> a" "a \<noteq> other a" "own a = own b \<longleftrightarrow> a = b"
  by (cases a; cases b; simp add: own_def other_def)+

lemma own_cases: "p = own a \<or> p = own (other a)"
  by (cases p; cases a; simp)

lemma view_le_refl [simp]: "view_le v v"
  by (simp add: view_le_def)

lemma view_le_trans: "view_le u v \<Longrightarrow> view_le v w \<Longrightarrow> view_le u w"
  unfolding view_le_def using order_trans by blast

lemma mem_invD:
  assumes "mem_inv n s"
  shows "agent_inv a s" "msgs_inv a s" "room_inv n s" "cells_inv n s" "wk_got s = take (length (wk_got s)) (wk_put s)"
  using assms by (cases a; simp add: mem_inv_def)+

lemma mem_invI:
  assumes "\<And>a. agent_inv a s" "\<And>a. msgs_inv a s" "room_inv n s" "cells_inv n s"
    "wk_got s = take (length (wk_got s)) (wk_put s)"
  shows "mem_inv n s"
  using assms by (simp add: mem_inv_def)

text \<open>The other agent knows at most what has happened.\<close>

lemma knows_le: "room_inv n s \<Longrightarrow> knows (other a) s a \<le> count a s"
  by (cases a) (simp_all add: room_inv_def count_def)

lemma mem_inv_code [simp]: "mem_inv n (s\<lparr>wk_code := c\<rparr>) = mem_inv n s"
  by (simp add: mem_inv_def agent_inv_def msgs_inv_def room_inv_def cells_inv_def count_def)

lemma count_code [simp]: "count a (s\<lparr>wk_code := c\<rparr>) = count a s"
  by (cases a) (simp_all add: count_def)

lemma pub_code [simp]: "pub a (s\<lparr>wk_code := c\<rparr>) = pub a s"
  by (cases a) (simp_all add: pub_def count_def)

lemma room_invD:
  assumes "room_inv n s"
  shows "knows Producer s Consumer \<le> length (wk_got s)" "length (wk_got s) \<le> knows Consumer s Producer"
    "knows Consumer s Producer \<le> length (wk_put s)" "length (wk_put s) \<le> knows Producer s Consumer + n"
  using assms by (simp_all add: room_inv_def)

lemma msgs_invD:
  assumes "msgs_inv a s"
  shows "wk_msgs s (own a) \<noteq> []" "vw_seen (wk_view s a) (own a) = length (wk_msgs s (own a)) - 1"
    "m \<in> set (wk_msgs s (own a)) \<Longrightarrow> mg_val m = of_nat (vw_clock (mg_view m) a)"
    "m \<in> set (wk_msgs s (own a)) \<Longrightarrow> view_le (mg_view m) (wk_view s a)"
    "k < length (wk_msgs s (own a)) \<Longrightarrow> vw_seen (mg_view (wk_msgs s (own a) ! k)) (own a) = k"
    "k \<le> l \<Longrightarrow> l < length (wk_msgs s (own a)) \<Longrightarrow>
       vw_clock (mg_view (wk_msgs s (own a) ! k)) a \<le> vw_clock (mg_view (wk_msgs s (own a) ! l)) a"
  using assms by (auto simp: msgs_inv_def Let_def sorted_iff_nth_mono)

lemma agent_invD:
  assumes "agent_inv a s"
  shows "knows a s a = count a s" "wk_regs s a (own a) = of_nat (count a s)"
    "wk_regs s a (own (other a)) = of_nat (knows a s (other a))"
    "vw_seen (wk_view s a) (own (other a)) < length (wk_msgs s (own (other a)))"
    "knows a s (other a)
      \<le> vw_clock (mg_view (wk_msgs s (own (other a)) ! vw_seen (wk_view s a) (own (other a)))) (other a)"
  using assms by (simp_all add: agent_inv_def)

subsection \<open>Positions and counts\<close>

lemma dist_of_nat: "i \<le> j \<Longrightarrow> j - i < 2 ^ 32 \<Longrightarrow> dist (of_nat i) (of_nat j) = j - i"
  using dist_add [of "j - i" "of_nat i"] by (simp flip: of_nat_add)

lemma ring_index_of_nat: "ring_geom entries msk n \<Longrightarrow> ring_index msk (of_nat i) = i mod n"
  using ring_index_shift [of _ 0 i] by (auto elim!: ring_geomE)

lemma regs_dist:
  assumes "mem_inv n s" "n \<le> 2 ^ 31"
  shows "dist (wk_regs s Producer Head) (wk_regs s Producer Tail) = length (wk_put s) - knows Producer s Consumer"
    "dist (wk_regs s Consumer Head) (wk_regs s Consumer Tail) = knows Consumer s Producer - length (wk_got s)"
proof -
  note R = room_invD [OF mem_invD(3) [OF assms(1)]]
  have "length (wk_put s) - knows Producer s Consumer < 2 ^ 32" "knows Consumer s Producer - length (wk_got s) < 2 ^ 32"
    using R assms(2) by simp_all
  with R mem_invD(1) [OF assms(1), of Producer] mem_invD(1) [OF assms(1), of Consumer]
  show "dist (wk_regs s Producer Head) (wk_regs s Producer Tail) = length (wk_put s) - knows Producer s Consumer"
    "dist (wk_regs s Consumer Head) (wk_regs s Consumer Tail) = knows Consumer s Producer - length (wk_got s)"
    by (simp_all add: agent_inv_def count_def dist_of_nat)
qed

lemma regs_dist_le:
  assumes "mem_inv n s" "n \<le> 2 ^ 31"
  shows "dist (wk_regs s a Head) (wk_regs s a Tail) \<le> n"
  using regs_dist [OF assms] room_invD [OF mem_invD(3) [OF assms(1)]] by (cases a) auto

lemma published_pub:
  assumes "mem_inv n s" "n \<le> 2 ^ 31"
  shows "published a s \<longleftrightarrow> pub a s"
proof -
  let ?ms = "wk_msgs s (own a)" and ?b = "other a"
  let ?m = "last ?ms" and ?k = "vw_seen (wk_view s ?b) (own a)"
  note A = agent_invD [OF mem_invD(1) [OF assms(1)]] and M = msgs_invD [OF mem_invD(2) [OF assms(1), of a]]
    and R = room_invD [OF mem_invD(3) [OF assms(1)]]
  have m: "?m \<in> set ?ms" "?m = ?ms ! (length ?ms - 1)" using M(1) by (simp_all add: last_conv_nth)
  have le: "vw_clock (mg_view ?m) a \<le> count a s" using M(4) [OF m(1)] A(1) [of a] by (simp add: view_le_def flip: A(1))
  have "knows ?b s a \<le> vw_clock (mg_view (?ms ! ?k)) a" using A(5) [of ?b] by simp
  also have "\<dots> \<le> vw_clock (mg_view ?m) a"
    unfolding m(2) using A(4) [of ?b] by (intro M(6)) simp_all
  finally have "count a s - vw_clock (mg_view ?m) a < 2 ^ 32"
    using R assms(2) by (cases a) (simp_all add: count_def)
  from dist_of_nat [OF le this] have "(of_nat (vw_clock (mg_view ?m) a) :: u32) = of_nat (count a s) \<longleftrightarrow>
      vw_clock (mg_view ?m) a = count a s"
    using le by (metis diff_is_0_eq dist_eq_0 le_antisym)
  then show ?thesis using M(3) [OF m(1)] A(2) [of a] by (simp add: published_def pub_def)
qed

section \<open>One lemma per instruction\<close>

text \<open>Loading the own position returns the last message, which is what the register holds.\<close>

lemma load_own:
  assumes i: "mem_inv n s" and p: "pub a s" and k: "vw_seen (wk_view s a) (own a) \<le> k" "k < length (wk_msgs s (own a))"
  shows "load_at a (own a) o' k s = s"
proof -
  note M = msgs_invD [OF mem_invD(2) [OF i, of a]] and A = agent_invD [OF mem_invD(1) [OF i, of a]]
  let ?m = "wk_msgs s (own a) ! k"
  have l: "k = length (wk_msgs s (own a)) - 1" "?m \<in> set (wk_msgs s (own a))" using k M(2) by auto
  then have "?m = last (wk_msgs s (own a))" using M(1) by (simp add: last_conv_nth)
  then have v: "mg_val ?m = wk_regs s a (own a)" using p M(3) [OF l(2)] A(2) by (simp add: pub_def)
  have s: "(wk_view s a)\<lparr>vw_seen := (vw_seen (wk_view s a))(own a := k)\<rparr> = wk_view s a"
  proof -
    have "k = vw_seen (wk_view s a) (own a)" using M(2) l(1) by simp
    then show ?thesis by (cases "wk_view s a") simp
  qed
  have "join_view (wk_view s a) (mg_view ?m) = wk_view s a"
    using M(4) [OF l(2)] by (simp add: join_view_def view_le_def max_absorb1)
  with v s show ?thesis by (simp add: load_at_def Let_def)
qed

text \<open>Loading the other's position with acquire: what the register then holds is known to have happened.\<close>

lemma load_other_view:
  assumes i: "mem_inv n s" and o': "acquires o'"
    and k: "vw_seen (wk_view s a) (own (other a)) \<le> k" "k < length (wk_msgs s (own (other a)))"
  defines "m \<equiv> wk_msgs s (own (other a)) ! k" and "w \<equiv> wk_view (load_at a (own (other a)) o' k s) a"
  shows "knows a s (other a) \<le> vw_clock (mg_view m) (other a)" "vw_clock w (other a) = vw_clock (mg_view m) (other a)"
    "vw_clock w a = count a s" "vw_seen w (own (other a)) = k" "vw_seen w (own a) = length (wk_msgs s (own a)) - 1"
    "view_le (wk_view s a) w"
proof -
  let ?b = "other a"
  let ?p = "own ?b"
  note M = msgs_invD [OF mem_invD(2) [OF i, of ?b]] and A = agent_invD [OF mem_invD(1) [OF i]]
  have m: "m \<in> set (wk_msgs s ?p)" using k(2) by (simp add: m_def)
  have w: "w = join_view ((wk_view s a)\<lparr>vw_seen := (vw_seen (wk_view s a))(?p := k)\<rparr>) (mg_view m)"
    using o' by (simp add: w_def m_def load_at_def Let_def)
  show kb: "knows a s ?b \<le> vw_clock (mg_view m) ?b" using A(5) [of a] M(6) [OF k] by (simp add: m_def)
  have ka: "vw_clock (mg_view m) a \<le> count a s"
    using M(4) [OF m] knows_le [OF mem_invD(3) [OF i], of a] by (auto simp: view_le_def intro: order_trans)
  show "vw_clock w ?b = vw_clock (mg_view m) ?b" "vw_clock w a = count a s"
    using kb ka A(1) [of a] by (simp_all add: w join_view_def)
  show "vw_seen w ?p = k" using M(5) [OF k(2)] by (simp add: w m_def join_view_def)
  have "vw_seen (mg_view m) (own a) \<le> vw_seen (wk_view s ?b) (own a)" using M(4) [OF m] by (simp add: view_le_def)
  also have "\<dots> \<le> length (wk_msgs s (own a)) - 1" using A(4) [of ?b] by simp
  finally show "vw_seen w (own a) = length (wk_msgs s (own a)) - 1"
    using msgs_invD(2) [OF mem_invD(2) [OF i, of a]] by (simp add: w join_view_def)
  show "view_le (wk_view s a) w" using k(1) by (auto simp: w join_view_def view_le_def)
qed

lemma load_other:
  assumes i: "mem_inv n s" and o': "acquires o'"
    and k: "vw_seen (wk_view s a) (own (other a)) \<le> k" "k < length (wk_msgs s (own (other a)))"
  shows "mem_inv n (load_at a (own (other a)) o' k s)"
proof -
  let ?b = "other a" and ?s = "load_at a (own (other a)) o' k s"
  let ?m = "wk_msgs s (own ?b) ! k"
  note M = msgs_invD [OF mem_invD(2) [OF i, of ?b]] and A = agent_invD [OF mem_invD(1) [OF i]] and W = load_other_view [OF i o' k]
  have m: "?m \<in> set (wk_msgs s (own ?b))" using k(2) by simp
  have s: "wk_msgs ?s = wk_msgs s" "wk_put ?s = wk_put s" "wk_got ?s = wk_got s" "wk_cells ?s = wk_cells s"
    "wk_regs ?s = (wk_regs s)(a := (wk_regs s a)(own ?b := mg_val ?m))" "wk_view ?s ?b = wk_view s ?b"
    by (simp_all add: load_at_def Let_def)
  have count: "count c ?s = count c s" for c by (cases c) (simp_all add: count_def s)
  have c: "c = a \<or> c = ?b" for c by (cases c; cases a; simp)
  have "agent_inv a ?s" using A(2) [of a] M(3) [OF m] W(2-4) k(2) by (simp add: agent_inv_def s count)
  moreover have "agent_inv ?b ?s" using mem_invD(1) [OF i, of ?b] by (simp add: agent_inv_def s count)
  moreover have "msgs_inv a ?s"
    using mem_invD(2) [OF i, of a] W(5,6) unfolding msgs_inv_def s Let_def by (auto intro: view_le_trans)
  moreover have "msgs_inv ?b ?s" using mem_invD(2) [OF i, of ?b] by (simp add: msgs_inv_def s)
  moreover have "room_inv n ?s"
  proof -
    have "vw_clock (mg_view ?m) ?b \<le> count ?b s" using M(4) [OF m] A(1) [of ?b] by (simp add: view_le_def flip: A(1))
    with room_invD [OF mem_invD(3) [OF i]] W(1-3) s show ?thesis by (cases a) (simp_all add: room_inv_def count_def)
  qed
  moreover have "agent_inv d ?s \<and> msgs_inv d ?s" for d using calculation c [of d] by blast
  ultimately show ?thesis using i by (intro mem_invI) (simp_all add: mem_inv_def cells_inv_def s)
qed

text \<open>Publishing the own position with release.\<close>

lemma store_own:
  assumes i: "mem_inv n s" and o': "releases o'"
  shows "mem_inv n (store_at a (own a) o' s) \<and> pub a (store_at a (own a) o' s)"
proof -
  let ?ms = "wk_msgs s (own a)" and ?s = "store_at a (own a) o' s"
  let ?v = "(wk_view s a)\<lparr>vw_seen := (vw_seen (wk_view s a))(own a := length ?ms)\<rparr>"
  let ?m = "\<lparr>mg_val = wk_regs s a (own a), mg_view = ?v\<rparr>"
  note M = msgs_invD [OF mem_invD(2) [OF i, of a]] and A = agent_invD [OF mem_invD(1) [OF i]]
  have s: "wk_msgs ?s = (wk_msgs s)(own a := ?ms @ [?m])" "wk_put ?s = wk_put s" "wk_got ?s = wk_got s"
    "wk_cells ?s = wk_cells s" "wk_regs ?s = wk_regs s" "wk_view ?s = (wk_view s)(a := ?v)"
    using o' by (simp_all add: store_at_def Let_def)
  have count: "count c ?s = count c s" for c by (cases c) (simp_all add: count_def s)
  have le: "view_le (wk_view s a) ?v" using M(1,2) by (simp add: view_le_def)
  have "agent_inv c ?s" for c
  proof (cases "c = a")
    case True
    with mem_invD(1) [OF i, of a] show ?thesis by (simp add: agent_inv_def s count)
  next
    case False
    then have "c = other a" by (cases c; cases a; simp)
    with mem_invD(1) [OF i, of "other a"] show ?thesis by (simp add: agent_inv_def s count nth_append)
  qed
  moreover have "msgs_inv c ?s" for c
  proof (cases "c = a")
    case True
    have "vw_clock (mg_view m) a \<le> count a s" if "m \<in> set ?ms" for m
      using M(4) [OF that] A(1) [of a] by (simp add: view_le_def flip: A(1))
    moreover have "sorted (map (\<lambda>m. vw_clock (mg_view m) a) ?ms)"
      using mem_invD(2) [OF i, of a] by (simp add: msgs_inv_def Let_def)
    ultimately show ?thesis
      using True M(3,5) A(1,2) [of a] view_le_trans [OF M(4) le]
      by (auto simp: msgs_inv_def s sorted_append nth_append Let_def)
  next
    case False
    then have "c = other a" by (cases c; cases a; simp)
    with mem_invD(2) [OF i, of "other a"] show ?thesis by (simp add: msgs_inv_def s)
  qed
  moreover have "room_inv n ?s" using mem_invD(3) [OF i] unfolding room_inv_def s by (cases a) simp_all
  ultimately have "mem_inv n ?s" using i by (intro mem_invI) (simp_all add: mem_inv_def cells_inv_def s)
  moreover have "pub a ?s" using A(1) [of a] by (simp add: pub_def s count)
  ultimately show ?thesis ..
qed

subsection \<open>Slots\<close>

lemma mod_eq_less: "i mod n = j mod n \<Longrightarrow> i < j \<Longrightarrow> i + n \<le> (j :: nat)"
  using dvd_imp_le [of n "j - i"] by (simp add: mod_eq_dvd_iff_nat flip: mod_eq_dvd_iff_nat)

lemma cells_invD:
  assumes "cells_inv n s"
  shows "length (wk_cells s) = n"
    "c \<in> set (wk_cells s) \<Longrightarrow>
       cl_writes c Consumer = 0 \<and> cl_reads c Producer = 0 \<and> cl_writes c Producer \<le> length (wk_put s)"
    "j < length (wk_put s) \<Longrightarrow> length (wk_put s) \<le> j + n \<Longrightarrow>
       cl_val (wk_cells s ! (j mod n)) = wk_put s ! j \<and> cl_writes (wk_cells s ! (j mod n)) Producer = Suc j"
    "k < n \<Longrightarrow> cl_reads (wk_cells s ! k) Consumer = 0
       \<or> (\<exists>j < length (wk_got s). cl_reads (wk_cells s ! k) Consumer = Suc j \<and> j mod n = k)"
  using assms unfolding cells_inv_def by blast+

lemma tick_simps [simp]:
  "vw_clock (tick a v) = (vw_clock v)(a := Suc (vw_clock v a))" "vw_seen (tick a v) = vw_seen v"
  by (simp_all add: tick_def)

lemma view_le_tick [simp]: "view_le v w \<Longrightarrow> view_le v (tick a w)"
  by (simp add: view_le_def le_SucI)

text \<open>The state after the slot for the next entry has been written, or the next entry has been read.\<close>

definition wrote :: "nat \<Rightarrow> 'e \<Rightarrow> 'e weak \<Rightarrow> 'e weak" where
  "wrote n e s = (let P = length (wk_put s); c = wk_cells s ! (P mod n) in
     s\<lparr>wk_cells := (wk_cells s)[P mod n := c\<lparr>cl_val := e, cl_writes := (cl_writes c)(Producer := Suc P)\<rparr>],
       wk_view := (wk_view s)(Producer := tick Producer (wk_view s Producer)),
       wk_regs := (wk_regs s)(Producer := (wk_regs s Producer)(Tail := wk_regs s Producer Tail + 1)),
       wk_put := wk_put s @ [e]\<rparr>)"

definition took :: "nat \<Rightarrow> 'e weak \<Rightarrow> 'e weak" where
  "took n s = (let G = length (wk_got s); c = wk_cells s ! (G mod n) in
     s\<lparr>wk_cells := (wk_cells s)[G mod n := c\<lparr>cl_reads := (cl_reads c)(Consumer := Suc G)\<rparr>],
       wk_view := (wk_view s)(Consumer := tick Consumer (wk_view s Consumer)),
       wk_regs := (wk_regs s)(Consumer := (wk_regs s Consumer)(Head := wk_regs s Consumer Head + 1)),
       wk_got := wk_got s @ [wk_put s ! G]\<rparr>)"

lemma wrote_simps [simp]:
  "wk_msgs (wrote n e s) = wk_msgs s" "wk_put (wrote n e s) = wk_put s @ [e]" "wk_got (wrote n e s) = wk_got s"
  "wk_view (wrote n e s) = (wk_view s)(Producer := tick Producer (wk_view s Producer))"
  "wk_regs (wrote n e s) = (wk_regs s)(Producer := (wk_regs s Producer)(Tail := wk_regs s Producer Tail + 1))"
  "wk_code (wrote n e s) = wk_code s"
  by (simp_all add: wrote_def Let_def)

lemma took_simps [simp]:
  "wk_msgs (took n s) = wk_msgs s" "wk_put (took n s) = wk_put s"
  "wk_got (took n s) = wk_got s @ [wk_put s ! length (wk_got s)]"
  "wk_view (took n s) = (wk_view s)(Consumer := tick Consumer (wk_view s Consumer))"
  "wk_regs (took n s) = (wk_regs s)(Consumer := (wk_regs s Consumer)(Head := wk_regs s Consumer Head + 1))"
  "wk_code (took n s) = wk_code s"
  by (simp_all add: took_def Let_def)

text \<open>
  A slot is written only when the registers show room; then the read of the slot's previous entry is
  known to have happened.
\<close>

lemma write_at_ok:
  assumes i: "mem_inv n s" and g: "ring_geom entries msk n"
    and room: "length (wk_put s) < knows Producer s Consumer + n"
  shows "write_at msk Producer e s = Inr (wrote n e s)"
proof -
  let ?P = "length (wk_put s)"
  let ?i = "?P mod n" and ?hp = "knows Producer s Consumer"
  note A = agent_invD [OF mem_invD(1) [OF i, of Producer]] and R = room_invD [OF mem_invD(3) [OF i]]
    and C = cells_invD [OF mem_invD(4) [OF i]]
  have im: "?i < n" using ring_geom_entries [OF g] by simp
  have kP: "knows Producer s Producer = ?P" using A(1) by (simp add: count_def)
  have ix: "ring_index msk (wk_regs s Producer Tail) = ?i"
    using ring_index_of_nat [OF g] A(2) by (simp add: count_def)
  have "cl_reads (wk_cells s ! ?i) Consumer \<le> ?hp"
    using C(4) [OF im]
  proof (elim disjE exE conjE)
    fix j assume j: "j < length (wk_got s)" "cl_reads (wk_cells s ! ?i) Consumer = Suc j" "j mod n = ?i"
    moreover have "j < ?P" using j(1) R by simp
    ultimately show ?thesis using mod_eq_less [of j n ?P] room by simp
  qed simp
  moreover have "wk_cells s ! ?i \<in> set (wk_cells s)" using im C(1) by simp
  note C(2) [OF this]
  ultimately have "happened (cl_reads (wk_cells s ! ?i)) (wk_view s Producer)"
    "happened (cl_writes (wk_cells s ! ?i)) (wk_view s Producer)"
    using kP by (simp_all add: happened_def)
  then show ?thesis using im C(1) kP by (simp add: write_at_def ix Let_def wrote_def)
qed

lemma wrote_cells:
  assumes c: "cells_inv n s" and n: "0 < n"
  shows "cells_inv n (wrote n e s)"
proof -
  let ?P = "length (wk_put s)" and ?s = "wrote n e s"
  let ?i = "?P mod n"
  let ?c = "(wk_cells s ! ?i)\<lparr>cl_val := e, cl_writes := (cl_writes (wk_cells s ! ?i))(Producer := Suc ?P)\<rparr>"
  note C = cells_invD [OF c]
  have im: "?i < n" using n by simp
  have cells: "wk_cells ?s = (wk_cells s)[?i := ?c]" by (simp add: wrote_def Let_def)
  have "wk_cells s ! ?i \<in> set (wk_cells s)" using im C(1) by simp
  note Ci = C(2) [OF this]
  have "cl_writes c Consumer = 0 \<and> cl_reads c Producer = 0 \<and> cl_writes c Producer \<le> Suc ?P"
    if "c \<in> set (wk_cells ?s)" for c
    using that Ci C(2) [of c] set_update_subset_insert [of "wk_cells s" ?i ?c] unfolding cells by auto
  moreover have "cl_val (wk_cells ?s ! (j mod n)) = (wk_put s @ [e]) ! j
      \<and> cl_writes (wk_cells ?s ! (j mod n)) Producer = Suc j"
    if j: "j < Suc ?P" "Suc ?P \<le> j + n" for j
  proof (cases "j = ?P")
    case True
    then show ?thesis using im C(1) by (simp add: cells)
  next
    case False
    with j have "j < ?P" by simp
    moreover have "j mod n \<noteq> ?i" using mod_eq_less [of j n ?P] j \<open>j < ?P\<close> by auto
    ultimately show ?thesis using C(3) [of j] j by (simp add: cells nth_append)
  qed
  moreover have "cl_reads (wk_cells ?s ! k) Consumer = cl_reads (wk_cells s ! k) Consumer" if "k < n" for k
    using that C(1) by (cases "k = ?i") (simp_all add: cells)
  moreover have "length (wk_cells ?s) = n" using C(1) by (simp add: cells)
  ultimately show ?thesis using C(4) by (simp add: cells_inv_def)
qed

lemma wrote_inv:
  assumes i: "mem_inv n s" and n: "0 < n" and room: "length (wk_put s) < knows Producer s Consumer + n"
  shows "mem_inv n (wrote n e s)"
proof -
  note R = room_invD [OF mem_invD(3) [OF i]]
  have "agent_inv a (wrote n e s)" for a
    using mem_invD(1) [OF i, of a] by (cases a) (simp_all add: agent_inv_def count_def)
  moreover have "msgs_inv a (wrote n e s)" for a
    using mem_invD(2) [OF i, of a] by (cases a) (simp_all add: msgs_inv_def Let_def)
  moreover have "room_inv n (wrote n e s)" using R room by (simp add: room_inv_def)
  ultimately show ?thesis
    using wrote_cells [OF mem_invD(4) [OF i] n] mem_invD(5) [OF i] R by (intro mem_invI) simp_all
qed

text \<open>A slot is read only when the registers show an entry; then its write is known to have happened.\<close>

lemma read_at_ok:
  assumes i: "mem_inv n s" and g: "ring_geom entries msk n" and entry: "length (wk_got s) < knows Consumer s Producer"
  shows "read_at msk Consumer s = Inr (took n s)"
proof -
  let ?G = "length (wk_got s)"
  let ?i = "?G mod n"
  note A = agent_invD [OF mem_invD(1) [OF i, of Consumer]] and R = room_invD [OF mem_invD(3) [OF i]]
    and C = cells_invD [OF mem_invD(4) [OF i]]
  have im: "?i < n" using ring_geom_entries [OF g] by simp
  have ix: "ring_index msk (wk_regs s Consumer Head) = ?i"
    using ring_index_of_nat [OF g] A(2) by (simp add: count_def)
  have v: "cl_val (wk_cells s ! ?i) = wk_put s ! ?G" "cl_writes (wk_cells s ! ?i) Producer = Suc ?G"
    using C(3) [of ?G] R entry by simp_all
  moreover have "wk_cells s ! ?i \<in> set (wk_cells s)" using im C(1) by simp
  note C(2) [OF this]
  ultimately have "happened (cl_writes (wk_cells s ! ?i)) (wk_view s Consumer)"
    using entry by (simp add: happened_def)
  then show ?thesis using im C(1) v A(1) by (simp add: read_at_def ix Let_def took_def count_def)
qed

lemma took_cells:
  assumes c: "cells_inv n s" and n: "0 < n"
  shows "cells_inv n (took n s)"
proof -
  let ?G = "length (wk_got s)" and ?s = "took n s"
  let ?i = "?G mod n"
  let ?c = "(wk_cells s ! ?i)\<lparr>cl_reads := (cl_reads (wk_cells s ! ?i))(Consumer := Suc ?G)\<rparr>"
  note C = cells_invD [OF c]
  have im: "?i < n" using n by simp
  have cells: "wk_cells ?s = (wk_cells s)[?i := ?c]" by (simp add: took_def Let_def)
  have "wk_cells s ! ?i \<in> set (wk_cells s)" using im C(1) by simp
  note Ci = C(2) [OF this]
  have "cl_writes c Consumer = 0 \<and> cl_reads c Producer = 0 \<and> cl_writes c Producer \<le> length (wk_put s)"
    if "c \<in> set (wk_cells ?s)" for c
    using that Ci C(2) [of c] set_update_subset_insert [of "wk_cells s" ?i ?c] unfolding cells by auto
  moreover have "cl_val (wk_cells ?s ! k) = cl_val (wk_cells s ! k)
      \<and> cl_writes (wk_cells ?s ! k) Producer = cl_writes (wk_cells s ! k) Producer" if "k < n" for k
    using that C(1) by (cases "k = ?i") (simp_all add: cells)
  moreover have "cl_reads (wk_cells ?s ! k) Consumer = 0
      \<or> (\<exists>j < Suc ?G. cl_reads (wk_cells ?s ! k) Consumer = Suc j \<and> j mod n = k)" if "k < n" for k
    using that C(1) C(4) [OF that] by (cases "k = ?i") (auto simp: cells less_Suc_eq)
  moreover have "length (wk_cells ?s) = n" using C(1) by (simp add: cells)
  ultimately show ?thesis using C(3) n by (simp add: cells_inv_def)
qed

lemma took_inv:
  assumes i: "mem_inv n s" and n: "0 < n" and entry: "length (wk_got s) < knows Consumer s Producer"
  shows "mem_inv n (took n s)"
proof -
  note R = room_invD [OF mem_invD(3) [OF i]]
  have "agent_inv a (took n s)" for a
    using mem_invD(1) [OF i, of a] by (cases a) (simp_all add: agent_inv_def count_def)
  moreover have "msgs_inv a (took n s)" for a
    using mem_invD(2) [OF i, of a] by (cases a) (simp_all add: msgs_inv_def Let_def)
  moreover have "room_inv n (took n s)" using R entry by (simp add: room_inv_def)
  moreover have "wk_got (took n s) = take (length (wk_got (took n s))) (wk_put (took n s))"
    using mem_invD(5) [OF i] R entry by (simp add: take_Suc_conv_app_nth)
  ultimately show ?thesis
    using took_cells [OF mem_invD(4) [OF i] n] by (intro mem_invI)
qed

section \<open>Rings run by disciplined programs\<close>

definition code_inv :: "u32 \<Rightarrow> bool \<Rightarrow> agent \<Rightarrow> 'e weak \<Rightarrow> bool" where
  "code_inv entries fin a s \<longleftrightarrow>
     (\<exists>b. (b \<longrightarrow> pub a s) \<and> code_ok entries a fin b (wk_regs s a) (wk_code s a))"

lemma code_invI:
  "code_ok entries a fin b (wk_regs s a) (wk_code s a) \<Longrightarrow> (b \<Longrightarrow> pub a s) \<Longrightarrow> code_inv entries fin a s"
  by (auto simp: code_inv_def)

lemma code_inv_frame:
  assumes "code_inv entries fin a s" "wk_regs s' a = wk_regs s a" "wk_code s' a = wk_code s a"
    "wk_msgs s' (own a) = wk_msgs s (own a)" "count a s' = count a s"
  shows "code_inv entries fin a s'"
  using assms by (simp add: code_inv_def pub_def)

lemma load_at_simps [simp]:
  "wk_regs (load_at a p o' k s) = (wk_regs s)(a := (wk_regs s a)(p := mg_val (wk_msgs s p ! k)))"
  "wk_code (load_at a p o' k s) = wk_code s" "wk_msgs (load_at a p o' k s) = wk_msgs s"
  "count c (load_at a p o' k s) = count c s"
  by (simp_all add: load_at_def Let_def count_def cong: agent.case_cong)

lemma store_at_simps [simp]:
  "wk_regs (store_at a p o' s) = wk_regs s" "wk_code (store_at a p o' s) = wk_code s"
  "q \<noteq> p \<Longrightarrow> wk_msgs (store_at a p o' s) q = wk_msgs s q" "count c (store_at a p o' s) = count c s"
  by (simp_all add: store_at_def Let_def count_def cong: agent.case_cong)

lemma agent_all: "P a \<Longrightarrow> P (other a) \<Longrightarrow> P c"
  by (cases a; cases c; simp)

lemma run_instr_ok:
  assumes i: "mem_inv n s" and g: "ring_geom entries msk n"
    and c: "code_ok entries a fin b (wk_regs s a) (i # code)" "b \<Longrightarrow> pub a s" and m: "may_load a k i s"
    and s: "wk_code s a = code"
  shows "\<exists>s'. run_instr msk a k i s = Inr s' \<and> mem_inv n s' \<and> code_inv entries fin a s'
    \<and> wk_regs s' (other a) = wk_regs s (other a) \<and> wk_code s' (other a) = wk_code s (other a)
    \<and> wk_msgs s' (own (other a)) = wk_msgs s (own (other a)) \<and> count (other a) s' = count (other a) s"
proof -
  have n: "n = unat entries" "0 < n" "n \<le> 2 ^ 31" using ring_geom_entries [OF g] by auto
  note R = regs_dist [OF i n(3)] and K = room_invD [OF mem_invD(3) [OF i]]
  show ?thesis
    using c(1)
  proof (cases rule: code_ok.cases)
    case (Load_own p o')
    then have "load_at a p o' k s = s" using load_own [OF i c(2)] m by simp
    with Load_own i c(2) s show ?thesis by (auto simp: code_inv_def)
  next
    case (Load_other o' p)
    let ?s = "load_at a p o' k s"
    have p: "p \<noteq> own a" using Load_other by simp
    have i': "mem_inv n ?s" using load_other [OF i Load_other(2)] Load_other m by simp
    have "code_ok entries a fin b (wk_regs ?s a) code"
      using Load_other(4) regs_dist_le [OF i' n(3), of a] n(1) by simp
    then have "code_inv entries fin a ?s"
      using c(2) s by (intro code_invI [of entries a fin b]) (simp_all add: pub_def)
    with Load_other i' show ?thesis by simp
  next
    case (Store o' p)
    let ?s = "store_at a p o' s"
    have i': "mem_inv n ?s" "pub a ?s" using store_own [OF i Store(2), of a] Store by simp_all
    have "code_inv entries fin a ?s" using Store i' s by (intro code_invI [of entries a fin True]) simp_all
    with Store i' show ?thesis by simp
  next
    case (Write e)
    have r: "length (wk_put s) < knows Producer s Consumer + n" using Write(2,3) R(1) K n(1) by simp
    have "code_inv entries fin a (wrote n e s)" using Write s by (intro code_invI [of entries a fin False]) simp_all
    with Write write_at_ok [OF i g r] wrote_inv [OF i n(2) r] show ?thesis by (simp add: count_def)
  next
    case Read
    have "dist (wk_regs s Consumer Head) (wk_regs s Consumer Tail) \<noteq> 0" using Read by simp
    then have r: "length (wk_got s) < knows Consumer s Producer" using R(2) by simp
    have "code_inv entries fin a (took n s)" using Read s by (intro code_invI [of entries a fin False]) simp_all
    with Read read_at_ok [OF i g r] took_inv [OF i n(2) r] show ?thesis by (simp add: count_def)
  next
    case (Test f)
    let ?s = "s\<lparr>wk_code := (wk_code s)(a := f (wk_regs s a) @ wk_code s a)\<rparr>"
    have "code_inv entries fin a ?s" using Test c(2) s by (intro code_invI [of entries a fin b]) simp_all
    with Test i show ?thesis by (simp add: count_def cong: agent.case_cong)
  qed
qed

text \<open>
  The interface: every program that an agent may start is disciplined, given that the position of an
  agent that always publishes is published.
\<close>

locale ring_programs =
  fixes entries :: u32 and always :: "agent \<Rightarrow> bool" and ops :: "agent \<Rightarrow> 'e weak \<Rightarrow> 'e instr list set"
  assumes disciplined: "code \<in> ops a s \<Longrightarrow> dist (wk_regs s a Head) (wk_regs s a Tail) \<le> unat entries \<Longrightarrow>
      (always a \<longrightarrow> published a s) \<Longrightarrow> code_ok entries a (always a) (published a s) (wk_regs s a) code"
begin

definition weak_inv :: "nat \<Rightarrow> 'e weak \<Rightarrow> bool" where
  "weak_inv n s \<longleftrightarrow> mem_inv n s \<and> (\<forall>a. code_inv entries (always a) a s)"

lemma next_instr_ok:
  assumes i: "weak_inv n s" and g: "ring_geom entries msk n" and c: "wk_code s a = i # code" and m: "may_load a k i s"
  shows "\<exists>s'. run_instr msk a k i (s\<lparr>wk_code := (wk_code s)(a := code)\<rparr>) = Inr s' \<and> weak_inv n s'"
proof -
  let ?s = "s\<lparr>wk_code := (wk_code s)(a := code)\<rparr>"
  obtain b where b: "b \<Longrightarrow> pub a s" "code_ok entries a (always a) b (wk_regs s a) (i # code)"
    using i c unfolding weak_inv_def code_inv_def by metis
  have "mem_inv n ?s" using i by (simp add: weak_inv_def)
  moreover have "may_load a k i ?s" using m by (cases i) simp_all
  ultimately obtain s' where s': "run_instr msk a k i ?s = Inr s'" "mem_inv n s'" "code_inv entries (always a) a s'"
    "wk_regs s' (other a) = wk_regs ?s (other a)" "wk_code s' (other a) = wk_code ?s (other a)"
    "wk_msgs s' (own (other a)) = wk_msgs ?s (own (other a))" "count (other a) s' = count (other a) ?s"
    using run_instr_ok [OF _ g, of ?s a "always a" b i code k] b by auto
  have "code_inv entries (always (other a)) (other a) s" using i by (simp add: weak_inv_def)
  then have "code_inv entries (always (other a)) (other a) s'"
    by (rule code_inv_frame) (use s'(4-7) in simp_all)
  with s'(3) have "code_inv entries (always c) c s'" for c
    by (rule agent_all [of "\<lambda>c. code_inv entries (always c) c s'"])
  with s' show ?thesis by (auto simp: weak_inv_def)
qed

lemma weak_step_inv:
  assumes "weak_step msk ops s s'" "ring_geom entries msk n" "weak_inv n s"
  shows "weak_inv n s'"
  using assms(1)
proof (cases rule: weak_step.cases)
  case (call a code)
  have i: "mem_inv n s" and n: "n = unat entries" "n \<le> 2 ^ 31"
    using assms(3) ring_geom_entries [OF assms(2)] by (auto simp: weak_inv_def)
  have p: "published a s \<longleftrightarrow> pub a s" using published_pub [OF i n(2)] .
  have "always a \<longrightarrow> pub a s"
  proof -
    have "code_inv entries (always a) a s" using assms(3) by (simp add: weak_inv_def)
    with call(2) show ?thesis by (auto simp: code_inv_def code_ok_simps)
  qed
  with disciplined [OF call(3)] regs_dist_le [OF i n(2), of a] n(1) p
  have "code_ok entries a (always a) (pub a s) (wk_regs s a) code" by simp
  then have "code_inv entries (always a) a s'"
    using call(1) by (intro code_invI [of entries a _ "pub a s"]) simp_all
  moreover have "code_inv entries (always c) c s'" if "c \<noteq> a" for c
  proof -
    have "code_inv entries (always c) c s" using assms(3) by (simp add: weak_inv_def)
    then show ?thesis by (rule code_inv_frame) (use that call(1) in simp_all)
  qed
  ultimately have "code_inv entries (always c) c s'" for c by (cases "c = a") simp_all
  then show ?thesis using i call(1) by (simp add: weak_inv_def)
next
  case (instr a i code k)
  with next_instr_ok [OF assms(3,2) instr(1,2)] show ?thesis by auto
qed

lemma weak_start_inv:
  assumes g: "ring_geom entries msk (length slots)"
  shows "weak_inv (length slots) (weak_start slots)"
proof -
  have "mem_inv (length slots) (weak_start slots)"
    by (rule mem_invI) (auto simp: weak_start_def agent_inv_def msgs_inv_def room_inv_def cells_inv_def
        count_def bot_view_def less_Suc_eq split: agent.split)
  moreover have "code_inv entries (always a) a (weak_start slots)" for a
    by (rule code_invI [of _ _ _ True], simp add: weak_start_def, rule code_ok.Done)
      (auto simp: weak_start_def pub_def count_def bot_view_def split: agent.split)
  ultimately show ?thesis by (simp add: weak_inv_def)
qed

lemma reachable_weak_inv:
  assumes "(weak_step msk ops)\<^sup>*\<^sup>* (weak_start slots) s" "ring_geom entries msk (length slots)"
  shows "weak_inv (length slots) s"
  using assms by (induction rule: rtranclp_induct) (auto intro: weak_start_inv weak_step_inv)

lemma weak_memory_safe:
  assumes r: "(weak_step msk ops)\<^sup>*\<^sup>* (weak_start slots) s" and g: "ring_geom entries msk (length slots)"
  shows "wk_code s a = i # code \<Longrightarrow> may_load a k i s \<Longrightarrow>
      \<exists>s'. run_instr msk a k i (s\<lparr>wk_code := (wk_code s)(a := code)\<rparr>) = Inr s'"
    and "prefix (wk_got s) (wk_put s)" "length (wk_put s) \<le> length (wk_got s) + length slots"
    and "wk_regs s Consumer Head = wk_regs s Producer Tail \<Longrightarrow> wk_got s = wk_put s"
proof -
  have i: "weak_inv (length slots) s" using reachable_weak_inv [OF r g] .
  then have m: "mem_inv (length slots) s" by (simp add: weak_inv_def)
  note R = room_invD [OF mem_invD(3) [OF m]] and A = agent_invD [OF mem_invD(1) [OF m]]
  show "wk_code s a = i # code \<Longrightarrow> may_load a k i s \<Longrightarrow>
      \<exists>s'. run_instr msk a k i (s\<lparr>wk_code := (wk_code s)(a := code)\<rparr>) = Inr s'"
    using next_instr_ok [OF i g] by blast
  show "prefix (wk_got s) (wk_put s)" using mem_invD(5) [OF m] by (metis take_is_prefix)
  show l: "length (wk_put s) \<le> length (wk_got s) + length slots" using R by simp
  assume e: "wk_regs s Consumer Head = wk_regs s Producer Tail"
  have "length slots \<le> 2 ^ 31" using ring_geom_entries [OF g] by simp
  with l have "length (wk_put s) - length (wk_got s) < 2 ^ 32" by simp
  then have "dist (of_nat (length (wk_got s))) (of_nat (length (wk_put s))) = length (wk_put s) - length (wk_got s)"
    using R by (intro dist_of_nat) simp_all
  then have "length (wk_put s) \<le> length (wk_got s)"
    using e A(2) [of Producer] A(2) [of Consumer] by (simp add: count_def)
  then show "wk_got s = wk_put s" using mem_invD(5) [OF m] by simp
qed

end

subsection \<open>Both rings\<close>

text \<open>The submitter leaves no position unpublished: it consumes submissions and produces completions.\<close>

lemma code_ok_reads:
  assumes "n \<le> dist (r Head) (r Tail)"
    and "\<And>b r. code_ok entries Consumer fin b r code"
  shows "code_ok entries Consumer fin b r (replicate n Read @ code)"
  using assms(1)
proof (induction n arbitrary: r b)
  case 0
  then show ?case by (simp add: assms(2))
next
  case (Suc n)
  have ne: "r Head \<noteq> r Tail" using Suc.prems by (metis dist_eq_0 le_zero_eq nat.distinct(1))
  then have "n \<le> dist (r Head + 1) (r Tail)" using Suc.prems dist_Suc_left [OF ne] by simp
  then have "code_ok entries Consumer fin False (r(Head := r Head + 1)) (replicate n Read @ code)"
    by (simp add: Suc.IH)
  with ne show ?case by (simp add: code_ok_simps)
qed

lemma code_ok_writes:
  "dist (r Head) (r Tail) + length es \<le> unat entries \<Longrightarrow> code_ok entries Producer False b r (map Write es)"
proof (induction es arbitrary: r b)
  case (Cons e es)
  have "dist (r Head) (r Tail) < 2 ^ 32 - 1" using Cons.prems unat_u32_lt [of entries] by simp
  then have "dist (r Head) (r Tail + 1) = dist (r Head) (r Tail) + 1" by (rule dist_Suc_right)
  with Cons show ?case by (simp add: code_ok_simps)
qed (simp add: code_ok_simps)

lemma min_pending_dist: "unat (min k (t - h)) \<le> dist h t"
  by (simp add: dist_def min_def word_le_nat_alt)

interpretation sqw: ring_programs entries "\<lambda>a. a = Consumer" "sq_ops entries" for entries :: u32
proof
  fix code a and s :: "'e weak"
  let ?r = "wk_regs s a"
  assume c: "code \<in> sq_ops entries a s" and d: "dist (?r Head) (?r Tail) \<le> unat entries"
    and p: "a = Consumer \<longrightarrow> published a s"
  show "code_ok entries a (a = Consumer) (published a s) ?r code"
  proof (cases a)
    case Producer
    have "dist (?r Head) (?r Tail) < unat entries" if "?r Tail - ?r Head \<noteq> entries"
      using that d by (metis dist_def order_le_neq_trans word_unat_eq_iff)
    moreover have "code_ok entries Producer False b ?r (map Write es)"
      if "\<not> unat entries - unat (?r Tail - ?r Head) < length es" for b es
      using that d by (intro code_ok_writes) (simp add: dist_def)
    ultimately show ?thesis
      using c Producer
      by (auto simp: sq_ops_def code_defs code_ok_simps acquires_def releases_def split: if_splits)
  next
    case Consumer
    with c p show ?thesis
      by (auto simp: sq_ops_def code_defs code_ok_simps acquires_def releases_def Let_def min_pending_dist
          intro!: code_ok_reads)
  qed
qed

interpretation cqw: ring_programs entries "\<lambda>a. a = Producer" "cq_ops entries" for entries :: u32
proof
  fix code a and s :: "'e weak"
  let ?r = "wk_regs s a"
  assume c: "code \<in> cq_ops entries a s" and p: "a = Producer \<longrightarrow> published a s"
  show "code_ok entries a (a = Producer) (published a s) ?r code"
  proof (cases a)
    case Producer
    have "dist h t < unat entries" if "\<not> entries \<le> t - h" for h t
      using that by (simp add: dist_def word_le_nat_alt)
    with c p Producer show ?thesis
      by (auto simp: cq_ops_def code_defs code_ok_simps acquires_def releases_def)
  next
    case Consumer
    have "code_ok entries Consumer False b ?r (replicate (min (unat (?r Tail - ?r Head)) n) Read)" for b n
      using code_ok_reads [of "min (unat (?r Tail - ?r Head)) n" ?r entries False "[]"]
      by (simp add: dist_def code_ok_simps)
    with c Consumer show ?thesis
      by (auto simp: cq_ops_def code_defs code_ok_simps acquires_def releases_def split: if_splits)
  qed
qed

end
