(* ===== verification/Miring_Weak_Programs.thy ===== *)
theory Miring_Weak_Programs
  imports Miring_Weak_Memory Miring_Example
begin

text \<open>
  That the programs of \<open>Miring_Weak_Memory\<close> are the operations of the model: run without
  interference and with loads that return the latest value, each does to the positions, the slots and
  the handle's registers what the operation of \<open>Miring_Squeue\<close>, \<open>Miring_Cqueue\<close> or
  \<open>Miring_Submit\<close> does.  With them, the properties of both rings under release/acquire memory.
\<close>

section \<open>The programs are those of the model\<close>

record 'e sc =
  sc_pos :: "position \<Rightarrow> u32"
  sc_slots :: "'e list"
  sc_regs :: "position \<Rightarrow> u32"
  sc_out :: "'e list"

fun run_all :: "('s \<Rightarrow> 's exec) list \<Rightarrow> 's \<Rightarrow> 's exec" where
  "run_all [] s = Inr s"
| "run_all (f # fs) s = and_then (f s) (run_all fs)"

primrec sc_instr :: "u32 \<Rightarrow> 'e instr \<Rightarrow> 'e sc \<Rightarrow> 'e sc exec" where
  "sc_instr msk (Load p o') = (\<lambda>s. Inr (s\<lparr>sc_regs := (sc_regs s)(p := sc_pos s p)\<rparr>))"
| "sc_instr msk (Store p o') = (\<lambda>s. Inr (s\<lparr>sc_pos := (sc_pos s)(p := sc_regs s p)\<rparr>))"
| "sc_instr msk (Write e) = (\<lambda>s. let i = ring_index msk (sc_regs s Tail) in
     if i < length (sc_slots s)
     then Inr (s\<lparr>sc_slots := (sc_slots s)[i := e], sc_regs := (sc_regs s)(Tail := sc_regs s Tail + 1)\<rparr>)
     else Inl (UndefinedBehavior UB_out_of_bounds))"
| "sc_instr msk Read = (\<lambda>s. let i = ring_index msk (sc_regs s Head) in
     if i < length (sc_slots s)
     then Inr (s\<lparr>sc_regs := (sc_regs s)(Head := sc_regs s Head + 1), sc_out := sc_out s @ [sc_slots s ! i]\<rparr>)
     else Inl (UndefinedBehavior UB_out_of_bounds))"
| "sc_instr msk (Test f) = (\<lambda>s. run_all (map (sc_instr msk) (f (sc_regs s))) s)"

definition sc_run :: "u32 \<Rightarrow> 'e instr list \<Rightarrow> 'e sc \<Rightarrow> 'e sc exec" where
  "sc_run msk code = run_all (map (sc_instr msk) code)"

definition positions :: "u32 \<Rightarrow> u32 \<Rightarrow> position \<Rightarrow> u32" where
  "positions h t p = (case p of Head \<Rightarrow> h | Tail \<Rightarrow> t)"

text \<open>The submission ring with the registers of a handle or of the submitter, and the completion ring.\<close>

definition sq_sc :: "('s, 'c) RingMemory \<Rightarrow> u32 \<Rightarrow> u32 \<Rightarrow> 's list \<Rightarrow> 's sc" where
  "sq_sc mem h t out = \<lparr>sc_pos = positions (st_sq_head (rm_state mem)) (st_sq_tail (rm_state mem)),
     sc_slots = rm_sqes mem, sc_regs = positions h t, sc_out = out\<rparr>"

definition cq_sc :: "('s, 'c) RingMemory \<Rightarrow> u32 \<Rightarrow> u32 \<Rightarrow> 'c list \<Rightarrow> 'c sc" where
  "cq_sc mem h t out = \<lparr>sc_pos = positions (st_cq_head (rm_state mem)) (st_cq_tail (rm_state mem)),
     sc_slots = rm_cqes mem, sc_regs = positions h t, sc_out = out\<rparr>"

abbreviation sq_sc_of :: "SubmissionQueue \<Rightarrow> ('s, 'c) RingMemory \<Rightarrow> 's sc" where
  "sq_sc_of sq mem \<equiv> sq_sc mem (sq_head sq) (sq_tail sq) []"

abbreviation cq_sc_of :: "CompletionQueue \<Rightarrow> ('s, 'c) RingMemory \<Rightarrow> 'c list \<Rightarrow> 'c sc" where
  "cq_sc_of cq mem out \<equiv> cq_sc mem (cq_head cq) (cq_tail cq) out"

lemma positions_simps [simp]:
  "positions h t Head = h" "positions h t Tail = t"
  "(positions h t)(Head := v) = positions v t" "(positions h t)(Tail := v) = positions h v"
  by (auto simp: positions_def fun_eq_iff split: position.split)

lemma squeue_sync_program:
  "sc_run msk squeue_sync_code (sq_sc_of sq mem) = Inr (case squeue_sync sq mem of (sq', mem') \<Rightarrow> sq_sc_of sq' mem')"
  by (simp add: sc_run_def code_defs sq_sc_def squeue_sync_def Let_def)

lemma squeue_drop_program:
  "sc_run msk squeue_drop_code (sq_sc_of sq mem) = Inr (sq_sc_of sq (squeue_drop sq mem))"
  by (simp add: sc_run_def code_defs sq_sc_def squeue_drop_def)

lemma squeue_borrow_program:
  "sc_run msk squeue_borrow_code (sq_sc_of sq mem) = Inr (sq_sc_of (squeue_borrow inner mem) mem)"
  by (simp add: sc_run_def code_defs sq_sc_def squeue_borrow_def squeue_borrow_shared_def unsync_load_def)

lemma u32_full: "(ucast (a :: u32) :: usize) = ucast b \<longleftrightarrow> a = b"
  by (metis unat_ucast_u32 word_unat_eq_iff)

lemma squeue_push_program:
  "sc_run (sqi_ring_mask (sq_queue sq)) (squeue_push_code (sqi_ring_entries (sq_queue sq)) e) (sq_sc_of sq mem) =
     and_then (squeue_push e sq mem) (\<lambda>(r, sq', mem'). Inr (sq_sc_of sq' mem'))"
  by (simp add: sc_run_def code_defs sq_sc_def squeue_push_def squeue_push_unchecked_def squeue_is_full_def
      squeue_len_def squeue_capacity_def u32_full Let_def)

lemma and_then_run_all_Nil [simp]: "and_then x (run_all []) = x"
  by (cases x) simp_all

lemma run_all_single [simp]: "run_all [f] = f"
  by (simp add: fun_eq_iff)

lemma run_all_append: "run_all (fs @ gs) s = and_then (run_all fs s) (run_all gs)"
  by (induction fs arbitrary: s) (auto simp: and_then_assoc intro!: arg_cong2 [where f = and_then])

lemma writes_program:
  "run_all (map (sc_instr (sqi_ring_mask (sq_queue sq)) \<circ> Write) es) (sq_sc_of sq mem) =
     and_then (squeue_push_each es sq mem) (\<lambda>(sq', mem'). Inr (sq_sc_of sq' mem'))"
proof (induction es arbitrary: sq mem)
  case (Cons e es)
  let ?i = "ring_index (sqi_ring_mask (sq_queue sq)) (sq_tail sq)"
  have "sc_instr (sqi_ring_mask (sq_queue sq)) (Write e) (sq_sc_of sq mem) =
      and_then (squeue_push_unchecked e sq mem) (\<lambda>(sq', mem'). Inr (sq_sc_of sq' mem'))"
    by (simp add: sq_sc_def squeue_push_unchecked_def Let_def)
  with Cons.IH [of "sq\<lparr>sq_tail := sq_tail sq + 1\<rparr>" "mem\<lparr>rm_sqes := (rm_sqes mem)[?i := e]\<rparr>"]
  show ?case by (simp add: squeue_push_unchecked_def Let_def del: sc_instr.simps)
qed simp

lemma squeue_push_multiple_program:
  assumes "squeue_len sq \<le> squeue_capacity sq"
  shows "sc_run (sqi_ring_mask (sq_queue sq)) (squeue_push_multiple_code (sqi_ring_entries (sq_queue sq)) es)
      (sq_sc_of sq mem) =
    and_then (squeue_push_multiple es sq mem) (\<lambda>(r, sq', mem'). Inr (sq_sc_of sq' mem'))"
proof -
  have "rust_sub (squeue_capacity sq) (squeue_len sq) = Inr (squeue_capacity sq - squeue_len sq)"
    using assms by (simp add: rust_sub_def checked_sub_def)
  moreover have "unat (squeue_capacity sq - squeue_len sq) =
      unat (sqi_ring_entries (sq_queue sq)) - unat (sq_tail sq - sq_head sq)"
    using assms by (simp add: unat_sub) (simp add: squeue_capacity_def squeue_len_def dist_def)
  moreover have "sc_regs (sq_sc_of sq mem) = positions (sq_head sq) (sq_tail sq)" by (simp add: sq_sc_def)
  ultimately show ?thesis
    by (simp add: sc_run_def code_defs squeue_push_multiple_def writes_program and_then_assoc split_def)
qed

text \<open>\<open>sq_len\<close> and \<open>enqueue_sqes\<close> keep the positions in local variables.\<close>

lemma sq_len_program:
  "\<exists>s. sc_run msk sq_len_code (sq_sc mem h t out) = Inr s \<and> sub_sq_len mem = ucast (sc_regs s Tail - sc_regs s Head)"
  by (simp add: sc_run_def code_defs sq_sc_def sub_sq_len_def)

lemma reads_program:
  "run_all (replicate n (sc_instr (sub_sq_ring_mask sub) Read)) (sq_sc mem h t out) =
     (if \<forall>i<n. ring_index (sub_sq_ring_mask sub) (h + of_nat i) < length (rm_sqes mem)
      then Inr (sq_sc mem (h + of_nat n) t (out @ ring_slice (rm_sqes mem) (sub_sq_ring_mask sub) h n))
      else Inl (UndefinedBehavior UB_out_of_bounds))
   \<and> snapshot_sqes sub n h mem =
     (if \<forall>i<n. ring_index (sub_sq_ring_mask sub) (h + of_nat i) < length (rm_sqes mem)
      then Inr (map (sem_sqe (sub_sqe_marker sub)) (ring_slice (rm_sqes mem) (sub_sq_ring_mask sub) h n), h + of_nat n)
      else Inl (UndefinedBehavior UB_out_of_bounds))"
proof (induction n arbitrary: h out)
  case (Suc n)
  show ?case
    using Suc [of "h + 1"]
    by (auto simp: sq_sc_def read_sqe_def Let_def All_less_Suc2 ring_slice_Suc algebra_simps)
qed simp

lemma enqueue_sqes_program:
  "\<exists>out. sc_run (sub_sq_ring_mask sub) (enqueue_sqes_code k) (sq_sc mem h t []) =
      and_then (enqueue_sqes sub k mem) (\<lambda>(n, mem').
        Inr (sq_sc mem' (st_sq_head (rm_state mem')) (st_sq_tail (rm_state mem')) out))
    \<and> (\<forall>n mem'. enqueue_sqes sub k mem = Inr (n, mem') \<longrightarrow>
        st_pending (rm_state mem') = st_pending (rm_state mem) @
          (if out = [] then [] else [thread_spawn (map (sem_sqe (sub_sqe_marker sub)) out)]))"
proof -
  let ?h = "st_sq_head (rm_state mem)" and ?t = "st_sq_tail (rm_state mem)"
  let ?n = "min k (?t - ?h)"
  have c: "sc_run (sub_sq_ring_mask sub) (enqueue_sqes_code k) (sq_sc mem h t []) =
      (if ?n = 0 then Inr (sq_sc mem ?h ?t [])
       else and_then (run_all (replicate (unat ?n) (sc_instr (sub_sq_ring_mask sub) Read)) (sq_sc mem ?h ?t []))
         (\<lambda>s. Inr (s\<lparr>sc_pos := (sc_pos s)(Head := sc_regs s Head)\<rparr>)))"
    by (simp add: sc_run_def code_defs sq_sc_def Let_def run_all_append)
  show ?thesis
  proof (cases "?n = 0")
    case True
    with c show ?thesis by (intro exI [of _ "[]"]) (simp add: enqueue_sqes_def Let_def)
  next
    case False
    then have "0 < unat ?n" by (simp add: unat_gt_0)
    with c False reads_program [of "unat ?n" sub mem ?h ?t "[]"] show ?thesis
      by (intro exI [of _ "ring_slice (rm_sqes mem) (sub_sq_ring_mask sub) ?h (unat ?n)"])
        (auto simp: enqueue_sqes_def Let_def sq_sc_def simp flip: length_0_conv)
  qed
qed

text \<open>
  \<open>post_cqe\<close>: the entry it writes depends on the slot only through the entry type; both entry types
  overwrite all of it.
\<close>

definition posted_entry :: "('s, 'c) Submitter \<Rightarrow> u64 \<Rightarrow> i32 \<Rightarrow> u32 \<Rightarrow> 'c \<Rightarrow> bool" where
  "posted_entry sub user_data res flags c \<longleftrightarrow> (\<forall>old.
     (let base = cem_write_base (sub_cqe_marker sub)
            \<lparr>cqe_user_data = user_data, cqe_res = res, cqe_flags = flags\<rparr> old
      in (if sub_cqe_stride sub > repr_c_size io_uring_cqe_fields
          then cem_zero_extra (sub_cqe_marker sub) base else Inr base) = Inr c))"

lemma post_cqe_program:
  assumes "posted_entry sub u res fl c"
  shows "sc_run (sub_cq_ring_mask sub) (post_cqe_code (sub_cq_ring_entries sub) c) (cq_sc mem h t out) =
    and_then (post_cqe sub u res fl mem) (\<lambda>mem'.
      Inr (cq_sc mem' (st_cq_head (rm_state mem')) (st_cq_tail (rm_state mem')) out))"
proof -
  have c: "(if sub_cqe_stride sub > repr_c_size io_uring_cqe_fields
      then cem_zero_extra (sub_cqe_marker sub) (cem_write_base (sub_cqe_marker sub)
        \<lparr>cqe_user_data = u, cqe_res = res, cqe_flags = fl\<rparr> old)
      else Inr (cem_write_base (sub_cqe_marker sub) \<lparr>cqe_user_data = u, cqe_res = res, cqe_flags = fl\<rparr> old)) = Inr c" for old
    using assms by (simp add: posted_entry_def Let_def)
  show ?thesis
    unfolding post_cqe_def Let_def c by (simp add: sc_run_def code_defs cq_sc_def Let_def)
qed

lemma cqueue_sync_program:
  "sc_run msk cqueue_sync_code (cq_sc_of cq mem out) =
     Inr (case cqueue_sync cq mem of (cq', mem') \<Rightarrow> cq_sc_of cq' mem' out)"
  by (simp add: sc_run_def code_defs cq_sc_def cqueue_sync_def Let_def)

lemma cqueue_drop_program:
  "sc_run msk cqueue_drop_code (cq_sc_of cq mem out) = Inr (cq_sc_of cq (cqueue_drop cq mem) out)"
  by (simp add: sc_run_def code_defs cq_sc_def cqueue_drop_def)

lemma cqueue_borrow_program:
  "sc_run msk cqueue_borrow_code (cq_sc_of cq mem out) = Inr (cq_sc_of (cqueue_borrow inner mem) mem out)"
  by (simp add: sc_run_def code_defs cq_sc_def cqueue_borrow_def cqueue_borrow_shared_def unsync_load_def)

lemma pop_program:
  "sc_instr (cqi_ring_mask (cq_queue cq)) Read (cq_sc_of cq mem out) =
     and_then (cqueue_pop cq mem) (\<lambda>(e, cq'). Inr (cq_sc_of cq' mem (out @ [e])))"
  by (simp add: cq_sc_def cqueue_pop_def Let_def)

lemma cqueue_next_program:
  "sc_run (cqi_ring_mask (cq_queue cq)) cqueue_next_code (cq_sc_of cq mem out) =
     and_then (cqueue_next cq mem) (\<lambda>(e, cq'). Inr (cq_sc_of cq' mem (out @ (case e of None \<Rightarrow> [] | Some e \<Rightarrow> [e]))))"
proof -
  have "sc_regs (cq_sc_of cq mem out) = positions (cq_head cq) (cq_tail cq)" by (simp add: cq_sc_def)
  then show ?thesis
    using pop_program [of cq mem out]
    by (simp add: sc_run_def code_defs cqueue_next_def and_then_assoc split_def del: sc_instr.simps(4))
qed

lemma pops_program:
  "run_all (replicate n (sc_instr (cqi_ring_mask (cq_queue cq)) Read)) (cq_sc_of cq mem out) =
     and_then (cqueue_pop_each n cq mem) (\<lambda>(es, cq'). Inr (cq_sc_of cq' mem (out @ es)))"
proof (induction n arbitrary: cq out)
  case (Suc n)
  let ?i = "ring_index (cqi_ring_mask (cq_queue cq)) (cq_head cq)"
  show ?case
    using Suc [of "cq\<lparr>cq_head := cq_head cq + 1\<rparr>" "out @ [rm_cqes mem ! ?i]"] pop_program [of cq mem out]
    by (simp add: cqueue_pop_def Let_def and_then_assoc split_def del: sc_instr.simps)
qed simp

lemma cqueue_fill_program:
  "sc_run (cqi_ring_mask (cq_queue cq)) (cqueue_fill_code n) (cq_sc_of cq mem []) =
     and_then (cqueue_fill n cq mem) (\<lambda>(es, cq'). Inr (cq_sc_of cq' mem es))"
proof -
  have "sc_regs (cq_sc_of cq mem []) = positions (cq_head cq) (cq_tail cq)" by (simp add: cq_sc_def)
  moreover have "unat (cqueue_len cq) = unat (cq_tail cq - cq_head cq)" by (simp add: cqueue_len_def)
  ultimately show ?thesis
    by (simp add: sc_run_def code_defs cqueue_fill_def pops_program map_replicate_const comp_def
        del: sc_instr.simps(4) unat_ucast_u32)
qed

section \<open>The properties\<close>

text \<open>C24: the access-level programs are the operations of the source: run without interference, the
  programs of \<open>borrow\<close>, \<open>sync\<close>, \<open>push\<close>, \<open>push_multiple\<close>, \<open>drop\<close> and \<open>enqueue_sqes\<close> do to the positions, the
  slots and the handle exactly what the modelled operations do, undefined behaviour included, and take
  the entries that the spawned thread gets; those of \<open>post_cqe\<close>, \<open>next\<close>, \<open>fill\<close>, \<open>sync\<close>, \<open>drop\<close> and
  \<open>borrow\<close> on the completion ring likewise.\<close>

theorem weak_programs_are_the_operations:
  assumes "squeue_len sq \<le> squeue_capacity sq" "posted_entry sub u res fl c"
  shows "sc_run (sqi_ring_mask (sq_queue sq)) squeue_borrow_code (sq_sc_of sq mem) = Inr (sq_sc_of (squeue_borrow (sq_queue sq) mem) mem)
    \<and> sc_run (sqi_ring_mask (sq_queue sq)) squeue_sync_code (sq_sc_of sq mem)
        = Inr (case squeue_sync sq mem of (sq', mem') \<Rightarrow> sq_sc_of sq' mem')
    \<and> sc_run (sqi_ring_mask (sq_queue sq)) squeue_drop_code (sq_sc_of sq mem) = Inr (sq_sc_of sq (squeue_drop sq mem))
    \<and> sc_run (sqi_ring_mask (sq_queue sq)) (squeue_push_code (sqi_ring_entries (sq_queue sq)) e) (sq_sc_of sq mem)
        = and_then (squeue_push e sq mem) (\<lambda>(r, sq', mem'). Inr (sq_sc_of sq' mem'))
    \<and> sc_run (sqi_ring_mask (sq_queue sq)) (squeue_push_multiple_code (sqi_ring_entries (sq_queue sq)) es) (sq_sc_of sq mem)
        = and_then (squeue_push_multiple es sq mem) (\<lambda>(r, sq', mem'). Inr (sq_sc_of sq' mem'))
    \<and> (\<exists>out. sc_run (sub_sq_ring_mask sub) (enqueue_sqes_code k) (sq_sc mem h t [])
          = and_then (enqueue_sqes sub k mem) (\<lambda>(n, mem').
              Inr (sq_sc mem' (st_sq_head (rm_state mem')) (st_sq_tail (rm_state mem')) out))
        \<and> (\<forall>n mem'. enqueue_sqes sub k mem = Inr (n, mem') \<longrightarrow>
              st_pending (rm_state mem') = st_pending (rm_state mem) @
                (if out = [] then [] else [thread_spawn (map (sem_sqe (sub_sqe_marker sub)) out)])))
    \<and> sc_run (sub_cq_ring_mask sub) (post_cqe_code (sub_cq_ring_entries sub) c) (cq_sc mem h t [])
        = and_then (post_cqe sub u res fl mem) (\<lambda>mem'.
            Inr (cq_sc mem' (st_cq_head (rm_state mem')) (st_cq_tail (rm_state mem')) []))
    \<and> sc_run (cqi_ring_mask (cq_queue cq)) cqueue_borrow_code (cq_sc_of cq mem []) = Inr (cq_sc_of (cqueue_borrow (cq_queue cq) mem) mem [])
    \<and> sc_run (cqi_ring_mask (cq_queue cq)) cqueue_sync_code (cq_sc_of cq mem [])
        = Inr (case cqueue_sync cq mem of (cq', mem') \<Rightarrow> cq_sc_of cq' mem' [])
    \<and> sc_run (cqi_ring_mask (cq_queue cq)) cqueue_drop_code (cq_sc_of cq mem []) = Inr (cq_sc_of cq (cqueue_drop cq mem) [])
    \<and> sc_run (cqi_ring_mask (cq_queue cq)) cqueue_next_code (cq_sc_of cq mem []) = and_then (cqueue_next cq mem)
        (\<lambda>(e, cq'). Inr (cq_sc_of cq' mem (case e of None \<Rightarrow> [] | Some e \<Rightarrow> [e])))
    \<and> sc_run (cqi_ring_mask (cq_queue cq)) (cqueue_fill_code n) (cq_sc_of cq mem [])
        = and_then (cqueue_fill n cq mem) (\<lambda>(es, cq'). Inr (cq_sc_of cq' mem es))"
  by (intro conjI squeue_borrow_program squeue_sync_program squeue_drop_program squeue_push_program
      squeue_push_multiple_program [OF assms(1)] enqueue_sqes_program post_cqe_program [OF assms(2)]
      cqueue_borrow_program cqueue_sync_program cqueue_drop_program
      cqueue_next_program [of cq mem "[]", unfolded append_Nil] cqueue_fill_program)

theorem weak_programs_are_the_operations_witness:
  "sc_run 3 (squeue_push_code 4 (nop_entry 14)) (sq_sc_of (IoUring_submission example_ring) example_mem)
     = and_then (squeue_push (nop_entry 14) (IoUring_submission example_ring) example_mem)
         (\<lambda>(r, sq', mem'). Inr (sq_sc_of sq' mem'))
   \<and> sc_run 3 (post_cqe_code 4 (cq_Entry \<lparr>cqe_user_data = 7, cqe_res = 0, cqe_flags = 0\<rparr>)) (cq_sc example_mem 0 0 [])
     = and_then (post_cqe example_sub 7 0 0 example_mem) (\<lambda>mem'.
         Inr (cq_sc mem' (st_cq_head (rm_state mem')) (st_cq_tail (rm_state mem')) []))"
proof -
  have l: "squeue_len (IoUring_submission example_ring) \<le> squeue_capacity (IoUring_submission example_ring)"
    by (simp add: squeue_len_def squeue_capacity_def IoUring_submission_def squeue_borrow_def
        squeue_borrow_shared_def unsync_load_def example_defs)
  have c: "posted_entry example_sub 7 0 0 (cq_Entry \<lparr>cqe_user_data = 7, cqe_res = 0, cqe_flags = 0\<rparr>)"
    by (simp add: posted_entry_def example_defs cq_Entry_marker_def cqe_size)
  have q: "sq_queue (IoUring_submission example_ring) = \<lparr>sqi_ring_mask = 3, sqi_ring_entries = 4\<rparr>"
    "sub_cq_ring_mask example_sub = 3" "sub_cq_ring_entries example_sub = 4"
    by (simp_all add: IoUring_submission_def squeue_borrow_def squeue_borrow_shared_def example_defs)
  show ?thesis
    using weak_programs_are_the_operations [OF l c, of example_mem "nop_entry 14"] unfolding q by simp
qed

text \<open>C9: the submission ring is safe under release/acquire memory.  A handle on one thread borrows,
  pushes, syncs and drops while the submitter on another takes entries, their accesses interleaved in any
  way and their loads returning any value that coherence and the orderings of the source allow: no
  access to a slot is a data race or outside the array, the entries taken are those written, in order
  and each once, never more of them are in flight than there are slots, and a submitter that has caught
  up with the handle's tail has taken everything.\<close>

theorem submissions_survive_weak_memory:
  assumes "ring_geom entries msk (length slots)" "(weak_step msk (sq_ops entries))\<^sup>*\<^sup>* (weak_start slots) s"
  shows "(\<forall>a i code k. wk_code s a = i # code \<and> may_load a k i s \<longrightarrow>
        (\<exists>s'. run_instr msk a k i (s\<lparr>wk_code := (wk_code s)(a := code)\<rparr>) = Inr s'))
    \<and> prefix (wk_got s) (wk_put s) \<and> length (wk_put s) \<le> length (wk_got s) + length slots
    \<and> (wk_regs s Consumer Head = wk_regs s Producer Tail \<longrightarrow> wk_got s = wk_put s)"
  using sqw.weak_memory_safe [OF assms(2,1)] by blast

text \<open>C17: and so is the completion ring, with the submitter posting and a handle on another thread
  taking completions.\<close>

theorem completions_survive_weak_memory:
  assumes "ring_geom entries msk (length slots)" "(weak_step msk (cq_ops entries))\<^sup>*\<^sup>* (weak_start slots) s"
  shows "(\<forall>a i code k. wk_code s a = i # code \<and> may_load a k i s \<longrightarrow>
        (\<exists>s'. run_instr msk a k i (s\<lparr>wk_code := (wk_code s)(a := code)\<rparr>) = Inr s'))
    \<and> prefix (wk_got s) (wk_put s) \<and> length (wk_put s) \<le> length (wk_got s) + length slots
    \<and> (wk_regs s Consumer Head = wk_regs s Producer Tail \<longrightarrow> wk_got s = wk_put s)"
  using cqw.weak_memory_safe [OF assms(2,1)] by blast

subsection \<open>Two schedules\<close>

text \<open>Schedules, and that every one that is carried out is a run.\<close>

datatype 'e action = Call agent "'e instr list" | Do agent nat

fun follows :: "u32 \<Rightarrow> (agent \<Rightarrow> 'e weak \<Rightarrow> 'e instr list set) \<Rightarrow> 'e action list \<Rightarrow> ('e weak \<Rightarrow> bool) \<Rightarrow> 'e weak \<Rightarrow> bool" where
  "follows msk ops [] Q s \<longleftrightarrow> Q s"
| "follows msk ops (Call a code # acts) Q s \<longleftrightarrow> wk_code s a = [] \<and> code \<in> ops a s
     \<and> follows msk ops acts Q (s\<lparr>wk_code := (wk_code s)(a := code)\<rparr>)"
| "follows msk ops (Do a k # acts) Q s \<longleftrightarrow> (case wk_code s a of [] \<Rightarrow> False | i # code \<Rightarrow> may_load a k i s
     \<and> (case run_instr msk a k i (s\<lparr>wk_code := (wk_code s)(a := code)\<rparr>) of
          Inl _ \<Rightarrow> False | Inr s' \<Rightarrow> follows msk ops acts Q s'))"

lemma follows_reaches: "follows msk ops acts Q s \<Longrightarrow> \<exists>s'. (weak_step msk ops)\<^sup>*\<^sup>* s s' \<and> Q s'"
proof (induction msk ops acts Q s rule: follows.induct)
  case (2 msk ops a code acts Q s)
  then show ?case using weak_step.call [of s a code ops msk] by (auto intro: converse_rtranclp_into_rtranclp)
next
  case (3 msk ops a k acts Q s)
  then obtain i code s' where c: "wk_code s a = i # code" "may_load a k i s"
    "run_instr msk a k i (s\<lparr>wk_code := (wk_code s)(a := code)\<rparr>) = Inr s'" "follows msk ops acts Q s'"
    by (auto split: list.splits sum.splits)
  then obtain s2 where "(weak_step msk ops)\<^sup>*\<^sup>* s' s2" "Q s2" using "3.IH" by blast
  with weak_step.instr [OF c(1-3), of ops] show ?case by (blast intro: converse_rtranclp_into_rtranclp)
qed auto

lemmas weak_eval = weak_start_def bot_view_def join_view_def load_at_def store_at_def write_at_def read_at_def
  tick_def happened_def Let_def code_defs sq_ops_def cq_ops_def published_def own_def acquires_def releases_def
  ring_index_def min_def

text \<open>
  The handle pushes and publishes one entry, pushes a second; the submitter, which may still see the
  old tail, loads the new one and takes the first.
\<close>

theorem submissions_survive_weak_memory_witness:
  "\<exists>s. (weak_step 3 (sq_ops 4))\<^sup>*\<^sup>* (weak_start [0, 0, 0, 0]) s
     \<and> wk_put s = [5, 6 :: nat] \<and> wk_got s = [5] \<and> prefix (wk_got s) (wk_put s)"
proof -
  have "follows 3 (sq_ops 4) [Call Producer (squeue_push_code 4 5), Do Producer 0, Do Producer 0,
      Call Producer squeue_drop_code, Do Producer 0, Call Producer (squeue_push_code 4 6), Do Producer 0,
      Do Producer 0, Call Consumer (enqueue_sqes_code 1), Do Consumer 0, Do Consumer 1, Do Consumer 0, Do Consumer 0]
      (\<lambda>s. wk_put s = [5, 6] \<and> wk_got s = [5]) (weak_start [0, 0, 0, 0 :: nat])"
    by (simp add: weak_eval)
  from follows_reaches [OF this] obtain s where s: "(weak_step 3 (sq_ops 4))\<^sup>*\<^sup>* (weak_start [0, 0, 0, 0]) s"
    "wk_put s = [5, 6 :: nat]" "wk_got s = [5]"
    by blast
  have "ring_geom 4 3 (length [0, 0, 0, 0 :: nat])" by simp
  from submissions_survive_weak_memory [OF this s(1)] s show ?thesis by blast
qed

theorem completions_survive_weak_memory_witness:
  "\<exists>s. (weak_step 3 (cq_ops 4))\<^sup>*\<^sup>* (weak_start [0, 0, 0, 0]) s
     \<and> wk_put s = [5, 6 :: nat] \<and> wk_got s = [5] \<and> prefix (wk_got s) (wk_put s)"
proof -
  have "follows 3 (cq_ops 4) [Call Producer (post_cqe_code 4 5), Do Producer 0, Do Producer 0, Do Producer 0,
      Do Producer 0, Do Producer 0, Call Consumer cqueue_borrow_code, Do Consumer 0, Do Consumer 1,
      Call Producer (post_cqe_code 4 6), Do Producer 1, Do Producer 0, Do Producer 0, Do Producer 0,
      Call Consumer cqueue_next_code, Do Consumer 0, Do Consumer 0]
      (\<lambda>s. wk_put s = [5, 6] \<and> wk_got s = [5]) (weak_start [0, 0, 0, 0 :: nat])"
    by (simp add: weak_eval word_le_nat_alt)
  from follows_reaches [OF this] obtain s where s: "(weak_step 3 (cq_ops 4))\<^sup>*\<^sup>* (weak_start [0, 0, 0, 0]) s"
    "wk_put s = [5, 6 :: nat]" "wk_got s = [5]"
    by blast
  have "ring_geom 4 3 (length [0, 0, 0, 0 :: nat])" by simp
  from completions_survive_weak_memory [OF this s(1)] s show ?thesis by blast
qed

end
