(* ===== verification/Miring_Weak_Counters.thy ===== *)
theory Miring_Weak_Counters
  imports Miring_Weak_Programs
begin

text \<open>
  The atomics of \<open>RingState\<close> beside the four positions, under weak memory: the overflow counter and the
  flag word of the submission ring, which \<open>post_cqe\<close> changes by relaxed read-modify-write operations when
  the completion ring is full, and the flag word of the completion ring and the counter of dropped entries,
  which nothing changes.  Handles on any thread read them, some with acquire, some relaxed, one behind a
  sequentially consistent fence.

  The memory model is that of \<open>Miring_Weak_Memory\<close>, for these locations: every location has its history of
  messages, and a load returns any message not older than what the agent knows of the location.  A
  read-modify-write takes the newest message and puts its own right behind it; its message carries on the
  view of the one it replaces, to which a release adds the agent's view.  A sequentially consistent fence
  exchanges views with all earlier ones.

  The result: for any number of posting and reading threads no overflow is lost, what a thread reads of the
  counter never goes back and never exceeds the number of overflows, the flag comes with the first overflow and stays, and
  the flags and counters that the emulator never sets read as zero.
\<close>

section \<open>Memory\<close>

datatype atom = Overflow | Sq_flags | Cq_flags | Dropped

datatype rmw = Fetch_add u32 | Fetch_or u32

fun rmw_val :: "rmw \<Rightarrow> u32 \<Rightarrow> u32" where
  "rmw_val (Fetch_add n) v = v + n"
| "rmw_val (Fetch_or f) v = v OR f"

text \<open>\<open>Get\<close> and \<open>Rmw\<close> leave the value they read in the agent's register; \<open>Branch\<close> looks at it.\<close>

datatype cinstr = Get atom Ordering | Rmw atom rmw Ordering | Fence | Branch "u32 \<Rightarrow> cinstr list"

type_synonym seen = "atom \<Rightarrow> nat"

text \<open>A message is a value with its view; \<open>ct_drops\<close> counts the overflows, \<open>ct_reads\<close> lists what an agent
  has loaded: the location, which message, its value.\<close>

record 'a counters =
  ct_msgs :: "atom \<Rightarrow> (u32 \<times> seen) list"
  ct_view :: "'a \<Rightarrow> seen"
  ct_fenced :: seen
  ct_reg :: "'a \<Rightarrow> u32"
  ct_code :: "'a \<Rightarrow> cinstr list"
  ct_drops :: nat
  ct_reads :: "'a \<Rightarrow> (atom \<times> nat \<times> u32) list"

definition join_seen :: "seen \<Rightarrow> seen \<Rightarrow> seen" where
  "join_seen v w = (\<lambda>x. max (v x) (w x))"

definition get_at :: "'a \<Rightarrow> atom \<Rightarrow> Ordering \<Rightarrow> nat \<Rightarrow> 'a counters \<Rightarrow> 'a counters" where
  "get_at a x o' k s = (let m = ct_msgs s x ! k; v = (ct_view s a)(x := k) in
     s\<lparr>ct_view := (ct_view s)(a := if acquires o' then join_seen v (snd m) else v),
       ct_reg := (ct_reg s)(a := fst m), ct_reads := (ct_reads s)(a := ct_reads s a @ [(x, k, fst m)])\<rparr>)"

definition rmw_at :: "'a \<Rightarrow> atom \<Rightarrow> rmw \<Rightarrow> Ordering \<Rightarrow> 'a counters \<Rightarrow> 'a counters" where
  "rmw_at a x f o' s = (let m = last (ct_msgs s x); k = length (ct_msgs s x);
       v = (if acquires o' then join_seen ((ct_view s a)(x := k)) (snd m) else (ct_view s a)(x := k));
       m' = (rmw_val f (fst m), join_seen (snd m) (if releases o' then v else (\<lambda>_. 0)(x := k))) in
     s\<lparr>ct_msgs := (ct_msgs s)(x := ct_msgs s x @ [m']), ct_view := (ct_view s)(a := v),
       ct_reg := (ct_reg s)(a := fst m), ct_drops := ct_drops s + (if x = Overflow then 1 else 0)\<rparr>)"

definition fence_at :: "'a \<Rightarrow> 'a counters \<Rightarrow> 'a counters" where
  "fence_at a s = (let v = join_seen (ct_view s a) (ct_fenced s) in
     s\<lparr>ct_view := (ct_view s)(a := v), ct_fenced := v\<rparr>)"

fun run_cinstr :: "'a \<Rightarrow> nat \<Rightarrow> cinstr \<Rightarrow> 'a counters \<Rightarrow> 'a counters" where
  "run_cinstr a k (Get x o') s = get_at a x o' k s"
| "run_cinstr a k (Rmw x f o') s = rmw_at a x f o' s"
| "run_cinstr a k Fence s = fence_at a s"
| "run_cinstr a k (Branch f) s = s\<lparr>ct_code := (ct_code s)(a := f (ct_reg s a) @ ct_code s a)\<rparr>"

fun may_get :: "'a \<Rightarrow> nat \<Rightarrow> cinstr \<Rightarrow> 'a counters \<Rightarrow> bool" where
  "may_get a k (Get x o') s \<longleftrightarrow> ct_view s a x \<le> k \<and> k < length (ct_msgs s x)"
| "may_get a k i s \<longleftrightarrow> True"

inductive counter_step :: "cinstr list set \<Rightarrow> 'a counters \<Rightarrow> 'a counters \<Rightarrow> bool"
  for ops :: "cinstr list set"
where
  call: "ct_code s a = [] \<Longrightarrow> code \<in> ops \<Longrightarrow> counter_step ops s (s\<lparr>ct_code := (ct_code s)(a := code)\<rparr>)"
| instr: "ct_code s a = i # code \<Longrightarrow> may_get a k i s \<Longrightarrow>
     counter_step ops s (run_cinstr a k i (s\<lparr>ct_code := (ct_code s)(a := code)\<rparr>))"

inductive_cases counter_stepE: "counter_step ops s s'"

text \<open>\<open>Builder::build\<close> makes all of them zero.\<close>

definition counters_start :: "'a counters" where
  "counters_start = \<lparr>ct_msgs = (\<lambda>_. [(0, \<lambda>_. 0)]), ct_view = (\<lambda>_ _. 0), ct_fenced = (\<lambda>_. 0), ct_reg = (\<lambda>_. 0),
     ct_code = (\<lambda>_. []), ct_drops = 0, ct_reads = (\<lambda>_. [])\<rparr>"

section \<open>The programs of the source\<close>

text \<open>\<^verbatim>\<open>submit.rs\<close>: the branch of \<open>post_cqe\<close> for a full ring, \<open>sq_need_wakeup\<close>, \<open>sq_cq_overflow\<close>\<close>

definition post_overflow_code :: "cinstr list" where
  "post_overflow_code = [Rmw Overflow (Fetch_add 1) Relaxed,
     Branch (\<lambda>prev. if prev = 0 then [Rmw Sq_flags (Fetch_or IORING_SQ_CQ_OVERFLOW) Relaxed] else [])]"

definition sq_need_wakeup_code :: "cinstr list" where
  "sq_need_wakeup_code = [Get Sq_flags Relaxed]"

definition sq_cq_overflow_code :: "cinstr list" where
  "sq_cq_overflow_code = [Get Sq_flags Relaxed]"

text \<open>\<^verbatim>\<open>squeue.rs\<close>: \<open>need_wakeup\<close>, \<open>need_wakeup_after_intermittent_seqcst\<close>, \<open>dropped\<close>, \<open>cq_overflow\<close>, \<open>taskrun\<close>\<close>

definition need_wakeup_code :: "cinstr list" where
  "need_wakeup_code = [Fence, Get Sq_flags Relaxed]"

definition need_wakeup_after_code :: "cinstr list" where
  "need_wakeup_after_code = [Get Sq_flags Relaxed]"

definition dropped_code :: "cinstr list" where
  "dropped_code = [Get Dropped Acquire]"

definition cq_overflow_code :: "cinstr list" where
  "cq_overflow_code = [Get Sq_flags Acquire]"

definition taskrun_code :: "cinstr list" where
  "taskrun_code = [Get Sq_flags Acquire]"

text \<open>\<^verbatim>\<open>cqueue.rs\<close>: \<open>overflow\<close>, \<open>eventfd_disabled\<close>\<close>

definition overflow_code :: "cinstr list" where
  "overflow_code = [Get Overflow Acquire]"

definition eventfd_disabled_code :: "cinstr list" where
  "eventfd_disabled_code = [Get Cq_flags Acquire]"

lemmas reader_code_defs = sq_need_wakeup_code_def sq_cq_overflow_code_def need_wakeup_code_def
  need_wakeup_after_code_def dropped_code_def cq_overflow_code_def taskrun_code_def overflow_code_def
  eventfd_disabled_code_def

definition counter_ops :: "cinstr list set" where
  "counter_ops = {post_overflow_code, sq_need_wakeup_code, sq_cq_overflow_code, need_wakeup_code,
     need_wakeup_after_code, dropped_code, cq_overflow_code, taskrun_code, overflow_code, eventfd_disabled_code}"

section \<open>The invariant\<close>

text \<open>Pieces of programs that read, and the points of the overflow branch.\<close>

fun reads_only :: "cinstr list \<Rightarrow> bool" where
  "reads_only [] \<longleftrightarrow> True"
| "reads_only (Get x o' # code) \<longleftrightarrow> reads_only code"
| "reads_only (Fence # code) \<longleftrightarrow> reads_only code"
| "reads_only _ \<longleftrightarrow> False"

abbreviation set_flag :: cinstr where
  "set_flag \<equiv> Rmw Sq_flags (Fetch_or IORING_SQ_CQ_OVERFLOW) Relaxed"

definition code_point :: "cinstr list \<Rightarrow> bool" where
  "code_point code \<longleftrightarrow> reads_only code \<or> code = post_overflow_code \<or> code = tl post_overflow_code \<or> code = [set_flag]"

definition values_ok :: "'a counters \<Rightarrow> bool" where
  "values_ok s \<longleftrightarrow> map fst (ct_msgs s Overflow) = map of_nat [0..<Suc (ct_drops s)]
     \<and> (\<exists>n. map fst (ct_msgs s Sq_flags) = 0 # replicate n IORING_SQ_CQ_OVERFLOW)
     \<and> map fst (ct_msgs s Cq_flags) = [0] \<and> map fst (ct_msgs s Dropped) = [0]"

definition views_ok :: "'a counters \<Rightarrow> bool" where
  "views_ok s \<longleftrightarrow> (\<forall>x. (\<forall>a. ct_view s a x < length (ct_msgs s x)) \<and> ct_fenced s x < length (ct_msgs s x)
     \<and> (\<forall>y. \<forall>m \<in> set (ct_msgs s y). snd m x < length (ct_msgs s x)))"

definition reads_of :: "atom \<Rightarrow> (atom \<times> nat \<times> u32) list \<Rightarrow> (nat \<times> u32) list" where
  "reads_of x rs = map snd (filter (\<lambda>r. fst r = x) rs)"

definition reads_ok :: "'a counters \<Rightarrow> bool" where
  "reads_ok s \<longleftrightarrow> (\<forall>a x. sorted (map fst (reads_of x (ct_reads s a)))
     \<and> (\<forall>(k, v) \<in> set (reads_of x (ct_reads s a)). k \<le> ct_view s a x \<and> v = fst (ct_msgs s x ! k)))"

text \<open>Behind the first overflow the flag is set, or an agent is about to set it.\<close>

definition flag_due :: "'a counters \<Rightarrow> bool" where
  "flag_due s \<longleftrightarrow> (0 < ct_drops s \<longrightarrow> 1 < length (ct_msgs s Sq_flags)
     \<or> (\<exists>a. ct_code s a = [set_flag] \<or> ct_code s a = tl post_overflow_code \<and> ct_reg s a = 0))"

text \<open>Before the first overflow nobody sets the flag.\<close>

definition flag_just :: "'a counters \<Rightarrow> bool" where
  "flag_just s \<longleftrightarrow> (ct_drops s = 0 \<longrightarrow> length (ct_msgs s Sq_flags) = 1
     \<and> (\<forall>a. ct_code s a \<noteq> [set_flag] \<and> ct_code s a \<noteq> tl post_overflow_code))"

definition counters_inv :: "'a counters \<Rightarrow> bool" where
  "counters_inv s \<longleftrightarrow> values_ok s \<and> views_ok s \<and> reads_ok s \<and> flag_due s \<and> flag_just s
     \<and> (\<forall>a. code_point (ct_code s a))"

subsection \<open>The parts of the invariant\<close>

lemma counters_inv_start: "counters_inv counters_start"
  by (auto simp: counters_inv_def values_ok_def views_ok_def reads_ok_def flag_due_def flag_just_def
      counters_start_def code_point_def post_overflow_code_def reads_of_def intro: exI [of _ 0])

lemma ok_code [simp]:
  "values_ok (s\<lparr>ct_code := c\<rparr>) = values_ok s" "views_ok (s\<lparr>ct_code := c\<rparr>) = views_ok s"
  "reads_ok (s\<lparr>ct_code := c\<rparr>) = reads_ok s"
  by (simp_all add: values_ok_def views_ok_def reads_ok_def)

lemma ct_code_at [simp]:
  "ct_code (get_at a x o' k s) = ct_code s" "ct_code (rmw_at a x f o' s) = ct_code s" "ct_code (fence_at a s) = ct_code s"
  by (simp_all add: get_at_def rmw_at_def fence_at_def Let_def)

lemma ct_msgs_at [simp]:
  "ct_msgs (get_at a x o' k s) = ct_msgs s" "ct_msgs (fence_at a s) = ct_msgs s"
  "y \<noteq> x \<Longrightarrow> ct_msgs (rmw_at a x f o' s) y = ct_msgs s y"
  by (simp_all add: get_at_def rmw_at_def fence_at_def Let_def)

lemma ct_drops_at [simp]:
  "ct_drops (get_at a x o' k s) = ct_drops s" "ct_drops (fence_at a s) = ct_drops s"
  "ct_drops (rmw_at a x f o' s) = ct_drops s + (if x = Overflow then 1 else 0)"
  by (simp_all add: get_at_def rmw_at_def fence_at_def Let_def)

lemma values_ok_loads [simp]: "values_ok (get_at a x o' k s) = values_ok s" "values_ok (fence_at a s) = values_ok s"
  by (simp_all add: values_ok_def get_at_def fence_at_def Let_def)

lemma reads_of_snoc [simp]: "reads_of x (rs @ [(y, r)]) = reads_of x rs @ (if y = x then [r] else [])"
  by (simp add: reads_of_def)

lemma views_okD:
  assumes "views_ok s"
  shows "ct_view s a x < length (ct_msgs s x)" "ct_fenced s x < length (ct_msgs s x)"
    "m \<in> set (ct_msgs s y) \<Longrightarrow> snd m x < length (ct_msgs s x)"
  using assms by (simp_all add: views_ok_def)

lemma reads_okD:
  assumes "reads_ok s"
  shows "sorted (map fst (reads_of x (ct_reads s a)))"
    "(k, v) \<in> set (reads_of x (ct_reads s a)) \<Longrightarrow> k \<le> ct_view s a x"
    "(k, v) \<in> set (reads_of x (ct_reads s a)) \<Longrightarrow> v = fst (ct_msgs s x ! k)"
  using assms by (fastforce simp: reads_ok_def)+

lemma reads_okI:
  assumes "\<And>a x. sorted (map fst (reads_of x (ct_reads s a)))"
    "\<And>a x k v. (k, v) \<in> set (reads_of x (ct_reads s a)) \<Longrightarrow> k \<le> ct_view s a x \<and> v = fst (ct_msgs s x ! k)"
  shows "reads_ok s"
  using assms by (auto simp: reads_ok_def)

lemma views_ok_get:
  assumes "views_ok s" "k < length (ct_msgs s x)"
  shows "views_ok (get_at a x o' k s)"
  using views_okD [OF assms(1)] assms(2) views_okD(3) [OF assms(1) nth_mem [OF assms(2)]]
  by (auto simp: views_ok_def get_at_def join_seen_def Let_def)

lemma view_grows: "ct_view s a x \<le> k \<Longrightarrow> ct_view s b y \<le> ct_view (get_at a x o' k s) b y"
  by (auto simp: get_at_def join_seen_def Let_def)

lemma reads_ok_get:
  assumes r: "reads_ok s" and k: "ct_view s a x \<le> k"
  shows "reads_ok (get_at a x o' k s)"
proof (rule reads_okI)
  fix b y
  have "j \<le> k" if "j \<in> fst ` set (reads_of x (ct_reads s a))" for j
    using that reads_okD(2) [OF r] k by fastforce
  then show "sorted (map fst (reads_of y (ct_reads (get_at a x o' k s) b)))"
    using reads_okD(1) [OF r] by (auto simp: get_at_def Let_def sorted_append)
next
  fix b y j v
  assume "(j, v) \<in> set (reads_of y (ct_reads (get_at a x o' k s) b))"
  then consider "(j, v) \<in> set (reads_of y (ct_reads s b))" | "b = a" "y = x" "j = k" "v = fst (ct_msgs s x ! k)"
    by (auto simp: get_at_def Let_def split: if_splits)
  then show "j \<le> ct_view (get_at a x o' k s) b y \<and> v = fst (ct_msgs (get_at a x o' k s) y ! j)"
  proof cases
    case 1
    with reads_okD(2,3) [OF r] order_trans [OF _ view_grows [OF k]] show ?thesis
      by (fastforce simp: get_at_def Let_def)
  qed (auto simp: get_at_def join_seen_def Let_def)
qed

lemma views_ok_fence: "views_ok s \<Longrightarrow> views_ok (fence_at a s)"
  by (auto simp: views_ok_def fence_at_def join_seen_def Let_def)

lemma reads_ok_fence:
  assumes "reads_ok s"
  shows "reads_ok (fence_at a s)"
proof (rule reads_okI)
  fix b x k v
  assume "(k, v) \<in> set (reads_of x (ct_reads (fence_at a s) b))"
  then have "(k, v) \<in> set (reads_of x (ct_reads s b))" by (simp add: fence_at_def Let_def)
  from reads_okD(2,3) [OF assms this] show "k \<le> ct_view (fence_at a s) b x \<and> v = fst (ct_msgs (fence_at a s) x ! k)"
    by (auto simp: fence_at_def join_seen_def Let_def le_max_iff_disj)
qed (use reads_okD(1) [OF assms] in \<open>simp add: fence_at_def Let_def\<close>)

lemma views_ok_rmw:
  assumes "views_ok s" "ct_msgs s x \<noteq> []"
  shows "views_ok (rmw_at a x f o' s)"
  using views_okD [OF assms(1)] views_okD(3) [OF assms(1) last_in_set [OF assms(2)]]
  by (fastforce simp: views_ok_def rmw_at_def join_seen_def Let_def less_Suc_eq)

lemma reads_ok_rmw:
  assumes r: "reads_ok s" and v: "views_ok s"
  shows "reads_ok (rmw_at a x f o' s)"
proof (rule reads_okI)
  let ?s = "rmw_at a x f o' s"
  fix b y k w
  assume "(k, w) \<in> set (reads_of y (ct_reads ?s b))"
  then have "(k, w) \<in> set (reads_of y (ct_reads s b))" by (simp add: rmw_at_def Let_def)
  note k = reads_okD(2,3) [OF r this] views_okD(1) [OF v, of b y]
  then have "k < length (ct_msgs s y)" by simp
  then have "ct_msgs ?s y ! k = ct_msgs s y ! k" by (auto simp: rmw_at_def Let_def nth_append)
  moreover have "k \<le> ct_view ?s b y" using k by (auto simp: rmw_at_def join_seen_def Let_def)
  ultimately show "k \<le> ct_view ?s b y \<and> w = fst (ct_msgs ?s y ! k)" using k by simp
qed (use reads_okD(1) [OF r] in \<open>simp add: rmw_at_def Let_def\<close>)

lemma last_value: "map fst ms = vs @ [v] \<Longrightarrow> fst (last ms) = v"
  by (metis last_map last_snoc map_is_Nil_conv snoc_eq_iff_butlast)

lemma values_ok_drop:
  assumes "values_ok s"
  shows "values_ok (rmw_at a Overflow (Fetch_add 1) o' s)" "fst (last (ct_msgs s Overflow)) = of_nat (ct_drops s)"
proof -
  show l: "fst (last (ct_msgs s Overflow)) = of_nat (ct_drops s)"
    using assms by (intro last_value) (simp add: values_ok_def)
  show "values_ok (rmw_at a Overflow (Fetch_add 1) o' s)"
    using assms by (auto simp: values_ok_def rmw_at_def Let_def l add.commute)
qed

lemma values_ok_flag:
  assumes "values_ok s"
  shows "values_ok (rmw_at a Sq_flags (Fetch_or IORING_SQ_CQ_OVERFLOW) o' s)"
proof -
  obtain n where n: "map fst (ct_msgs s Sq_flags) = 0 # replicate n IORING_SQ_CQ_OVERFLOW"
    using assms by (auto simp: values_ok_def)
  then have "fst (last (ct_msgs s Sq_flags)) = last (0 # replicate n IORING_SQ_CQ_OVERFLOW)"
    by (metis last_map list.distinct(1) list.map_disc_iff)
  then have "fst (last (ct_msgs s Sq_flags)) OR IORING_SQ_CQ_OVERFLOW = IORING_SQ_CQ_OVERFLOW"
    by (cases n) simp_all
  with n have "map fst (ct_msgs (rmw_at a Sq_flags (Fetch_or IORING_SQ_CQ_OVERFLOW) o' s) Sq_flags)
      = 0 # replicate (Suc n) IORING_SQ_CQ_OVERFLOW"
    by (simp add: rmw_at_def Let_def replicate_append_same)
  note f = this
  show ?thesis
    unfolding values_ok_def
  proof (intro conjI exI)
    show "map fst (ct_msgs (rmw_at a Sq_flags (Fetch_or IORING_SQ_CQ_OVERFLOW) o' s) Sq_flags)
        = 0 # replicate (Suc n) IORING_SQ_CQ_OVERFLOW" by (rule f)
  qed (use assms in \<open>simp_all add: values_ok_def\<close>)
qed

lemma values_ok_nonempty: "values_ok s \<Longrightarrow> ct_msgs s x \<noteq> []"
  by (cases x) (auto simp: values_ok_def)

subsection \<open>One lemma per instruction\<close>

lemma code_pointE:
  assumes "code_point (i # code)"
  obtains (get) x o' where "i = Get x o'" "reads_only code"
    | (fence) "i = Fence" "reads_only code"
    | (drop) "i = hd post_overflow_code" "code = tl post_overflow_code"
    | (branch) "i # code = tl post_overflow_code"
    | (flag) "i = set_flag" "code = []"
  using assms unfolding code_point_def
  by (cases i) (auto simp: post_overflow_code_def)

text \<open>A step of one agent does not settle what another is about to do.\<close>

lemma flag_due_keep:
  assumes "flag_due s" "\<And>b. b \<noteq> a \<Longrightarrow> ct_code s' b = ct_code s b \<and> ct_reg s' b = ct_reg s b"
    and "length (ct_msgs s Sq_flags) \<le> length (ct_msgs s' Sq_flags)"
    and "0 < ct_drops s' \<Longrightarrow> 0 < ct_drops s" "ct_code s a \<noteq> [set_flag]"
      "ct_code s a = tl post_overflow_code \<Longrightarrow> ct_reg s a \<noteq> 0"
  shows "flag_due s'"
  unfolding flag_due_def
proof
  assume "0 < ct_drops s'"
  with assms(1,4) consider "1 < length (ct_msgs s Sq_flags)"
    | b where "ct_code s b = [set_flag] \<or> ct_code s b = tl post_overflow_code \<and> ct_reg s b = 0"
    by (auto simp: flag_due_def)
  then show "1 < length (ct_msgs s' Sq_flags)
    \<or> (\<exists>a. ct_code s' a = [set_flag] \<or> ct_code s' a = tl post_overflow_code \<and> ct_reg s' a = 0)"
  proof cases
    case (2 b)
    with assms(5,6) have "b \<noteq> a" by auto
    with 2 assms(2) show ?thesis by metis
  qed (use assms(3) in simp)
qed

lemma flag_just_instr:
  assumes j: "flag_just s" and p: "code_point (i # code)" and c: "ct_code s a = i # code"
  shows "flag_just (run_cinstr a k i (s\<lparr>ct_code := (ct_code s)(a := code)\<rparr>))"
  using p
proof (cases rule: code_pointE)
  case (get x o')
  with j show ?thesis by (auto simp: flag_just_def post_overflow_code_def)
next
  case fence
  with j show ?thesis by (auto simp: flag_just_def post_overflow_code_def)
next
  case drop
  then show ?thesis by (simp add: flag_just_def post_overflow_code_def)
next
  case branch
  with j c have "ct_drops s \<noteq> 0" by (auto simp: flag_just_def)
  with branch show ?thesis by (auto simp: flag_just_def post_overflow_code_def)
next
  case flag
  with j c have "ct_drops s \<noteq> 0" by (auto simp: flag_just_def)
  with flag show ?thesis by (simp add: flag_just_def)
qed

lemma counters_inv_instr:
  assumes i: "counters_inv s" and c: "ct_code s a = i # code" and m: "may_get a k i s"
  shows "counters_inv (run_cinstr a k i (s\<lparr>ct_code := (ct_code s)(a := code)\<rparr>))"
proof -
  let ?s = "s\<lparr>ct_code := (ct_code s)(a := code)\<rparr>"
  have v: "values_ok s" "views_ok s" "reads_ok s" and f: "flag_due s" and p: "\<And>b. code_point (ct_code s b)"
    and j: "flag_just s"
    using i by (simp_all add: counters_inv_def)
  have q: "code_point code \<Longrightarrow> \<forall>b. code_point (((ct_code s)(a := code)) b)" using p by simp
  from p [of a] c have "code_point (i # code)" by simp
  note j' = flag_just_instr [OF j this c, of k]
  from \<open>code_point (i # code)\<close> show ?thesis
  proof (cases rule: code_pointE)
    case (get x o')
    have "flag_due (get_at a x o' k ?s)"
      by (rule flag_due_keep [of s a]) (use f c get in \<open>auto simp: get_at_def Let_def post_overflow_code_def\<close>)
    moreover have "views_ok (get_at a x o' k ?s)" "reads_ok (get_at a x o' k ?s)"
      using v m get by (simp_all add: views_ok_get reads_ok_get)
    ultimately show ?thesis using v(1) get q j' by (simp add: counters_inv_def code_point_def)
  next
    case fence
    have "flag_due (fence_at a ?s)"
      by (rule flag_due_keep [of s a]) (use f c fence in \<open>auto simp: fence_at_def Let_def post_overflow_code_def\<close>)
    with v q j' fence show ?thesis by (simp add: counters_inv_def views_ok_fence reads_ok_fence code_point_def)
  next
    case drop
    let ?t = "rmw_at a Overflow (Fetch_add 1) Relaxed ?s"
    have "flag_due ?t"
    proof (cases "ct_drops s = 0")
      case True
      with values_ok_drop(2) [OF v(1)] have "ct_reg ?t a = 0" by (simp add: rmw_at_def Let_def)
      with drop(2) show ?thesis by (auto simp: flag_due_def intro!: exI [of _ a])
    next
      case False
      show ?thesis
        by (rule flag_due_keep [of s a]) (use f c drop False in \<open>auto simp: rmw_at_def Let_def post_overflow_code_def\<close>)
    qed
    moreover have "values_ok ?t" "views_ok ?t" "reads_ok ?t"
      using v by (simp_all add: values_ok_drop views_ok_rmw reads_ok_rmw values_ok_nonempty)
    moreover have "i = Rmw Overflow (Fetch_add 1) Relaxed" "code_point code"
      using drop by (simp_all add: code_point_def) (simp add: post_overflow_code_def)
    ultimately show ?thesis using q j' by (simp add: counters_inv_def)
  next
    case branch
    then obtain g where g: "i = Branch g" "code = []" "g = (\<lambda>prev. if prev = 0 then [set_flag] else [])"
      by (simp add: post_overflow_code_def)
    have "flag_due (run_cinstr a k i ?s)"
    proof (cases "ct_reg s a = 0")
      case True
      with g show ?thesis by (auto simp: flag_due_def intro!: exI [of _ a])
    next
      case False
      show ?thesis
        by (rule flag_due_keep [of s a]) (use f c g False in \<open>auto simp: post_overflow_code_def\<close>)
    qed
    moreover have "code_point (g (ct_reg s a))" by (simp add: g code_point_def)
    ultimately show ?thesis using v p j' g(1,2) by (simp add: counters_inv_def)
  next
    case flag
    let ?t = "rmw_at a Sq_flags (Fetch_or IORING_SQ_CQ_OVERFLOW) Relaxed ?s"
    have "flag_due ?t"
      using values_ok_nonempty [OF v(1), of Sq_flags] by (simp add: flag_due_def rmw_at_def Let_def)
    moreover have "values_ok ?t" "views_ok ?t" "reads_ok ?t"
      using v by (simp_all add: values_ok_flag views_ok_rmw reads_ok_rmw values_ok_nonempty)
    ultimately show ?thesis using flag q j' by (simp add: counters_inv_def code_point_def)
  qed
qed

lemma counter_ops_points: "code \<in> counter_ops \<Longrightarrow> code_point code"
  by (auto simp: counter_ops_def code_point_def reader_code_defs)

lemma counters_inv_step:
  assumes "counter_step counter_ops s s'" "counters_inv s"
  shows "counters_inv s'"
  using assms(1)
proof (cases rule: counter_step.cases)
  case (call a code)
  have "flag_due s'"
    by (rule flag_due_keep [of s a]) (use assms(2) call in \<open>auto simp: counters_inv_def post_overflow_code_def\<close>)
  moreover have "flag_just s'"
    using assms(2) call
    by (auto simp: counters_inv_def flag_just_def counter_ops_def reader_code_defs post_overflow_code_def)
  ultimately show ?thesis using assms(2) call counter_ops_points [OF call(3)] by (simp add: counters_inv_def)
qed (simp add: counters_inv_instr assms(2))

lemma counters_reachable:
  "(counter_step counter_ops)\<^sup>*\<^sup>* s s' \<Longrightarrow> counters_inv s \<Longrightarrow> counters_inv s'"
  by (induction rule: rtranclp_induct) (auto intro: counters_inv_step)

section \<open>The properties\<close>

text \<open>What an agent has read of a location, in order.\<close>

definition answers :: "'a \<Rightarrow> atom \<Rightarrow> 'a counters \<Rightarrow> u32 list" where
  "answers a x s = map snd (reads_of x (ct_reads s a))"

lemma answers_nth:
  assumes "counters_inv s"
  obtains ks where "answers a x s = map (\<lambda>k. map fst (ct_msgs s x) ! k) ks" "sorted ks"
    "\<And>k. k \<in> set ks \<Longrightarrow> k < length (ct_msgs s x)"
proof
  let ?rs = "reads_of x (ct_reads s a)"
  have r: "reads_ok s" "views_ok s" using assms by (simp_all add: counters_inv_def)
  have k: "k < length (ct_msgs s x) \<and> v = fst (ct_msgs s x ! k)" if "(k, v) \<in> set ?rs" for k v
    using reads_okD(2,3) [OF r(1) that] views_okD(1) [OF r(2), of a x] by simp
  then show "answers a x s = map (\<lambda>k. map fst (ct_msgs s x) ! k) (map fst ?rs)"
    by (auto simp: answers_def)
  show "sorted (map fst ?rs)" by (rule reads_okD(1) [OF r(1)])
  show "\<And>k. k \<in> set (map fst ?rs) \<Longrightarrow> k < length (ct_msgs s x)" using k by auto
qed

lemma sorted_threshold:
  assumes "sorted (ks :: nat list)" "\<And>k. k \<in> set ks \<Longrightarrow> k \<le> n"
  shows "\<exists>i j. map (\<lambda>k. (y # replicate n z) ! k) ks = replicate i y @ replicate j z"
  using assms
proof (induction ks)
  case (Cons k ks)
  then obtain i j where ij: "map (\<lambda>k. (y # replicate n z) ! k) ks = replicate i y @ replicate j z" by auto
  show ?case
  proof (cases k)
    case 0
    with ij show ?thesis by (intro exI [of _ "Suc i"] exI [of _ j]) simp
  next
    case (Suc l)
    then have "\<forall>k' \<in> set (k # ks). 0 < k' \<and> k' \<le> n" using Cons.prems by fastforce
    then have "map (\<lambda>k. (y # replicate n z) ! k) (k # ks) = map (\<lambda>_. z) (k # ks)"
      by (intro map_cong) (auto simp: nth_Cons')
    then show ?thesis by (metis append_Nil map_replicate_const replicate_0)
  qed
qed simp

lemma single_answers: "set ks \<subseteq> {0} \<Longrightarrow> map ((!) [v]) ks = replicate (length ks) v"
  by (induction ks) auto

lemma overflow_answers:
  assumes "counters_inv s"
  shows "\<exists>ks. answers a Overflow s = map of_nat ks \<and> sorted ks \<and> list_all (\<lambda>k. k \<le> ct_drops s) ks"
proof -
  obtain ks where ks: "answers a Overflow s = map (\<lambda>k. map fst (ct_msgs s Overflow) ! k) ks" "sorted ks"
    "\<And>k. k \<in> set ks \<Longrightarrow> k < length (ct_msgs s Overflow)"
    using answers_nth [OF assms, of a Overflow] by blast
  have v: "map fst (ct_msgs s Overflow) = map of_nat [0..<Suc (ct_drops s)]"
    using assms by (simp add: counters_inv_def values_ok_def)
  then have l: "length (ct_msgs s Overflow) = Suc (ct_drops s)" by (metis diff_zero length_map length_upt)
  have "answers a Overflow s = map of_nat ks"
    unfolding ks(1) v using ks(3) by (auto simp: l simp del: upt_Suc)
  with ks l show ?thesis by (auto simp: list_all_iff less_Suc_eq_le)
qed

lemma flag_answers:
  assumes "counters_inv s"
  shows "\<exists>i j. answers a Sq_flags s = replicate i 0 @ replicate j IORING_SQ_CQ_OVERFLOW
    \<and> (ct_drops s = 0 \<longrightarrow> j = 0)"
proof -
  obtain ks where ks: "answers a Sq_flags s = map (\<lambda>k. map fst (ct_msgs s Sq_flags) ! k) ks" "sorted ks"
    "\<And>k. k \<in> set ks \<Longrightarrow> k < length (ct_msgs s Sq_flags)"
    using answers_nth [OF assms, of a Sq_flags] by blast
  obtain n where n: "map fst (ct_msgs s Sq_flags) = 0 # replicate n IORING_SQ_CQ_OVERFLOW"
    using assms by (auto simp: counters_inv_def values_ok_def)
  then have l: "length (ct_msgs s Sq_flags) = Suc n" by (metis length_Cons length_map length_replicate)
  show ?thesis
  proof (cases "ct_drops s = 0")
    case True
    with assms l have "n = 0" by (simp add: counters_inv_def flag_just_def)
    with ks(3) l have "set ks \<subseteq> {0}" by auto
    with ks(1) n \<open>n = 0\<close> have "answers a Sq_flags s = replicate (length ks) 0" by (simp add: single_answers)
    then show ?thesis by (intro exI [of _ "length ks"] exI [of _ 0]) simp
  next
    case False
    with sorted_threshold [OF ks(2), of n 0 IORING_SQ_CQ_OVERFLOW] ks(1,3) n l show ?thesis by (auto simp: less_Suc_eq_le)
  qed
qed

lemma zero_answers:
  assumes "counters_inv s" "map fst (ct_msgs s x) = [0]"
  shows "list_all (\<lambda>v. v = 0) (answers a x s)"
proof -
  obtain ks where ks: "answers a x s = map (\<lambda>k. map fst (ct_msgs s x) ! k) ks" "sorted ks"
    "\<And>k. k \<in> set ks \<Longrightarrow> k < length (ct_msgs s x)"
    using answers_nth [OF assms(1), of a x] by blast
  have "length (ct_msgs s x) = 1" using arg_cong [OF assms(2), of length] by simp
  with ks(3) have "set ks \<subseteq> {0}" by auto
  with ks(1) assms(2) show ?thesis by (simp add: single_answers list_all_iff)
qed

lemma quiet_flag:
  assumes "counters_inv s" "\<And>b. ct_code s b = []" "0 < ct_drops s"
  shows "fst (last (ct_msgs s Sq_flags)) = IORING_SQ_CQ_OVERFLOW"
proof -
  obtain n where n: "map fst (ct_msgs s Sq_flags) = 0 # replicate n IORING_SQ_CQ_OVERFLOW"
    using assms(1) by (auto simp: counters_inv_def values_ok_def)
  have "1 < length (ct_msgs s Sq_flags)"
    using assms by (simp add: counters_inv_def flag_due_def post_overflow_code_def)
  with n have "n \<noteq> 0" by (metis length_map length_Cons length_replicate less_numeral_extra(4) One_nat_def)
  then obtain k where "n = Suc k" using not0_implies_Suc by blast
  with n have "map fst (ct_msgs s Sq_flags) = (0 # replicate k IORING_SQ_CQ_OVERFLOW) @ [IORING_SQ_CQ_OVERFLOW]"
    by (simp add: replicate_append_same)
  then show ?thesis by (rule last_value)
qed

text \<open>C39: the overflow counter and the flags under weak memory.  Any number of threads post completions
  into a full ring, each by a relaxed \<open>fetch_add\<close> and, when it was the first, a relaxed \<open>fetch_or\<close> of the
  overflow flag, while threads read the counters and flags with the orderings of the source.  Then no
  overflow is lost: the counter holds their number (modulo \<open>2 ^ 32\<close>).  The values one thread reads of it count
  overflows that have happened, and never go back.  The flags it reads are 0 and from some moment on the overflow flag,
  0 as long as nothing has overflown, and never the wake-up or task-run flag; the other flags and the dropped counter
  read as 0.  When no call is in progress and something has overflown, the flag is set.\<close>

theorem overflow_count_survives_weak_memory:
  assumes "(counter_step counter_ops)\<^sup>*\<^sup>* counters_start s"
  shows "fst (last (ct_msgs s Overflow)) = of_nat (ct_drops s)
    \<and> (\<exists>ks. answers a Overflow s = map of_nat ks \<and> sorted ks \<and> list_all (\<lambda>k. k \<le> ct_drops s) ks)
    \<and> (\<exists>i j. answers a Sq_flags s = replicate i 0 @ replicate j IORING_SQ_CQ_OVERFLOW
        \<and> (ct_drops s = 0 \<longrightarrow> j = 0))
    \<and> list_all (\<lambda>f. f AND IORING_SQ_NEED_WAKEUP = 0 \<and> f AND IORING_SQ_TASKRUN = 0) (answers a Sq_flags s)
    \<and> list_all (\<lambda>v. v = 0) (answers a Cq_flags s) \<and> list_all (\<lambda>v. v = 0) (answers a Dropped s)
    \<and> ((\<forall>b. ct_code s b = []) \<and> 0 < ct_drops s \<longrightarrow> fst (last (ct_msgs s Sq_flags)) = IORING_SQ_CQ_OVERFLOW)"
proof -
  have i: "counters_inv s" using counters_reachable [OF assms counters_inv_start] .
  then have v: "values_ok s" by (simp add: counters_inv_def)
  obtain n j where f: "answers a Sq_flags s = replicate n 0 @ replicate j IORING_SQ_CQ_OVERFLOW"
    "ct_drops s = 0 \<longrightarrow> j = 0"
    using flag_answers [OF i, of a] by (elim exE conjE)
  then have "list_all (\<lambda>f. f AND IORING_SQ_NEED_WAKEUP = 0 \<and> f AND IORING_SQ_TASKRUN = 0) (answers a Sq_flags s)"
    by (auto simp: list_all_iff sys_consts)
  note flags = this
  show ?thesis
  proof (intro conjI impI)
    show "\<exists>i j. answers a Sq_flags s = replicate i 0 @ replicate j IORING_SQ_CQ_OVERFLOW
        \<and> (ct_drops s = 0 \<longrightarrow> j = 0)" by (rule flag_answers [OF i])
    show "list_all (\<lambda>v. v = 0) (answers a Cq_flags s)" "list_all (\<lambda>v. v = 0) (answers a Dropped s)"
      using v by (auto simp: values_ok_def intro!: zero_answers [OF i])
  qed (use values_ok_drop(2) [OF v] overflow_answers [OF i] quiet_flag [OF i] flags in auto)
qed

text \<open>Schedules, and that every one that is carried out is a run.\<close>

fun counter_follows :: "('a \<times> (cinstr list + nat)) list \<Rightarrow> ('a counters \<Rightarrow> bool) \<Rightarrow> 'a counters \<Rightarrow> bool" where
  "counter_follows [] Q s \<longleftrightarrow> Q s"
| "counter_follows ((a, Inl code) # acts) Q s \<longleftrightarrow> ct_code s a = [] \<and> code \<in> counter_ops
     \<and> counter_follows acts Q (s\<lparr>ct_code := (ct_code s)(a := code)\<rparr>)"
| "counter_follows ((a, Inr k) # acts) Q s \<longleftrightarrow> (case ct_code s a of [] \<Rightarrow> False | i # code \<Rightarrow> may_get a k i s
     \<and> counter_follows acts Q (run_cinstr a k i (s\<lparr>ct_code := (ct_code s)(a := code)\<rparr>)))"

lemma counter_follows_reaches:
  "counter_follows acts Q s \<Longrightarrow> \<exists>s'. (counter_step counter_ops)\<^sup>*\<^sup>* s s' \<and> Q s'"
proof (induction acts Q s rule: counter_follows.induct)
  case (2 a code acts Q s)
  then show ?case using counter_step.call [of s a code counter_ops] by (auto intro: converse_rtranclp_into_rtranclp)
next
  case (3 a k acts Q s)
  then obtain i code where c: "ct_code s a = i # code" "may_get a k i s"
    "counter_follows acts Q (run_cinstr a k i (s\<lparr>ct_code := (ct_code s)(a := code)\<rparr>))"
    by (auto split: list.splits)
  with "3.IH" obtain s' where "(counter_step counter_ops)\<^sup>*\<^sup>* (run_cinstr a k i (s\<lparr>ct_code := (ct_code s)(a := code)\<rparr>)) s'" "Q s'"
    by blast
  with counter_step.instr [OF c(1,2), of counter_ops] show ?case by (blast intro: converse_rtranclp_into_rtranclp)
qed auto

lemmas counter_eval = counters_start_def get_at_def rmw_at_def fence_at_def join_seen_def acquires_def releases_def
  Let_def counter_ops_def post_overflow_code_def reader_code_defs

text \<open>Two overflows, with a reader that sees the first and misses the second.\<close>

theorem overflow_count_survives_weak_memory_witness:
  "\<exists>s. (counter_step counter_ops)\<^sup>*\<^sup>* (counters_start :: agent counters) s \<and> ct_drops s = 2
     \<and> fst (last (ct_msgs s Overflow)) = 2
     \<and> (\<exists>ks. answers Consumer Overflow s = map of_nat ks \<and> sorted ks \<and> list_all (\<lambda>k. k \<le> 2) ks)"
proof -
  have "counter_follows [(Producer, Inl post_overflow_code), (Producer, Inr 0), (Producer, Inr 0), (Producer, Inr 0),
      (Consumer, Inl overflow_code), (Consumer, Inr 0), (Producer, Inl post_overflow_code), (Producer, Inr 0),
      (Consumer, Inl overflow_code), (Consumer, Inr 1)] (\<lambda>s. ct_drops s = 2) (counters_start :: agent counters)"
    by (simp add: counter_eval)
  from counter_follows_reaches [OF this] obtain s where
    s: "(counter_step counter_ops)\<^sup>*\<^sup>* (counters_start :: agent counters) s" "ct_drops s = 2"
    by blast
  from overflow_count_survives_weak_memory [OF s(1), of Consumer] s show ?thesis by (intro exI [of _ s]) simp
qed

text \<open>The orderings promise no more than that: the flag is set by a relaxed operation, so a thread that sees it
  with \<open>cq_overflow\<close> may still read 0 from \<open>overflow\<close>, although both loads acquire.\<close>

theorem flag_may_be_seen_before_the_count:
  "\<exists>s. (counter_step counter_ops)\<^sup>*\<^sup>* (counters_start :: agent counters) s
     \<and> map (\<lambda>(x, k, v). (x, v)) (ct_reads s Consumer) = [(Sq_flags, IORING_SQ_CQ_OVERFLOW), (Overflow, 0)]"
proof -
  have "counter_follows [(Producer, Inl post_overflow_code), (Producer, Inr 0), (Producer, Inr 0), (Producer, Inr 0),
      (Consumer, Inl cq_overflow_code), (Consumer, Inr 1), (Consumer, Inl overflow_code), (Consumer, Inr 0)]
      (\<lambda>s. map (\<lambda>(x, k, v). (x, v)) (ct_reads s Consumer) = [(Sq_flags, IORING_SQ_CQ_OVERFLOW), (Overflow, 0)])
      (counters_start :: agent counters)"
    by (simp add: counter_eval)
  from counter_follows_reaches [OF this] show ?thesis .
qed

section \<open>The programs are those of the model\<close>

text \<open>Run without interference, on the atomics of a ring.\<close>

primrec counter_seq :: "cinstr \<Rightarrow> (atom \<Rightarrow> u32) \<times> u32 \<Rightarrow> (atom \<Rightarrow> u32) \<times> u32" where
  "counter_seq (Get x o') = (\<lambda>(m, r). (m, m x))"
| "counter_seq (Rmw x f o') = (\<lambda>(m, r). (m(x := rmw_val f (m x)), m x))"
| "counter_seq Fence = (\<lambda>s. s)"
| "counter_seq (Branch f) = (\<lambda>s. foldl (\<lambda>s g. g s) s (map counter_seq (f (snd s))))"

definition counter_run :: "cinstr list \<Rightarrow> (atom \<Rightarrow> u32) \<Rightarrow> (atom \<Rightarrow> u32) \<times> u32" where
  "counter_run code m = foldl (\<lambda>s i. counter_seq i s) (m, 0) code"

definition atoms_of :: "('s, 'c) RingMemory \<Rightarrow> atom \<Rightarrow> u32" where
  "atoms_of mem x = (case x of Overflow \<Rightarrow> st_cq_overflow (rm_state mem) | Sq_flags \<Rightarrow> st_sq_flags (rm_state mem)
     | Cq_flags \<Rightarrow> st_cq_flags (rm_state mem) | Dropped \<Rightarrow> st_sq_dropped (rm_state mem))"

text \<open>the programs above are the operations of the source: \<open>post_cqe\<close> does to these atomics what its
  program does when the ring is full, and nothing otherwise; the readers return what the modelled
  operations do.\<close>

theorem counter_programs_are_the_operations:
  assumes "post_cqe sub u r fl mem = Inr mem'"
  shows "atoms_of mem' = (if st_cq_tail (rm_state mem) - st_cq_head (rm_state mem) \<ge> sub_cq_ring_entries sub
      then fst (counter_run post_overflow_code (atoms_of mem)) else atoms_of mem)
    \<and> snd (counter_run overflow_code (atoms_of mem)) = cqueue_overflow mem
    \<and> snd (counter_run dropped_code (atoms_of mem)) = squeue_dropped mem
    \<and> (snd (counter_run cq_overflow_code (atoms_of mem)) AND IORING_SQ_CQ_OVERFLOW \<noteq> 0) = squeue_cq_overflow mem
    \<and> (snd (counter_run sq_cq_overflow_code (atoms_of mem)) AND IORING_SQ_CQ_OVERFLOW \<noteq> 0) = sub_sq_cq_overflow mem
    \<and> (snd (counter_run taskrun_code (atoms_of mem)) AND IORING_SQ_TASKRUN \<noteq> 0) = squeue_taskrun mem
    \<and> (snd (counter_run need_wakeup_code (atoms_of mem)) AND IORING_SQ_NEED_WAKEUP \<noteq> 0) = squeue_need_wakeup mem
    \<and> (snd (counter_run need_wakeup_after_code (atoms_of mem)) AND IORING_SQ_NEED_WAKEUP \<noteq> 0)
        = squeue_need_wakeup_after_intermittent_seqcst mem
    \<and> (snd (counter_run sq_need_wakeup_code (atoms_of mem)) AND IORING_SQ_NEED_WAKEUP \<noteq> 0) = sub_sq_need_wakeup mem
    \<and> (snd (counter_run eventfd_disabled_code (atoms_of mem)) AND IORING_CQ_EVENTFD_DISABLED \<noteq> 0)
        = cqueue_eventfd_disabled mem"
proof -
  have "atoms_of mem' = (if st_cq_tail (rm_state mem) - st_cq_head (rm_state mem) \<ge> sub_cq_ring_entries sub
      then fst (counter_run post_overflow_code (atoms_of mem)) else atoms_of mem)"
    using assms unfolding post_cqe_def Let_def
    by (auto simp: counter_run_def post_overflow_code_def atoms_of_def fun_eq_iff and_then_eq_Inr
        split: if_splits atom.split)
  then show ?thesis
    by (simp add: counter_run_def reader_code_defs atoms_of_def cqueue_overflow_def squeue_dropped_def
        squeue_cq_overflow_def sub_sq_cq_overflow_def squeue_taskrun_def squeue_need_wakeup_def
        squeue_need_wakeup_after_intermittent_seqcst_def sub_sq_need_wakeup_def cqueue_eventfd_disabled_def)
qed

end
