(* ===== verification/Miring_Frame.thy ===== *)
theory Miring_Frame
  imports Miring_Dispatch_Spec
begin

text \<open>
  Locality of the dispatch handlers of \<^verbatim>\<open>src/submit.rs\<close>: a handler that runs without undefined
  behaviour in some memory runs with the same result in every larger memory, and what the larger
  memory adds is left alone.  As touching a dead address is undefined behaviour, the memory a
  handler was run in bounds what it touches.  The larger memory is written \<open>f ++ m\<close>: \<open>m\<close> where \<open>m\<close>
  is live, and \<open>f\<close> elsewhere.
\<close>

section \<open>Raw accesses\<close>

named_theorems frame_simps \<open>results of memory accesses in a larger memory\<close>

lemma live_frame [frame_simps]: "live m a n \<Longrightarrow> live (f ++ m) a n"
  by (auto simp: live_iff)

lemma load_frame [frame_simps]: "load m a n = Inr bs \<Longrightarrow> load (f ++ m) a n = Inr bs"
  by (auto simp: load_Inr_iff)

lemma store_map_add: "store (f ++ m) a bs = f ++ store m a bs"
  by (induction bs arbitrary: m a) (simp_all flip: map_add_upd)

lemma deref_check_frame [frame_simps]:
  "deref_check m a al n = Inr u \<Longrightarrow> deref_check (f ++ m) a al n = Inr u"
  by (simp add: live_frame)

lemma ptr_read_frame [frame_simps]: "ptr_read m a al n = Inr bs \<Longrightarrow> ptr_read (f ++ m) a al n = Inr bs"
  by (auto simp: ptr_read_def and_then_eq_Inr frame_simps)

lemma ptr_write_frame_add [frame_simps]:
  "ptr_write m a al bs = Inr m' \<Longrightarrow> ptr_write (f ++ m) a al bs = Inr (f ++ m')"
  by (auto simp: ptr_write_def and_then_eq_Inr frame_simps store_map_add)

lemma read_u32_frame [frame_simps]: "read_u32 m a = Inr v \<Longrightarrow> read_u32 (f ++ m) a = Inr v"
  by (auto simp: read_u32_def and_then_eq_Inr frame_simps)

lemma read_u64_frame [frame_simps]: "read_u64 m a = Inr v \<Longrightarrow> read_u64 (f ++ m) a = Inr v"
  by (auto simp: read_u64_def and_then_eq_Inr frame_simps)

lemma write_u32_frame [frame_simps]: "write_u32 m a v = Inr m' \<Longrightarrow> write_u32 (f ++ m) a v = Inr (f ++ m')"
  by (simp add: write_u32_def frame_simps)

lemma slice_check_frame [frame_simps]:
  "slice_check m a n sz al = Inr u \<Longrightarrow> slice_check (f ++ m) a n sz al = Inr u"
  by (simp add: live_frame)

lemma slice_fill_frame [frame_simps]: "slice_fill m a n = Inr m' \<Longrightarrow> slice_fill (f ++ m) a n = Inr (f ++ m')"
  by (auto simp: slice_fill_def and_then_eq_Inr frame_simps store_map_add simp del: slice_check_Inr)

lemma slice_sink_frame [frame_simps]: "slice_sink m a n s = Inr v \<Longrightarrow> slice_sink (f ++ m) a n s = Inr v"
  by (auto simp: slice_sink_def and_then_eq_Inr frame_simps simp del: slice_check_Inr)

section \<open>The loops of the handlers\<close>

lemma pair_at_frame [frame_simps]: "pair_at m p q = Inr r \<Longrightarrow> pair_at (f ++ m) p q = Inr r"
  by (cases "read_u64 m p"; cases "read_u64 m q") (auto simp: pair_at_def read_u64_frame split: if_splits)

lemma name_at_frame [frame_simps]: "name_at m p = Inr r \<Longrightarrow> name_at (f ++ m) p = Inr r"
  by (cases "read_u64 m p"; cases "read_u32 m (p + 8)")
    (auto simp: name_at_def read_u64_frame read_u32_frame split: if_splits)

lemma fill_if_frame [frame_simps]: "fill_if m r = Inr m' \<Longrightarrow> fill_if (f ++ m) r = Inr (f ++ m')"
  by (cases r) (auto simp: fill_if_def slice_fill_frame)

lemma sink_if_frame [frame_simps]: "sink_if m r s = Inr v \<Longrightarrow> sink_if (f ++ m) r s = Inr v"
  by (cases r) (auto simp: sink_if_def slice_sink_frame)

lemma fill_iovs_frame [frame_simps]:
  "fill_iovs n p tot m = Inr (t, m') \<Longrightarrow> fill_iovs n p tot (f ++ m) = Inr (t, f ++ m')"
proof (induction n arbitrary: p tot m)
  case (Suc n)
  then show ?case by (auto simp: and_then_eq_Inr frame_simps)
qed simp

lemma sink_iovs_frame [frame_simps]:
  "sink_iovs n p tot s m = Inr t \<Longrightarrow> sink_iovs n p tot s (f ++ m) = Inr t"
proof (induction n arbitrary: p tot s)
  case (Suc n)
  then show ?case by (auto simp: and_then_eq_Inr frame_simps)
qed simp

lemma read_waitv_frame [frame_simps]: "read_waitv n p m = Inr u \<Longrightarrow> read_waitv n p (f ++ m) = Inr u"
proof (induction n arbitrary: p)
  case (Suc n)
  then show ?case by (auto simp: and_then_eq_Inr frame_simps)
qed simp

lemma walk_cstr_frame [frame_simps]: "walk_cstr m p = Inr u \<Longrightarrow> walk_cstr (f ++ m) p = Inr u"
proof (induction m p rule: walk_cstr.induct)
  case (1 m p)
  then show ?case
    by (auto simp: walk_cstr.simps [of m p] walk_cstr.simps [of "f ++ m" p] and_then_eq_Inr frame_simps
        split: if_splits)
qed

section \<open>The handlers\<close>

lemma handler_frame:
  "dispatch_buf_fill sqe m = Inr (r, m') \<Longrightarrow> dispatch_buf_fill sqe (f ++ m) = Inr (r, f ++ m')"
  "dispatch_buf_sink sqe m = Inr (r, m') \<Longrightarrow> dispatch_buf_sink sqe (f ++ m) = Inr (r, f ++ m')"
  "dispatch_readv sqe m = Inr (r, m') \<Longrightarrow> dispatch_readv sqe (f ++ m) = Inr (r, f ++ m')"
  "dispatch_writev sqe m = Inr (r, m') \<Longrightarrow> dispatch_writev sqe (f ++ m) = Inr (r, f ++ m')"
  "dispatch_timeout sqe m = Inr (r, m') \<Longrightarrow> dispatch_timeout sqe (f ++ m) = Inr (r, f ++ m')"
  "dispatch_connect sqe m = Inr (r, m') \<Longrightarrow> dispatch_connect sqe (f ++ m) = Inr (r, f ++ m')"
  "dispatch_accept sqe m = Inr (r, m') \<Longrightarrow> dispatch_accept sqe (f ++ m) = Inr (r, f ++ m')"
  "dispatch_openat sqe m = Inr (r, m') \<Longrightarrow> dispatch_openat sqe (f ++ m) = Inr (r, f ++ m')"
  "dispatch_openat2 sqe m = Inr (r, m') \<Longrightarrow> dispatch_openat2 sqe (f ++ m) = Inr (r, f ++ m')"
  "dispatch_statx sqe m = Inr (r, m') \<Longrightarrow> dispatch_statx sqe (f ++ m) = Inr (r, f ++ m')"
  "dispatch_pathname sqe m = Inr (r, m') \<Longrightarrow> dispatch_pathname sqe (f ++ m) = Inr (r, f ++ m')"
  "dispatch_pathname2 sqe m = Inr (r, m') \<Longrightarrow> dispatch_pathname2 sqe (f ++ m) = Inr (r, f ++ m')"
  "dispatch_epoll_ctl sqe m = Inr (r, m') \<Longrightarrow> dispatch_epoll_ctl sqe (f ++ m) = Inr (r, f ++ m')"
  "dispatch_files_update sqe m = Inr (r, m') \<Longrightarrow> dispatch_files_update sqe (f ++ m) = Inr (r, f ++ m')"
  "dispatch_provide_buffers sqe m = Inr (r, m') \<Longrightarrow> dispatch_provide_buffers sqe (f ++ m) = Inr (r, f ++ m')"
  "dispatch_xattr_set sqe m = Inr (r, m') \<Longrightarrow> dispatch_xattr_set sqe (f ++ m) = Inr (r, f ++ m')"
  "dispatch_xattr_get sqe m = Inr (r, m') \<Longrightarrow> dispatch_xattr_get sqe (f ++ m) = Inr (r, f ++ m')"
  "dispatch_epoll_wait sqe m = Inr (r, m') \<Longrightarrow> dispatch_epoll_wait sqe (f ++ m) = Inr (r, f ++ m')"
  "dispatch_futex_read sqe m = Inr (r, m') \<Longrightarrow> dispatch_futex_read sqe (f ++ m) = Inr (r, f ++ m')"
  "dispatch_futex_waitv sqe m = Inr (r, m') \<Longrightarrow> dispatch_futex_waitv sqe (f ++ m) = Inr (r, f ++ m')"
  "dispatch_waitid sqe m = Inr (r, m') \<Longrightarrow> dispatch_waitid sqe (f ++ m) = Inr (r, f ++ m')"
  "dispatch_pipe sqe m = Inr (r, m') \<Longrightarrow> dispatch_pipe sqe (f ++ m) = Inr (r, f ++ m')"
  by (auto simp: handler_defs Let_def and_then_eq_Inr frame_simps
      simp del: slice_check_Inr deref_check_Inr load.simps split: if_splits)

text \<open>The last part of \<open>recvmsg\<close> and \<open>sendmsg\<close>, over the decoded vector.\<close>

lemma case_option_frame:
  assumes "(case r of None \<Rightarrow> Inr (x, m) | Some (a, n) \<Rightarrow> g a n m) = Inr (y, m')"
    and "\<And>a n. g a n m = Inr (y, m') \<Longrightarrow> g a n (f ++ m) = Inr (y, f ++ m')"
  shows "(case r of None \<Rightarrow> Inr (x, f ++ m) | Some (a, n) \<Rightarrow> g a n (f ++ m)) = Inr (y, f ++ m')"
  using assms by (auto split: option.splits)

lemma dispatch_recvmsg_frame:
  assumes "dispatch_recvmsg sqe m = Inr (r, m')"
  shows "dispatch_recvmsg sqe (f ++ m) = Inr (r, f ++ m')"
proof (cases "sqe_addr sqe = 0")
  case False
  let ?g = "\<lambda>iovs n m2. and_then (slice_check m2 iovs (unat n) 16 8) (\<lambda>_.
    and_then (fill_iovs (unat n) iovs 0 m2) (\<lambda>(total, m3). Inr (ucast total, m3)))"
  from assms False obtain name m1 ctl m2 iov where 1:
    "deref_check m (sqe_addr sqe) 8 56 = Inr ()" "name_at m (sqe_addr sqe) = Inr name"
    "fill_if m name = Inr m1" "pair_at m1 (sqe_addr sqe + 32) (sqe_addr sqe + 40) = Inr ctl"
    "fill_if m1 ctl = Inr m2" "pair_at m2 (sqe_addr sqe + 16) (sqe_addr sqe + 24) = Inr iov"
    and 2: "(case iov of None \<Rightarrow> Inr (0, m2) | Some (iovs, n) \<Rightarrow> ?g iovs n m2) = Inr (r, m')"
    by (auto simp: dispatch_recvmsg_def Let_def and_then_eq_Inr simp del: deref_check_Inr)
  have "(case iov of None \<Rightarrow> Inr (0, f ++ m2) | Some (iovs, n) \<Rightarrow> ?g iovs n (f ++ m2)) = Inr (r, f ++ m')"
    using 2 by (rule case_option_frame)
      (auto simp: and_then_eq_Inr frame_simps simp del: slice_check_Inr)
  with 1 False show ?thesis
    by (simp add: dispatch_recvmsg_def Let_def frame_simps del: deref_check_Inr)
qed (use assms in \<open>simp add: dispatch_recvmsg_def\<close>)

lemma dispatch_sendmsg_frame:
  assumes "dispatch_sendmsg sqe m = Inr (r, m')"
  shows "dispatch_sendmsg sqe (f ++ m) = Inr (r, f ++ m')"
proof (cases "sqe_addr sqe = 0")
  case False
  let ?g = "\<lambda>iovs n m. and_then (slice_check m iovs (unat n) 16 8) (\<lambda>_.
    and_then (sink_iovs (unat n) iovs 0 0 m) (\<lambda>total. Inr (ucast total, m)))"
  from assms False obtain name s1 ctl s2 iov where 1:
    "deref_check m (sqe_addr sqe) 8 56 = Inr ()" "name_at m (sqe_addr sqe) = Inr name"
    "sink_if m name 0 = Inr s1" "pair_at m (sqe_addr sqe + 32) (sqe_addr sqe + 40) = Inr ctl"
    "sink_if m ctl 0 = Inr s2" "pair_at m (sqe_addr sqe + 16) (sqe_addr sqe + 24) = Inr iov"
    and 2: "(case iov of None \<Rightarrow> Inr (0, m) | Some (iovs, n) \<Rightarrow> ?g iovs n m) = Inr (r, m')"
    by (auto simp: dispatch_sendmsg_def Let_def and_then_eq_Inr simp del: deref_check_Inr)
  have "(case iov of None \<Rightarrow> Inr (0, f ++ m) | Some (iovs, n) \<Rightarrow> ?g iovs n (f ++ m)) = Inr (r, f ++ m')"
    using 2 by (rule case_option_frame)
      (auto simp: and_then_eq_Inr frame_simps simp del: slice_check_Inr)
  with 1 False show ?thesis
    by (simp add: dispatch_sendmsg_def Let_def frame_simps del: deref_check_Inr)
qed (use assms in \<open>simp add: dispatch_sendmsg_def\<close>)

theorem dispatch_op_frame:
  "dispatch_op sqe m = Inr (r, m') \<Longrightarrow> dispatch_op sqe (f ++ m) = Inr (r, f ++ m')"
  unfolding dispatch_op_def Let_def
  by (simp only: if_True if_False split: if_split_asm) (auto dest: handler_frame dispatch_recvmsg_frame dispatch_sendmsg_frame)

end
