(* ===== verification/Miring_Races.thy ===== *)
theory Miring_Races
  imports Miring_Example Miring_Frame "HOL-Library.Disjoint_Sets"
begin

text \<open>
  Batches that touch disjoint memory do not interfere: a program that keeps its hands off the
  buffers of outstanding operations gets the same completions under every schedule.  The steps are
  those of \<open>Miring_Concurrency\<close>.  Each outstanding thread owns a set of addresses; that running the thread alone on just these
  addresses returns says that it touches nothing else.  Then every interleaving of the threads,
  with joins and with an application that writes elsewhere, produces the results of
  \<open>flush_pending\<close>, and none runs into undefined behaviour.
\<close>

section \<open>Threads over a local dispatcher\<close>

locale local_dispatcher = panic_free_dispatcher +
  assumes disp_frame: "disp sqe m = Inr (r, m') \<Longrightarrow> disp sqe (f ++ m) = Inr (r, f ++ m')"
begin

lemma complete_one_frame:
  "complete_one disp sqe c m = Inr (cd, c', m') \<Longrightarrow>
     complete_one disp sqe c (f ++ m) = Inr (cd, c', f ++ m')"
  by (cases c) (auto simp: complete_one_simps and_then_eq_Inr disp_frame)

lemma run_sqes_frame:
  "run_sqes disp ss c rs m = Inr (rs', m') \<Longrightarrow> run_sqes disp ss c rs (f ++ m) = Inr (rs', f ++ m')"
proof (induction ss arbitrary: c rs m)
  case (Cons s ss)
  then show ?case by (auto simp: and_then_eq_Inr complete_one_frame)
qed simp

lemma thread_join_frame:
  "thread_join disp th m = Inr (rs, m') \<Longrightarrow> thread_join disp th (f ++ m) = Inr (rs, f ++ m')"
  unfolding thread_join_run by (rule run_sqes_frame)

lemma thread_join_dom: "thread_join disp th m = Inr (rs, m') \<Longrightarrow> dom m' = dom m"
  unfolding thread_join_run using run_sqes_dom by (fastforce simp: same_dom_def)

end

interpretation klocal: local_dispatcher dispatch_op
  by unfold_locales (rule dispatch_op_frame)

section \<open>Ownership\<close>

text \<open>
  \<open>lms\<close> are the parts of the memory \<open>m\<close> that the threads own, inside the disjoint sets \<open>As\<close>, and
  \<open>fins\<close> is what each thread returns when it runs to its end on its part.
\<close>

definition owns ::
  "u64 set list \<Rightarrow> umem \<Rightarrow> dispatch_thread list \<Rightarrow> umem list \<Rightarrow> (CompletionData list \<times> umem) list \<Rightarrow> bool"
where
  "owns As m ths lms fins \<longleftrightarrow> length As = length ths \<and> length lms = length ths \<and> length fins = length ths
     \<and> disjoint_family_on (\<lambda>i. As ! i) {..<length ths}
     \<and> (\<forall>i<length ths. dom (lms ! i) \<subseteq> As ! i \<and> lms ! i \<subseteq>\<^sub>m m
          \<and> thread_join dispatch_op (ths ! i) (lms ! i) = Inr (fins ! i))"

lemma map_add_le_self: "m1 \<subseteq>\<^sub>m m \<Longrightarrow> m ++ m1 = m"
  by (auto simp: map_le_def map_add_def fun_eq_iff dom_def split: option.splits)

lemma map_le_add_disjoint: "m2 \<subseteq>\<^sub>m m \<Longrightarrow> dom m1 \<inter> dom m2 = {} \<Longrightarrow> m2 \<subseteq>\<^sub>m m ++ m1"
  by (auto simp: map_le_def map_add_def split: option.splits)

lemma owns_tl:
  "owns (A # As) m (th # ths) (lm # lms) (fin # fins) \<Longrightarrow> owns As m ths lms fins"
  unfolding owns_def disjoint_family_on_def by (auto simp: All_less_Suc2 lessThan_Suc_eq_insert_0 image_iff)

lemma owns_ConsE:
  assumes "owns As m (th # ths) lms fins"
  obtains A As' lm lms' fin fins' where "As = A # As'" "lms = lm # lms'" "fins = fin # fins'"
    "dom lm \<subseteq> A" "lm \<subseteq>\<^sub>m m" "thread_join dispatch_op th lm = Inr fin" "owns As' m ths lms' fins'"
proof -
  from assms have "length As = Suc (length ths)" "length lms = Suc (length ths)" "length fins = Suc (length ths)"
    by (simp_all add: owns_def)
  then obtain A As' lm lms' fin fins' where e: "As = A # As'" "lms = lm # lms'" "fins = fin # fins'"
    by (auto simp: length_Suc_conv)
  have "dom lm \<subseteq> A" "lm \<subseteq>\<^sub>m m" "thread_join dispatch_op th lm = Inr fin"
    using assms e by (simp_all add: owns_def All_less_Suc2)
  moreover have "owns As' m ths lms' fins'" using owns_tl assms unfolding e .
  ultimately show ?thesis using e by (intro that)
qed

text \<open>What a thread's next iteration does in the whole memory, by the frame property.\<close>

lemma owns_dispatch:
  assumes o: "owns As m ths lms fins" and i: "i < length ths" and s: "th_sqes (ths ! i) = sqe # rest"
  obtains cd c lm where "complete_one dispatch_op sqe (th_cancel_chain (ths ! i)) m = Inr (cd, c, m ++ lm)"
    "dom lm \<subseteq> As ! i" "owns As (m ++ lm) (ths[i := thread_next (ths ! i) cd c]) (lms[i := lm]) fins"
proof -
  let ?th = "ths ! i"
  obtain rs lmf where fin: "fins ! i = (rs, lmf)" by (cases "fins ! i")
  have own: "dom (lms ! i) \<subseteq> As ! i" "lms ! i \<subseteq>\<^sub>m m" "thread_join dispatch_op ?th (lms ! i) = Inr (rs, lmf)"
    using o i fin by (auto simp: owns_def)
  then obtain cd c lm where c1: "complete_one dispatch_op sqe (th_cancel_chain ?th) (lms ! i) = Inr (cd, c, lm)"
    using s by (auto simp: thread_join_eq_Inr and_then_eq_Inr)
  then have d: "dom lm = dom (lms ! i)" using kernel.complete_one_dom by (fastforce simp: same_dom_def)
  have "complete_one dispatch_op sqe (th_cancel_chain ?th) (m ++ (lms ! i)) = Inr (cd, c, m ++ lm)"
    using c1 by (rule klocal.complete_one_frame)
  then have whole: "complete_one dispatch_op sqe (th_cancel_chain ?th) m = Inr (cd, c, m ++ lm)"
    using own(2) by (simp add: map_add_le_self)
  have j: "thread_join dispatch_op (thread_next ?th cd c) lm = Inr (rs, lmf)"
    using thread_join_next [OF s c1] own(3) by simp
  have "owns As (m ++ lm) (ths[i := thread_next ?th cd c]) (lms[i := lm]) fins"
    unfolding owns_def
  proof (intro conjI allI impI)
    fix k assume k: "k < length (ths[i := thread_next ?th cd c])"
    have kk: "dom (lms ! k) \<subseteq> As ! k" "lms ! k \<subseteq>\<^sub>m m" "thread_join dispatch_op (ths ! k) (lms ! k) = Inr (fins ! k)"
      using o k by (auto simp: owns_def)
    have "lms ! k \<subseteq>\<^sub>m m ++ lm" if "k \<noteq> i"
    proof (rule map_le_add_disjoint)
      have "As ! i \<inter> As ! k = {}" using o i k that by (auto simp: owns_def disjoint_family_on_def)
      with own(1) kk(1) d show "dom lm \<inter> dom (lms ! k) = {}" by blast
    qed (fact kk(2))
    then show "lms[i := lm] ! k \<subseteq>\<^sub>m m ++ lm" using o i k by (cases "k = i") (auto simp: owns_def)
    show "dom (lms[i := lm] ! k) \<subseteq> As ! k" using o i k kk(1) own(1) d by (cases "k = i") (auto simp: owns_def)
    show "thread_join dispatch_op (ths[i := thread_next ?th cd c] ! k) (lms[i := lm] ! k) = Inr (fins ! k)"
      using o i k kk(3) j fin by (cases "k = i") (auto simp: owns_def)
  qed (use o in \<open>auto simp: owns_def\<close>)
  with whole own(1) d that show ?thesis by blast
qed

section \<open>Interleavings\<close>

text \<open>
  The threads and joins together with an application that keeps the bytes of \<open>A\<close> as they are.
\<close>

inductive quiet_step :: "('s, 'c) Submitter \<Rightarrow> u64 set \<Rightarrow> ('s, 'c) conf \<Rightarrow> ('s, 'c) conf \<Rightarrow> bool"
  for sub :: "('s, 'c) Submitter" and A :: "u64 set"
where
  kernel: "kernel_step sub cf cf' \<Longrightarrow> quiet_step sub A cf cf'"
| elsewhere: "(\<And>x. x \<in> A \<Longrightarrow> m x = cf_umem cf x) \<Longrightarrow> quiet_step sub A cf (cf\<lparr>cf_umem := m\<rparr>)"

inductive_cases quiet_stepE: "quiet_step sub A cf cf'"

text \<open>
  After \<open>k\<close> joins: the remaining threads own their parts, the joined ones have left their final
  memory behind, and posting what is still to come gives the same ring as at the start.
\<close>

definition quiet_inv ::
  "('s, 'c) Submitter \<Rightarrow> u64 set list \<Rightarrow> (CompletionData list \<times> umem) list \<Rightarrow> CompletionData list \<Rightarrow>
     ('s, 'c) RingMemory exec \<Rightarrow> nat \<Rightarrow> ('s, 'c) conf \<Rightarrow> bool"
where
  "quiet_inv sub As fins j0 final k cf \<longleftrightarrow>
     (\<exists>lms. owns (drop k As) (cf_umem cf) (cf_threads cf) lms (drop k fins))
     \<and> cf_joined cf = j0 @ concat (map fst (take k fins))
     \<and> post_results sub (concat (map fst (drop k fins))) (set_threads [] (cf_mem cf)) = final
     \<and> (\<forall>fin \<in> set (take k fins). dom (snd fin) \<subseteq> \<Union> (set As) \<and> snd fin \<subseteq>\<^sub>m cf_umem cf)"

lemma owns_elsewhere:
  assumes "owns As m ths lms fins" "\<And>x. x \<in> \<Union> (set As) \<Longrightarrow> m' x = m x"
  shows "owns As m' ths lms fins"
proof -
  have "lms ! i \<subseteq>\<^sub>m m'" if "i < length ths" for i
  proof -
    have "As ! i \<in> set As" "dom (lms ! i) \<subseteq> As ! i" "lms ! i \<subseteq>\<^sub>m m"
      using assms(1) that by (auto simp: owns_def)
    with assms(2) show ?thesis by (fastforce simp: map_le_def)
  qed
  with assms(1) show ?thesis by (simp add: owns_def)
qed

lemma quiet_inv_elsewhere:
  assumes "quiet_inv sub As fins j0 final k cf" "\<And>x. x \<in> \<Union> (set As) \<Longrightarrow> m x = cf_umem cf x"
  shows "quiet_inv sub As fins j0 final k (cf\<lparr>cf_umem := m\<rparr>)"
proof -
  obtain lms where o: "owns (drop k As) (cf_umem cf) (cf_threads cf) lms (drop k fins)"
    using assms(1) by (auto simp: quiet_inv_def)
  have "owns (drop k As) m (cf_threads cf) lms (drop k fins)"
    using o by (rule owns_elsewhere) (use assms(2) in \<open>auto dest: in_set_dropD\<close>)
  moreover have "lm \<subseteq>\<^sub>m m" if "lm \<subseteq>\<^sub>m cf_umem cf" "dom lm \<subseteq> \<Union> (set As)" for lm
    using that assms(2) by (fastforce simp: map_le_def)
  ultimately show ?thesis
    using assms(1) unfolding quiet_inv_def by auto
qed

text \<open>The part a finished thread leaves behind is not touched by the others.\<close>

definition own_sets :: "u64 set list \<Rightarrow> (CompletionData list \<times> umem) list \<Rightarrow> bool" where
  "own_sets As fins \<longleftrightarrow> length As = length fins \<and> disjoint_family_on (\<lambda>i. As ! i) {..<length As}
     \<and> (\<forall>i<length fins. dom (snd (fins ! i)) \<subseteq> As ! i)"

lemma own_sets_disjoint:
  assumes "own_sets As fins" "fin \<in> set (take k fins)" "i < length (drop k As)"
  shows "dom (snd fin) \<inter> drop k As ! i = {}"
proof -
  obtain j where j: "j < k" "j < length fins" "fins ! j = fin"
    using assms(2) by (auto simp: in_set_conv_nth)
  have "k + i < length As" using assms(3) by simp
  then have "As ! j \<inter> As ! (k + i) = {}"
    using assms(1) j by (auto simp: own_sets_def disjoint_family_on_def)
  moreover have "dom (snd fin) \<subseteq> As ! j" using assms(1) j unfolding own_sets_def by blast
  ultimately have "dom (snd fin) \<inter> As ! (k + i) = {}" by blast
  with \<open>k + i < length As\<close> show ?thesis by auto
qed

lemma quiet_inv_dispatch:
  assumes s: "own_sets As fins" and q: "quiet_inv sub As fins j0 final k cf"
    and i: "i < length (cf_threads cf)" and t: "th_sqes (cf_threads cf ! i) = sqe # rest"
    and c: "complete_one dispatch_op sqe (th_cancel_chain (cf_threads cf ! i)) (cf_umem cf) = Inr (cd, b, m)"
  shows "quiet_inv sub As fins j0 final k
    (cf\<lparr>cf_mem := set_threads ((cf_threads cf)[i := thread_next (cf_threads cf ! i) cd b]) (cf_mem cf), cf_umem := m\<rparr>)"
proof -
  obtain lms where o: "owns (drop k As) (cf_umem cf) (cf_threads cf) lms (drop k fins)"
    using q by (auto simp: quiet_inv_def)
  obtain lm where lm: "m = cf_umem cf ++ lm" "dom lm \<subseteq> drop k As ! i"
    "owns (drop k As) m ((cf_threads cf)[i := thread_next (cf_threads cf ! i) cd b]) (lms[i := lm]) (drop k fins)"
    using owns_dispatch [OF o i t] c by (metis Inr_inject prod.inject)
  have "i < length (drop k As)" using o i by (simp add: owns_def)
  then have "snd fin \<subseteq>\<^sub>m m" if "fin \<in> set (take k fins)" "snd fin \<subseteq>\<^sub>m cf_umem cf" for fin
    using own_sets_disjoint [OF s that(1)] lm(2) that(2) unfolding lm(1)
    by (intro map_le_add_disjoint) blast+
  with q lm(3) show ?thesis by (auto simp: quiet_inv_def)
qed

lemma post_results_append:
  "post_results sub (xs @ ys) mem = and_then (post_results sub xs mem) (post_results sub ys)"
  by (induction xs arbitrary: mem) (auto simp: and_then_assoc intro!: arg_cong2 [where f = and_then])

lemma quiet_inv_join:
  assumes s: "own_sets As fins" and q: "quiet_inv sub As fins j0 final k cf"
    and t: "cf_threads cf = th # ths" "th_sqes th = []"
    and p: "post_results sub (th_results th) (set_threads ths (cf_mem cf)) = Inr mem"
  shows "quiet_inv sub As fins j0 final (Suc k)
    (cf\<lparr>cf_mem := mem, cf_joined := cf_joined cf @ th_results th, cf_lost := l\<rparr>)"
proof -
  obtain lms where o: "owns (drop k As) (cf_umem cf) (th # ths) lms (drop k fins)"
    using q t(1) by (auto simp: quiet_inv_def)
  from owns_ConsE [OF o] obtain A As' lm lms' fin fins' where
    e: "drop k As = A # As'" "drop k fins = fin # fins'" "dom lm \<subseteq> A" "lm \<subseteq>\<^sub>m cf_umem cf"
      "thread_join dispatch_op th lm = Inr fin" "owns As' (cf_umem cf) ths lms' fins'"
    by metis
  have fin: "fin = (th_results th, lm)" using e(5) t(2) by (simp add: thread_join_def)
  have "k < length fins" using e(2) by (metis drop_all linorder_not_le list.distinct(1))
  then have k: "take (Suc k) fins = take k fins @ [fin]"
    using e(2) by (simp add: take_Suc_conv_app_nth nth_via_drop)
  have d: "drop (Suc k) fins = fins'" "drop (Suc k) As = As'" using e(1,2) by (simp_all add: drop_Suc drop_tl)
  have A: "A \<in> set As" using e(1) by (metis in_set_dropD list.set_intros(1))
  obtain mem0 where m0: "post_results sub (th_results th) (cf_mem cf) = Inr mem0" "mem = set_threads ths mem0"
    using p by (auto simp: post_results_set_threads and_then_eq_Inr)
  have "post_results sub (concat (map fst fins')) (set_threads [] mem)
      = post_results sub (concat (map fst (drop k fins))) (set_threads [] (cf_mem cf))"
    using m0 e(2) fin by (simp add: post_results_append post_results_set_threads)
  then show ?thesis
    using q e(3,4,6) k d A fin post_results_threads [OF p] by (auto simp: quiet_inv_def)
qed

lemma quiet_inv_step:
  assumes s: "own_sets As fins" and q: "quiet_step sub (\<Union> (set As)) cf cf'"
    and i: "quiet_inv sub As fins j0 final k cf"
  shows "\<exists>k'. quiet_inv sub As fins j0 final k' cf'"
  using q
proof (cases rule: quiet_step.cases)
  case kernel
  from this i s show ?thesis
    by (cases rule: kernel_step.cases) (blast intro: quiet_inv_dispatch quiet_inv_join)+
next
  case (elsewhere m)
  with i show ?thesis by (blast intro: quiet_inv_elsewhere)
qed

lemma quiet_inv_steps:
  assumes "(quiet_step sub (\<Union> (set As)))\<^sup>*\<^sup>* cf cf'" "own_sets As fins"
    and "quiet_inv sub As fins j0 final k cf"
  shows "\<exists>k'. quiet_inv sub As fins j0 final k' cf'"
  using assms by (induction rule: rtranclp_induct) (blast intro: quiet_inv_step)+

text \<open>The threads as they are outstanding, each run on the part of the memory it owns.\<close>

definition separate ::
  "u64 set list \<Rightarrow> umem \<Rightarrow> dispatch_thread list \<Rightarrow> (CompletionData list \<times> umem) list \<Rightarrow> bool"
where
  "separate As m ths fins \<longleftrightarrow> length As = length ths \<and> length fins = length ths
     \<and> disjoint_family_on (\<lambda>i. As ! i) {..<length ths}
     \<and> (\<forall>i<length ths. thread_join dispatch_op (ths ! i) (m |` (As ! i)) = Inr (fins ! i))"

lemma separate_owns: "separate As m ths fins \<Longrightarrow> owns As m ths (map (\<lambda>A. m |` A) As) fins"
  by (auto simp: separate_def owns_def map_le_def)

lemma separate_own_sets:
  assumes "separate As m ths fins"
  shows "own_sets As fins"
proof -
  have "dom (snd (fins ! i)) \<subseteq> As ! i" if "i < length ths" for i
  proof -
    have "thread_join dispatch_op (ths ! i) (m |` (As ! i)) = Inr (fst (fins ! i), snd (fins ! i))"
      using assms that by (simp add: separate_def)
    then show ?thesis using klocal.thread_join_dom by fastforce
  qed
  with assms show ?thesis by (simp add: separate_def own_sets_def)
qed

lemma quiet_inv_init:
  assumes "separate As (cf_umem cf) (cf_threads cf) fins"
  shows "quiet_inv sub As fins (cf_joined cf)
    (post_results sub (concat (map fst fins)) (set_threads [] (cf_mem cf))) 0 cf"
  using separate_owns [OF assms] by (auto simp: quiet_inv_def)

lemma quiet_inv_end:
  assumes "quiet_inv sub As fins j0 final k cf" "cf_threads cf = []"
  shows "cf_joined cf = j0 @ concat (map fst fins)" "final = Inr (cf_mem cf)"
    "fin \<in> set fins \<Longrightarrow> snd fin \<subseteq>\<^sub>m cf_umem cf"
proof -
  obtain lms where "owns (drop k As) (cf_umem cf) [] lms (drop k fins)"
    using assms by (auto simp: quiet_inv_def)
  then have k: "drop k fins = []" by (simp add: owns_def)
  then have "take k fins = fins" by simp
  with assms k show "cf_joined cf = j0 @ concat (map fst fins)" "final = Inr (cf_mem cf)"
    "fin \<in> set fins \<Longrightarrow> snd fin \<subseteq>\<^sub>m cf_umem cf"
    by (auto simp: quiet_inv_def set_threads_same)
qed

text \<open>Run one after the other, separate threads return what each returns alone.\<close>

lemma separate_run_threads:
  "owns As m ths lms fins \<Longrightarrow> \<exists>m'. run_threads dispatch_op ths m = Inr (concat (map fst fins), m')
     \<and> (\<forall>fin \<in> set fins. snd fin \<subseteq>\<^sub>m m') \<and> (\<forall>x. x \<notin> \<Union> (set As) \<longrightarrow> m' x = m x)"
proof (induction ths arbitrary: As m lms fins)
  case Nil
  then show ?case by (simp add: owns_def)
next
  case (Cons th ths)
  from owns_ConsE [OF Cons.prems] obtain A As' lm lms' fin fins' where
    e: "As = A # As'" "fins = fin # fins'" "dom lm \<subseteq> A" "lm \<subseteq>\<^sub>m m"
      "thread_join dispatch_op th lm = Inr fin" "owns As' m ths lms' fins'"
    by metis
  obtain rs lmf where fin: "fin = (rs, lmf)" by (cases fin)
  have d: "dom lmf \<subseteq> A" using klocal.thread_join_dom [of th lm rs lmf] e(3,5) fin by simp
  have j: "thread_join dispatch_op th m = Inr (rs, m ++ lmf)"
    using klocal.thread_join_frame [of th lm rs lmf m] e(4,5) fin by (simp add: map_add_le_self)
  have dis: "A \<inter> \<Union> (set As') = {}"
    using Cons.prems e(1) by (fastforce simp: owns_def disjoint_family_on_def in_set_conv_nth)
  have "owns As' (m ++ lmf) ths lms' fins'"
    using e(6) by (rule owns_elsewhere) (rule map_add_dom_app_simps(3), use d dis in blast)
  from Cons.IH [OF this] obtain m' where m': "run_threads dispatch_op ths (m ++ lmf) = Inr (concat (map fst fins'), m')"
    "\<forall>fin \<in> set fins'. snd fin \<subseteq>\<^sub>m m'" "\<forall>x. x \<notin> \<Union> (set As') \<longrightarrow> m' x = (m ++ lmf) x"
    by blast
  have "lmf \<subseteq>\<^sub>m m'" using m'(3) d dis by (fastforce simp: map_le_def map_add_dom_app_simps)
  moreover have "m' x = m x" if "x \<notin> \<Union> (set As)" for x
  proof -
    have "x \<notin> dom lmf" "x \<notin> \<Union> (set As')" using that d e(1) by auto
    with m'(3) show ?thesis by (simp add: map_add_dom_app_simps(3))
  qed
  ultimately show ?case using e(2) fin j m' by auto
qed

section \<open>Determinism and safety\<close>

lemma kernel_step_sub_inv:
  assumes "kernel_step sub cf cf'" "sub_inv sub (cf_mem cf)"
  shows "sub_inv sub (cf_mem cf')"
  using assms
proof (cases rule: kernel_step.cases)
  case (join th ths mem)
  have "sub_inv sub (set_threads ths (cf_mem cf))" using assms(2) by simp
  then obtain mem' where "put_all (cqe_put sub) (cqes_of (th_results th)) (set_threads ths (cf_mem cf)) = Inr mem'"
    "sub_inv sub mem'"
    by (rule put_all_total)
  with join show ?thesis by (simp add: post_results_put_all)
qed simp

lemma quiet_steps_sub_inv:
  "(quiet_step sub A)\<^sup>*\<^sup>* cf cf' \<Longrightarrow> sub_inv sub (cf_mem cf) \<Longrightarrow> sub_inv sub (cf_mem cf')"
  by (induction rule: rtranclp_induct) (auto elim!: quiet_stepE dest: kernel_step_sub_inv)

lemma separate_outcome:
  assumes "separate As (cf_umem cf) (cf_threads cf) fins"
    and "(quiet_step sub (\<Union> (set As)))\<^sup>*\<^sup>* cf cf'" "cf_threads cf' = []"
  shows "cf_joined cf' = cf_joined cf @ concat (map fst fins)"
    and "post_results sub (concat (map fst fins)) (set_threads [] (cf_mem cf)) = Inr (cf_mem cf')"
    and "fin \<in> set fins \<Longrightarrow> snd fin \<subseteq>\<^sub>m cf_umem cf'"
proof -
  obtain k where k: "quiet_inv sub As fins (cf_joined cf)
      (post_results sub (concat (map fst fins)) (set_threads [] (cf_mem cf))) k cf'"
    using quiet_inv_steps [OF assms(2) separate_own_sets [OF assms(1)] quiet_inv_init [OF assms(1)]] by blast
  from quiet_inv_end [OF k assms(3)]
  show "cf_joined cf' = cf_joined cf @ concat (map fst fins)"
    "post_results sub (concat (map fst fins)) (set_threads [] (cf_mem cf)) = Inr (cf_mem cf')"
    "fin \<in> set fins \<Longrightarrow> snd fin \<subseteq>\<^sub>m cf_umem cf'"
    by blast+
qed

lemma separate_flush:
  assumes i: "sub_inv sub (cf_mem cf)" and s: "separate As (cf_umem cf) (cf_threads cf) fins"
  obtains m where "flush_pending sub (cf_mem cf) (cf_umem cf) =
      and_then (post_results sub (concat (map fst fins)) (set_threads [] (cf_mem cf))) (\<lambda>mem. Inr (mem, m))"
    "\<And>fin. fin \<in> set fins \<Longrightarrow> snd fin \<subseteq>\<^sub>m m" "\<And>x. x \<notin> \<Union> (set As) \<Longrightarrow> m x = cf_umem cf x"
proof -
  obtain m where m: "run_threads dispatch_op (cf_threads cf) (cf_umem cf) = Inr (concat (map fst fins), m)"
    "\<forall>fin \<in> set fins. snd fin \<subseteq>\<^sub>m m" "\<forall>x. x \<notin> \<Union> (set As) \<longrightarrow> m x = cf_umem cf x"
    using separate_run_threads [OF separate_owns [OF s]] by blast
  have "sub_inv sub (set_threads [] (cf_mem cf))" using i by simp
  from flush_batches_law [OF this] m(1)
  have "flush_pending sub (cf_mem cf) (cf_umem cf) =
      and_then (post_results sub (concat (map fst fins)) (set_threads [] (cf_mem cf))) (\<lambda>mem. Inr (mem, m))"
    by (simp add: flush_pending_def post_results_put_all)
  with m that show ?thesis by blast
qed

text \<open>Whatever has happened, every outstanding thread can take its next step.\<close>

lemma separate_dispatch:
  assumes s: "separate As (cf_umem cf) (cf_threads cf) fins"
    and r: "(quiet_step sub (\<Union> (set As)))\<^sup>*\<^sup>* cf cf'"
    and t: "i < length (cf_threads cf')" "th_sqes (cf_threads cf' ! i) = sqe # rest"
  shows "\<exists>r. complete_one dispatch_op sqe (th_cancel_chain (cf_threads cf' ! i)) (cf_umem cf') = Inr r"
proof -
  obtain k where "quiet_inv sub As fins (cf_joined cf)
      (post_results sub (concat (map fst fins)) (set_threads [] (cf_mem cf))) k cf'"
    using quiet_inv_steps [OF r separate_own_sets [OF s] quiet_inv_init [OF s]] by blast
  then obtain lms where "owns (drop k As) (cf_umem cf') (cf_threads cf') lms (drop k fins)"
    by (auto simp: quiet_inv_def)
  from owns_dispatch [OF this t] show ?thesis by blast
qed

lemma separate_progress:
  assumes i: "sub_inv sub (cf_mem cf)" and s: "separate As (cf_umem cf) (cf_threads cf) fins"
    and r: "(quiet_step sub (\<Union> (set As)))\<^sup>*\<^sup>* cf cf'" and t: "cf_threads cf' \<noteq> []"
  shows "\<exists>cf2. kernel_step sub cf' cf2"
proof -
  obtain th ths where th: "cf_threads cf' = th # ths" using t by (cases "cf_threads cf'") auto
  show ?thesis
    by (rule kernel_step_enabled [OF quiet_steps_sub_inv [OF r i] th])
      (use separate_dispatch [OF s r, of 0] th in fastforce)
qed

lemma kernel_steps_quiet: "(kernel_step sub)\<^sup>*\<^sup>* cf cf' \<Longrightarrow> (quiet_step sub A)\<^sup>*\<^sup>* cf cf'"
  by (erule mono_rtranclp [rule_format, rotated]) (rule quiet_step.kernel)

lemma separate_finishes:
  assumes "sub_inv sub (cf_mem cf)" "separate As (cf_umem cf) (cf_threads cf) fins"
  shows "\<exists>cf'. (kernel_step sub)\<^sup>*\<^sup>* cf cf' \<and> cf_threads cf' = []"
proof -
  obtain m where f: "flush_pending sub (cf_mem cf) (cf_umem cf) =
      and_then (post_results sub (concat (map fst fins)) (set_threads [] (cf_mem cf))) (\<lambda>mem. Inr (mem, m))"
    using separate_flush [OF assms] by blast
  have "sub_inv sub (set_threads [] (cf_mem cf))" using assms(1) by simp
  then obtain mem where "post_results sub (concat (map fst fins)) (set_threads [] (cf_mem cf)) = Inr mem"
    unfolding post_results_put_all by (rule put_all_total)
  with f flush_schedule [of sub cf mem m] show ?thesis by auto
qed

section \<open>Two reads\<close>

text \<open>Two outstanding batches, each with one read into its own eight bytes of the page.\<close>

definition two_reads :: "(Entry, cq_Entry) conf" where
  "two_reads = conf_init (set_threads [thread_spawn [example_sqe IORING_OP_READ 4096 8],
     thread_spawn [example_sqe IORING_OP_READ 4104 8]] start_mem) page_mem"

abbreviation two_parts :: "u64 set list" where
  "two_parts \<equiv> [region 4096 8, region 4104 8]"

definition two_fins :: "(CompletionData list \<times> umem) list" where
  "two_fins = map (\<lambda>a. ([completed 8 (example_sqe IORING_OP_READ a 8)],
     zeroed (page_mem |` region a 8) (region a 8))) [4096, 4104]"

lemma two_reads_simps:
  "sub_inv example_sub (cf_mem two_reads)" "cf_umem two_reads = page_mem"
  "cf_threads two_reads = [thread_spawn [example_sqe IORING_OP_READ 4096 8],
     thread_spawn [example_sqe IORING_OP_READ 4104 8]]"
  using start_sub_inv by (simp_all add: two_reads_def conf_init_def)

lemma live_restrict: "live m a n \<Longrightarrow> live (m |` region a n) a n"
  by (auto simp: live_def region_def)

lemma read_join:
  assumes "live page_mem a 8" "a \<noteq> 0"
  shows "thread_join dispatch_op (thread_spawn [example_sqe IORING_OP_READ a 8]) (page_mem |` region a 8)
    = Inr ([completed 8 (example_sqe IORING_OP_READ a 8)], zeroed (page_mem |` region a 8) (region a 8))"
proof -
  have "dispatch_op (example_sqe IORING_OP_READ a 8) (page_mem |` region a 8) =
      dispatch_buf_fill (example_sqe IORING_OP_READ a 8) (page_mem |` region a 8)"
    by (rule dispatch_op_fill) (simp add: sys_consts)
  also have "\<dots> = Inr (8, zeroed (page_mem |` region a 8) (region a 8))"
    using live_restrict [OF assms(1)] assms(2) by (simp add: dispatch_buf_fill_eq)
  finally show ?thesis
    by (simp add: thread_join_spawn links_def is_link_def is_hardlink_def example_sqe_def io_uring_sqe_default_def)
qed

lemma two_reads_separate: "separate two_parts (cf_umem two_reads) (cf_threads two_reads) two_fins"
proof -
  have l: "live page_mem 4096 8" "live page_mem 4104 8"
    using page_mem_ok_at [of 0 8] page_mem_ok_at [of 8 8] by simp_all
  have "(4096 :: u64) + of_nat i \<noteq> 4104 + of_nat j" if "i < 8" "j < 8" for i j
    using that by (auto dest!: arg_cong [of _ _ unat] simp: unat_word_ariths unat_of_nat)
  then have "region 4096 8 \<inter> region 4104 8 = {}" by (auto simp: region_def)
  then have "disjoint_family_on (\<lambda>i. two_parts ! i) {..<length (cf_threads two_reads)}"
    by (simp add: disjoint_family_on_def two_reads_simps lessThan_Suc Int_commute)
  moreover have "(4096 :: u64) \<noteq> 0" "(4104 :: u64) \<noteq> 0" by simp_all
  note read_join [OF l(1) this(1)] read_join [OF l(2) this(2)]
  ultimately show ?thesis by (simp add: separate_def two_reads_simps two_fins_def All_less_Suc2)
qed

section \<open>The properties\<close>

text \<open>C11: batches on disjoint memory are deterministic.  Let every outstanding thread own a set of
  addresses, the sets disjoint, such that the thread run alone on the memory of its set returns
  \<open>fins ! i\<close>.  However the threads and joins interleave, and whatever the application writes outside
  these sets meanwhile, once nothing is outstanding the ring is exactly what the sequential
  \<open>flush_pending\<close> gives, the results are those of the threads in the order of the batches, and the
  memory each thread owns is what it leaves when it runs alone, also as after \<open>flush_pending\<close>.\<close>

theorem disjoint_batches_are_deterministic:
  assumes "sub_inv sub (cf_mem cf)" "separate As (cf_umem cf) (cf_threads cf) fins"
    and "(quiet_step sub (\<Union> (set As)))\<^sup>*\<^sup>* cf cf'" "cf_threads cf' = []"
  shows "cf_joined cf' = cf_joined cf @ concat (map fst fins)
    \<and> (\<exists>m. flush_pending sub (cf_mem cf) (cf_umem cf) = Inr (cf_mem cf', m)
         \<and> (\<forall>fin \<in> set fins. snd fin \<subseteq>\<^sub>m m \<and> snd fin \<subseteq>\<^sub>m cf_umem cf'))"
proof -
  note o = separate_outcome [OF assms(2-4)]
  obtain m where m: "flush_pending sub (cf_mem cf) (cf_umem cf) =
      and_then (post_results sub (concat (map fst fins)) (set_threads [] (cf_mem cf))) (\<lambda>mem. Inr (mem, m))"
    "\<And>fin. fin \<in> set fins \<Longrightarrow> snd fin \<subseteq>\<^sub>m m"
    using separate_flush [OF assms(1,2)] by metis
  with o show ?thesis by auto
qed

theorem disjoint_batches_are_deterministic_witness:
  "\<exists>cf'. (quiet_step example_sub (\<Union> (set two_parts)))\<^sup>*\<^sup>* two_reads cf' \<and> cf_threads cf' = []
     \<and> cf_joined cf' = map (\<lambda>a. completed 8 (example_sqe IORING_OP_READ a 8)) [4096, 4104]
     \<and> cf_umem cf' 4100 = Some (Byte 0)"
proof -
  obtain cf' where k: "(kernel_step example_sub)\<^sup>*\<^sup>* two_reads cf'" "cf_threads cf' = []"
    using separate_finishes [OF two_reads_simps(1) two_reads_separate] by blast
  note q = kernel_steps_quiet [OF k(1)]
  from disjoint_batches_are_deterministic [OF two_reads_simps(1) two_reads_separate q k(2)]
  have d: "cf_joined cf' = cf_joined two_reads @ concat (map fst two_fins)"
    "\<forall>fin \<in> set two_fins. snd fin \<subseteq>\<^sub>m cf_umem cf'"
    by auto
  have "4100 \<in> region 4096 8" unfolding region_def by (rule image_eqI [of _ _ 4]) simp_all
  with d(2) have "cf_umem cf' 4100 = Some (Byte 0)"
    by (fastforce simp: two_fins_def zeroed_def map_le_def dom_def)
  with q k(2) d(1) show ?thesis
    by (intro exI [of _ cf']) (simp add: two_fins_def two_reads_def conf_init_def)
qed

text \<open>and they are safe: in every state that such an interleaving reaches, no outstanding thread,
  not only the oldest one, is about to run into undefined behaviour, and as long as one is
  outstanding the system can go on.\<close>

theorem disjoint_batches_are_safe:
  assumes "sub_inv sub (cf_mem cf)" "separate As (cf_umem cf) (cf_threads cf) fins"
    and "(quiet_step sub (\<Union> (set As)))\<^sup>*\<^sup>* cf cf'"
  shows "(\<forall>th \<in> set (cf_threads cf'). case th_sqes th of [] \<Rightarrow> True
       | sqe # _ \<Rightarrow> \<exists>r. complete_one dispatch_op sqe (th_cancel_chain th) (cf_umem cf') = Inr r)
    \<and> (cf_threads cf' \<noteq> [] \<longrightarrow> (\<exists>cf2. kernel_step sub cf' cf2))"
proof (intro conjI ballI impI)
  fix th assume "th \<in> set (cf_threads cf')"
  then obtain i where i: "i < length (cf_threads cf')" "cf_threads cf' ! i = th" by (auto simp: in_set_conv_nth)
  with separate_dispatch [OF assms(2,3) i(1)] show "case th_sqes th of [] \<Rightarrow> True
       | sqe # _ \<Rightarrow> \<exists>r. complete_one dispatch_op sqe (th_cancel_chain th) (cf_umem cf') = Inr r"
    by (simp split: list.split)
qed (rule separate_progress [OF assms])

theorem disjoint_batches_are_safe_witness: "\<exists>cf. kernel_step example_sub two_reads cf"
  using disjoint_batches_are_safe [OF two_reads_simps(1) two_reads_separate rtranclp.rtrancl_refl]
  by (simp add: two_reads_simps)

end
