(* ===== verification/Miring_Detect.thy ===== *)
theory Miring_Detect
  imports Miring_Races
begin

text \<open>
  What the emulator is for: an application that frees a buffer of an outstanding operation is found
  out.  The first part says that every handler of \<^verbatim>\<open>src/submit.rs\<close> dereferences the whole of every
  buffer its entry points to, so that an entry with a dangling pointer is undefined behaviour when it
  is dispatched.  The second part follows a freed buffer through the concurrent system: the entry is
  not dispatched under any schedule, its thread is never joined, and \<open>flush_pending\<close>, and with it
  \<open>completion()\<close>, is undefined behaviour.
\<close>

section \<open>The pointers of an entry\<close>

text \<open>
  The buffers that the fields of an entry point to, as address and length, by opcode; null pointers
  are left out.  Of a path it is the first byte, of a vector of buffers or a message header the
  vector or header itself.
\<close>

definition pointers :: "io_uring_sqe \<Rightarrow> (u64 \<times> nat) list" where
  "pointers sqe = (let opc = ucast (sqe_opcode sqe) :: u32; addr = sqe_addr sqe; off = sqe_off sqe;
       len = unat (sqe_len sqe); ptr = (\<lambda>a n. if a = 0 then [] else [(a, n)]) in
     if opc \<in> {IORING_OP_READ, IORING_OP_READ_FIXED, IORING_OP_RECV, IORING_OP_READ_MULTISHOT,
         IORING_OP_WRITE, IORING_OP_WRITE_FIXED, IORING_OP_SEND, IORING_OP_SEND_ZC} then ptr addr len
     else if opc \<in> {IORING_OP_READV, IORING_OP_WRITEV, IORING_OP_READV_FIXED, IORING_OP_WRITEV_FIXED}
       then ptr addr (len * 16)
     else if opc \<in> {IORING_OP_RECVMSG, IORING_OP_SENDMSG, IORING_OP_SENDMSG_ZC} then ptr addr 56
     else if opc \<in> {IORING_OP_TIMEOUT, IORING_OP_LINK_TIMEOUT} then ptr addr 16
     else if opc \<in> {IORING_OP_CONNECT, IORING_OP_BIND} then ptr addr (unat off)
     else if opc = IORING_OP_ACCEPT then (if addr = 0 then [] else ptr off 4)
     else if opc \<in> {IORING_OP_OPENAT, IORING_OP_UNLINKAT, IORING_OP_MKDIRAT} then ptr addr 1
     else if opc = IORING_OP_OPENAT2 then (if addr = 0 then [] else ptr addr 1 @ ptr off 24)
     else if opc = IORING_OP_STATX then ptr addr 1 @ ptr off 256
     else if opc \<in> {IORING_OP_RENAMEAT, IORING_OP_SYMLINKAT, IORING_OP_LINKAT}
       then (if addr = 0 \<or> off = 0 then [] else [(addr, 1), (off, 1)])
     else if opc = IORING_OP_EPOLL_CTL then ptr addr 12
     else if opc = IORING_OP_FILES_UPDATE then ptr addr (len * 4)
     else if opc = IORING_OP_PROVIDE_BUFFERS
       then ptr addr (unat (saturating_mul (scast (sqe_fd sqe) :: usize) (ucast (sqe_len sqe))))
     else if opc \<in> {IORING_OP_FSETXATTR, IORING_OP_FGETXATTR} then ptr addr 1 @ ptr off len
     else if opc \<in> {IORING_OP_SETXATTR, IORING_OP_GETXATTR}
       then ptr addr 1 @ ptr off len @ ptr (sqe_addr3 sqe) 1
     else if opc = IORING_OP_EPOLL_WAIT then ptr addr (len * 12)
     else if opc \<in> {IORING_OP_FUTEX_WAIT, IORING_OP_FUTEX_WAKE} then ptr addr 4
     else if opc = IORING_OP_FUTEX_WAITV then ptr addr (len * 24)
     else if opc = IORING_OP_WAITID then ptr off 128
     else if opc = IORING_OP_PIPE then ptr addr 8
     else [])"

definition pointed :: "io_uring_sqe \<Rightarrow> u64 set" where
  "pointed sqe = (\<Union>(a, n) \<in> set (pointers sqe). region a n)"

subsection \<open>The handlers dereference them\<close>

named_theorems live_dests \<open>what an access that returns says about liveness\<close>

text \<open>All addresses of a buffer are live; unlike \<open>live\<close> this does not ask that it stay below \<open>2 ^ 64\<close>.\<close>

definition mapped :: "umem \<Rightarrow> u64 \<Rightarrow> nat \<Rightarrow> bool" where
  "mapped m a n \<longleftrightarrow> region a n \<subseteq> dom m"

lemma mapped_empty [simp]: "mapped m a 0"
  by (simp add: mapped_def)

lemma live_mapped [live_dests]: "live m a n \<Longrightarrow> mapped m a n"
  using liveD by (simp add: mapped_def)

lemma load_mapped: "load m a n = Inr bs \<Longrightarrow> mapped m a n"
  by (auto simp: load_Inr_iff region_def dom_def mapped_def)

lemma same_dom_mapped: "same_dom m m' \<Longrightarrow> mapped m' a n = mapped m a n"
  by (simp add: mapped_def same_dom_def)

lemma access_mapped [live_dests]:
  "slice_sink m a n s = Inr v \<Longrightarrow> mapped m a n"
  "slice_fill m a n = Inr m' \<Longrightarrow> mapped m a n"
  "ptr_read m a al n = Inr bs \<Longrightarrow> mapped m a n"
  by (auto simp: slice_sink_def slice_fill_def ptr_read_def and_then_eq_Inr dest: live_mapped)

lemma walk_cstr_mapped [live_dests]: "walk_cstr m p = Inr u \<Longrightarrow> mapped m p 1"
proof -
  assume "walk_cstr m p = Inr u"
  then obtain bs where "ptr_read m p 1 1 = Inr bs"
    by (subst (asm) walk_cstr.simps) (elim and_then_eq_Inr [THEN iffD1, THEN exE], blast)
  then show ?thesis by (rule access_mapped)
qed

lemma word_mapped [live_dests]:
  "read_u32 m a = Inr v \<Longrightarrow> mapped m a 4"
  "write_u32 m a v = Inr m' \<Longrightarrow> mapped m a 4"
  by (auto simp: read_u32_def write_u32_def ptr_write_def and_then_eq_Inr dest: live_dests)

lemma region_split: "region a (k + n) = region a k \<union> region (a + of_nat k) n"
  by (induction k arbitrary: a) (simp_all add: region_Suc add.assoc)

lemma handler_mapped_most:
  "dispatch_buf_fill sqe m = Inr r \<Longrightarrow> sqe_addr sqe \<noteq> 0 \<Longrightarrow> mapped m (sqe_addr sqe) (unat (sqe_len sqe))"
  "dispatch_buf_sink sqe m = Inr r \<Longrightarrow> sqe_addr sqe \<noteq> 0 \<Longrightarrow> mapped m (sqe_addr sqe) (unat (sqe_len sqe))"
  "dispatch_readv sqe m = Inr r \<Longrightarrow> sqe_addr sqe \<noteq> 0 \<Longrightarrow> mapped m (sqe_addr sqe) (unat (sqe_len sqe) * 16)"
  "dispatch_writev sqe m = Inr r \<Longrightarrow> sqe_addr sqe \<noteq> 0 \<Longrightarrow> mapped m (sqe_addr sqe) (unat (sqe_len sqe) * 16)"
  "dispatch_recvmsg sqe m = Inr r \<Longrightarrow> sqe_addr sqe \<noteq> 0 \<Longrightarrow> mapped m (sqe_addr sqe) 56"
  "dispatch_sendmsg sqe m = Inr r \<Longrightarrow> sqe_addr sqe \<noteq> 0 \<Longrightarrow> mapped m (sqe_addr sqe) 56"
  "dispatch_timeout sqe m = Inr r \<Longrightarrow> sqe_addr sqe \<noteq> 0 \<Longrightarrow> mapped m (sqe_addr sqe) 16"
  "dispatch_connect sqe m = Inr r \<Longrightarrow> sqe_addr sqe \<noteq> 0 \<Longrightarrow> mapped m (sqe_addr sqe) (unat (sqe_off sqe))"
  "dispatch_accept sqe m = Inr r \<Longrightarrow> sqe_addr sqe \<noteq> 0 \<Longrightarrow> sqe_off sqe \<noteq> 0 \<Longrightarrow> mapped m (sqe_off sqe) 4"
  "dispatch_openat sqe m = Inr r \<Longrightarrow> sqe_addr sqe \<noteq> 0 \<Longrightarrow> mapped m (sqe_addr sqe) 1"
  "dispatch_pathname sqe m = Inr r \<Longrightarrow> sqe_addr sqe \<noteq> 0 \<Longrightarrow> mapped m (sqe_addr sqe) 1"
  "dispatch_openat2 sqe m = Inr r \<Longrightarrow> sqe_addr sqe \<noteq> 0 \<Longrightarrow> mapped m (sqe_addr sqe) 1"
  "dispatch_openat2 sqe m = Inr r \<Longrightarrow> sqe_addr sqe \<noteq> 0 \<Longrightarrow> sqe_off sqe \<noteq> 0 \<Longrightarrow> mapped m (sqe_off sqe) 24"
  "dispatch_statx sqe m = Inr r \<Longrightarrow> sqe_addr sqe \<noteq> 0 \<Longrightarrow> mapped m (sqe_addr sqe) 1"
  "dispatch_statx sqe m = Inr r \<Longrightarrow> sqe_off sqe \<noteq> 0 \<Longrightarrow> mapped m (sqe_off sqe) 256"
  "dispatch_pathname2 sqe m = Inr r \<Longrightarrow> sqe_addr sqe \<noteq> 0 \<Longrightarrow> sqe_off sqe \<noteq> 0 \<Longrightarrow> mapped m (sqe_addr sqe) 1"
  "dispatch_pathname2 sqe m = Inr r \<Longrightarrow> sqe_addr sqe \<noteq> 0 \<Longrightarrow> sqe_off sqe \<noteq> 0 \<Longrightarrow> mapped m (sqe_off sqe) 1"
  "dispatch_epoll_ctl sqe m = Inr r \<Longrightarrow> sqe_addr sqe \<noteq> 0 \<Longrightarrow> mapped m (sqe_addr sqe) 12"
  "dispatch_files_update sqe m = Inr r \<Longrightarrow> sqe_addr sqe \<noteq> 0 \<Longrightarrow> mapped m (sqe_addr sqe) (unat (sqe_len sqe) * 4)"
  "dispatch_xattr_set sqe m = Inr r \<Longrightarrow> sqe_addr sqe \<noteq> 0 \<Longrightarrow> mapped m (sqe_addr sqe) 1"
  "dispatch_xattr_set sqe m = Inr r \<Longrightarrow> sqe_off sqe \<noteq> 0 \<Longrightarrow> mapped m (sqe_off sqe) (unat (sqe_len sqe))"
  "dispatch_xattr_set sqe m = Inr r \<Longrightarrow> ucast (sqe_opcode sqe) = IORING_OP_SETXATTR \<Longrightarrow> sqe_addr3 sqe \<noteq> 0 \<Longrightarrow>
     mapped m (sqe_addr3 sqe) 1"
  "dispatch_xattr_get sqe m = Inr r \<Longrightarrow> sqe_addr sqe \<noteq> 0 \<Longrightarrow> mapped m (sqe_addr sqe) 1"
  "dispatch_xattr_get sqe m = Inr r \<Longrightarrow> sqe_off sqe \<noteq> 0 \<Longrightarrow> mapped m (sqe_off sqe) (unat (sqe_len sqe))"
  "dispatch_futex_read sqe m = Inr r \<Longrightarrow> sqe_addr sqe \<noteq> 0 \<Longrightarrow> mapped m (sqe_addr sqe) 4"
  "dispatch_futex_waitv sqe m = Inr r \<Longrightarrow> sqe_addr sqe \<noteq> 0 \<Longrightarrow> mapped m (sqe_addr sqe) (unat (sqe_len sqe) * 24)"
  "dispatch_waitid sqe m = Inr r \<Longrightarrow> sqe_off sqe \<noteq> 0 \<Longrightarrow> mapped m (sqe_off sqe) 128"
  by (auto simp: handler_defs Let_def and_then_eq_Inr rust_mul_def word_gt_0 simp del: load.simps split: if_splits dest: live_dests)

lemma xattr_get_path_mapped:
  "dispatch_xattr_get sqe m = Inr r \<Longrightarrow> ucast (sqe_opcode sqe) = IORING_OP_GETXATTR \<Longrightarrow> sqe_addr3 sqe \<noteq> 0 \<Longrightarrow>
     mapped m (sqe_addr3 sqe) 1"
  by (auto simp: dispatch_xattr_get_def Let_def and_then_eq_Inr split: if_splits
      dest!: walk_cstr_mapped slice_fill_dom simp: same_dom_mapped)

lemma provide_buffers_mapped:
  "dispatch_provide_buffers sqe m = Inr r \<Longrightarrow> sqe_addr sqe \<noteq> 0 \<Longrightarrow>
     mapped m (sqe_addr sqe) (unat (saturating_mul (scast (sqe_fd sqe) :: usize) (ucast (sqe_len sqe))))"
  by (auto simp: dispatch_provide_buffers_def Let_def and_then_eq_Inr simp del: load.simps split: if_splits
      dest: live_mapped simp: saturating_mul_def)

lemma epoll_wait_mapped:
  "dispatch_epoll_wait sqe m = Inr r \<Longrightarrow> sqe_addr sqe \<noteq> 0 \<Longrightarrow> mapped m (sqe_addr sqe) (unat (sqe_len sqe) * 12)"
proof -
  have "unat (sqe_len sqe) * 12 < 2 ^ 64" using unat_u32_lt [of "sqe_len sqe"] by simp
  then have "unat (ucast (sqe_len sqe) * 12 :: usize) = unat (sqe_len sqe) * 12" by (simp add: unat_word_ariths)
  then show "dispatch_epoll_wait sqe m = Inr r \<Longrightarrow> sqe_addr sqe \<noteq> 0 \<Longrightarrow> ?thesis"
    by (auto simp: dispatch_epoll_wait_def Let_def and_then_eq_Inr rust_mul_def split: if_splits dest: access_mapped)
qed

lemma pipe_mapped: "dispatch_pipe sqe m = Inr r \<Longrightarrow> sqe_addr sqe \<noteq> 0 \<Longrightarrow> mapped m (sqe_addr sqe) 8"
proof -
  assume "dispatch_pipe sqe m = Inr r" "sqe_addr sqe \<noteq> 0"
  then obtain m1 m2 where w: "write_u32 m (sqe_addr sqe) 42 = Inr m1" "write_u32 m1 (sqe_addr sqe + 4) 43 = Inr m2"
    by (auto simp: dispatch_pipe_def Let_def and_then_eq_Inr)
  have "mapped m (sqe_addr sqe + 4) 4" using word_mapped(2) [OF w(2)] same_dom_mapped [OF write_u32_dom [OF w(1)]] by simp
  with word_mapped(2) [OF w(1)] region_split [of "sqe_addr sqe" 4 4] show ?thesis by (simp add: mapped_def)
qed

lemmas handler_mapped = handler_mapped_most xattr_get_path_mapped provide_buffers_mapped epoll_wait_mapped pipe_mapped

lemmas handler_mapped_num = handler_mapped [unfolded One_nat_def IORING_OP_SETXATTR_def IORING_OP_GETXATTR_def]

lemma dispatch_mapped:
  assumes "dispatch_op sqe m = Inr r" "(a, n) \<in> set (pointers sqe)"
  shows "mapped m a n"
  using assms(2) unfolding pointers_def Let_def
  by (simp only: if_True if_False split: if_split_asm)
    (use assms(1) in \<open>(elim insertE emptyE)?; simp add: dispatch_op_def sys_consts Let_def split: if_splits;
      (blast dest: handler_mapped_num)?\<close>)+

lemma no_panic_fails:
  assumes "no_panic x" "\<And>r. x \<noteq> Inr r"
  obtains u where "x = Inl (UndefinedBehavior u)"
proof (cases x)
  case (Inl e)
  with assms(1) that show ?thesis by (cases e) (auto simp: no_panic_def)
qed (use assms(2) in auto)

section \<open>Entries that are dispatched whatever happens\<close>

text \<open>
  An entry of a thread that no failing predecessor can cancel: it starts a link chain, or it is the
  next one of a thread that is not inside a cancelled chain.
\<close>

definition chain_head :: "dispatch_thread \<Rightarrow> nat \<Rightarrow> bool" where
  "chain_head th k \<longleftrightarrow> k < length (th_sqes th)
     \<and> (if k = 0 then \<not> th_cancel_chain th else \<not> links (th_sqes th ! (k - 1)))"

definition awaits :: "io_uring_sqe \<Rightarrow> dispatch_thread \<Rightarrow> bool" where
  "awaits sqe th \<longleftrightarrow> (\<exists>k. chain_head th k \<and> th_sqes th ! k = sqe)"

text \<open>One iteration of the thread brings it nearer, and it is the next one only to be dispatched.\<close>

lemma awaits_next:
  assumes a: "awaits sqe th" and t: "th_sqes th = s # rest"
    and c: "complete_one dispatch_op s (th_cancel_chain th) m = Inr (cd, b, m')"
  shows "awaits sqe (thread_next th cd b) \<or> (\<exists>r. dispatch_op sqe m = Inr r)"
proof -
  obtain k where k: "chain_head th k" "th_sqes th ! k = sqe" using a by (auto simp: awaits_def)
  show ?thesis
  proof (cases k)
    case 0
    with k t have "\<not> th_cancel_chain th" "s = sqe" by (simp_all add: chain_head_def)
    with c show ?thesis by (auto simp: complete_one_simps and_then_eq_Inr)
  next
    case (Suc j)
    have "\<not> b" if "\<not> links s"
      using c that by (cases "th_cancel_chain th") (auto simp: complete_one_simps and_then_eq_Inr)
    with k t Suc have "chain_head (thread_next th cd b) j \<and> th_sqes (thread_next th cd b) ! j = sqe"
      by (auto simp: chain_head_def thread_next_def nth_Cons split: nat.splits)
    then show ?thesis by (auto simp: awaits_def)
  qed
qed

section \<open>A freed buffer\<close>

text \<open>A byte is freed while an entry that points to it is outstanding.\<close>

definition dangling :: "u64 \<Rightarrow> io_uring_sqe \<Rightarrow> dispatch_thread list \<Rightarrow> umem \<Rightarrow> bool" where
  "dangling x sqe ths m \<longleftrightarrow> x \<in> pointed sqe \<and> m x = None \<and> (\<exists>th \<in> set ths. awaits sqe th)"

lemma dangling_dispatch: "x \<in> pointed sqe \<Longrightarrow> m x = None \<Longrightarrow> dispatch_op sqe m \<noteq> Inr r"
  using dispatch_mapped by (fastforce simp: pointed_def mapped_def)

lemma dangling_next:
  assumes d: "dangling x sqe ths m" and i: "i < length ths" "th_sqes (ths ! i) = s # rest"
    and c: "complete_one dispatch_op s (th_cancel_chain (ths ! i)) m = Inr (cd, b, m')"
  shows "dangling x sqe (ths[i := thread_next (ths ! i) cd b]) m'"
proof -
  have p: "x \<in> pointed sqe" "m x = None" using d by (simp_all add: dangling_def)
  obtain j where j: "j < length ths" "awaits sqe (ths ! j)" using d by (auto simp: dangling_def in_set_conv_nth)
  have "awaits sqe (ths[i := thread_next (ths ! i) cd b] ! j)"
  proof (cases "j = i")
    case True
    with awaits_next [OF _ i(2) c] j dangling_dispatch [OF p(1), of m] p(2) show ?thesis by auto
  qed (use j in simp)
  moreover have "m' x = None"
    using kernel.complete_one_dom [OF c] p(2) by (metis domIff same_dom_def)
  ultimately show ?thesis using p(1) j(1) by (auto simp: dangling_def intro!: bexI nth_mem)
qed

lemma dangling_join: "dangling x sqe (th # ths) m \<Longrightarrow> th_sqes th = [] \<Longrightarrow> dangling x sqe ths m"
  by (auto simp: dangling_def awaits_def chain_head_def)

lemma run_threads_next:
  assumes "th_sqes th = s # rest" "complete_one dispatch_op s (th_cancel_chain th) m = Inr (cd, b, m')"
  shows "run_threads dispatch_op (thread_next th cd b # ths) m' = run_threads dispatch_op (th # ths) m"
  using thread_join_next [OF assms] by simp

lemma dangling_run_threads: "dangling x sqe ths m \<Longrightarrow> run_threads dispatch_op ths m \<noteq> Inr r"
proof (induction "\<Sum>th \<leftarrow> ths. Suc (length (th_sqes th))" arbitrary: ths m r rule: less_induct)
  case less
  from less.prems obtain th ths' where ths: "ths = th # ths'" by (cases ths) (auto simp: dangling_def)
  show ?case
  proof (cases "th_sqes th")
    case Nil
    with less.prems ths dangling_join have "dangling x sqe ths' m" by blast
    with less.hyps [of ths' m] ths Nil show ?thesis by (auto simp: thread_join_def and_then_eq_Inr)
  next
    case (Cons s rest)
    show ?thesis
    proof
      assume run: "run_threads dispatch_op ths m = Inr r"
      then obtain cd b m' where c: "complete_one dispatch_op s (th_cancel_chain th) m = Inr (cd, b, m')"
        using ths Cons by (auto simp: and_then_eq_Inr thread_join_eq_Inr)
      have "dangling x sqe (thread_next th cd b # ths') m'"
        using dangling_next [OF less.prems, of 0] ths Cons c by simp
      with less.hyps [of "thread_next th cd b # ths'" m' r] run_threads_next [OF Cons c, of ths'] run ths Cons
      show False by (simp add: thread_next_def)
    qed
  qed
qed

lemma dangling_flush:
  assumes "sub_inv sub mem" "dangling x sqe (st_pending (rm_state mem)) m"
  obtains u where "flush_pending sub mem m = Inl (UndefinedBehavior u)"
proof -
  obtain u where "run_threads dispatch_op (st_pending (rm_state mem)) m = Inl (UndefinedBehavior u)"
    using dangling_run_threads [OF assms(2)] by (rule no_panic_fails [OF kernel.run_threads_no_panic])
  from flush_pending_fault [OF assms(1) this] that show ?thesis by blast
qed

text \<open>Every step of the system that does not make the byte live again keeps the entry waiting.\<close>

lemma dangling_step:
  assumes "ring_step sub cf cf'" "dangling x sqe (cf_threads cf) (cf_umem cf)" "cf_umem cf' x = None" "conf_inv sub cf"
  shows "dangling x sqe (cf_threads cf') (cf_umem cf')"
  using assms(1)
proof (cases rule: ring_step.cases)
  case (app_push e r sq mem)
  with assms push_sub_inv [of sub "cf_mem cf" e r sq mem] show ?thesis
    by (simp add: conf_inv_def squeue_drop_def)
next
  case (app_submit k n mem)
  have "sub_inv sub (cf_mem cf)" using assms(4) by (simp add: conf_inv_def)
  with app_submit enqueue_sqes_law [of sub "cf_mem cf" k] have "set (cf_threads cf) \<subseteq> set (st_pending (rm_state mem))"
    by auto
  with app_submit assms(2) show ?thesis by (auto simp: dangling_def)
next
  case kernel
  then show ?thesis
  proof (cases rule: kernel_step.cases)
    case (dispatch i s rest cd c m)
    with dangling_next [OF assms(2) dispatch(2,3,4)] show ?thesis by simp
  next
    case (join th ths mem)
    with assms(2) dangling_join post_results_threads [OF join(4)] show ?thesis by fastforce
  qed
qed (use assms in \<open>auto simp: dangling_def cqueue_drop_def\<close>)

inductive freed_step :: "('s, 'c) Submitter \<Rightarrow> u64 \<Rightarrow> ('s, 'c) conf \<Rightarrow> ('s, 'c) conf \<Rightarrow> bool"
  for sub :: "('s, 'c) Submitter" and x :: u64
where
  "ring_step sub cf cf' \<Longrightarrow> cf_umem cf' x = None \<Longrightarrow> freed_step sub x cf cf'"

lemma dangling_steps:
  assumes "(freed_step sub x)\<^sup>*\<^sup>* cf cf'" "dangling x sqe (cf_threads cf) (cf_umem cf)" "conf_inv sub cf"
  shows "dangling x sqe (cf_threads cf') (cf_umem cf') \<and> conf_inv sub cf'"
  using assms by (induction rule: rtranclp_induct) (auto elim!: freed_step.cases intro: dangling_step ring_step_inv)

section \<open>The properties\<close>




definition freed_reads :: "(Entry, cq_Entry) conf" where
  "freed_reads = two_reads\<lparr>cf_pushed := map (\<lambda>a. example_sqe IORING_OP_READ a 8) [4096, 4104],
     cf_accepted := map (\<lambda>a. example_sqe IORING_OP_READ a 8) [4096, 4104], cf_umem := page_mem(4104 := None)\<rparr>"

lemma freed_reads_inv: "conf_inv example_sub freed_reads"
  using two_reads_simps example_ring_start
  by (simp add: freed_reads_def conf_inv_def two_reads_def conf_init_def ring_start_def thread_owes_def thread_spawn_def
      sq_unchanged [of "set_threads _ start_mem" start_mem])

lemma read_points: "4104 \<in> pointed (example_sqe IORING_OP_READ 4104 8)"
  using region_mem [of 0 8 4104] by (simp add: pointed_def pointers_def sys_consts)


text \<open>The same through the interface of the crate, for calls that are not interleaved.\<close>

lemma completion_fault:
  assumes "flush_pending (IoUring_submitter S C ring) (ring_memory ring) m = Inl e"
  shows "IoUring_completion S C ring m = Inl e" "IoUring_split S C ring m = Inl e"
  using assms by (simp_all add: IoUring_completion_def IoUring_flush_pending_def IoUring_split_def)


definition read_ring :: "(Entry, cq_Entry) IoUring" where
  "read_ring = idle_ring\<lparr>ring_memory := start_mem\<lparr>rm_state := new_RingState\<lparr>st_sq_tail := 1\<rparr>,
     rm_sqes := replicate 4 (Entry (example_sqe IORING_OP_READ 4104 8))\<rparr>\<rparr>"

lemma read_ring_ok:
  "ring_inv Entry_marker cq_Entry_marker read_ring"
  "ring_sqes Entry_marker cq_Entry_marker read_ring = [example_sqe IORING_OP_READ 4104 8]"
  by (simp_all add: read_ring_def idle_ring_def start_mem_def ring_inv_def sub_inv_def example_defs dist_def
      ring_sqes_def sq_published_def ring_slice_def Entry_marker_def ring_index_def)


end
