(* ===== verification/Miring_Happens_Before.thy ===== *)
theory Miring_Happens_Before
  imports Miring_Detect
begin

text \<open>
  Data races between the application and the dispatch threads, as a race detector sees them.  A run of
  the concurrent system of \<open>Miring_Concurrency\<close> leaves a trace of events: accesses of the application to
  its memory, the spawn of a dispatch thread by \<open>enqueue_sqes\<close>, the iterations of its loop with what they
  touch, and its join in \<open>flush_pending\<close>.  Happens-before is the order that program order and the
  synchronisation of spawn and join give; a dispatch thread runs no other synchronising operation.  Two
  conflicting events that it leaves unordered are a race, in whatever order this run has executed them.
  The result is that the window in which an access of the application races with a batch is exactly the
  time from the \<open>submit\<close> that spawned it to the \<open>completion\<close> that joins it.
\<close>

section \<open>Events and happens-before\<close>

text \<open>
  \<open>App\<close> has the bytes read and written; \<open>Op\<close> has the number of its thread, its entry, the bytes it
  touches and those it changes.
\<close>

datatype event =
    App "u64 set" "u64 set"
  | Spawn nat
  | Op nat io_uring_sqe "u64 set" "u64 set"
  | Join nat

fun ev_thread :: "event \<Rightarrow> nat option" where
  "ev_thread (Op t sqe T C) = Some t"
| "ev_thread e = None"

fun synchronizes :: "event \<Rightarrow> event \<Rightarrow> bool" where
  "synchronizes (Spawn t) (Op t' sqe T C) \<longleftrightarrow> t = t'"
| "synchronizes (Op t sqe T C) (Join t') \<longleftrightarrow> t = t'"
| "synchronizes e e' \<longleftrightarrow> False"

definition hb_edge :: "event list \<Rightarrow> nat \<Rightarrow> nat \<Rightarrow> bool" where
  "hb_edge tr i j \<longleftrightarrow> i < j \<and> j < length tr
     \<and> (ev_thread (tr ! i) = ev_thread (tr ! j) \<or> synchronizes (tr ! i) (tr ! j))"

abbreviation happens_before :: "event list \<Rightarrow> nat \<Rightarrow> nat \<Rightarrow> bool" where
  "happens_before tr \<equiv> (hb_edge tr)\<^sup>+\<^sup>+"

fun conflict :: "event \<Rightarrow> event \<Rightarrow> bool" where
  "conflict (App R W) (Op t sqe T C) \<longleftrightarrow> W \<inter> T \<noteq> {} \<or> R \<inter> C \<noteq> {}"
| "conflict (Op t sqe T C) (App R W) \<longleftrightarrow> W \<inter> T \<noteq> {} \<or> R \<inter> C \<noteq> {}"
| "conflict (Op t sqe T C) (Op t' sqe' T' C') \<longleftrightarrow> C \<inter> T' \<noteq> {} \<or> T \<inter> C' \<noteq> {}"
| "conflict e e' \<longleftrightarrow> False"

definition race :: "event list \<Rightarrow> nat \<Rightarrow> nat \<Rightarrow> bool" where
  "race tr i j \<longleftrightarrow> conflict (tr ! i) (tr ! j) \<and> i \<noteq> j
     \<and> \<not> happens_before tr i j \<and> \<not> happens_before tr j i"

text \<open>A set of positions that the edges do not leave holds everything that comes after its members.\<close>

lemma hb_closed:
  assumes "happens_before tr i j" "P i" "\<And>i j. hb_edge tr i j \<Longrightarrow> P i \<Longrightarrow> P j"
  shows "P j"
  using assms by (induction rule: tranclp_induct) blast+

lemma hb_less: "happens_before tr i j \<Longrightarrow> i < j \<and> j < length tr"
  by (induction rule: tranclp_induct) (auto simp: hb_edge_def)

lemma synchronizes_cases:
  assumes "synchronizes e e'"
  obtains (fork) t sqe T C where "e = Spawn t" "e' = Op t sqe T C"
  | (joins) t sqe T C where "e = Op t sqe T C" "e' = Join t"
  using assms by (cases "(e, e')" rule: synchronizes.cases) auto

lemma ev_thread_Some: "ev_thread e = Some t \<longleftrightarrow> (\<exists>sqe T C. e = Op t sqe T C)"
  by (cases e) auto

lemma edge_from_op:
  assumes "hb_edge tr i j" "ev_thread (tr ! i) = Some t"
  shows "ev_thread (tr ! j) = Some t \<or> tr ! j = Join t"
proof (cases "synchronizes (tr ! i) (tr ! j)")
  case True
  then show ?thesis using assms(2) by (cases rule: synchronizes_cases) auto
qed (use assms in \<open>simp add: hb_edge_def\<close>)

section \<open>Traces of threads that are spawned once and joined once\<close>

locale fork_join =
  fixes traces :: "event list set"
  assumes spawned_once: "tr \<in> traces \<Longrightarrow> i < length tr \<Longrightarrow> j < length tr \<Longrightarrow> tr ! i = Spawn t \<Longrightarrow>
      tr ! j = Spawn t \<Longrightarrow> i = j"
    and runs_after_spawn: "tr \<in> traces \<Longrightarrow> k < length tr \<Longrightarrow> tr ! k = Op t sqe T C \<Longrightarrow> \<exists>s<k. tr ! s = Spawn t"
    and runs_before_join: "tr \<in> traces \<Longrightarrow> k < length tr \<Longrightarrow> q < length tr \<Longrightarrow> tr ! k = Op t sqe T C \<Longrightarrow>
      tr ! q = Join t \<Longrightarrow> k < q"
begin

lemma spawn_position:
  assumes "tr \<in> traces" "k < length tr" "tr ! k = Op t sqe T C" "s < length tr" "tr ! s = Spawn t"
  shows "s < k"
proof -
  obtain i where "i < k" "tr ! i = Spawn t" using runs_after_spawn [OF assms(1-3)] by blast
  with spawned_once [OF assms(1), of i s t] assms(2,4,5) show ?thesis by simp
qed

text \<open>From an event of the application: its own later events and the threads spawned from there on.\<close>

lemma after_app:
  assumes tr: "tr \<in> traces" and h: "happens_before tr a k" and a: "ev_thread (tr ! a) = None"
    and k: "tr ! k = Op t sqe T C" and s: "s < length tr" "tr ! s = Spawn t"
  shows "a \<le> s"
proof -
  let ?P = "\<lambda>i. a \<le> i \<and> (\<forall>t s. ev_thread (tr ! i) = Some t \<longrightarrow> s < length tr \<longrightarrow> tr ! s = Spawn t \<longrightarrow> a \<le> s)"
  have "?P k"
  proof (rule hb_closed [OF h])
    show "?P a" using a by simp
    fix i j assume e: "hb_edge tr i j" and p: "?P i"
    show "?P j"
    proof (intro conjI allI impI)
      show "a \<le> j" using e p by (simp add: hb_edge_def)
      fix t s assume t: "ev_thread (tr ! j) = Some t" and s: "s < length tr" "tr ! s = Spawn t"
      show "a \<le> s"
      proof (cases "ev_thread (tr ! i) = Some t")
        case False
        then have "synchronizes (tr ! i) (tr ! j)" using e t by (simp add: hb_edge_def)
        then have "tr ! i = Spawn t" using t by (cases rule: synchronizes_cases) auto
        moreover have "i < length tr" using e by (simp add: hb_edge_def)
        ultimately have "s = i" using spawned_once [OF tr] s by blast
        with p show ?thesis by simp
      qed (use p s in blast)
    qed
  qed
  with k s show ?thesis by (simp add: ev_thread_Some)
qed

text \<open>From an iteration of a thread: its later ones, and what follows its join.\<close>

lemma after_op:
  assumes h: "happens_before tr k a" and k: "tr ! k = Op t sqe T C" and a: "ev_thread (tr ! a) \<noteq> Some t"
  shows "\<exists>q\<le>a. tr ! q = Join t"
proof -
  let ?P = "\<lambda>i. ev_thread (tr ! i) = Some t \<or> (\<exists>q\<le>i. tr ! q = Join t)"
  have "?P a"
  proof (rule hb_closed [OF h])
    show "?P k" using k by simp
    fix i j assume e: "hb_edge tr i j" and p: "?P i"
    have ij: "i < j" using e by (simp add: hb_edge_def)
    show "?P j"
    proof (cases "ev_thread (tr ! i) = Some t")
      case True
      then show ?thesis using edge_from_op [OF e] by blast
    next
      case False
      with p ij show ?thesis by (meson less_imp_le order_trans)
    qed
  qed
  with a show ?thesis by blast
qed

lemma spawn_before:
  assumes "k < length tr" "tr ! k = Op t sqe T C" "s < k" "tr ! s = Spawn t" "a \<le> s" "ev_thread (tr ! a) = None"
  shows "happens_before tr a k"
proof (cases "a = s")
  case False
  then have "hb_edge tr a s" using assms by (simp add: hb_edge_def)
  moreover have "hb_edge tr s k" using assms by (simp add: hb_edge_def)
  ultimately show ?thesis by (meson tranclp.simps)
qed (use assms in \<open>auto simp: hb_edge_def\<close>)

lemma join_before:
  assumes tr: "tr \<in> traces" and "k < length tr" "tr ! k = Op t sqe T C" "a < length tr" "ev_thread (tr ! a) = None"
    and "q \<le> a" "tr ! q = Join t"
  shows "happens_before tr k a"
proof -
  have "hb_edge tr k q" using runs_before_join [OF tr assms(2) _ assms(3,7)] assms by (simp add: hb_edge_def)
  moreover have "q = a \<or> hb_edge tr q a" using assms by (auto simp: hb_edge_def)
  ultimately show ?thesis by (meson tranclp.simps)
qed

text \<open>The order between the application and a thread.\<close>

lemma app_op_order:
  assumes tr: "tr \<in> traces" and a: "a < length tr" "ev_thread (tr ! a) = None"
    and k: "k < length tr" "tr ! k = Op t sqe T C" and s: "s < length tr" "tr ! s = Spawn t"
  shows "happens_before tr a k \<longleftrightarrow> a \<le> s" "happens_before tr k a \<longleftrightarrow> (\<exists>q\<le>a. tr ! q = Join t)"
proof -
  have sk: "s < k" by (rule spawn_position [OF tr k s])
  show "happens_before tr a k \<longleftrightarrow> a \<le> s"
    using after_app [OF tr _ a(2) k(2) s] spawn_before [OF k sk s(2)] a(2) by blast
  show "happens_before tr k a \<longleftrightarrow> (\<exists>q\<le>a. tr ! q = Join t)"
    using after_op [OF _ k(2), of a] join_before [OF tr k a] a(2) by auto
qed

text \<open>The order between two threads.\<close>

lemma op_op_order:
  assumes tr: "tr \<in> traces" and k: "k < length tr" "tr ! k = Op t sqe T C"
    and l: "l < length tr" "tr ! l = Op u sqe' T' C'" and s: "s < length tr" "tr ! s = Spawn u" and tu: "t \<noteq> u"
  shows "happens_before tr k l \<longleftrightarrow> (\<exists>q < s. tr ! q = Join t)"
proof
  have sl: "s < l" by (rule spawn_position [OF tr l s])
  show "happens_before tr k l" if j: "\<exists>q < s. tr ! q = Join t"
  proof -
    obtain q where q: "q < s" "tr ! q = Join t" using j by blast
    have "happens_before tr k s" using join_before [OF tr k s(1) _ _ q(2)] q(1) s(2) by simp
    moreover have "hb_edge tr s l" using sl l s(2) by (simp add: hb_edge_def)
    ultimately show ?thesis by (rule tranclp.trancl_into_trancl)
  qed
  assume h: "happens_before tr k l"
  let ?P = "\<lambda>i. ev_thread (tr ! i) = Some t \<or> (\<exists>q\<le>i. tr ! q = Join t) \<and>
      (\<forall>v s. ev_thread (tr ! i) = Some v \<longrightarrow> s < length tr \<longrightarrow> tr ! s = Spawn v \<longrightarrow> (\<exists>q < s. tr ! q = Join t))"
  have "?P l"
  proof (rule hb_closed [OF h])
    show "?P k" using k by simp
    fix i j assume e: "hb_edge tr i j" and p: "?P i"
    have ij: "i < j" "i < length tr" using e by (simp_all add: hb_edge_def)
    show "?P j"
    proof (cases "ev_thread (tr ! i) = Some t")
      case True
      then show ?thesis using edge_from_op [OF e, of t] by auto
    next
      case False
      with p ij(1) have q: "\<exists>q\<le>i. tr ! q = Join t" "\<exists>q\<le>j. tr ! q = Join t" by (meson less_imp_le order_trans)+
      have "\<exists>q < s. tr ! q = Join t" if v: "ev_thread (tr ! j) = Some v" "s < length tr" "tr ! s = Spawn v" for v s
      proof (cases "ev_thread (tr ! i) = Some v")
        case False
        with e v(1) have "tr ! i = Spawn v" by (auto simp: hb_edge_def elim!: synchronizes_cases)
        then have "s = i" using spawned_once [OF tr v(2) ij(2) v(3)] by blast
        with q(1) \<open>tr ! i = Spawn v\<close> show ?thesis by (metis event.distinct(9) nat_less_le)
      qed (use p False v in blast)
      with q(2) show ?thesis by blast
    qed
  qed
  with l(2) s tu show "\<exists>q < s. tr ! q = Join t" by auto
qed

end

section \<open>The events of a run\<close>

text \<open>
  What one iteration touches: the addresses that have to be live for it, none when it only cancels.
\<close>

definition touched :: "bool \<Rightarrow> io_uring_sqe \<Rightarrow> umem \<Rightarrow> u64 set" where
  "touched cancelled sqe m = (if cancelled then {} else {x. \<forall>r. dispatch_op sqe (m(x := None)) \<noteq> Inr r})"

text \<open>
  The steps of the concurrent system with their events.  Threads are numbered in the order they are spawned;
  as the oldest is joined first, the thread at position \<open>i\<close> has number \<open>j + i\<close> after \<open>j\<close> joins.
\<close>

inductive ev_step :: "('s, 'c) Submitter \<Rightarrow> nat \<Rightarrow> ('s, 'c) conf \<Rightarrow> event \<Rightarrow> nat \<Rightarrow> ('s, 'c) conf \<Rightarrow> bool"
  for sub :: "('s, 'c) Submitter"
where
  queues: "ring_step sub cf cf' \<Longrightarrow> cf_threads cf' = cf_threads cf \<Longrightarrow> cf_umem cf' = cf_umem cf \<Longrightarrow>
     ev_step sub j cf (App {} {}) j cf'"
| memory: "(\<And>x. x \<notin> W \<Longrightarrow> m x = cf_umem cf x) \<Longrightarrow> ev_step sub j cf (App R W) j (cf\<lparr>cf_umem := m\<rparr>)"
| spawn: "enqueue_sqes sub k (cf_mem cf) = Inr (Inr n, mem) \<Longrightarrow> n \<noteq> 0 \<Longrightarrow>
     ev_step sub j cf (Spawn (j + length (cf_threads cf))) j (cf\<lparr>cf_mem := mem,
       cf_accepted := cf_accepted cf @ take (unat n) (sq_published sub (cf_mem cf))\<rparr>)"
| iterate: "i < length (cf_threads cf) \<Longrightarrow> th_sqes (cf_threads cf ! i) = sqe # rest \<Longrightarrow>
     complete_one dispatch_op sqe (th_cancel_chain (cf_threads cf ! i)) (cf_umem cf) = Inr (cd, c, m) \<Longrightarrow>
     ev_step sub j cf (Op (j + i) sqe (touched (th_cancel_chain (cf_threads cf ! i)) sqe (cf_umem cf))
         {x. m x \<noteq> cf_umem cf x}) j
       (cf\<lparr>cf_mem := set_threads ((cf_threads cf)[i := thread_next (cf_threads cf ! i) cd c]) (cf_mem cf), cf_umem := m\<rparr>)"
| joined: "cf_threads cf = th # ths \<Longrightarrow> th_sqes th = [] \<Longrightarrow>
     post_results sub (th_results th) (set_threads ths (cf_mem cf)) = Inr mem \<Longrightarrow>
     ev_step sub j cf (Join j) (Suc j) (cf\<lparr>cf_mem := mem, cf_joined := cf_joined cf @ th_results th,
       cf_lost := cf_lost cf + (length (cqes_of (th_results th)) - cq_free sub (cf_mem cf))\<rparr>)"

inductive ev_run :: "('s, 'c) Submitter \<Rightarrow> ('s, 'c) conf \<Rightarrow> event list \<Rightarrow> nat \<Rightarrow> ('s, 'c) conf \<Rightarrow> bool"
  for sub :: "('s, 'c) Submitter" and cf0 :: "('s, 'c) conf"
where
  start: "ev_run sub cf0 [] 0 cf0"
| step: "ev_run sub cf0 tr j cf \<Longrightarrow> ev_step sub j cf e j' cf' \<Longrightarrow> ev_run sub cf0 (tr @ [e]) j' cf'"

text \<open>They are the runs of the system, no more and no fewer.\<close>

lemma ev_step_ring: "ev_step sub j cf e j' cf' \<Longrightarrow> ring_step sub cf cf'"
  by (induction rule: ev_step.induct) (blast intro: ring_step.intros kernel_step.intros)+

lemma ev_run_ring: "ev_run sub cf0 tr j cf \<Longrightarrow> (ring_step sub)\<^sup>*\<^sup>* cf0 cf"
  by (induction rule: ev_run.induct) (auto intro: rtranclp.rtrancl_into_rtrancl ev_step_ring)

lemma enqueue_spawns:
  assumes "sub_inv sub mem" "enqueue_sqes sub k mem = Inr (Inr n, mem')"
  shows "if n = 0 then st_pending (rm_state mem') = st_pending (rm_state mem)
    else \<exists>th. st_pending (rm_state mem') = st_pending (rm_state mem) @ [th]"
proof -
  define l where "l = min (unat k) (length (sq_published sub mem))"
  have "l < 2 ^ 32" using unat_u32_lt [of k] by (simp add: l_def)
  then have "unat (of_nat l :: usize) = l" by (simp add: unat_of_nat)
  then have "(of_nat l :: usize) = 0 \<longleftrightarrow> l = 0" by (metis unat_eq_zero of_nat_0)
  moreover have "n = of_nat l" "st_pending (rm_state mem') = st_pending (rm_state mem) @
      (if l = 0 then [] else [thread_spawn (take l (sq_published sub mem))])"
    using enqueue_sqes_law [OF assms(1), of k, folded l_def] assms(2) by auto
  ultimately show ?thesis by simp
qed

lemma queues_step:
  "ring_step sub cf cf' \<Longrightarrow> cf_threads cf' = cf_threads cf \<Longrightarrow> cf_umem cf' = cf_umem cf \<Longrightarrow>
     \<exists>e j'. ev_step sub j cf e j' cf'"
  by (blast intro: ev_step.queues)

lemma ring_ev_step:
  assumes "ring_step sub cf cf'" "conf_inv sub cf"
  shows "\<exists>e j'. ev_step sub j cf e j' cf'"
  using assms(1)
proof (cases rule: ring_step.cases)
  case (app_push e r sq mem)
  have "sub_inv sub (cf_mem cf)" using assms(2) by (simp add: conf_inv_def)
  with app_push assms(1) push_sub_inv(2) [of sub "cf_mem cf" e r sq mem] show ?thesis
    by (intro queues_step) (simp_all add: squeue_drop_def)
next
  case (app_submit k n mem)
  have i: "sub_inv sub (cf_mem cf)" using assms(2) by (simp add: conf_inv_def)
  show ?thesis
  proof (cases "n = 0")
    case True
    with app_submit assms(1) enqueue_spawns [OF i app_submit(2)] show ?thesis
      by (intro queues_step) simp_all
  next
    case False
    with app_submit show ?thesis by (blast intro: ev_step.spawn)
  qed
next
  case (app_reap e cq)
  with assms(1) show ?thesis by (intro queues_step) (simp_all add: cqueue_drop_def)
next
  case (app_memory m)
  then show ?thesis using ev_step.memory [of UNIV m cf sub j "{}"] by auto
next
  case kernel
  then show ?thesis by (cases rule: kernel_step.cases) (blast intro: ev_step.iterate ev_step.joined)+
qed

lemma ring_ev_run:
  "(ring_step sub)\<^sup>*\<^sup>* cf0 cf \<Longrightarrow> conf_inv sub cf0 \<Longrightarrow> \<exists>tr j. ev_run sub cf0 tr j cf"
proof (induction rule: rtranclp_induct)
  case (step cf cf')
  with reachable_inv ring_ev_step show ?case by (meson ev_run.step)
qed (blast intro: ev_run.start)

subsection \<open>Their shape\<close>

definition traces_of :: "('s, 'c) Submitter \<Rightarrow> event list set" where
  "traces_of sub = {tr. \<exists>mem m j cf. ring_start sub mem \<and> ev_run sub (conf_init mem m) tr j cf}"

text \<open>How an event fits what came before it, and what is known after \<open>j\<close> joins with \<open>n\<close> threads outstanding.\<close>

fun fits :: "event list \<Rightarrow> event \<Rightarrow> bool" where
  "fits before (Spawn t) \<longleftrightarrow> (\<forall>u. Spawn u \<in> set before \<longrightarrow> u < t)"
| "fits before (Op t sqe T C) \<longleftrightarrow> Spawn t \<in> set before \<and> Join t \<notin> set before \<and> (T = {} \<or> pointed sqe \<subseteq> T)"
| "fits before (Join t) \<longleftrightarrow> Spawn t \<in> set before"
| "fits before (App R W) \<longleftrightarrow> True"

definition fork_join_inv :: "event list \<Rightarrow> nat \<Rightarrow> nat \<Rightarrow> bool" where
  "fork_join_inv tr j n \<longleftrightarrow> (\<forall>t. Spawn t \<in> set tr \<longleftrightarrow> t < j + n) \<and> (\<forall>t. Join t \<in> set tr \<longrightarrow> t < j)
     \<and> (\<forall>k<length tr. fits (take k tr) (tr ! k))"

lemma fits_snoc:
  "(\<forall>k<length (tr @ [e]). fits (take k (tr @ [e])) ((tr @ [e]) ! k)) \<longleftrightarrow>
     (\<forall>k<length tr. fits (take k tr) (tr ! k)) \<and> fits tr e"
  by (auto simp: nth_append less_Suc_eq)

lemma touched_pointed:
  assumes "complete_one dispatch_op sqe b m = Inr (cd, c, m')"
  shows "touched b sqe m = {} \<or> pointed sqe \<subseteq> touched b sqe m"
  using dangling_dispatch by (cases b) (auto simp: touched_def)

lemma fork_join_step:
  assumes "ev_step sub j cf e j' cf'" "conf_inv sub cf" "fork_join_inv tr j (length (cf_threads cf))"
  shows "fork_join_inv (tr @ [e]) j' (length (cf_threads cf'))"
  using assms(1)
proof (cases rule: ev_step.cases)
  case (spawn k n mem)
  have "sub_inv sub (cf_mem cf)" using assms(2) by (simp add: conf_inv_def)
  with enqueue_spawns spawn have "length (cf_threads cf') = Suc (length (cf_threads cf))" by fastforce
  with spawn assms(3) show ?thesis unfolding fork_join_inv_def fits_snoc by (auto simp: less_Suc_eq)
next
  case (iterate i sqe rest cd c m)
  with assms(3) touched_pointed [OF iterate(6)] show ?thesis unfolding fork_join_inv_def fits_snoc by auto
next
  case (joined th ths mem)
  with assms(3) post_results_threads [OF joined(6)] show ?thesis
    unfolding fork_join_inv_def fits_snoc by (auto simp: less_Suc_eq)
qed (use assms(3) in \<open>unfold fork_join_inv_def fits_snoc, auto\<close>)

lemma fork_join_run:
  "ev_run sub cf0 tr j cf \<Longrightarrow> conf_inv sub cf0 \<Longrightarrow> cf_threads cf0 = [] \<Longrightarrow>
     fork_join_inv tr j (length (cf_threads cf)) \<and> conf_inv sub cf"
proof (induction rule: ev_run.induct)
  case (step tr j cf e j' cf')
  then show ?case by (blast intro: fork_join_step ring_step_inv ev_step_ring)
qed (simp add: fork_join_inv_def)

lemma traces_fit:
  assumes "tr \<in> traces_of sub" "k < length tr"
  shows "fits (take k tr) (tr ! k)"
proof -
  obtain mem m j cf where r: "ring_start sub mem" "ev_run sub (conf_init mem m) tr j cf"
    using assms(1) by (auto simp: traces_of_def)
  then have "fork_join_inv tr j (length (cf_threads cf))"
    using fork_join_run [OF r(2) conf_inv_init [OF r(1)]] by (simp add: conf_init_def ring_start_def)
  with assms(2) show ?thesis by (simp add: fork_join_inv_def)
qed

lemma in_set_take: "i < k \<Longrightarrow> i < length xs \<Longrightarrow> xs ! i \<in> set (take k xs)"
  by (auto simp: in_set_conv_nth)

lemma in_set_takeE: "x \<in> set (take k xs) \<Longrightarrow> \<exists>i<k. i < length xs \<and> xs ! i = x"
  by (auto simp: in_set_conv_nth)

interpretation runs: fork_join "traces_of sub" for sub :: "('s, 'c) Submitter"
proof
  fix tr i j t assume "tr \<in> traces_of sub" "i < length tr" "j < length tr" "tr ! i = Spawn t" "tr ! j = Spawn t"
  with traces_fit [of tr sub i] traces_fit [of tr sub j] in_set_take [of i j tr] in_set_take [of j i tr]
  show "i = j" by (cases i j rule: linorder_cases) auto
next
  fix tr k t sqe T C assume "tr \<in> traces_of sub" "k < length tr" "tr ! k = Op t sqe T C"
  with traces_fit [of tr sub k] show "\<exists>s<k. tr ! s = Spawn t" by (auto dest: in_set_takeE)
next
  fix tr k q t sqe T C assume "tr \<in> traces_of sub" "k < length tr" "q < length tr" "tr ! k = Op t sqe T C" "tr ! q = Join t"
  with traces_fit [of tr sub k] in_set_take [of q k tr] show "k < q" by (cases q k rule: linorder_cases) auto
qed

section \<open>Example runs\<close>

lemma submit_one_run:
  assumes r: "ev_run sub cf0 tr j cf" "conf_inv sub cf0" "cf_threads cf0 = []" and p: "sq_published sub (cf_mem cf) = []"
  obtains cf' where "ev_run sub cf0 (tr @ [App {} {}, Spawn (j + length (cf_threads cf))]) j cf'"
    "cf_threads cf' = cf_threads cf @ [thread_spawn [sem_sqe (sub_sqe_marker sub) e]]"
    "cf_umem cf' = cf_umem cf" "sq_published sub (cf_mem cf') = []"
proof -
  let ?sq = "squeue_borrow (sub_sq_inner sub) (cf_mem cf)"
  have i: "sub_inv sub (cf_mem cf)" using fork_join_run [OF r] by (simp add: conf_inv_def)
  have v: "sq_view ?sq (cf_mem cf)"
    using i ring_geom_entries by (intro sq_view_borrow) (fastforce simp: sub_inv_def sub_sq_inner_def)+
  have "sq_head ?sq = sq_tail ?sq" "0 < unat (sqi_ring_entries (sq_queue ?sq))"
    using p v ring_geom_entries [of "sqi_ring_entries (sq_queue ?sq)"]
    by (auto simp: sq_published_def squeue_borrow_def squeue_borrow_shared_def unsync_load_def ring_slice_def sq_view_def)
  then have "0 < sq_room ?sq" by (simp add: sq_room_def)
  with squeue_push_law [OF v, of e] obtain sq mem where q: "squeue_push e ?sq (cf_mem cf) = Inr (Inr (), sq, mem)" by auto
  note s = push_sub_inv [OF i q]
  define cf1 where "cf1 = cf\<lparr>cf_mem := squeue_drop sq mem, cf_pushed := cf_pushed cf @
      (if Inr () = (Inr () :: PushError + unit) then [sem_sqe (sub_sqe_marker sub) e] else [])\<rparr>"
  have "ev_step sub j cf (App {} {}) j cf1"
    using ring_step.app_push [OF q] s(2) by (intro ev_step.queues) (simp_all add: cf1_def squeue_drop_def)
  then have 1: "ev_run sub cf0 (tr @ [App {} {}]) j cf1" using r(1) by (rule ev_run.step [rotated])
  have t1: "cf_threads cf1 = cf_threads cf" "sub_inv sub (cf_mem cf1)"
    "sq_published sub (cf_mem cf1) = [sem_sqe (sub_sqe_marker sub) e]"
    using s p by (simp_all add: cf1_def squeue_drop_def)
  obtain mem2 where e2: "enqueue_sqes sub 1 (cf_mem cf1) = Inr (Inr 1, mem2)" "sq_published sub mem2 = []"
    "st_pending (rm_state mem2) = cf_threads cf1 @ [thread_spawn [sem_sqe (sub_sqe_marker sub) e]]"
    using enqueue_sqes_law [OF t1(2), of 1] by (auto simp: t1(3))
  from ev_run.step [OF 1 ev_step.spawn [OF e2(1)]]
  have "ev_run sub cf0 (tr @ [App {} {}, Spawn (j + length (cf_threads cf))]) j (cf1\<lparr>cf_mem := mem2,
      cf_accepted := cf_accepted cf1 @ take (unat (1 :: usize)) (sq_published sub (cf_mem cf1))\<rparr>)"
    by (simp add: t1(1))
  then show ?thesis by (rule that) (use e2 t1(1) in \<open>simp_all add: cf1_def\<close>)
qed

lemma read_iteration:
  assumes r: "ev_run sub cf0 tr j cf" and i: "i < length (cf_threads cf)"
    "cf_threads cf ! i = thread_spawn [example_sqe IORING_OP_READ a 8]" and a: "a \<noteq> 0" "live (cf_umem cf) a 8"
  obtains T cf' where "ev_run sub cf0 (tr @ [Op (j + i) (example_sqe IORING_OP_READ a 8) T
      {x. zeroed (cf_umem cf) (region a 8) x \<noteq> cf_umem cf x}]) j cf'"
    "region a 8 \<subseteq> T" "cf_umem cf' = zeroed (cf_umem cf) (region a 8)"
    "cf_threads cf' = (cf_threads cf)[i := thread_next (cf_threads cf ! i)
      (completed 8 (example_sqe IORING_OP_READ a 8)) False]"
proof -
  let ?sqe = "example_sqe IORING_OP_READ a 8" and ?m = "zeroed (cf_umem cf) (region a 8)"
  have d: "dispatch_op ?sqe m = dispatch_buf_fill ?sqe m" for m by (rule dispatch_op_fill) (simp add: sys_consts)
  have "dispatch_op ?sqe (cf_umem cf) = Inr (8, ?m)" using a unfolding d by (simp add: dispatch_buf_fill_eq)
  then have c: "complete_one dispatch_op ?sqe (th_cancel_chain (cf_threads cf ! i)) (cf_umem cf) =
      Inr (completed 8 ?sqe, False, ?m)"
    unfolding i(2) by (simp add: thread_spawn_def complete_one_simps)
  have "pointed ?sqe = region a 8" using a by (simp add: pointed_def pointers_def sys_consts)
  then have "dispatch_op ?sqe ((cf_umem cf)(x := None)) \<noteq> Inr q" if "x \<in> region a 8" for x q
    using that by (intro dangling_dispatch [of x]) simp_all
  then have t: "region a 8 \<subseteq> touched (th_cancel_chain (cf_threads cf ! i)) ?sqe (cf_umem cf)"
    unfolding i(2) by (auto simp: touched_def thread_spawn_def)
  have "th_sqes (cf_threads cf ! i) = [?sqe]" unfolding i(2) by (simp add: thread_spawn_def)
  from ev_run.step [OF r ev_step.iterate [OF i(1) this c]] show ?thesis
    by (rule that [OF _ t]) simp_all
qed

section \<open>The properties\<close>


lemma spawn_order:
  assumes tr: "tr \<in> traces_of sub" and k: "k < length tr" "tr ! k = Spawn t" and q: "q < k" "tr ! q = Join u"
  shows "u < t"
proof -
  have "Spawn u \<in> set (take q tr)" using traces_fit [OF tr, of q] k(1) q by simp
  with q(1) have "Spawn u \<in> set (take k tr)" by (meson less_imp_le set_take_subset_set_take subsetD)
  with traces_fit [OF tr k(1)] k(2) show ?thesis by simp
qed

lemma page_read:
  "live page_mem 4104 8" "4104 \<in> region 4104 8" "page_mem 4104 = Some (Byte 7)" "sem_sqe (sub_sqe_marker example_sub) (Entry s) = s"
  "sq_published example_sub start_mem = []" "(4104 :: u64) \<noteq> 0"
  using page_mem_ok_at [of 8 8] region_mem [of 0 8 4104] example_ring_start
  by (simp_all add: page_mem_def example_sub_def IoUring_submitter_def Entry_marker_def ring_start_def)

lemma read_submitted:
  obtains cf where "ev_run example_sub (conf_init start_mem page_mem) [App {} {}, Spawn 0] 0 cf"
    "cf_threads cf = [thread_spawn [example_sqe IORING_OP_READ 4104 8]]" "cf_umem cf = page_mem"
    "sq_published example_sub (cf_mem cf) = []"
proof -
  let ?cf = "conf_init start_mem page_mem"
  have "cf_threads ?cf = []" "sq_published example_sub (cf_mem ?cf) = []" "cf_umem ?cf = page_mem"
    using example_ring_start by (simp_all add: conf_init_def ring_start_def)
  note start = submit_one_run [OF ev_run.start conf_inv_init [OF example_ring_start] this(1,2)]
  show ?thesis
    by (rule start [of "Entry (example_sqe IORING_OP_READ 4104 8)"], rule that)
      (simp_all add: page_read(4) \<open>cf_threads ?cf = []\<close> \<open>cf_umem ?cf = page_mem\<close>)
qed




end
