(* ===== verification/Miring_Contract.thy ===== *)
theory Miring_Contract
  imports Miring_Detect
begin

text \<open>
  The memory contract of the dispatcher: opcode by opcode, exactly what an entry must find in memory for its
  handler of \<^verbatim>\<open>src/submit.rs\<close> to be free of undefined behaviour.
\<close>

section \<open>When an access returns\<close>

definition returns :: "'a exec \<Rightarrow> bool" where
  "returns x \<longleftrightarrow> \<not> isl x"

named_theorems returns_simps \<open>when a computation returns\<close>

lemma returns_iff: "returns x \<longleftrightarrow> (\<exists>a. x = Inr a)"
  by (cases x) (simp_all add: returns_def)

lemma returns_basic [simp]: "returns (Inr a)" "\<not> returns (Inl e)"
  by (simp_all add: returns_def)

lemma returns_const [returns_simps]: "returns (and_then x (\<lambda>_. y)) \<longleftrightarrow> returns x \<and> returns y"
  by (cases x) simp_all

lemma returns_last [returns_simps]: "returns (and_then x (\<lambda>a. Inr (f a))) \<longleftrightarrow> returns x"
  by (cases x) simp_all

lemma returns_and_then: "returns (and_then x f) \<longleftrightarrow> (\<exists>a. x = Inr a \<and> returns (f a))"
  by (cases x) simp_all

lemma returns_if [returns_simps]: "returns (if b then x else y) \<longleftrightarrow> (if b then returns x else returns y)"
  by simp

text \<open>A readable object of \<open>n\<close> bytes, aligned.\<close>

definition object_at :: "umem \<Rightarrow> u64 \<Rightarrow> nat \<Rightarrow> nat \<Rightarrow> bool" where
  "object_at m a al n \<longleftrightarrow> unat a mod al = 0 \<and> readable m a n"

definition string_at :: "umem \<Rightarrow> u64 \<Rightarrow> bool" where
  "string_at m p \<longleftrightarrow> (\<exists>n. cstr_at m p n)"

lemma returns_load: "live m a n \<Longrightarrow> returns (load m a n) \<longleftrightarrow> readable m a n"
  using load_eq [of m a n] by (auto split: if_splits)

lemma returns_access [returns_simps]:
  "returns (slice_check m a n sz al) \<longleftrightarrow> n * sz < 2 ^ 63 \<and> a \<noteq> 0 \<and> unat a mod al = 0 \<and> live m a (n * sz)"
  "returns (deref_check m a al n) \<longleftrightarrow> a \<noteq> 0 \<and> unat a mod al = 0 \<and> live m a n"
  "returns (slice_fill m a n) \<longleftrightarrow> n < 2 ^ 63 \<and> a \<noteq> 0 \<and> live m a n"
  "returns (write_u32 m a v) \<longleftrightarrow> a \<noteq> 0 \<and> unat a mod 4 = 0 \<and> live m a 4"
  "returns (walk_cstr m a) \<longleftrightarrow> string_at m a"
  by (simp_all add: returns_iff slice_fill_Inr write_u32_def ptr_write_def and_then_eq_Inr string_at_def flip: walk_cstr_iff)

lemma returns_sink [returns_simps]: "returns (slice_sink m a n s) \<longleftrightarrow> n < 2 ^ 63 \<and> a \<noteq> 0 \<and> readable m a n"
  using returns_load [of m a n] by (auto simp: slice_sink_def returns_simps readable_def)

lemma returns_read [returns_simps]:
  "returns (ptr_read m a al n) \<longleftrightarrow> a \<noteq> 0 \<and> object_at m a al n"
  "returns (read_u32 m a) \<longleftrightarrow> a \<noteq> 0 \<and> object_at m a 4 4" "returns (read_u64 m a) \<longleftrightarrow> a \<noteq> 0 \<and> object_at m a 8 8"
  using returns_load [of m a] by (auto simp: read_u32_def read_u64_def ptr_read_def returns_simps object_at_def readable_def)

section \<open>What each opcode needs\<close>

text \<open>An iovec array whose buffers are readable, and a message header for sending.\<close>

definition vector_at :: "umem \<Rightarrow> u64 \<Rightarrow> nat \<Rightarrow> bool" where
  "vector_at m p n \<longleftrightarrow> n * 16 < 2 ^ 63 \<and> unat p mod 8 = 0 \<and> live m p (n * 16)
     \<and> (case decode_iovs n p m of Inr rs \<Rightarrow> iovs_readable m rs | Inl _ \<Rightarrow> False)"

definition buffer_at :: "umem \<Rightarrow> (u64 \<times> usize) option \<Rightarrow> bool" where
  "buffer_at m r \<longleftrightarrow> (case r of None \<Rightarrow> True | Some (base, len) \<Rightarrow> unat len < 2 ^ 63 \<and> readable m base (unat len))"

definition message_at :: "umem \<Rightarrow> u64 \<Rightarrow> bool" where
  "message_at m h \<longleftrightarrow> unat h mod 8 = 0 \<and> live m h 56
     \<and> (\<exists>name ctl iov. name_at m h = Inr name \<and> buffer_at m name
         \<and> pair_at m (h + 32) (h + 40) = Inr ctl \<and> buffer_at m ctl
         \<and> pair_at m (h + 16) (h + 24) = Inr iov \<and> (case iov of None \<Rightarrow> True | Some (v, n) \<Rightarrow> vector_at m v (unat n)))"

text \<open>An array of futex descriptions: of each the value, the address and the flags are read, not the padding.\<close>

definition waitv_at :: "umem \<Rightarrow> u64 \<Rightarrow> nat \<Rightarrow> bool" where
  "waitv_at m p n \<longleftrightarrow> unat p mod 8 = 0 \<and> live m p (n * 24)
     \<and> list_all (\<lambda>i. readable m (p + of_nat (24 * i)) 20) [0..<n]"

lemma decode_sink:
  "returns (sink_iovs n p tot s m) \<longleftrightarrow> (case decode_iovs n p m of Inr rs \<Rightarrow> iovs_readable m rs | Inl _ \<Rightarrow> False)"
proof (induction n arbitrary: p tot s)
  case (Suc n)
  show ?case
  proof (cases "pair_at m p (p + 8)")
    case (Inr r)
    show ?thesis
    proof (cases r)
      case None
      with Inr Suc.IH show ?thesis by (cases "decode_iovs n (p + 16) m") (auto simp: sink_if_def iovs_readable_def)
    next
      case (Some b)
      obtain base len where b: "b = (base, len)" by (cases b)
      have "base \<noteq> 0" using pair_at_Some Inr Some b by blast
      then have "returns (slice_sink m base (unat len) s) \<longleftrightarrow> unat len < 2 ^ 63 \<and> readable m base (unat len)"
        by (simp add: returns_simps)
      with Inr Some b Suc.IH [of "p + 16"] show ?thesis
        by (cases "slice_sink m base (unat len) s"; cases "decode_iovs n (p + 16) m")
          (auto simp: sink_if_def iovs_readable_def)
    qed
  qed simp
qed (simp add: iovs_readable_def)

text \<open>
  What the handler of an entry needs of the memory, for every opcode but those that fill a vector of buffers
  (\<open>READV\<close>, \<open>READV_FIXED\<close> and \<open>RECVMSG\<close>, whose buffers may overlap the vector that is being read).
\<close>

definition accessible :: "io_uring_sqe \<Rightarrow> umem \<Rightarrow> bool" where
  "accessible sqe m = (let opc = ucast (sqe_opcode sqe) :: u32; addr = sqe_addr sqe; off = sqe_off sqe;
       len = unat (sqe_len sqe); path = sqe_addr3 sqe;
       total = saturating_mul (scast (sqe_fd sqe) :: usize) (ucast (sqe_len sqe)) in
     if opc \<in> {IORING_OP_READ, IORING_OP_READ_FIXED, IORING_OP_RECV, IORING_OP_READ_MULTISHOT}
       then addr = 0 \<or> live m addr len
     else if opc \<in> {IORING_OP_WRITE, IORING_OP_WRITE_FIXED, IORING_OP_SEND, IORING_OP_SEND_ZC}
       then addr = 0 \<or> readable m addr len
     else if opc \<in> {IORING_OP_WRITEV, IORING_OP_WRITEV_FIXED} then addr = 0 \<or> len = 0 \<or> vector_at m addr len
     else if opc \<in> {IORING_OP_SENDMSG, IORING_OP_SENDMSG_ZC} then addr = 0 \<or> message_at m addr
     else if opc \<in> {IORING_OP_TIMEOUT, IORING_OP_LINK_TIMEOUT} then addr = 0 \<or> object_at m addr 8 16
     else if opc \<in> {IORING_OP_CONNECT, IORING_OP_BIND}
       then addr = 0 \<or> off = 0 \<or> unat off < 2 ^ 63 \<and> readable m addr (unat off)
     else if opc = IORING_OP_ACCEPT
       then addr = 0 \<or> off = 0 \<or> object_at m off 4 4
         \<and> (case read_u32 m off of Inr n \<Rightarrow> live m addr (unat n) | Inl _ \<Rightarrow> False)
     else if opc \<in> {IORING_OP_OPENAT, IORING_OP_UNLINKAT, IORING_OP_MKDIRAT} then addr = 0 \<or> string_at m addr
     else if opc = IORING_OP_OPENAT2 then addr = 0 \<or> string_at m addr \<and> (off = 0 \<or> object_at m off 8 24)
     else if opc = IORING_OP_STATX then (addr = 0 \<or> string_at m addr) \<and> (off = 0 \<or> live m off 256)
     else if opc \<in> {IORING_OP_RENAMEAT, IORING_OP_SYMLINKAT, IORING_OP_LINKAT}
       then addr = 0 \<or> off = 0 \<or> string_at m addr \<and> string_at m off
     else if opc = IORING_OP_EPOLL_CTL then addr = 0 \<or> readable m addr 12
     else if opc = IORING_OP_FILES_UPDATE then addr = 0 \<or> len = 0 \<or> object_at m addr 4 (len * 4)
     else if opc = IORING_OP_PROVIDE_BUFFERS
       then addr = 0 \<or> total = 0 \<or> unat total < 2 ^ 63 \<and> live m addr (unat total)
         \<and> readable m addr 1 \<and> readable m (addr + (total - 1)) 1
     else if opc \<in> {IORING_OP_FSETXATTR, IORING_OP_SETXATTR}
       then (addr = 0 \<or> string_at m addr) \<and> (off = 0 \<or> readable m off len)
         \<and> (opc = IORING_OP_FSETXATTR \<or> path = 0 \<or> string_at m path)
     else if opc \<in> {IORING_OP_FGETXATTR, IORING_OP_GETXATTR}
       then (addr = 0 \<or> string_at m addr) \<and> (off = 0 \<or> live m off len)
         \<and> (opc = IORING_OP_FGETXATTR \<or> path = 0 \<or> string_at (if off = 0 then m else zeroed m (region off len)) path)
     else if opc = IORING_OP_EPOLL_WAIT then addr = 0 \<or> live m addr (len * 12)
     else if opc \<in> {IORING_OP_FUTEX_WAIT, IORING_OP_FUTEX_WAKE} then addr = 0 \<or> object_at m addr 4 4
     else if opc = IORING_OP_FUTEX_WAITV then addr = 0 \<or> len = 0 \<or> waitv_at m addr len
     else if opc = IORING_OP_WAITID then off = 0 \<or> live m off 128
     else if opc = IORING_OP_PIPE then addr = 0 \<or> unat addr mod 4 = 0 \<and> live m addr 8
     else True)"

lemma live_0: "live m a 0"
  by (simp add: live_def less_imp_le [OF order_less_le_trans [OF unsigned_less]])

lemma readable_0: "readable m a 0"
  by (simp add: readable_def live_0)

lemma u32_small: "unat (w :: u32) * k < 2 ^ 63" if "k \<le> 2 ^ 31"
proof -
  have "unat w * k \<le> (2 ^ 32 - 1) * 2 ^ 31" using unat_u32_lt [of w] that by (intro mult_le_mono) auto
  then show ?thesis by simp
qed

lemma u32_lt_63: "unat (w :: u32) < 2 ^ 63"
  using u32_small [of 1 w] by simp

lemmas handler_returns = returns_simps u32_lt_63 [simplified] live_0 readable_0 ucast_u32_eq_0 unat_ucast_u32 word_gt_0

lemma buffer_returns:
  "returns (dispatch_buf_fill sqe m) \<longleftrightarrow> sqe_addr sqe = 0 \<or> live m (sqe_addr sqe) (unat (sqe_len sqe))"
  "returns (dispatch_buf_sink sqe m) \<longleftrightarrow> sqe_addr sqe = 0 \<or> readable m (sqe_addr sqe) (unat (sqe_len sqe))"
  by (auto simp: dispatch_buf_fill_eq dispatch_buf_sink_eq live_0 readable_0)

lemma path_returns:
  "returns (dispatch_openat sqe m) \<longleftrightarrow> sqe_addr sqe = 0 \<or> string_at m (sqe_addr sqe)"
  "returns (dispatch_pathname sqe m) \<longleftrightarrow> sqe_addr sqe = 0 \<or> string_at m (sqe_addr sqe)"
  "returns (dispatch_pathname2 sqe m) \<longleftrightarrow> sqe_addr sqe = 0 \<or> sqe_off sqe = 0
     \<or> string_at m (sqe_addr sqe) \<and> string_at m (sqe_off sqe)"
  "returns (dispatch_openat2 sqe m) \<longleftrightarrow> sqe_addr sqe = 0
     \<or> string_at m (sqe_addr sqe) \<and> (sqe_off sqe = 0 \<or> object_at m (sqe_off sqe) 8 24)"
  "returns (dispatch_statx sqe m) \<longleftrightarrow> (sqe_addr sqe = 0 \<or> string_at m (sqe_addr sqe)) \<and> (sqe_off sqe = 0 \<or> live m (sqe_off sqe) 256)"
  by (auto simp: dispatch_openat_def dispatch_pathname_def dispatch_pathname2_def dispatch_openat2_def dispatch_statx_def Let_def
      handler_returns)

lemma small_returns:
  "returns (dispatch_timeout sqe m) \<longleftrightarrow> sqe_addr sqe = 0 \<or> object_at m (sqe_addr sqe) 8 16"
  "returns (dispatch_connect sqe m) \<longleftrightarrow> sqe_addr sqe = 0 \<or> sqe_off sqe = 0
     \<or> unat (sqe_off sqe) < 2 ^ 63 \<and> readable m (sqe_addr sqe) (unat (sqe_off sqe))"
  "returns (dispatch_epoll_ctl sqe m) \<longleftrightarrow> sqe_addr sqe = 0 \<or> readable m (sqe_addr sqe) 12"
  "returns (dispatch_futex_read sqe m) \<longleftrightarrow> sqe_addr sqe = 0 \<or> object_at m (sqe_addr sqe) 4 4"
  "returns (dispatch_waitid sqe m) \<longleftrightarrow> sqe_off sqe = 0 \<or> live m (sqe_off sqe) 128"
  by (auto simp: dispatch_timeout_def dispatch_connect_def dispatch_epoll_ctl_def dispatch_futex_read_def dispatch_waitid_def Let_def
      handler_returns)

lemma vector_returns:
  "returns (dispatch_writev sqe m) \<longleftrightarrow> sqe_addr sqe = 0 \<or> sqe_len sqe = 0 \<or> vector_at m (sqe_addr sqe) (unat (sqe_len sqe))"
  by (auto simp: dispatch_writev_def vector_at_def Let_def handler_returns decode_sink)

lemma buffer_if_returns: "(\<And>b n. r = Some (b, n) \<Longrightarrow> b \<noteq> 0) \<Longrightarrow> returns (sink_if m r s) \<longleftrightarrow> buffer_at m r"
  by (auto simp: sink_if_def buffer_at_def returns_simps split: option.split)

lemma name_at_Some: "name_at m h = Inr (Some (base, len)) \<Longrightarrow> base \<noteq> 0"
  by (auto simp: name_at_def and_then_eq_Inr split: if_splits)

lemma field_returns:
  "pair_at m p q = Inr r \<Longrightarrow> returns (sink_if m r s) \<longleftrightarrow> buffer_at m r"
  "name_at m h = Inr r \<Longrightarrow> returns (sink_if m r s) \<longleftrightarrow> buffer_at m r"
  by (rule buffer_if_returns, use pair_at_Some name_at_Some in blast)+

lemma iov_returns:
  "pair_at m p q = Inr iov \<Longrightarrow>
     returns (case iov of None \<Rightarrow> Inr (0, m) | Some (v, n) \<Rightarrow> and_then (slice_check m v (unat n) 16 8)
       (\<lambda>_. and_then (sink_iovs (unat n) v 0 0 m) (\<lambda>total. Inr (ucast total :: i32, m))))
     \<longleftrightarrow> (case iov of None \<Rightarrow> True | Some (v, n) \<Rightarrow> vector_at m v (unat n))"
  using pair_at_Some [of m p q] by (auto simp: vector_at_def returns_simps decode_sink split: option.split)

lemma message_returns: "returns (dispatch_sendmsg sqe m) \<longleftrightarrow> sqe_addr sqe = 0 \<or> message_at m (sqe_addr sqe)"
  by (auto simp: dispatch_sendmsg_def message_at_def Let_def returns_and_then [of "name_at _ _"] returns_and_then [of "pair_at _ _ _"]
      returns_simps field_returns iov_returns)

lemma u32_dom: "write_u32 m a v = Inr m' \<Longrightarrow> live m' b n \<longleftrightarrow> live m b n"
  using same_dom_live [OF write_u32_dom] .

lemma accept_returns:
  "returns (dispatch_accept sqe m) \<longleftrightarrow> sqe_addr sqe = 0 \<or> sqe_off sqe = 0 \<or> object_at m (sqe_off sqe) 4 4
     \<and> (case read_u32 m (sqe_off sqe) of Inr n \<Rightarrow> live m (sqe_addr sqe) (unat n) | Inl _ \<Rightarrow> False)"
proof -
  let ?a = "sqe_addr sqe" and ?p = "sqe_off sqe"
  have f: "returns (and_then (if 0 < n then slice_fill m ?a (unat n) else Inr m) (\<lambda>m1. and_then (write_u32 m1 ?p 0) (\<lambda>m2. Inr (42 :: i32, m2))))
      \<longleftrightarrow> live m ?a (unat n)" if "n = ucast (v :: u32)" "?a \<noteq> 0" "?p \<noteq> 0" "object_at m ?p 4 4" for n :: usize and v
  proof -
    have w: "returns (write_u32 m1 ?p 0)" if "same_dom m m1" for m1
      using \<open>object_at m ?p 4 4\<close> \<open>?p \<noteq> 0\<close> same_dom_live [OF that] by (simp add: returns_simps object_at_def readable_def)
    show ?thesis
    proof (cases "v = 0")
      case False
      then show ?thesis
        using that w [OF slice_fill_dom] u32_lt_63 [of v]
        by (auto simp: returns_and_then [of "slice_fill _ _ _"] slice_fill_Inr returns_last word_gt_0)
    qed (use w [of m] that in \<open>simp add: live_0 returns_last\<close>)
  qed
  show ?thesis
  proof (cases "read_u32 m ?p")
    case (Inr v)
    then have "?p \<noteq> 0 \<and> object_at m ?p 4 4" using returns_read(2) [of m ?p] by simp
    with Inr f [OF refl, of v] show ?thesis by (auto simp: dispatch_accept_def Let_def)
  qed (use returns_read(2) [of m ?p] in \<open>auto simp: dispatch_accept_def Let_def\<close>)
qed

lemma xattr_returns:
  "returns (dispatch_xattr_set sqe m) \<longleftrightarrow> (sqe_addr sqe = 0 \<or> string_at m (sqe_addr sqe))
     \<and> (sqe_off sqe = 0 \<or> readable m (sqe_off sqe) (unat (sqe_len sqe)))
     \<and> (ucast (sqe_opcode sqe) \<noteq> IORING_OP_SETXATTR \<or> sqe_addr3 sqe = 0 \<or> string_at m (sqe_addr3 sqe))"
  by (cases "sqe_len sqe = 0") (auto simp: dispatch_xattr_set_def Let_def handler_returns)

lemma xattr_get_returns:
  "returns (dispatch_xattr_get sqe m) \<longleftrightarrow> (sqe_addr sqe = 0 \<or> string_at m (sqe_addr sqe))
     \<and> (sqe_off sqe = 0 \<or> live m (sqe_off sqe) (unat (sqe_len sqe)))
     \<and> (ucast (sqe_opcode sqe) \<noteq> IORING_OP_GETXATTR \<or> sqe_addr3 sqe = 0
       \<or> string_at (if sqe_off sqe = 0 then m else zeroed m (region (sqe_off sqe) (unat (sqe_len sqe)))) (sqe_addr3 sqe))"
proof -
  let ?v = "sqe_off sqe" and ?n = "unat (sqe_len sqe)"
  have "(if ?v \<noteq> 0 \<and> 0 < (ucast (sqe_len sqe) :: usize) then slice_fill m ?v (unat (ucast (sqe_len sqe) :: usize)) else Inr m)
     = (if ?v = 0 \<or> live m ?v ?n then Inr (if ?v = 0 then m else zeroed m (region ?v ?n)) else UB UB_out_of_bounds)"
    using u32_lt_63 [of "sqe_len sqe"] by (cases "sqe_len sqe = 0") (auto simp: live_0 word_gt_0 slice_fill_eq)
  then show ?thesis by (auto simp: dispatch_xattr_get_def Let_def returns_simps)
qed

lemma array_returns:
  "returns (dispatch_files_update sqe m) \<longleftrightarrow> sqe_addr sqe = 0 \<or> sqe_len sqe = 0 \<or> object_at m (sqe_addr sqe) 4 (unat (sqe_len sqe) * 4)"
  using returns_load [of m "sqe_addr sqe" "unat (sqe_len sqe) * 4"] u32_small [of 4 "sqe_len sqe"]
  by (auto simp: dispatch_files_update_def Let_def handler_returns object_at_def readable_def)

lemma epoll_wait_returns:
  "returns (dispatch_epoll_wait sqe m) \<longleftrightarrow> sqe_addr sqe = 0 \<or> live m (sqe_addr sqe) (unat (sqe_len sqe) * 12)"
proof -
  have l: "unat (sqe_len sqe) * 12 < 2 ^ 63" by (rule u32_small) simp
  then have "unat (ucast (sqe_len sqe) * 12 :: usize) = unat (sqe_len sqe) * 12" by (simp add: unat_word_ariths)
  with l show ?thesis
    by (cases "sqe_len sqe = 0") (auto simp: dispatch_epoll_wait_def Let_def handler_returns rust_mul_def live_0)
qed

lemma saturating_mul_0: "saturating_mul a b = (0 :: usize) \<longleftrightarrow> a = 0 \<or> b = 0"
proof (cases "unat a * unat b < 2 ^ 64")
  case True
  then have "unat (a * b) = unat a * unat b" using unat_mult_lem [of a b] by simp
  then have "a * b = 0 \<longleftrightarrow> a = 0 \<or> b = 0" by (metis mult_is_0 unat_eq_0)
  with True show ?thesis by (simp add: saturating_mul_def)
next
  case False
  then have "a \<noteq> 0" "b \<noteq> 0" by auto
  with False show ?thesis by (simp add: saturating_mul_def)
qed

lemma unat_plus_nat: "unat (a :: u64) + k < 2 ^ 64 \<Longrightarrow> unat (a + of_nat k) = unat a + k"
  by (simp add: unat_word_ariths unat_of_nat)

lemma live_split: "unat a + k < 2 ^ 64 \<Longrightarrow> live m a (k + n) \<longleftrightarrow> live m a k \<and> live m (a + of_nat k) n"
  by (auto simp: live_iff region_split unat_plus_nat)

lemma provide_buffers_returns:
  fixes sqe :: io_uring_sqe
  defines "tot \<equiv> saturating_mul (scast (sqe_fd sqe) :: usize) (ucast (sqe_len sqe))"
  shows "returns (dispatch_provide_buffers sqe m) \<longleftrightarrow> sqe_addr sqe = 0 \<or> tot = 0
    \<or> unat tot < 2 ^ 63 \<and> live m (sqe_addr sqe) (unat tot) \<and> readable m (sqe_addr sqe) 1 \<and> readable m (sqe_addr sqe + (tot - 1)) 1"
proof -
  let ?a = "sqe_addr sqe"
  have 0: "tot = 0 \<longleftrightarrow> ucast (sqe_len sqe) = (0 :: usize) \<or> scast (sqe_fd sqe) = (0 :: usize)"
    by (auto simp: tot_def saturating_mul_0)
  have "live m ?a 1 \<and> live m (?a + (tot - 1)) 1" if "tot \<noteq> 0" "live m ?a (unat tot)"
  proof -
    have t: "of_nat (unat tot - 1) = tot - 1" "0 < unat tot" using that(1) by (simp_all add: unat_gt_0 of_nat_diff Suc_leI)
    then have "?a + (tot - 1) \<in> region ?a (unat tot)" using region_mem [of "unat tot - 1" "unat tot" ?a] by simp
    moreover have "Suc (unat (?a + (tot - 1))) \<le> 2 ^ 64" by (rule Suc_leI) (rule order_less_le_trans [OF unsigned_less], simp)
    ultimately have "live m (?a + (tot - 1)) 1" using that(2) by (auto simp: live_iff region_Suc)
    with t that(2) live_mono [of m ?a "unat tot" 1] show ?thesis by simp
  qed
  then show ?thesis
    using 0 by (auto simp: dispatch_provide_buffers_def Let_def returns_simps returns_load tot_def [symmetric] simp del: load.simps One_nat_def)
qed

lemma pipe_returns: "returns (dispatch_pipe sqe m) \<longleftrightarrow> sqe_addr sqe = 0 \<or> unat (sqe_addr sqe) mod 4 = 0 \<and> live m (sqe_addr sqe) 8"
proof -
  let ?a = "sqe_addr sqe"
  have "returns (dispatch_pipe sqe m) \<longleftrightarrow> ?a = 0 \<or> unat ?a mod 4 = 0 \<and> live m ?a 4
      \<and> ?a + 4 \<noteq> 0 \<and> unat (?a + 4) mod 4 = 0 \<and> live m (?a + 4) 4"
    using returns_access(4) [of m ?a 42]
    by (cases "write_u32 m ?a 42") (auto simp: dispatch_pipe_def Let_def returns_simps u32_dom)
  moreover have "live m ?a 8 \<and> unat ?a mod 4 = 0 \<longleftrightarrow> live m ?a 4 \<and> unat ?a mod 4 = 0 \<and> ?a + 4 \<noteq> 0
      \<and> unat (?a + 4) mod 4 = 0 \<and> live m (?a + 4) 4" if "?a \<noteq> 0"
  proof (cases "unat ?a + 4 < 2 ^ 64")
    case True
    then have u: "unat (?a + 4) = unat ?a + 4" using unat_plus_nat [of ?a 4] by simp
    then have "?a + 4 \<noteq> 0" by (metis add_is_0 unat_0 zero_neq_numeral)
    with u live_split [OF True, of m 4] show ?thesis by (auto simp: mod_add_eq)
  next
    case False
    have "\<not> live m ?a 8" using False by (simp add: live_def)
    moreover have "?a + 4 = 0" if "live m ?a 4"
    proof -
      have "unat ?a + 4 = 2 ^ 64" using False that by (simp add: live_def)
      then have "unat (?a + 4) = 0" by (simp add: unat_word_ariths)
      then show ?thesis by (simp add: unat_eq_0)
    qed
    ultimately show ?thesis by blast
  qed
  ultimately show ?thesis by metis
qed

lemma readable_split: "unat a + k < 2 ^ 64 \<Longrightarrow> readable m a (k + n) \<longleftrightarrow> readable m a k \<and> readable m (a + of_nat k) n"
proof -
  assume lt: "unat a + k < 2 ^ 64"
  have "(\<forall>i \<in> {..<k + n}. P i) \<longleftrightarrow> (\<forall>i \<in> {..<k}. P i) \<and> (\<forall>i \<in> {..<n}. P (k + i))" for P
    by (metis add_less_cancel_left le_add_diff_inverse lessThan_iff linorder_not_less trans_less_add1)
  from this [of "\<lambda>i. m (a + of_nat i) \<noteq> Some Uninit"] live_split [OF lt, of m n] show ?thesis
    by (auto simp: readable_def add.assoc)
qed

lemma aligned_plus: "unat (p :: u64) mod al = 0 \<Longrightarrow> k mod al = 0 \<Longrightarrow> unat p + k < 2 ^ 64 \<Longrightarrow> 0 < k \<Longrightarrow>
    unat (p + of_nat k) mod al = 0 \<and> p + of_nat k \<noteq> 0"
  using unat_plus_nat [of p k] by (auto simp: mod_add_eq dest!: arg_cong [of _ 0 unat])

lemma waitv_one:
  assumes "p \<noteq> 0" "unat p mod 8 = 0" "unat p + 24 \<le> 2 ^ 64"
  shows "returns (read_u64 m p) \<and> returns (read_u64 m (p + 8)) \<and> returns (read_u32 m (p + 16)) \<longleftrightarrow> readable m p 20"
proof -
  have "unat (p + 8) mod 8 = 0 \<and> p + 8 \<noteq> 0" "unat (p + 16) mod 8 = 0 \<and> p + 16 \<noteq> 0"
    using aligned_plus [of p 8 8] aligned_plus [of p 8 16] assms by simp_all
  moreover have "readable m p 20 \<longleftrightarrow> readable m p 8 \<and> readable m (p + 8) 8 \<and> readable m (p + 16) 4"
    using readable_split [of p 8 m 12] readable_split [of "p + 8" 8 m 4] unat_plus_nat [of p 8] assms(3) by (simp add: add.assoc)
  ultimately show ?thesis using assms(1,2) by (auto simp: returns_simps object_at_def)
qed

lemma waitv_loop_returns:
  assumes "p \<noteq> 0" "unat p mod 8 = 0" "unat p + n * 24 \<le> 2 ^ 64"
  shows "returns (read_waitv n p m) \<longleftrightarrow> list_all (\<lambda>i. readable m (p + of_nat (24 * i)) 20) [0..<n]"
  using assms
proof (induction n arbitrary: p)
  case (Suc n)
  have "returns (read_waitv n (p + 24) m) \<longleftrightarrow> list_all (\<lambda>i. readable m (p + 24 + of_nat (24 * i)) 20) [0..<n]"
  proof (cases "n = 0")
    case False
    with Suc.prems have l: "unat p + 24 < 2 ^ 64" by simp
    with Suc.prems aligned_plus [of p 8 24] unat_plus_nat [of p 24] show ?thesis by (intro Suc.IH) simp_all
  qed simp
  moreover have "list_all (\<lambda>i. readable m (p + of_nat (24 * i)) 20) [0..<Suc n]
      \<longleftrightarrow> readable m p 20 \<and> list_all (\<lambda>i. readable m (p + 24 + of_nat (24 * i)) 20) [0..<n]"
    by (simp add: upt_conv_Cons map_Suc_upt [symmetric] list.pred_map comp_def algebra_simps del: upt_Suc)
  moreover have "returns (read_u64 m p) \<and> returns (read_u64 m (p + 8)) \<and> returns (read_u32 m (p + 16)) \<longleftrightarrow> readable m p 20"
    using Suc.prems by (intro waitv_one) simp_all
  ultimately show ?case by (auto simp: returns_simps)
qed simp

lemma waitv_returns:
  "returns (dispatch_futex_waitv sqe m) \<longleftrightarrow> sqe_addr sqe = 0 \<or> sqe_len sqe = 0 \<or> waitv_at m (sqe_addr sqe) (unat (sqe_len sqe))"
  using waitv_loop_returns [of "sqe_addr sqe" "unat (sqe_len sqe)" m] u32_small [of 24 "sqe_len sqe"]
  by (auto simp: dispatch_futex_waitv_def waitv_at_def Let_def handler_returns live_def)

lemmas op_returns = buffer_returns vector_returns message_returns small_returns path_returns accept_returns array_returns
  provide_buffers_returns xattr_returns xattr_get_returns epoll_wait_returns waitv_returns pipe_returns

definition fills_vector :: "io_uring_sqe \<Rightarrow> bool" where
  "fills_vector sqe \<longleftrightarrow> ucast (sqe_opcode sqe) \<in> {IORING_OP_READV, IORING_OP_READV_FIXED, IORING_OP_RECVMSG}"

lemma returns_dispatch:
  assumes "\<not> fills_vector sqe"
  shows "returns (dispatch_op sqe m) \<longleftrightarrow> accessible sqe m"
proof (cases "ucast (sqe_opcode sqe) \<in> set HANDLED_OPCODES")
  case True
  with assms show ?thesis unfolding fills_vector_def HANDLED_OPCODES_def
    by (simp only: list.set insert_iff empty_iff)
      (elim disjE; simp add: dispatch_op_def accessible_def sys_consts op_returns unat_eq_0 Let_def)
next
  case False
  then have "accessible sqe m" by (simp add: accessible_def HANDLED_OPCODES_def Let_def)
  with dispatch_op_unhandled [OF False] show ?thesis by simp
qed

section \<open>The property\<close>

text \<open>C6: the memory contract of the dispatcher is exact.  For every opcode but the three that fill a vector of
  buffers, handled or not, the dispatch of an entry returns exactly when the entry finds in memory what
  \<open>accessible\<close> states: a live buffer where the handler writes, initialised bytes where it reads, a NUL-terminated
  string for a path or a name, an aligned structure for a timespec, an \<open>open_how\<close>, a futex or a length, a decodable
  vector of readable buffers.  Otherwise it is undefined behaviour; it is never a panic.\<close>

theorem dispatch_is_defined_exactly:
  assumes "ucast (sqe_opcode sqe) \<notin> {IORING_OP_READV, IORING_OP_READV_FIXED, IORING_OP_RECVMSG}"
  shows "if accessible sqe m then \<exists>r m'. dispatch_op sqe m = Inr (r, m')
    else \<exists>u. dispatch_op sqe m = Inl (UndefinedBehavior u)"
proof (cases "accessible sqe m")
  case True
  with returns_dispatch [of sqe m] assms show ?thesis by (auto simp: fills_vector_def returns_iff)
next
  case False
  with returns_dispatch [of sqe m] assms have "dispatch_op sqe m \<noteq> Inr r" for r
    by (metis fills_vector_def returns_basic(1))
  from no_panic_fails [OF dispatch_op_no_panic this] False show ?thesis by auto
qed

theorem dispatch_is_defined_exactly_witness:
  "(\<exists>r m'. dispatch_op (example_sqe IORING_OP_READ 4096 8) page_mem = Inr (r, m'))
   \<and> (\<exists>u. dispatch_op (example_sqe IORING_OP_READ 8190 8) page_mem = Inl (UndefinedBehavior u))"
proof -
  have "accessible (example_sqe IORING_OP_READ 4096 8) page_mem" by (simp add: accessible_def sys_consts Let_def page_mem_ok)
  moreover have "page_mem (8190 + of_nat 2) = None" by (simp add: page_mem_def)
  then have "\<not> live page_mem 8190 8" unfolding live_def by (metis lessThan_iff numeral_less_iff of_nat_numeral semiring_norm(76,78))
  then have "\<not> accessible (example_sqe IORING_OP_READ 8190 8) page_mem" by (simp add: accessible_def sys_consts Let_def)
  ultimately show ?thesis
    using dispatch_is_defined_exactly [of "example_sqe IORING_OP_READ 4096 8" page_mem]
      dispatch_is_defined_exactly [of "example_sqe IORING_OP_READ 8190 8" page_mem] by (simp add: sys_consts)
qed

end
