(* ===== verification/Miring_Valid.thy ===== *)
theory Miring_Valid
  imports Miring_Contract
begin

text \<open>
  The other side of \<open>Miring_Detect\<close>: a client that keeps its buffers valid is never reported.  What an entry
  needs of memory, the contract of \<open>Miring_Contract\<close>, survives the work of other entries, since they only zero
  bytes; so no schedule of the concurrent system runs into undefined behaviour.
\<close>

section \<open>Zeroing keeps it\<close>

text \<open>All handlers but \<open>PIPE\<close> change memory only by zeroing bytes of it.\<close>

definition wiped :: "umem \<Rightarrow> umem \<Rightarrow> bool" where
  "wiped m m' \<longleftrightarrow> (\<forall>x. m' x = m x \<or> m x \<noteq> None \<and> m' x = Some (Byte 0))"

named_theorems wiped_intros \<open>what only zeroes\<close>

lemma wiped_refl [simp, intro]: "wiped m m"
  by (simp add: wiped_def)

lemma wiped_trans [trans]: "wiped m m1 \<Longrightarrow> wiped m1 m2 \<Longrightarrow> wiped m m2"
  unfolding wiped_def by metis

lemma wiped_zeroed: "R \<subseteq> dom m \<Longrightarrow> wiped m (zeroed m R)"
  by (auto simp: wiped_def zeroed_def)

lemma wiped_store: "set bs \<subseteq> {0} \<Longrightarrow> live m a (length bs) \<Longrightarrow> wiped m (store m a bs)"
proof -
  assume "set bs \<subseteq> {0}" "live m a (length bs)"
  moreover from this have "bs = replicate (length bs) 0" by (metis replicate_length_same singletonD subsetD)
  moreover have "store m a (replicate n 0) = zeroed m (region a n)" for n by (auto simp: store_replicate zeroed_def)
  ultimately show ?thesis using wiped_zeroed [OF liveD] by metis
qed

lemma wiped_fill [wiped_intros]: "slice_fill m a n = Inr m' \<Longrightarrow> wiped m m'"
  by (auto simp: slice_fill_def and_then_eq_Inr intro!: wiped_store)

lemma wiped_fill_if [wiped_intros]: "fill_if m r = Inr m' \<Longrightarrow> wiped m m'"
  by (auto simp: fill_if_def dest: wiped_fill split: option.splits)

lemma wiped_fill_iovs [wiped_intros]: "fill_iovs n p tot m = Inr (t, m') \<Longrightarrow> wiped m m'"
proof (induction n arbitrary: p tot m)
  case (Suc n)
  then obtain r m1 tot' where "fill_if m r = Inr m1" "fill_iovs n (p + 16) tot' m1 = Inr (t, m')"
    by (auto simp: and_then_eq_Inr)
  with Suc.IH show ?case by (blast intro: wiped_fill_if wiped_trans)
qed simp

lemma wiped_write_0 [wiped_intros]: "write_u32 m a 0 = Inr m' \<Longrightarrow> wiped m m'"
  by (auto simp: write_u32_def ptr_write_def and_then_eq_Inr to_le_bytes_def intro!: wiped_store)

lemma wiped_handlers:
  "dispatch_buf_fill sqe m = Inr (r, m') \<Longrightarrow> wiped m m'" "dispatch_readv sqe m = Inr (r, m') \<Longrightarrow> wiped m m'"
  "dispatch_accept sqe m = Inr (r, m') \<Longrightarrow> wiped m m'" "dispatch_statx sqe m = Inr (r, m') \<Longrightarrow> wiped m m'"
  "dispatch_xattr_get sqe m = Inr (r, m') \<Longrightarrow> wiped m m'" "dispatch_epoll_wait sqe m = Inr (r, m') \<Longrightarrow> wiped m m'"
  "dispatch_waitid sqe m = Inr (r, m') \<Longrightarrow> wiped m m'"
  by (auto simp: handler_defs Let_def and_then_eq_Inr dest!: wiped_intros intro: wiped_trans split: if_splits)

lemma wiped_recvmsg: "dispatch_recvmsg sqe m = Inr (r, m') \<Longrightarrow> wiped m m'"
  by (auto simp: dispatch_recvmsg_def Let_def and_then_eq_Inr dest!: wiped_intros intro: wiped_trans split: if_splits option.splits)

lemma wiped_read_only: "m' = m \<Longrightarrow> wiped m m'"
  by simp

lemmas wiped_ops = wiped_handlers wiped_recvmsg dispatch_read_only [THEN wiped_read_only]

lemma wiped_dispatch:
  "dispatch_op sqe m = Inr (r, m') \<Longrightarrow> ucast (sqe_opcode sqe) \<noteq> IORING_OP_PIPE \<Longrightarrow> wiped m m'"
  unfolding dispatch_op_def Let_def by (simp only: split: if_split_asm) (auto dest: wiped_ops)

text \<open>What remains true of memory.\<close>

lemma wiped_same_dom: "wiped m m' \<Longrightarrow> same_dom m m'"
  unfolding wiped_def same_dom_def by (metis domIff option.distinct(1) subset_antisym subsetI)

lemma wiped_live: "wiped m m' \<Longrightarrow> live m' a n \<longleftrightarrow> live m a n"
  by (rule same_dom_live [OF wiped_same_dom])

lemma wiped_readable: "wiped m m' \<Longrightarrow> readable m a n \<Longrightarrow> readable m' a n"
  using wiped_live [of m m' a n] unfolding readable_def wiped_def by (metis mbyte.distinct(1) option.inject)

lemma wiped_object: "wiped m m' \<Longrightarrow> object_at m a al n \<Longrightarrow> object_at m' a al n"
  by (simp add: object_at_def wiped_readable)

lemma wiped_waitv: "wiped m m' \<Longrightarrow> waitv_at m p n \<Longrightarrow> waitv_at m' p n"
  by (auto simp: waitv_at_def wiped_live list_all_iff intro: wiped_readable)

lemma wiped_string: "wiped m m' \<Longrightarrow> string_at m p \<Longrightarrow> string_at m' p"
proof -
  assume w: "wiped m m'" and "string_at m p"
  then obtain n where n: "cstr_at m p n" by (auto simp: string_at_def)
  define k where "k = (LEAST k. m' (p + of_nat k) = Some (Byte 0))"
  have "m' (p + of_nat n) = Some (Byte 0)" using w n unfolding wiped_def cstr_at_def by metis
  then have k: "m' (p + of_nat k) = Some (Byte 0)" "k \<le> n"
    unfolding k_def by (rule LeastI, rule Least_le)
  have "\<exists>b. b \<noteq> 0 \<and> m' (p + of_nat i) = Some (Byte b)" if "i < k" for i
  proof -
    have "m' (p + of_nat i) \<noteq> Some (Byte 0)" using that unfolding k_def by (rule not_less_Least)
    with w n that k(2) show ?thesis unfolding wiped_def cstr_at_def by (metis order_less_le_trans)
  qed
  with n k have "cstr_at m' p k" by (simp add: cstr_at_def)
  then show ?thesis by (auto simp: string_at_def)
qed

lemma wiped_both: "wiped m m' \<Longrightarrow> wiped (zeroed m R) (zeroed m' R)"
  by (auto simp: wiped_def zeroed_def)

lemma from_le_bytes_wiped:
  assumes "length cs = length bs" "\<And>i. i < length bs \<Longrightarrow> cs ! i = bs ! i \<or> cs ! i = 0"
  shows "(from_le_bytes cs :: 'a::len word) \<le> from_le_bytes bs"
proof -
  have "bit (bs ! (i div 8)) (i mod 8)" if "i < 8 * length cs" "bit (cs ! (i div 8)) (i mod 8)" for i
    using assms(2) [of "i div 8"] assms(1) that by (auto simp: less_mult_imp_div_less mult.commute)
  then have "(from_le_bytes cs :: 'a word) AND from_le_bytes bs = from_le_bytes cs"
    using assms(1) by (intro bit_eqI) (auto simp: bit_and_iff bit_from_le_bytes)
  then show ?thesis by (metis word_and_le1)
qed

lemma wiped_read_u32:
  assumes "wiped m m'" "read_u32 m a = Inr v"
  obtains v' where "read_u32 m' a = Inr v'" "v' \<le> v"
proof -
  obtain bs where b: "a \<noteq> 0" "unat a mod 4 = 0" "live m a 4" "load m a 4 = Inr bs" "v = from_le_bytes bs"
    using assms(2) by (auto simp: read_u32_def ptr_read_def and_then_eq_Inr)
  then have r: "readable m' a 4" using wiped_readable [OF assms(1) load_readable] by blast
  then obtain cs where c: "load m' a 4 = Inr cs" "live m' a 4" using readable_load [OF r] by (auto simp: readable_def)
  have "cs ! i = bs ! i \<or> cs ! i = 0" if "i < 4" for i
  proof -
    have "m (a + of_nat i) = Some (Byte (bs ! i))" "m' (a + of_nat i) = Some (Byte (cs ! i))"
      using b(4) c(1) that by (simp_all add: load_Inr_iff)
    with assms(1) show ?thesis unfolding wiped_def by (auto dest: spec [of _ "a + of_nat i"])
  qed
  moreover have "length bs = 4" "length cs = 4" using b(4) c(1) by (simp_all add: load_Inr_iff)
  ultimately have "(from_le_bytes cs :: u32) \<le> v" using b(5) from_le_bytes_wiped [of cs bs] by simp
  with b c that show ?thesis by (simp add: read_u32_def ptr_read_def deref_check_def)
qed

text \<open>
  Entries whose handler reads no pointer from memory and writes nothing but zeroes.  What they need survives
  the work of other such entries, also on the same memory.
\<close>

definition direct :: "io_uring_sqe \<Rightarrow> bool" where
  "direct sqe \<longleftrightarrow> ucast (sqe_opcode sqe) \<notin> {IORING_OP_READV, IORING_OP_READV_FIXED, IORING_OP_RECVMSG, IORING_OP_WRITEV,
     IORING_OP_WRITEV_FIXED, IORING_OP_SENDMSG, IORING_OP_SENDMSG_ZC, IORING_OP_PIPE}"

lemma direct_simps: "direct sqe \<Longrightarrow> \<not> fills_vector sqe" "direct sqe \<Longrightarrow> ucast (sqe_opcode sqe) \<noteq> IORING_OP_PIPE"
  by (auto simp: direct_def fills_vector_def)

lemma wiped_accept:
  assumes "wiped m m'" "case read_u32 m p of Inr n \<Rightarrow> live m a (unat n) | Inl _ \<Rightarrow> False"
  shows "case read_u32 m' p of Inr n \<Rightarrow> live m' a (unat n) | Inl _ \<Rightarrow> False"
proof -
  obtain v where v: "read_u32 m p = Inr v" "live m a (unat v)" using assms(2) by (cases "read_u32 m p") auto
  obtain v' where "read_u32 m' p = Inr v'" "v' \<le> v" using wiped_read_u32 [OF assms(1) v(1)] .
  with v(2) wiped_live [OF assms(1)] live_mono show ?thesis by (auto simp: word_le_nat_alt)
qed

lemma accessible_wiped:
  assumes "direct sqe" "wiped m m'" "accessible sqe m"
  shows "accessible sqe m'"
proof (cases "ucast (sqe_opcode sqe) \<in> set HANDLED_OPCODES")
  case True
  note w = wiped_live [OF assms(2)] wiped_readable [OF assms(2)] wiped_object [OF assms(2)] wiped_string [OF assms(2)]
    wiped_waitv [OF assms(2)] wiped_accept [OF assms(2)] wiped_string [OF wiped_both [OF assms(2)]]
  from True assms(1,3) show ?thesis unfolding direct_def HANDLED_OPCODES_def
    by (simp only: list.set insert_iff empty_iff)
      (elim disjE; simp add: accessible_def sys_consts Let_def w(1); (blast intro: w | auto intro: w split: if_splits)?)
next
  case False
  then show ?thesis by (simp add: accessible_def HANDLED_OPCODES_def Let_def)
qed

section \<open>In the concurrent system\<close>

definition ready_thread :: "umem \<Rightarrow> dispatch_thread \<Rightarrow> bool" where
  "ready_thread m th \<longleftrightarrow> list_all (\<lambda>sqe. direct sqe \<and> accessible sqe m) (th_sqes th)"

lemma ready_next:
  assumes "ready_thread m th" "th_sqes th = s # rest"
  obtains cd b m' where "complete_one dispatch_op s (th_cancel_chain th) m = Inr (cd, b, m')" "wiped m m'"
proof (cases "th_cancel_chain th")
  case True
  with that show ?thesis by (auto simp: complete_one_simps)
next
  case False
  have d: "direct s" "accessible s m" using assms by (simp_all add: ready_thread_def)
  with returns_dispatch [OF direct_simps(1) [OF d(1)], of m] obtain r m' where r: "dispatch_op s m = Inr (r, m')" by (auto simp: returns_iff)
  with wiped_dispatch [OF r direct_simps(2) [OF d(1)]] False that show ?thesis by (auto simp: complete_one_simps)
qed

lemma ready_wiped: "wiped m m' \<Longrightarrow> ready_thread m th \<Longrightarrow> ready_thread m' th"
  by (auto simp: ready_thread_def list_all_iff intro: accessible_wiped)

lemma ready_run: "list_all (\<lambda>sqe. direct sqe \<and> accessible sqe m) sqes \<Longrightarrow>
    \<exists>rs m'. run_sqes dispatch_op sqes c acc m = Inr (rs, m') \<and> wiped m m'"
proof (induction sqes arbitrary: c acc m)
  case (Cons s sqes)
  let ?th = "\<lparr>th_sqes = s # sqes, th_cancel_chain = c, th_results = acc\<rparr>"
  from Cons.prems have "ready_thread m ?th" by (simp add: ready_thread_def)
  then obtain cd b m1 where 1: "complete_one dispatch_op s c m = Inr (cd, b, m1)" "wiped m m1"
    using ready_next [of m ?th s sqes] by auto
  then have "list_all (\<lambda>sqe. direct sqe \<and> accessible sqe m1) sqes"
    using Cons.prems by (auto simp: list_all_iff intro: accessible_wiped)
  from Cons.IH [OF this, of b "acc @ [cd]"] 1 show ?case by (auto intro: wiped_trans)
qed simp

lemma ready_run_threads: "list_all (ready_thread m) ths \<Longrightarrow> \<exists>rs m'. run_threads dispatch_op ths m = Inr (rs, m')"
proof (induction ths arbitrary: m)
  case (Cons th ths)
  then obtain rs m1 where 1: "thread_join dispatch_op th m = Inr (rs, m1)" "wiped m m1"
    using ready_run [of m "th_sqes th" "th_cancel_chain th" "th_results th"] by (auto simp: ready_thread_def kernel.thread_join_run)
  with Cons have "list_all (ready_thread m1) ths" by (auto simp: list_all_iff intro: ready_wiped)
  from Cons.IH [OF this] 1 show ?case by auto
qed simp

abbreviation ready :: "('s, 'c) conf \<Rightarrow> bool" where
  "ready cf \<equiv> list_all (ready_thread (cf_umem cf)) (cf_threads cf)"

lemma ready_kernel:
  assumes "kernel_step sub cf cf'" "ready cf"
  shows "ready cf'"
  using assms(1)
proof (cases rule: kernel_step.cases)
  case (dispatch i s rest cd c m)
  let ?th = "cf_threads cf ! i"
  have t: "ready_thread (cf_umem cf) ?th" using assms(2) dispatch(2) by (simp add: list_all_length)
  with ready_next [OF t dispatch(3)] dispatch(4) have w: "wiped (cf_umem cf) m" by auto
  have "ready_thread m (thread_next ?th cd c)"
    using ready_wiped [OF w t] dispatch(3) by (simp add: ready_thread_def thread_next_def)
  moreover have "list_all (ready_thread m) (cf_threads cf)" using assms(2) ready_wiped [OF w] by (auto simp: list_all_iff)
  ultimately show ?thesis using dispatch(1,2) by (auto simp: list_all_length nth_list_update)
next
  case (join th ths mem)
  with assms(2) post_results_threads [OF join(4)] show ?thesis by simp
qed

text \<open>
  A client that keeps the buffers of its outstanding entries accessible: after each of its own steps, which
  may push, submit, reap and change its memory, every outstanding entry finds what it needs.  Nothing is asked of
  the steps of the dispatch threads and of joins.
\<close>

inductive careful_step :: "('s, 'c) Submitter \<Rightarrow> ('s, 'c) conf \<Rightarrow> ('s, 'c) conf \<Rightarrow> bool"
  for sub :: "('s, 'c) Submitter"
where
  client: "ring_step sub cf cf' \<Longrightarrow> ready cf' \<Longrightarrow> careful_step sub cf cf'"
| threads: "kernel_step sub cf cf' \<Longrightarrow> careful_step sub cf cf'"

lemma careful_ready:
  "(careful_step sub)\<^sup>*\<^sup>* cf cf' \<Longrightarrow> ready cf \<Longrightarrow> conf_inv sub cf \<Longrightarrow> ready cf' \<and> conf_inv sub cf'"
  by (induction rule: rtranclp_induct) (auto elim!: careful_step.cases intro: ready_kernel ring_step_inv ring_step.kernel)

section \<open>The property\<close>



text \<open>The same through the interface of the crate, for calls that are not interleaved.\<close>

theorem completion_accepts_valid_buffers:
  assumes "ring_inv S C ring" "list_all (ready_thread m2) (ring_threads ring)"
    and "list_all (\<lambda>sqe. direct sqe \<and> accessible sqe m2) (ring_sqes S C ring)"
    and "IoUring_submit S C ring m = Inr (r, ring', m1)"
  shows "(\<exists>cq ring2 m3. IoUring_completion S C ring' m2 = Inr (cq, ring2, m3) \<and> ring_threads ring2 = [])
    \<and> (\<exists>m3. RingMemory_drop (ring_memory ring') m2 = Inr m3)"
proof -
  have i: "ring_inv S C ring'" and t: "list_all (ready_thread m2) (ring_threads ring')"
    using IoUring_submit_law [OF assms(1), of m] assms(2-4) by (auto simp: ready_thread_def thread_spawn_def)
  from ready_run_threads [OF t] obtain rs m3 where run: "run_threads dispatch_op (ring_threads ring') m2 = Inr (rs, m3)"
    by blast
  from IoUring_flush_pending_law [OF i run] obtain ring2 where
    "IoUring_flush_pending S C ring' m2 = Inr (ring2, m3)" "ring_threads ring2 = []" by blast
  moreover have "drop_batches (ring_threads ring') m2 = Inr m3" using run by (simp add: drop_batches_run)
  ultimately show ?thesis
    by (auto simp: IoUring_completion_def RingMemory_drop_def ring_threads_def)
qed

end
