(* ===== verification/Miring_Liveness.thy ===== *)
theory Miring_Liveness
  imports Miring_Example
begin

text \<open>
  Every accepted entry is answered eventually.  A run is an infinite sequence of steps of
  \<open>Miring_Concurrency\<close>; it is fair when the oldest outstanding thread, together with the join that
  waits for it, is not neglected for ever.  The application may go on pushing, submitting, reaping
  and changing its memory for as long as it likes.  As a dispatch may be undefined behaviour, the
  runs considered are those in which the oldest thread never meets such an entry.
\<close>

section \<open>Steps of the oldest thread\<close>

inductive head_step :: "('s, 'c) Submitter \<Rightarrow> ('s, 'c) conf \<Rightarrow> ('s, 'c) conf \<Rightarrow> bool"
  for sub :: "('s, 'c) Submitter"
where
  dispatch: "cf_threads cf = th # ths \<Longrightarrow> th_sqes th = sqe # rest \<Longrightarrow>
     complete_one dispatch_op sqe (th_cancel_chain th) (cf_umem cf) = Inr (cd, c, m) \<Longrightarrow>
     head_step sub cf (cf\<lparr>cf_mem := set_threads (thread_next th cd c # ths) (cf_mem cf), cf_umem := m\<rparr>)"
| join: "cf_threads cf = th # ths \<Longrightarrow> th_sqes th = [] \<Longrightarrow>
     post_results sub (th_results th) (set_threads ths (cf_mem cf)) = Inr mem \<Longrightarrow>
     head_step sub cf (cf\<lparr>cf_mem := mem, cf_joined := cf_joined cf @ th_results th,
       cf_lost := cf_lost cf + (length (cqes_of (th_results th)) - cq_free sub (cf_mem cf))\<rparr>)"

lemma head_step_kernel: "head_step sub cf cf' \<Longrightarrow> kernel_step sub cf cf'"
proof (induction rule: head_step.induct)
  case (dispatch cf th ths sqe rest cd c m)
  then show ?case using kernel_step.dispatch [of 0 cf sqe rest cd c m sub] by simp
next
  case (join cf th ths mem)
  then show ?case by (rule kernel_step.join)
qed

text \<open>Every other step leaves the oldest thread and the joined results as they are.\<close>

definition same_head :: "('s, 'c) conf \<Rightarrow> ('s, 'c) conf \<Rightarrow> bool" where
  "same_head cf cf' \<longleftrightarrow> cf_threads cf' \<noteq> [] \<and> hd (cf_threads cf') = hd (cf_threads cf)
     \<and> cf_joined cf' = cf_joined cf"

lemma kernel_step_head:
  assumes "kernel_step sub cf cf'"
  shows "head_step sub cf cf' \<or> same_head cf cf'"
  using assms
proof (cases rule: kernel_step.cases)
  case (dispatch i sqe rest cd c m)
  then obtain th ths where t: "cf_threads cf = th # ths" by (cases "cf_threads cf") auto
  show ?thesis
  proof (cases i)
    case 0
    with dispatch t show ?thesis using head_step.dispatch [of cf th ths sqe rest cd c m sub] by simp
  next
    case (Suc j)
    with dispatch t show ?thesis by (simp add: same_head_def)
  qed
next
  case (join th ths mem)
  then show ?thesis by (blast intro: head_step.join)
qed

lemma enqueue_threads:
  assumes "sub_inv sub mem" "enqueue_sqes sub k mem = Inr (Inr n, mem')"
  obtains "st_pending (rm_state mem') = st_pending (rm_state mem)"
    | sqes where "sqes \<noteq> []" "st_pending (rm_state mem') = st_pending (rm_state mem) @ [thread_spawn sqes]"
proof -
  let ?l = "min (unat k) (length (sq_published sub mem))"
  obtain mem1 where "enqueue_sqes sub k mem = Inr (Inr (of_nat ?l), mem1)"
    "mem1 = upd_state (\<lambda>st. st\<lparr>st_sq_head := st_sq_head st + of_nat ?l, st_pending := st_pending st
       @ (if ?l = 0 then [] else [thread_spawn (take ?l (sq_published sub mem))])\<rparr>) mem"
    using enqueue_sqes_law [OF assms(1), of k] by blast
  moreover have upd: "st_pending (rm_state (upd_state (\<lambda>st. st\<lparr>st_sq_head := h st,
      st_pending := st_pending st @ ths\<rparr>) mem)) = st_pending (rm_state mem) @ ths" for h ths
    by simp
  moreover from calculation(1) assms(2) have "mem' = mem1" by simp
  ultimately have m: "st_pending (rm_state mem') = st_pending (rm_state mem)
      @ (if ?l = 0 then [] else [thread_spawn (take ?l (sq_published sub mem))])"
    by (simp only: upd)
  show ?thesis
  proof (cases "?l = 0")
    case True
    with m show ?thesis by (intro that(1)) simp
  next
    case False
    then have "take ?l (sq_published sub mem) \<noteq> []" by auto
    with m False show ?thesis by (intro that(2)) simp_all
  qed
qed

lemma ring_step_head:
  assumes "ring_step sub cf cf'" "conf_inv sub cf" "cf_threads cf \<noteq> []"
  shows "head_step sub cf cf' \<or> same_head cf cf'"
  using assms(1)
proof (cases rule: ring_step.cases)
  case (app_push e r sq mem)
  have "sub_inv sub (cf_mem cf)" using assms(2) by (simp add: conf_inv_def)
  from push_sub_inv [OF this app_push(2)] app_push(1) assms(3) show ?thesis
    by (simp add: same_head_def squeue_drop_def)
next
  case (app_submit k n mem)
  have "sub_inv sub (cf_mem cf)" using assms(2) by (simp add: conf_inv_def)
  from this app_submit(2) show ?thesis
    by (rule enqueue_threads) (use app_submit(1) assms(3) in \<open>simp_all add: same_head_def\<close>)
next
  case kernel
  then show ?thesis by (rule kernel_step_head)
qed (use assms(3) in \<open>simp_all add: same_head_def cqueue_drop_def\<close>)

section \<open>Outstanding threads owe something\<close>

definition threads_owe :: "('s, 'c) conf \<Rightarrow> bool" where
  "threads_owe cf \<longleftrightarrow> (\<forall>th \<in> set (cf_threads cf). thread_owes th \<noteq> [])"

lemma thread_next_owes:
  assumes "th_sqes th = sqe # rest" "complete_one dispatch_op sqe c m = Inr (cd, c', m')"
  shows "thread_owes (thread_next th cd c'') \<noteq> []"
  using assms by (simp add: thread_owes_def thread_next_def)

lemma kernel_step_owe:
  assumes "kernel_step sub cf cf'" "threads_owe cf"
  shows "threads_owe cf'"
  using assms
proof (cases rule: kernel_step.cases)
  case (dispatch i sqe rest cd c m)
  have "th \<in> insert (thread_next (cf_threads cf ! i) cd c) (set (cf_threads cf))"
    if "th \<in> set (cf_threads cf')" for th
    using that dispatch(1) set_update_subset_insert [of "cf_threads cf" i] by auto
  with dispatch thread_next_owes [OF dispatch(3,4)] assms(2) show ?thesis by (auto simp: threads_owe_def)
next
  case (join th ths mem)
  with assms(2) show ?thesis by (auto simp: threads_owe_def post_results_threads)
qed

lemma ring_step_owe:
  assumes "ring_step sub cf cf'" "conf_inv sub cf" "threads_owe cf"
  shows "threads_owe cf'"
  using assms(1)
proof (cases rule: ring_step.cases)
  case (app_push e r sq mem)
  have "sub_inv sub (cf_mem cf)" using assms(2) by (simp add: conf_inv_def)
  from push_sub_inv [OF this app_push(2)] app_push(1) assms(3) show ?thesis
    by (simp add: threads_owe_def squeue_drop_def)
next
  case (app_submit k n mem)
  have "sub_inv sub (cf_mem cf)" using assms(2) by (simp add: conf_inv_def)
  from this app_submit(2) show ?thesis
    by (rule enqueue_threads)
      (use app_submit(1) assms(3) in \<open>auto simp: threads_owe_def thread_owes_def thread_spawn_def\<close>)
next
  case kernel
  then show ?thesis using assms(3) by (rule kernel_step_owe)
qed (use assms(3) in \<open>simp_all add: threads_owe_def cqueue_drop_def\<close>)

section \<open>Progress of the oldest thread\<close>

text \<open>The next entry of the oldest thread can be dispatched.\<close>

definition head_safe :: "('s, 'c) conf \<Rightarrow> bool" where
  "head_safe cf \<longleftrightarrow> (case cf_threads cf of [] \<Rightarrow> True | th # _ \<Rightarrow>
     (case th_sqes th of [] \<Rightarrow> True | sqe # _ \<Rightarrow>
        \<exists>r. complete_one dispatch_op sqe (th_cancel_chain th) (cf_umem cf) = Inr r))"

lemma head_step_enabled:
  assumes i: "conf_inv sub cf" and t: "cf_threads cf \<noteq> []" and s: "head_safe cf"
  shows "\<exists>cf'. head_step sub cf cf'"
proof -
  obtain th ths where th: "cf_threads cf = th # ths" using t by (cases "cf_threads cf") auto
  show ?thesis
  proof (cases "th_sqes th")
    case Nil
    have "sub_inv sub (set_threads ths (cf_mem cf))" using i by (simp add: conf_inv_def)
    then obtain mem where "post_results sub (th_results th) (set_threads ths (cf_mem cf)) = Inr mem"
      unfolding post_results_put_all by (rule put_all_total)
    with th Nil show ?thesis by (blast intro: head_step.join)
  next
    case (Cons sqe rest)
    with th s obtain cd c m where "complete_one dispatch_op sqe (th_cancel_chain th) (cf_umem cf) = Inr (cd, c, m)"
      by (auto simp: head_safe_def)
    with th Cons show ?thesis by (blast intro: head_step.dispatch)
  qed
qed

lemma head_step_progress:
  assumes "head_step sub cf cf'" "threads_owe cf"
  shows "length (cf_joined cf) < length (cf_joined cf') \<or>
    (cf_threads cf' \<noteq> [] \<and> length (th_sqes (hd (cf_threads cf'))) < length (th_sqes (hd (cf_threads cf))))"
  using assms
proof (cases rule: head_step.cases)
  case (dispatch th ths sqe rest cd c m)
  then show ?thesis by (simp add: thread_next_def)
next
  case (join th ths mem)
  with assms(2) show ?thesis by (simp add: threads_owe_def thread_owes_def)
qed

lemma ring_step_prefixes:
  assumes "ring_step sub cf cf'"
  shows "prefix (cf_joined cf) (cf_joined cf') \<and> prefix (cf_accepted cf) (cf_accepted cf')"
  using assms
proof (cases rule: ring_step.cases)
  case kernel
  then show ?thesis by (cases rule: kernel_step.cases) simp_all
qed simp_all

section \<open>Servers\<close>

text \<open>
  The interface: a system \<open>step\<close> with a distinguished \<open>serve\<close> step that is enabled whenever there is
  work, that nothing else takes away, and that brings either a result or the next result nearer.
\<close>

definition is_run :: "('a \<Rightarrow> 'a \<Rightarrow> bool) \<Rightarrow> (nat \<Rightarrow> 'a) \<Rightarrow> bool" where
  "is_run step \<sigma> \<longleftrightarrow> (\<forall>i. step (\<sigma> i) (\<sigma> (Suc i)))"

text \<open>Weak fairness: the serving step is not enabled for ever without being taken.\<close>

definition weakly_fair :: "('a \<Rightarrow> 'a \<Rightarrow> bool) \<Rightarrow> (nat \<Rightarrow> 'a) \<Rightarrow> bool" where
  "weakly_fair serve \<sigma> \<longleftrightarrow> (\<forall>i. \<exists>j\<ge>i. (\<nexists>c. serve (\<sigma> j) c) \<or> serve (\<sigma> j) (\<sigma> (Suc j)))"

locale server =
  fixes step serve :: "'a \<Rightarrow> 'a \<Rightarrow> bool"
    and inv safe busy :: "'a \<Rightarrow> bool"
    and left answered owed :: "'a \<Rightarrow> nat"
  assumes inv: "step c c' \<Longrightarrow> inv c \<Longrightarrow> inv c'"
    and mono: "step c c' \<Longrightarrow> answered c \<le> answered c'" "step c c' \<Longrightarrow> owed c \<le> owed c'"
    and enabled: "inv c \<Longrightarrow> busy c \<Longrightarrow> safe c \<Longrightarrow> \<exists>c'. serve c c'"
    and waits: "step c c' \<Longrightarrow> inv c \<Longrightarrow> busy c \<Longrightarrow> \<not> serve c c' \<Longrightarrow>
      busy c' \<and> left c' = left c \<and> answered c' = answered c"
    and serves: "serve c c' \<Longrightarrow> inv c \<Longrightarrow> answered c < answered c' \<or> (busy c' \<and> left c' < left c)"
    and owes: "inv c \<Longrightarrow> answered c < owed c \<Longrightarrow> busy c"
begin

lemma run_inv: "is_run step \<sigma> \<Longrightarrow> inv (\<sigma> 0) \<Longrightarrow> inv (\<sigma> i)"
  by (induction i) (auto simp: is_run_def intro: inv)

lemma run_mono:
  assumes "is_run step \<sigma>" "i \<le> j"
  shows "answered (\<sigma> i) \<le> answered (\<sigma> j)" "owed (\<sigma> i) \<le> owed (\<sigma> j)"
  using assms mono by (auto simp: is_run_def intro: lift_Suc_mono_le)

lemma busy_waits:
  assumes r: "is_run step \<sigma>" "inv (\<sigma> 0)" and "i \<le> j" "busy (\<sigma> i)"
    and "\<And>k. i \<le> k \<Longrightarrow> k < j \<Longrightarrow> \<not> serve (\<sigma> k) (\<sigma> (Suc k))"
  shows "busy (\<sigma> j) \<and> left (\<sigma> j) = left (\<sigma> i) \<and> answered (\<sigma> j) = answered (\<sigma> i)"
  using assms(3-5)
proof (induction rule: dec_induct)
  case (step n)
  then have h: "busy (\<sigma> n)" "left (\<sigma> n) = left (\<sigma> i)" "answered (\<sigma> n) = answered (\<sigma> i)" by auto
  with waits [of "\<sigma> n" "\<sigma> (Suc n)"] r run_inv [OF r] step show ?case by (simp add: is_run_def)
qed simp

lemma busy_served:
  assumes r: "is_run step \<sigma>" "inv (\<sigma> 0)" and f: "weakly_fair serve \<sigma>" and s: "\<And>i. safe (\<sigma> i)"
    and b: "busy (\<sigma> i)"
  shows "\<exists>j\<ge>i. serve (\<sigma> j) (\<sigma> (Suc j)) \<and> left (\<sigma> j) = left (\<sigma> i) \<and> answered (\<sigma> j) = answered (\<sigma> i)"
proof -
  obtain k where k: "k \<ge> i" "(\<nexists>c. serve (\<sigma> k) c) \<or> serve (\<sigma> k) (\<sigma> (Suc k))"
    using f by (auto simp: weakly_fair_def)
  let ?P = "\<lambda>j. j \<ge> i \<and> serve (\<sigma> j) (\<sigma> (Suc j))"
  have ex: "\<exists>j. ?P j"
  proof (rule ccontr)
    assume n: "\<not> ?thesis"
    with busy_waits [OF r k(1) b] have "busy (\<sigma> k)" by blast
    with k n enabled [OF run_inv [OF r] _ s] show False by blast
  qed
  define j where "j = (LEAST j. ?P j)"
  from ex have j: "?P j" unfolding j_def by (rule LeastI_ex)
  have "\<not> serve (\<sigma> k) (\<sigma> (Suc k))" if "i \<le> k" "k < j" for k
    using not_less_Least [of k ?P] that unfolding j_def by blast
  with busy_waits [OF r, of i j] j b show ?thesis by blast
qed

lemma busy_answers:
  assumes r: "is_run step \<sigma>" "inv (\<sigma> 0)" and f: "weakly_fair serve \<sigma>" and s: "\<And>i. safe (\<sigma> i)"
    and b: "busy (\<sigma> i)"
  shows "\<exists>j\<ge>i. answered (\<sigma> i) < answered (\<sigma> j)"
  using b
proof (induction "left (\<sigma> i)" arbitrary: i rule: less_induct)
  case less
  obtain j where j: "j \<ge> i" "serve (\<sigma> j) (\<sigma> (Suc j))" "left (\<sigma> j) = left (\<sigma> i)" "answered (\<sigma> j) = answered (\<sigma> i)"
    using busy_served [OF r f s less.prems] by blast
  from serves [OF j(2) run_inv [OF r]] show ?case
  proof
    assume "answered (\<sigma> j) < answered (\<sigma> (Suc j))"
    with j show ?thesis by (intro exI [of _ "Suc j"]) simp
  next
    assume "busy (\<sigma> (Suc j)) \<and> left (\<sigma> (Suc j)) < left (\<sigma> j)"
    with less.hyps [of "Suc j"] j obtain k where "k \<ge> Suc j" "answered (\<sigma> (Suc j)) < answered (\<sigma> k)"
      by auto
    moreover have "answered (\<sigma> i) \<le> answered (\<sigma> (Suc j))" using run_mono [OF r(1), of i "Suc j"] j(1) by simp
    ultimately show ?thesis using j(1) by (intro exI [of _ k]) simp
  qed
qed

lemma all_answered:
  assumes r: "is_run step \<sigma>" "inv (\<sigma> 0)" and f: "weakly_fair serve \<sigma>" and s: "\<And>i. safe (\<sigma> i)"
  shows "\<exists>j\<ge>i. owed (\<sigma> i) \<le> answered (\<sigma> j)"
proof -
  have "\<exists>j\<ge>k. owed (\<sigma> i) \<le> answered (\<sigma> j)" if "k \<ge> i" for k
    using that
  proof (induction "owed (\<sigma> i) - answered (\<sigma> k)" arbitrary: k rule: less_induct)
    case less
    show ?case
    proof (cases "owed (\<sigma> i) \<le> answered (\<sigma> k)")
      case False
      with run_mono(2) [OF r(1) less.prems] have "busy (\<sigma> k)" by (intro owes run_inv [OF r]) simp
      then obtain j where j: "j \<ge> k" "answered (\<sigma> k) < answered (\<sigma> j)"
        using busy_answers [OF r f s] by blast
      with False have "owed (\<sigma> i) - answered (\<sigma> j) < owed (\<sigma> i) - answered (\<sigma> k)" by simp
      with less.hyps [of j] less.prems j(1) obtain l where "l \<ge> j" "owed (\<sigma> i) \<le> answered (\<sigma> l)"
        by fastforce
      with j(1) show ?thesis by (intro exI [of _ l]) simp
    qed auto
  qed
  then show ?thesis by blast
qed

end

section \<open>The ring is a server\<close>

definition live_inv :: "('s, 'c) Submitter \<Rightarrow> ('s, 'c) conf \<Rightarrow> bool" where
  "live_inv sub cf \<longleftrightarrow> conf_inv sub cf \<and> threads_owe cf"

lemma owed_entries:
  assumes "conf_inv sub cf"
  shows "map cd_user_data (cf_joined cf) @ concat (map thread_owes (cf_threads cf))
    = map sqe_user_data (cf_accepted cf)"
  using assms by (simp add: conf_inv_def)

interpretation live: server "ring_step sub" "head_step sub" "live_inv sub" head_safe
  "\<lambda>cf. cf_threads cf \<noteq> []" "\<lambda>cf. length (th_sqes (hd (cf_threads cf)))" "\<lambda>cf. length (cf_joined cf)"
  "\<lambda>cf. length (cf_accepted cf)" for sub :: "('s, 'c) Submitter"
proof
  fix cf cf' :: "('s, 'c) conf"
  show "length (cf_joined cf) \<le> length (cf_joined cf')" "length (cf_accepted cf) \<le> length (cf_accepted cf')"
    if "ring_step sub cf cf'"
    using ring_step_prefixes [OF that] by (simp_all add: prefix_length_le)
  show "cf_threads cf \<noteq> []" if "live_inv sub cf" "length (cf_joined cf) < length (cf_accepted cf)"
    using that arg_cong [OF owed_entries, of sub cf length] by (auto simp: live_inv_def)
  show "cf_threads cf' \<noteq> [] \<and> length (th_sqes (hd (cf_threads cf'))) = length (th_sqes (hd (cf_threads cf)))
      \<and> length (cf_joined cf') = length (cf_joined cf)"
    if "ring_step sub cf cf'" "live_inv sub cf" "cf_threads cf \<noteq> []" "\<not> head_step sub cf cf'"
    using ring_step_head [OF that(1) _ that(3)] that(2,4) by (simp add: live_inv_def same_head_def)
qed (auto simp: live_inv_def intro: ring_step_inv ring_step_owe head_step_enabled dest: head_step_progress)

lemma live_inv_init: "ring_start sub mem \<Longrightarrow> live_inv sub (conf_init mem m)"
  using conf_inv_init [of sub mem m]
  by (auto simp: live_inv_def threads_owe_def conf_init_def ring_start_def)

lemma run_reaches:
  assumes "is_run (ring_step sub) \<sigma>" "i \<le> j"
  shows "(ring_step sub)\<^sup>*\<^sup>* (\<sigma> i) (\<sigma> j)"
  using assms(2)
proof (induction rule: dec_induct)
  case (step n)
  moreover have "ring_step sub (\<sigma> n) (\<sigma> (Suc n))" using assms(1) by (simp add: is_run_def)
  ultimately show ?case by (simp add: rtranclp.rtrancl_into_rtrancl)
qed simp

lemma accepted_prefix: "(ring_step sub)\<^sup>*\<^sup>* cf cf' \<Longrightarrow> prefix (cf_accepted cf) (cf_accepted cf')"
proof (induction rule: rtranclp_induct)
  case (step y z)
  with ring_step_prefixes [OF step(2)] show ?case by (blast intro: prefix_order.trans)
qed simp

lemma fair_run_answers:
  assumes r: "is_run (ring_step sub) \<sigma>" "live_inv sub (\<sigma> 0)"
    and f: "weakly_fair (head_step sub) \<sigma>" and s: "\<And>i. head_safe (\<sigma> i)"
  shows "\<exists>j\<ge>i. map cd_user_data (take (length (cf_accepted (\<sigma> i))) (cf_joined (\<sigma> j)))
     = map sqe_user_data (cf_accepted (\<sigma> i))"
proof -
  obtain j where j: "j \<ge> i" "length (cf_accepted (\<sigma> i)) \<le> length (cf_joined (\<sigma> j))"
    using live.all_answered [OF r f s] by blast
  obtain xs where xs: "cf_accepted (\<sigma> j) = cf_accepted (\<sigma> i) @ xs"
    using accepted_prefix [OF run_reaches [OF r(1) j(1)]] by (auto simp: prefix_def)
  have "map cd_user_data (cf_joined (\<sigma> j)) @ concat (map thread_owes (cf_threads (\<sigma> j)))
      = map sqe_user_data (cf_accepted (\<sigma> i) @ xs)"
    using owed_entries [of sub "\<sigma> j"] live.run_inv [OF r, of j] xs by (simp add: live_inv_def)
  from arg_cong [OF this, of "take (length (cf_accepted (\<sigma> i)))"] j show ?thesis
    by (auto simp: take_map)
qed

section \<open>The property\<close>

text \<open>C3: every accepted entry is answered.  In an infinite run from a ring just built, in which the
  application does whatever it likes but the oldest thread and the join that waits for it are not
  neglected for ever, and in which that thread never meets an entry whose dispatch is undefined
  behaviour: for every moment there is a later one at which all entries accepted so far have been
  answered, in their order.\<close>

theorem accepted_entries_are_answered:
  assumes "ring_start sub mem" "\<sigma> 0 = conf_init mem m" "is_run (ring_step sub) \<sigma>"
    and "weakly_fair (head_step sub) \<sigma>" "\<And>i. head_safe (\<sigma> i)"
  shows "\<exists>j\<ge>i. map cd_user_data (take (length (cf_accepted (\<sigma> i))) (cf_joined (\<sigma> j)))
     = map sqe_user_data (cf_accepted (\<sigma> i))"
  using fair_run_answers [OF assms(3) _ assms(4,5)] live_inv_init [OF assms(1), of m] assms(2) by metis

text \<open>
  A run that pushes one \<open>Nop\<close>, submits it, dispatches it, joins the thread, and then idles.
\<close>

lemma stutter: "ring_step sub cf cf"
  using ring_step.app_memory [of sub cf "cf_umem cf"] by simp

definition then_idle :: "'a list \<Rightarrow> nat \<Rightarrow> 'a" where
  "then_idle cfs i = cfs ! min i (length cfs - 1)"

lemma then_idle_run:
  assumes "cfs \<noteq> []" "successively (ring_step sub) cfs"
  shows "is_run (ring_step sub) (then_idle cfs)"
  unfolding is_run_def
proof
  fix i
  show "ring_step sub (then_idle cfs i) (then_idle cfs (Suc i))"
  proof (cases "Suc i < length cfs")
    case True
    then have "min i (length cfs - 1) = i" "min (Suc i) (length cfs - 1) = Suc i" by auto
    with True assms(2) show ?thesis by (simp add: then_idle_def successively_conv_nth)
  next
    case False
    then have "min i (length cfs - 1) = length cfs - 1" "min (Suc i) (length cfs - 1) = length cfs - 1" by auto
    then show ?thesis by (simp add: then_idle_def stutter)
  qed
qed

lemma then_idle_in: "cfs \<noteq> [] \<Longrightarrow> then_idle cfs i \<in> set cfs"
  by (simp add: then_idle_def min_less_iff_disj)

lemma idle_no_head: "cf_threads cf = [] \<Longrightarrow> \<not> head_step sub cf cf'"
  by (auto elim: head_step.cases)

lemma then_idle_fair:
  assumes "cfs \<noteq> []" "cf_threads (last cfs) = []"
  shows "weakly_fair (head_step sub) (then_idle cfs)"
  unfolding weakly_fair_def
proof (intro allI exI conjI disjI1)
  fix i
  show "i \<le> max i (length cfs)" by simp
  have "min (max i (length cfs)) (length cfs - 1) = length cfs - 1" by simp
  then have "then_idle cfs (max i (length cfs)) = last cfs"
    using last_conv_nth [OF assms(1)] by (simp only: then_idle_def)
  then show "\<nexists>cf'. head_step sub (then_idle cfs (max i (length cfs))) cf'"
    using idle_no_head [OF assms(2)] by simp
qed

lemma nop_entry_next:
  "\<exists>cd c. complete_one dispatch_op (entry_sqe (nop_entry u)) b m = Inr (cd, c, m)"
proof -
  have "entry_sqe (nop_entry u) = linked 0 0 u" by (simp add: nop_entry_def linked_def io_uring_sqe_default_def)
  then show ?thesis by (cases b) (auto simp: complete_one_simps dispatch_linked_nop)
qed

lemma example_nop_run:
  "\<exists>c1 c2 c3 c4. successively (ring_step example_sub) [conf_init start_mem page_mem, c1, c2, c3, c4]
     \<and> cf_accepted c2 = [entry_sqe (nop_entry 1)] \<and> cf_threads c4 = []
     \<and> (\<forall>cf \<in> {conf_init start_mem page_mem, c1, c2, c3, c4}. head_safe cf)"
proof -
  let ?c0 = "conf_init start_mem page_mem" and ?n = "entry_sqe (nop_entry 1)"
  obtain c1 where c1: "ring_step example_sub ?c0 c1" "cf_pushed c1 = [?n]" "cf_accepted c1 = []" "cf_threads c1 = []"
    using example_push_step by blast
  have i1: "conf_inv example_sub c1" using ring_step_inv [OF c1(1) conf_inv_init [OF example_ring_start]] .
  then have p: "sub_inv example_sub (cf_mem c1)" "sq_published example_sub (cf_mem c1) = [?n]"
    using c1 by (simp_all add: conf_inv_def)
  obtain mem where e: "enqueue_sqes example_sub 1 (cf_mem c1) = Inr (Inr 1, mem)"
      "st_pending (rm_state mem) = [thread_spawn [?n]]"
    using enqueue_sqes_law [OF p(1), of 1] p(2) c1(4) by auto
  define c2 where "c2 = c1\<lparr>cf_mem := mem, cf_accepted := [?n]\<rparr>"
  have s2: "ring_step example_sub c1 c2" "cf_threads c2 = [thread_spawn [?n]]"
    using ring_step.app_submit [OF e(1)] e(2) p(2) c1(3) by (simp_all add: c2_def)
  obtain cd c where d: "complete_one dispatch_op ?n False (cf_umem c2) = Inr (cd, c, cf_umem c2)"
    using nop_entry_next by blast
  define c3 where "c3 = c2\<lparr>cf_mem := set_threads [thread_next (thread_spawn [?n]) cd c] (cf_mem c2)\<rparr>"
  have s3: "kernel_step example_sub c2 c3" "cf_threads c3 = [thread_next (thread_spawn [?n]) cd c]"
    using kernel_step.dispatch [of 0 c2 ?n "[]" cd c "cf_umem c2"] d s2(2) by (simp_all add: c3_def thread_spawn_def)
  have i3: "sub_inv example_sub (cf_mem c3)"
    using ring_step_inv [OF s2(1) i1] conf_inv_kernel [OF s3(1)] by (simp add: conf_inv_def)
  have h: "th_sqes (thread_next (thread_spawn [?n]) cd c) = []" by (simp add: thread_next_def thread_spawn_def)
  obtain c4 where s4: "kernel_step example_sub c3 c4"
    using kernel_step_enabled [OF i3 s3(2)] h by auto
  then have "cf_threads c4 = []"
    using s3(2) h by (auto elim!: kernel_stepE simp: post_results_threads)
  moreover have "head_safe ?c0" by (simp add: head_safe_def conf_init_def start_mem_def new_RingState_def)
  moreover have "head_safe c2" using s2(2) d by (auto simp: head_safe_def thread_spawn_def)
  ultimately show ?thesis
    using c1 s2 s3 s4 h by (intro exI [of _ c1] exI [of _ c2] exI [of _ c3] exI [of _ c4])
      (auto simp: head_safe_def c2_def intro: ring_step.kernel)
qed

theorem accepted_entries_are_answered_witness:
  "\<exists>\<sigma>. is_run (ring_step example_sub) \<sigma> \<and> cf_accepted (\<sigma> 2) = [entry_sqe (nop_entry 1)]
     \<and> (\<exists>j\<ge>2. map cd_user_data (take 1 (cf_joined (\<sigma> j))) = [1])"
proof -
  obtain c1 c2 c3 c4 where c: "successively (ring_step example_sub) [conf_init start_mem page_mem, c1, c2, c3, c4]"
    "cf_accepted c2 = [entry_sqe (nop_entry 1)]" "cf_threads c4 = []"
    "\<forall>cf \<in> {conf_init start_mem page_mem, c1, c2, c3, c4}. head_safe cf"
    using example_nop_run by blast
  let ?cfs = "[conf_init start_mem page_mem, c1, c2, c3, c4]"
  have r: "is_run (ring_step example_sub) (then_idle ?cfs)" by (rule then_idle_run) (use c in simp_all)
  have f: "weakly_fair (head_step example_sub) (then_idle ?cfs)" by (rule then_idle_fair) (use c in simp_all)
  have s: "head_safe (then_idle ?cfs i)" for i using then_idle_in [of ?cfs i] c(4) by auto
  have "then_idle ?cfs 0 = conf_init start_mem page_mem" "then_idle ?cfs 2 = c2" by (simp_all add: then_idle_def)
  with accepted_entries_are_answered [OF example_ring_start _ r f s, of page_mem 2] c(2) r show ?thesis
    by (intro exI [of _ "then_idle ?cfs"]) simp
qed

end
