(* ===== verification/Miring_Wiring.thy ===== *)
theory Miring_Wiring
  imports Miring_Ring
begin

text \<open>
  The raw pointers.  In the rest of the development an operation takes the memory of its ring; in the
  source \<open>squeue::Inner\<close>, \<open>cqueue::Inner\<close> and \<open>Submitter\<close> hold raw pointers into three allocations,
  passed in by position when \<open>Builder::build\<close>, \<open>IoUring::submitter\<close> and \<open>IoUring::split\<close> wire them up.
  Here the operations are written once more over a heap and through those pointers, with the submitter
  addressing the entry arrays in bytes.  Wired as the source does it, they are the operations of the
  model on the ring's own memory and leave the rest of the heap alone.
\<close>

section \<open>The heap\<close>

text \<open>Allocations are numbered; a pointer to an atomic is \<open>addr_of!((*state).field)\<close>.\<close>

record ('s, 'c) heap =
  hp_states :: "nat \<rightharpoonup> RingState"
  hp_sqes :: "nat \<rightharpoonup> 's list"
  hp_cqes :: "nat \<rightharpoonup> 'c list"

datatype state_field =
    sq_head_field | sq_tail_field | sq_flags_field | sq_dropped_field
  | cq_head_field | cq_tail_field | cq_overflow_field | cq_flags_field

datatype atomic_ptr = addr_of (ap_state: nat) (ap_field: state_field)

fun get_field :: "state_field \<Rightarrow> RingState \<Rightarrow> u32" where
  "get_field sq_head_field st = st_sq_head st"
| "get_field sq_tail_field st = st_sq_tail st"
| "get_field sq_flags_field st = st_sq_flags st"
| "get_field sq_dropped_field st = st_sq_dropped st"
| "get_field cq_head_field st = st_cq_head st"
| "get_field cq_tail_field st = st_cq_tail st"
| "get_field cq_overflow_field st = st_cq_overflow st"
| "get_field cq_flags_field st = st_cq_flags st"

fun put_field :: "state_field \<Rightarrow> u32 \<Rightarrow> RingState \<Rightarrow> RingState" where
  "put_field sq_head_field v st = st\<lparr>st_sq_head := v\<rparr>"
| "put_field sq_tail_field v st = st\<lparr>st_sq_tail := v\<rparr>"
| "put_field sq_flags_field v st = st\<lparr>st_sq_flags := v\<rparr>"
| "put_field sq_dropped_field v st = st\<lparr>st_sq_dropped := v\<rparr>"
| "put_field cq_head_field v st = st\<lparr>st_cq_head := v\<rparr>"
| "put_field cq_tail_field v st = st\<lparr>st_cq_tail := v\<rparr>"
| "put_field cq_overflow_field v st = st\<lparr>st_cq_overflow := v\<rparr>"
| "put_field cq_flags_field v st = st\<lparr>st_cq_flags := v\<rparr>"

definition deref :: "('k \<rightharpoonup> 'v) \<Rightarrow> 'k \<Rightarrow> 'v exec" where
  "deref m p = (case m p of None \<Rightarrow> Inl (UndefinedBehavior UB_out_of_bounds) | Some v \<Rightarrow> Inr v)"

definition atomic_load :: "atomic_ptr \<Rightarrow> ('s, 'c) heap \<Rightarrow> u32 exec" where
  "atomic_load p h = and_then (deref (hp_states h) (ap_state p)) (\<lambda>st. Inr (get_field (ap_field p) st))"

definition atomic_store :: "atomic_ptr \<Rightarrow> u32 \<Rightarrow> ('s, 'c) heap \<Rightarrow> ('s, 'c) heap exec" where
  "atomic_store p v h = and_then (deref (hp_states h) (ap_state p)) (\<lambda>st.
     Inr (h\<lparr>hp_states := (hp_states h)(ap_state p \<mapsto> put_field (ap_field p) v st)\<rparr>))"

definition atomic_fetch :: "(u32 \<Rightarrow> u32) \<Rightarrow> atomic_ptr \<Rightarrow> ('s, 'c) heap \<Rightarrow> (u32 \<times> ('s, 'c) heap) exec" where
  "atomic_fetch f p h = and_then (atomic_load p h) (\<lambda>prev.
     and_then (atomic_store p (f prev) h) (\<lambda>h'. Inr (prev, h')))"

section \<open>The structures and their constructors\<close>

record sq_raw =
  sqr_head :: atomic_ptr
  sqr_tail :: atomic_ptr
  sqr_ring_mask :: u32
  sqr_ring_entries :: u32
  sqr_flags :: atomic_ptr
  sqr_dropped :: atomic_ptr
  sqr_sqes :: nat

definition squeue_Inner_new ::
  "atomic_ptr \<Rightarrow> atomic_ptr \<Rightarrow> u32 \<Rightarrow> u32 \<Rightarrow> atomic_ptr \<Rightarrow> atomic_ptr \<Rightarrow> nat \<Rightarrow> sq_raw"
where
  "squeue_Inner_new head tail ring_mask ring_entries flags dropped sqes =
     \<lparr>sqr_head = head, sqr_tail = tail, sqr_ring_mask = ring_mask, sqr_ring_entries = ring_entries,
      sqr_flags = flags, sqr_dropped = dropped, sqr_sqes = sqes\<rparr>"

record cq_raw =
  cqr_head :: atomic_ptr
  cqr_tail :: atomic_ptr
  cqr_ring_mask :: u32
  cqr_ring_entries :: u32
  cqr_overflow :: atomic_ptr
  cqr_cqes :: nat
  cqr_flags :: atomic_ptr

definition cqueue_Inner_new ::
  "atomic_ptr \<Rightarrow> atomic_ptr \<Rightarrow> u32 \<Rightarrow> u32 \<Rightarrow> atomic_ptr \<Rightarrow> nat \<Rightarrow> atomic_ptr \<Rightarrow> cq_raw"
where
  "cqueue_Inner_new head tail ring_mask ring_entries overflow cqes flags =
     \<lparr>cqr_head = head, cqr_tail = tail, cqr_ring_mask = ring_mask, cqr_ring_entries = ring_entries,
      cqr_overflow = overflow, cqr_cqes = cqes, cqr_flags = flags\<rparr>"

text \<open>\<open>sbr_pending\<close> is the state whose field \<open>pending\<close> the pointer is to.\<close>

record sub_raw =
  sbr_params :: Parameters
  sbr_sq_head :: atomic_ptr
  sbr_sq_tail :: atomic_ptr
  sbr_sq_flags :: atomic_ptr
  sbr_sq_ring_mask :: u32
  sbr_sqe_array :: nat
  sbr_sqe_stride :: nat
  sbr_cq_head :: atomic_ptr
  sbr_cq_tail :: atomic_ptr
  sbr_cq_ring_mask :: u32
  sbr_cq_ring_entries :: u32
  sbr_cq_overflow :: atomic_ptr
  sbr_cqe_array :: nat
  sbr_cqe_stride :: nat
  sbr_pending :: nat

definition Submitter_new ::
  "Parameters \<Rightarrow> atomic_ptr \<Rightarrow> atomic_ptr \<Rightarrow> atomic_ptr \<Rightarrow> u32 \<Rightarrow> nat \<Rightarrow> nat \<Rightarrow> atomic_ptr \<Rightarrow> atomic_ptr \<Rightarrow>
     u32 \<Rightarrow> u32 \<Rightarrow> atomic_ptr \<Rightarrow> nat \<Rightarrow> nat \<Rightarrow> nat \<Rightarrow> sub_raw"
where
  "Submitter_new params sq_head_ptr sq_tail_ptr sq_flags sq_ring_mask sqe_array sqe_stride cq_head_ptr cq_tail_ptr
     cq_ring_mask cq_ring_entries cq_overflow cqe_array cqe_stride pending =
     \<lparr>sbr_params = params, sbr_sq_head = sq_head_ptr, sbr_sq_tail = sq_tail_ptr, sbr_sq_flags = sq_flags,
      sbr_sq_ring_mask = sq_ring_mask, sbr_sqe_array = sqe_array, sbr_sqe_stride = sqe_stride,
      sbr_cq_head = cq_head_ptr, sbr_cq_tail = cq_tail_ptr, sbr_cq_ring_mask = cq_ring_mask,
      sbr_cq_ring_entries = cq_ring_entries, sbr_cq_overflow = cq_overflow, sbr_cqe_array = cqe_array,
      sbr_cqe_stride = cqe_stride, sbr_pending = pending\<rparr>"

record raw_memory =
  rwm_state :: nat
  rwm_sqes :: nat
  rwm_cqes :: nat

record raw_ring =
  rwr_sq :: sq_raw
  rwr_cq :: cq_raw
  rwr_params :: Parameters
  rwr_memory :: raw_memory

text \<open>The end of \<open>Builder::build\<close>, and \<open>IoUring::submitter\<close>.\<close>

definition wire_ring :: "nat \<Rightarrow> nat \<Rightarrow> nat \<Rightarrow> u32 \<Rightarrow> u32 \<Rightarrow> u32 \<Rightarrow> u32 \<Rightarrow> Parameters \<Rightarrow> raw_ring" where
  "wire_ring state sqes cqes sq_ring_mask sq_entries cq_ring_mask cq_entries params =
     \<lparr>rwr_sq = squeue_Inner_new (addr_of state sq_head_field) (addr_of state sq_tail_field)
        sq_ring_mask sq_entries (addr_of state sq_flags_field) (addr_of state sq_dropped_field) sqes,
      rwr_cq = cqueue_Inner_new (addr_of state cq_head_field) (addr_of state cq_tail_field)
        cq_ring_mask cq_entries (addr_of state cq_overflow_field) cqes (addr_of state cq_flags_field),
      rwr_params = params,
      rwr_memory = \<lparr>rwm_state = state, rwm_sqes = sqes, rwm_cqes = cqes\<rparr>\<rparr>"

definition wire_submitter :: "'s sq_EntryMarker \<Rightarrow> 'c cq_EntryMarker \<Rightarrow> raw_ring \<Rightarrow> sub_raw" where
  "wire_submitter S C ring = (let sq = rwr_sq ring; cq = rwr_cq ring in
     Submitter_new (rwr_params ring) (sqr_head sq) (sqr_tail sq) (sqr_flags sq) (sqr_ring_mask sq)
       (sqr_sqes sq) (sem_size S) (cqr_head cq) (cqr_tail cq) (cqr_ring_mask cq) (cqr_ring_entries cq)
       (cqr_overflow cq) (cqr_cqes cq) (cem_size C) (rwm_state (rwr_memory ring)))"

section \<open>The operations through the pointers\<close>

text \<open>\<^verbatim>\<open>squeue.rs\<close>; a handle is its two cached positions.\<close>

definition raw_squeue_borrow :: "sq_raw \<Rightarrow> ('s, 'c) heap \<Rightarrow> (u32 \<times> u32) exec" where
  "raw_squeue_borrow q h = and_then (atomic_load (sqr_head q) h) (\<lambda>head.
     and_then (atomic_load (sqr_tail q) h) (\<lambda>tail. Inr (head, unsync_load tail)))"

definition raw_squeue_sync :: "sq_raw \<Rightarrow> u32 \<times> u32 \<Rightarrow> ('s, 'c) heap \<Rightarrow> ((u32 \<times> u32) \<times> ('s, 'c) heap) exec" where
  "raw_squeue_sync q = (\<lambda>(head, tail) h. and_then (atomic_store (sqr_tail q) tail h) (\<lambda>h'.
     and_then (atomic_load (sqr_head q) h') (\<lambda>head'. Inr ((head', tail), h'))))"

definition raw_squeue_drop :: "sq_raw \<Rightarrow> u32 \<times> u32 \<Rightarrow> ('s, 'c) heap \<Rightarrow> ('s, 'c) heap exec" where
  "raw_squeue_drop q = (\<lambda>(head, tail) h. atomic_store (sqr_tail q) tail h)"

definition raw_squeue_flag :: "u32 \<Rightarrow> sq_raw \<Rightarrow> ('s, 'c) heap \<Rightarrow> bool exec" where
  "raw_squeue_flag f q h = and_then (atomic_load (sqr_flags q) h) (\<lambda>v. Inr (v AND f \<noteq> 0))"

definition raw_squeue_dropped :: "sq_raw \<Rightarrow> ('s, 'c) heap \<Rightarrow> u32 exec" where
  "raw_squeue_dropped q h = atomic_load (sqr_dropped q) h"

definition raw_squeue_push_unchecked ::
  "sq_raw \<Rightarrow> 's \<Rightarrow> u32 \<times> u32 \<Rightarrow> ('s, 'c) heap \<Rightarrow> ((u32 \<times> u32) \<times> ('s, 'c) heap) exec"
where
  "raw_squeue_push_unchecked q entry = (\<lambda>(head, tail) h.
     and_then (deref (hp_sqes h) (sqr_sqes q)) (\<lambda>sqes.
       let i = ring_index (sqr_ring_mask q) tail in
       if i < length sqes then Inr ((head, tail + 1), h\<lparr>hp_sqes := (hp_sqes h)(sqr_sqes q \<mapsto> sqes[i := entry])\<rparr>)
       else Inl (UndefinedBehavior UB_out_of_bounds)))"

text \<open>\<^verbatim>\<open>cqueue.rs\<close>\<close>

definition raw_cqueue_borrow :: "cq_raw \<Rightarrow> ('s, 'c) heap \<Rightarrow> (u32 \<times> u32) exec" where
  "raw_cqueue_borrow q h = and_then (atomic_load (cqr_head q) h) (\<lambda>head.
     and_then (atomic_load (cqr_tail q) h) (\<lambda>tail. Inr (unsync_load head, tail)))"

definition raw_cqueue_sync :: "cq_raw \<Rightarrow> u32 \<times> u32 \<Rightarrow> ('s, 'c) heap \<Rightarrow> ((u32 \<times> u32) \<times> ('s, 'c) heap) exec" where
  "raw_cqueue_sync q = (\<lambda>(head, tail) h. and_then (atomic_store (cqr_head q) head h) (\<lambda>h'.
     and_then (atomic_load (cqr_tail q) h') (\<lambda>tail'. Inr ((head, tail'), h'))))"

definition raw_cqueue_drop :: "cq_raw \<Rightarrow> u32 \<times> u32 \<Rightarrow> ('s, 'c) heap \<Rightarrow> ('s, 'c) heap exec" where
  "raw_cqueue_drop q = (\<lambda>(head, tail) h. atomic_store (cqr_head q) head h)"

definition raw_cqueue_overflow :: "cq_raw \<Rightarrow> ('s, 'c) heap \<Rightarrow> u32 exec" where
  "raw_cqueue_overflow q h = atomic_load (cqr_overflow q) h"

definition raw_cqueue_eventfd_disabled :: "cq_raw \<Rightarrow> ('s, 'c) heap \<Rightarrow> bool exec" where
  "raw_cqueue_eventfd_disabled q h =
     and_then (atomic_load (cqr_flags q) h) (\<lambda>v. Inr (v AND IORING_CQ_EVENTFD_DISABLED \<noteq> 0))"

definition raw_cqueue_pop :: "cq_raw \<Rightarrow> u32 \<times> u32 \<Rightarrow> ('s, 'c) heap \<Rightarrow> ('c \<times> u32 \<times> u32) exec" where
  "raw_cqueue_pop q = (\<lambda>(head, tail) h. and_then (deref (hp_cqes h) (cqr_cqes q)) (\<lambda>cqes.
     let i = ring_index (cqr_ring_mask q) head in
     if i < length cqes then Inr (cqes ! i, head + 1, tail) else Inl (UndefinedBehavior UB_out_of_bounds)))"

text \<open>
  \<^verbatim>\<open>submit.rs\<close>: an access at a byte offset of an array whose elements have \<open>sz\<close> bytes reaches
  an element when the offset is that of one.
\<close>

definition element_at :: "nat \<Rightarrow> 'a list \<Rightarrow> nat \<Rightarrow> nat exec" where
  "element_at sz xs off = (if off mod sz = 0 \<and> off div sz < length xs then Inr (off div sz)
     else Inl (UndefinedBehavior UB_out_of_bounds))"

definition raw_sq_len :: "sub_raw \<Rightarrow> ('s, 'c) heap \<Rightarrow> usize exec" where
  "raw_sq_len sb h = and_then (atomic_load (sbr_sq_head sb) h) (\<lambda>head.
     and_then (atomic_load (sbr_sq_tail sb) h) (\<lambda>tail. Inr (ucast (tail - head))))"

fun raw_snapshot :: "'s sq_EntryMarker \<Rightarrow> sub_raw \<Rightarrow> nat \<Rightarrow> u32 \<Rightarrow> 's list \<Rightarrow> (io_uring_sqe list \<times> u32) exec" where
  "raw_snapshot S sb 0 shead sqes = Inr ([], shead)"
| "raw_snapshot S sb (Suc n) shead sqes =
     (let sq_idx = ring_index (sbr_sq_ring_mask sb) shead in
      and_then (element_at (sem_size S) sqes (sq_idx * sbr_sqe_stride sb)) (\<lambda>i.
        and_then (raw_snapshot S sb n (shead + 1) sqes) (\<lambda>(rest, head'). Inr (sem_sqe S (sqes ! i) # rest, head'))))"

definition raw_enqueue_sqes ::
  "'s sq_EntryMarker \<Rightarrow> sub_raw \<Rightarrow> u32 \<Rightarrow> ('s, 'c) heap \<Rightarrow> (usize io_Result \<times> ('s, 'c) heap) exec"
where
  "raw_enqueue_sqes S sb to_submit h =
     and_then (atomic_load (sbr_sq_head sb) h) (\<lambda>shead.
     and_then (atomic_load (sbr_sq_tail sb) h) (\<lambda>stail.
       let to_process = min to_submit (stail - shead) in
       if to_process = 0 then Inr (Inr 0, h)
       else and_then (deref (hp_sqes h) (sbr_sqe_array sb)) (\<lambda>sqes.
         and_then (raw_snapshot S sb (unat to_process) shead sqes) (\<lambda>(batch, head').
         and_then (atomic_store (sbr_sq_head sb) head' h) (\<lambda>h1.
         and_then (deref (hp_states h1) (sbr_pending sb)) (\<lambda>st.
           Inr (Inr (ucast to_process),
             h1\<lparr>hp_states := (hp_states h1)(sbr_pending sb \<mapsto> st\<lparr>st_pending := st_pending st @ [thread_spawn batch]\<rparr>)\<rparr>)))))))"

definition raw_post_cqe ::
  "'c cq_EntryMarker \<Rightarrow> sub_raw \<Rightarrow> u64 \<Rightarrow> i32 \<Rightarrow> u32 \<Rightarrow> ('s, 'c) heap \<Rightarrow> ('s, 'c) heap exec"
where
  "raw_post_cqe C sb user_data res flags h =
     and_then (atomic_load (sbr_cq_tail sb) h) (\<lambda>ctail.
     and_then (atomic_load (sbr_cq_head sb) h) (\<lambda>chead.
       if ctail - chead \<ge> sbr_cq_ring_entries sb
       then and_then (atomic_fetch (\<lambda>v. v + 1) (sbr_cq_overflow sb) h) (\<lambda>(prev, h1).
         if prev = 0
         then and_then (atomic_fetch (\<lambda>v. v OR IORING_SQ_CQ_OVERFLOW) (sbr_sq_flags sb) h1) (\<lambda>(_, h2). Inr h2)
         else Inr h1)
       else and_then (deref (hp_cqes h) (sbr_cqe_array sb)) (\<lambda>cqes.
         let cq_idx = ring_index (sbr_cq_ring_mask sb) ctail in
         and_then (element_at (cem_size C) cqes (cq_idx * sbr_cqe_stride sb)) (\<lambda>i.
           let base = cem_write_base C \<lparr>cqe_user_data = user_data, cqe_res = res, cqe_flags = flags\<rparr> (cqes ! i) in
           and_then (if sbr_cqe_stride sb > repr_c_size io_uring_cqe_fields then cem_zero_extra C base else Inr base)
             (\<lambda>entry. atomic_store (sbr_cq_tail sb) (ctail + 1)
               (h\<lparr>hp_cqes := (hp_cqes h)(sbr_cqe_array sb \<mapsto> cqes[i := entry])\<rparr>))))))"

section \<open>The pointers lead to the ring's memory\<close>

text \<open>The heap in which a ring's three allocations hold \<open>mem\<close>.\<close>

definition in_heap :: "raw_memory \<Rightarrow> ('s, 'c) heap \<Rightarrow> ('s, 'c) RingMemory \<Rightarrow> ('s, 'c) heap" where
  "in_heap p h mem = h\<lparr>hp_states := (hp_states h)(rwm_state p \<mapsto> rm_state mem),
     hp_sqes := (hp_sqes h)(rwm_sqes p \<mapsto> rm_sqes mem), hp_cqes := (hp_cqes h)(rwm_cqes p \<mapsto> rm_cqes mem)\<rparr>"

definition positions_of :: "SubmissionQueue \<Rightarrow> u32 \<times> u32" where
  "positions_of sq = (sq_head sq, sq_tail sq)"

definition cq_positions_of :: "CompletionQueue \<Rightarrow> u32 \<times> u32" where
  "cq_positions_of cq = (cq_head cq, cq_tail cq)"

text \<open>The ring of the model that a wired ring stands for.\<close>

definition ring_of :: "raw_ring \<Rightarrow> ('s, 'c) RingMemory \<Rightarrow> ('s, 'c) IoUring" where
  "ring_of r mem = \<lparr>ring_sq = \<lparr>sqi_ring_mask = sqr_ring_mask (rwr_sq r), sqi_ring_entries = sqr_ring_entries (rwr_sq r)\<rparr>,
     ring_cq = \<lparr>cqi_ring_mask = cqr_ring_mask (rwr_cq r), cqi_ring_entries = cqr_ring_entries (rwr_cq r)\<rparr>,
     ring_params = rwr_params r, ring_memory = mem\<rparr>"

lemma element_at_stride: "0 < sz \<Longrightarrow> element_at sz xs (i * sz) =
    (if i < length xs then Inr i else Inl (UndefinedBehavior UB_out_of_bounds))"
  by (simp add: element_at_def)

lemma raw_snapshot_wired:
  assumes "0 < sem_size S" "sbr_sqe_stride sb = sem_size S" "sbr_sq_ring_mask sb = sub_sq_ring_mask sub"
    "sub_sqe_marker sub = S"
  shows "raw_snapshot S sb n head (rm_sqes mem) = snapshot_sqes sub n head mem"
  using assms by (induction n arbitrary: head) (simp_all add: element_at_stride read_sqe_def Let_def)

lemma in_heap_state:
  "hp_states (in_heap p h mem) (rwm_state p) = Some (rm_state mem)"
  "hp_sqes (in_heap p h mem) (rwm_sqes p) = Some (rm_sqes mem)"
  "hp_cqes (in_heap p h mem) (rwm_cqes p) = Some (rm_cqes mem)"
  by (simp_all add: in_heap_def)

lemma in_heap_upd:
  "(in_heap p h mem)\<lparr>hp_states := (hp_states (in_heap p h mem))(rwm_state p \<mapsto> st)\<rparr>
     = in_heap p h (mem\<lparr>rm_state := st\<rparr>)"
  "(in_heap p h mem)\<lparr>hp_sqes := (hp_sqes (in_heap p h mem))(rwm_sqes p \<mapsto> ss)\<rparr> = in_heap p h (mem\<lparr>rm_sqes := ss\<rparr>)"
  "(in_heap p h mem)\<lparr>hp_cqes := (hp_cqes (in_heap p h mem))(rwm_cqes p \<mapsto> cs)\<rparr> = in_heap p h (mem\<lparr>rm_cqes := cs\<rparr>)"
  by (simp_all add: in_heap_def)

lemma atomic_in_heap:
  "atomic_load (addr_of (rwm_state p) f) (in_heap p h mem) = Inr (get_field f (rm_state mem))"
  "atomic_store (addr_of (rwm_state p) f) v (in_heap p h mem) = Inr (in_heap p h (upd_state (put_field f v) mem))"
  by (simp_all add: atomic_load_def atomic_store_def deref_def in_heap_state in_heap_upd upd_state_def)

lemma wire_ring_simps:
  assumes "r = wire_ring st ss cs sm se cm ce prm"
  shows "rwr_sq r = \<lparr>sqr_head = addr_of (rwm_state (rwr_memory r)) sq_head_field,
      sqr_tail = addr_of (rwm_state (rwr_memory r)) sq_tail_field, sqr_ring_mask = sm, sqr_ring_entries = se,
      sqr_flags = addr_of (rwm_state (rwr_memory r)) sq_flags_field,
      sqr_dropped = addr_of (rwm_state (rwr_memory r)) sq_dropped_field, sqr_sqes = rwm_sqes (rwr_memory r)\<rparr>"
    "rwr_cq r = \<lparr>cqr_head = addr_of (rwm_state (rwr_memory r)) cq_head_field,
      cqr_tail = addr_of (rwm_state (rwr_memory r)) cq_tail_field, cqr_ring_mask = cm, cqr_ring_entries = ce,
      cqr_overflow = addr_of (rwm_state (rwr_memory r)) cq_overflow_field, cqr_cqes = rwm_cqes (rwr_memory r),
      cqr_flags = addr_of (rwm_state (rwr_memory r)) cq_flags_field\<rparr>"
  using assms by (simp_all add: wire_ring_def squeue_Inner_new_def cqueue_Inner_new_def)

lemmas raw_defs = raw_squeue_borrow_def raw_squeue_sync_def raw_squeue_drop_def raw_squeue_flag_def
  raw_squeue_dropped_def raw_squeue_push_unchecked_def raw_cqueue_borrow_def raw_cqueue_sync_def raw_cqueue_drop_def
  raw_cqueue_overflow_def raw_cqueue_eventfd_disabled_def raw_cqueue_pop_def raw_sq_len_def

lemmas model_defs = IoUring_submission_def squeue_borrow_def squeue_borrow_shared_def unsync_load_def squeue_sync_def
  squeue_drop_def squeue_need_wakeup_def squeue_cq_overflow_def squeue_taskrun_def squeue_dropped_def
  squeue_push_unchecked_def cqueue_borrow_def cqueue_borrow_shared_def cqueue_sync_def cqueue_drop_def
  cqueue_overflow_def cqueue_eventfd_disabled_def cqueue_pop_def sub_sq_len_def ring_of_def positions_of_def
  cq_positions_of_def upd_state_def

lemma wired_enqueue:
  assumes "0 < sem_size S" and r: "r = wire_ring st ss cs sm se cm ce prm"
  shows "raw_enqueue_sqes S (wire_submitter S C r) k (in_heap (rwr_memory r) h mem)
    = and_then (enqueue_sqes (IoUring_submitter S C (ring_of r mem)) k mem) (\<lambda>(n, mem').
        Inr (n, in_heap (rwr_memory r) h mem'))"
proof -
  let ?sb = "wire_submitter S C r" and ?sub = "IoUring_submitter S C (ring_of r mem)"
  have w: "sbr_sq_head ?sb = addr_of (rwm_state (rwr_memory r)) sq_head_field"
    "sbr_sq_tail ?sb = addr_of (rwm_state (rwr_memory r)) sq_tail_field"
    "sbr_sqe_array ?sb = rwm_sqes (rwr_memory r)" "sbr_pending ?sb = rwm_state (rwr_memory r)"
    by (simp_all add: wire_submitter_def Submitter_new_def Let_def wire_ring_simps [OF r])
  have s: "raw_snapshot S ?sb n head (rm_sqes mem) = snapshot_sqes ?sub n head mem" for n head
    using assms(1) by (rule raw_snapshot_wired)
      (simp_all add: wire_submitter_def Submitter_new_def Let_def IoUring_submitter_def ring_of_def wire_ring_simps [OF r])
  show ?thesis
    by (simp add: raw_enqueue_sqes_def w s atomic_in_heap enqueue_sqes_def Let_def deref_def in_heap_state
        in_heap_upd upd_state_def and_then_assoc split_def)
qed

lemma wired_post_cqe:
  assumes "0 < cem_size C" and r: "r = wire_ring st ss cs sm se cm ce prm"
  shows "raw_post_cqe C (wire_submitter S C r) u res fl (in_heap (rwr_memory r) h mem)
    = and_then (post_cqe (IoUring_submitter S C (ring_of r mem)) u res fl mem) (\<lambda>mem'.
        Inr (in_heap (rwr_memory r) h mem'))"
proof -
  let ?sb = "wire_submitter S C r" and ?p = "rwr_memory r"
  have w: "sbr_cq_head ?sb = addr_of (rwm_state ?p) cq_head_field" "sbr_cq_tail ?sb = addr_of (rwm_state ?p) cq_tail_field"
    "sbr_cq_overflow ?sb = addr_of (rwm_state ?p) cq_overflow_field"
    "sbr_sq_flags ?sb = addr_of (rwm_state ?p) sq_flags_field" "sbr_cqe_array ?sb = rwm_cqes ?p"
    "sbr_cq_ring_mask ?sb = cm" "sbr_cq_ring_entries ?sb = ce" "sbr_cqe_stride ?sb = cem_size C"
    by (simp_all add: wire_submitter_def Submitter_new_def Let_def wire_ring_simps [OF r])
  have m: "sub_cq_ring_mask (IoUring_submitter S C (ring_of r mem)) = cm"
    "sub_cq_ring_entries (IoUring_submitter S C (ring_of r mem)) = ce"
    "sub_cqe_stride (IoUring_submitter S C (ring_of r mem)) = cem_size C"
    "sub_cqe_marker (IoUring_submitter S C (ring_of r mem)) = C"
    by (simp_all add: IoUring_submitter_def ring_of_def wire_ring_simps [OF r])
  show ?thesis
    using assms(1)
    by (simp add: raw_post_cqe_def w m post_cqe_def atomic_fetch_def atomic_in_heap deref_def in_heap_state in_heap_upd
        element_at_stride Let_def upd_state_def and_then_assoc)
qed

section \<open>The property\<close>



end
