(* ===== verification/Miring_Sys_More.thy ===== *)
theory Miring_Sys_More
  imports Miring_Sys
begin

text \<open>
  The rest of \<^verbatim>\<open>src/sys.rs\<close>: the constants and structures that mirror the kernel's interface
  without being used by the emulator, with the layouts of the structures.  The lemmas state what the
  numbering promises: register opcodes and operation codes are consecutive up to their \<open>LAST\<close>,
  flags of one family are pairwise different single bits, and masks are the union of their flags.
\<close>

section \<open>Constants\<close>

subsection \<open>Setup and operation flags\<close>

definition IORING_SETUP_NO_MMAP :: u32 where [sys_consts]: "IORING_SETUP_NO_MMAP = 16384"
definition IORING_SETUP_REGISTERED_FD_ONLY :: u32 where [sys_consts]: "IORING_SETUP_REGISTERED_FD_ONLY = 32768"
definition IORING_SETUP_NO_SQARRAY :: u32 where [sys_consts]: "IORING_SETUP_NO_SQARRAY = 65536"
definition IORING_SETUP_HYBRID_IOPOLL :: u32 where [sys_consts]: "IORING_SETUP_HYBRID_IOPOLL = 131072"
definition IORING_TIMEOUT_CLOCK_MASK :: u32 where [sys_consts]: "IORING_TIMEOUT_CLOCK_MASK = 12"
definition IORING_TIMEOUT_UPDATE_MASK :: u32 where [sys_consts]: "IORING_TIMEOUT_UPDATE_MASK = 18"
definition IORING_POLL_UPDATE_EVENTS :: u32 where [sys_consts]: "IORING_POLL_UPDATE_EVENTS = 2"
definition IORING_POLL_UPDATE_USER_DATA :: u32 where [sys_consts]: "IORING_POLL_UPDATE_USER_DATA = 4"
definition IORING_POLL_ADD_LEVEL :: u32 where [sys_consts]: "IORING_POLL_ADD_LEVEL = 8"
definition IORING_ASYNC_CANCEL_USERDATA :: u32 where [sys_consts]: "IORING_ASYNC_CANCEL_USERDATA = 16"
definition IORING_ASYNC_CANCEL_OP :: u32 where [sys_consts]: "IORING_ASYNC_CANCEL_OP = 32"
definition IORING_RECVSEND_POLL_FIRST :: u32 where [sys_consts]: "IORING_RECVSEND_POLL_FIRST = 1"
definition IORING_RECVSEND_FIXED_BUF :: u32 where [sys_consts]: "IORING_RECVSEND_FIXED_BUF = 4"
definition IORING_SEND_ZC_REPORT_USAGE :: u32 where [sys_consts]: "IORING_SEND_ZC_REPORT_USAGE = 8"
definition IORING_NOTIF_USAGE_ZC_COPIED :: u32 where [sys_consts]: "IORING_NOTIF_USAGE_ZC_COPIED = 2147483648"
definition IORING_ACCEPT_DONTWAIT :: u32 where [sys_consts]: "IORING_ACCEPT_DONTWAIT = 2"
definition IORING_ACCEPT_POLL_FIRST :: u32 where [sys_consts]: "IORING_ACCEPT_POLL_FIRST = 4"
definition IORING_MSG_RING_CQE_SKIP :: u32 where [sys_consts]: "IORING_MSG_RING_CQE_SKIP = 1"
definition IORING_MSG_RING_FLAGS_PASS :: u32 where [sys_consts]: "IORING_MSG_RING_FLAGS_PASS = 2"
definition IORING_FIXED_FD_NO_CLOEXEC :: u32 where [sys_consts]: "IORING_FIXED_FD_NO_CLOEXEC = 1"
definition IORING_NOP_FILE :: u32 where [sys_consts]: "IORING_NOP_FILE = 2"
definition IORING_NOP_FIXED_FILE :: u32 where [sys_consts]: "IORING_NOP_FIXED_FILE = 4"
definition IORING_NOP_FIXED_BUFFER :: u32 where [sys_consts]: "IORING_NOP_FIXED_BUFFER = 8"
definition IORING_URING_CMD_MASK :: u32 where [sys_consts]: "IORING_URING_CMD_MASK = 1"
definition SOCKET_URING_OP_GETSOCKOPT :: u32 where [sys_consts]: "SOCKET_URING_OP_GETSOCKOPT = 1"
definition IORING_RW_ATTR_FLAG_PI :: u32 where [sys_consts]: "IORING_RW_ATTR_FLAG_PI = 1"

subsection \<open>Identifiers of mapped regions\<close>

definition IORING_OFF_SQ_RING :: u64 where [sys_consts]: "IORING_OFF_SQ_RING = 0"
definition IORING_OFF_CQ_RING :: u64 where [sys_consts]: "IORING_OFF_CQ_RING = 134217728"
definition IORING_OFF_SQES :: u64 where [sys_consts]: "IORING_OFF_SQES = 268435456"
definition IORING_OFF_PBUF_RING :: u64 where [sys_consts]: "IORING_OFF_PBUF_RING = 2147483648"
definition IORING_OFF_PBUF_SHIFT :: u32 where [sys_consts]: "IORING_OFF_PBUF_SHIFT = 16"
definition IORING_OFF_MMAP_MASK :: u64 where [sys_consts]: "IORING_OFF_MMAP_MASK = 4160749568"

subsection \<open>Features\<close>

definition IORING_FEAT_RW_ATTR :: u32 where [sys_consts]: "IORING_FEAT_RW_ATTR = 65536"
definition IORING_FEAT_NO_IOWAIT :: u32 where [sys_consts]: "IORING_FEAT_NO_IOWAIT = 131072"

subsection \<open>Register opcodes\<close>

type_synonym io_uring_register_op = u32

definition IORING_REGISTER_BUFFERS :: io_uring_register_op where [sys_consts]: "IORING_REGISTER_BUFFERS = 0"
definition IORING_UNREGISTER_BUFFERS :: io_uring_register_op where [sys_consts]: "IORING_UNREGISTER_BUFFERS = 1"
definition IORING_REGISTER_FILES :: io_uring_register_op where [sys_consts]: "IORING_REGISTER_FILES = 2"
definition IORING_UNREGISTER_FILES :: io_uring_register_op where [sys_consts]: "IORING_UNREGISTER_FILES = 3"
definition IORING_REGISTER_EVENTFD :: io_uring_register_op where [sys_consts]: "IORING_REGISTER_EVENTFD = 4"
definition IORING_UNREGISTER_EVENTFD :: io_uring_register_op where [sys_consts]: "IORING_UNREGISTER_EVENTFD = 5"
definition IORING_REGISTER_FILES_UPDATE :: io_uring_register_op where [sys_consts]: "IORING_REGISTER_FILES_UPDATE = 6"
definition IORING_REGISTER_EVENTFD_ASYNC :: io_uring_register_op where [sys_consts]: "IORING_REGISTER_EVENTFD_ASYNC = 7"
definition IORING_REGISTER_PROBE :: io_uring_register_op where [sys_consts]: "IORING_REGISTER_PROBE = 8"
definition IORING_REGISTER_PERSONALITY :: io_uring_register_op where [sys_consts]: "IORING_REGISTER_PERSONALITY = 9"
definition IORING_UNREGISTER_PERSONALITY :: io_uring_register_op where [sys_consts]: "IORING_UNREGISTER_PERSONALITY = 10"
definition IORING_REGISTER_RESTRICTIONS :: io_uring_register_op where [sys_consts]: "IORING_REGISTER_RESTRICTIONS = 11"
definition IORING_REGISTER_ENABLE_RINGS :: io_uring_register_op where [sys_consts]: "IORING_REGISTER_ENABLE_RINGS = 12"
definition IORING_REGISTER_FILES2 :: io_uring_register_op where [sys_consts]: "IORING_REGISTER_FILES2 = 13"
definition IORING_REGISTER_FILES_UPDATE2 :: io_uring_register_op where [sys_consts]: "IORING_REGISTER_FILES_UPDATE2 = 14"
definition IORING_REGISTER_BUFFERS2 :: io_uring_register_op where [sys_consts]: "IORING_REGISTER_BUFFERS2 = 15"
definition IORING_REGISTER_BUFFERS_UPDATE :: io_uring_register_op where [sys_consts]: "IORING_REGISTER_BUFFERS_UPDATE = 16"
definition IORING_REGISTER_IOWQ_AFF :: io_uring_register_op where [sys_consts]: "IORING_REGISTER_IOWQ_AFF = 17"
definition IORING_UNREGISTER_IOWQ_AFF :: io_uring_register_op where [sys_consts]: "IORING_UNREGISTER_IOWQ_AFF = 18"
definition IORING_REGISTER_IOWQ_MAX_WORKERS :: io_uring_register_op where [sys_consts]: "IORING_REGISTER_IOWQ_MAX_WORKERS = 19"
definition IORING_REGISTER_RING_FDS :: io_uring_register_op where [sys_consts]: "IORING_REGISTER_RING_FDS = 20"
definition IORING_UNREGISTER_RING_FDS :: io_uring_register_op where [sys_consts]: "IORING_UNREGISTER_RING_FDS = 21"
definition IORING_REGISTER_PBUF_RING :: io_uring_register_op where [sys_consts]: "IORING_REGISTER_PBUF_RING = 22"
definition IORING_UNREGISTER_PBUF_RING :: io_uring_register_op where [sys_consts]: "IORING_UNREGISTER_PBUF_RING = 23"
definition IORING_REGISTER_SYNC_CANCEL :: io_uring_register_op where [sys_consts]: "IORING_REGISTER_SYNC_CANCEL = 24"
definition IORING_REGISTER_FILE_ALLOC_RANGE :: io_uring_register_op where [sys_consts]: "IORING_REGISTER_FILE_ALLOC_RANGE = 25"
definition IORING_REGISTER_PBUF_STATUS :: io_uring_register_op where [sys_consts]: "IORING_REGISTER_PBUF_STATUS = 26"
definition IORING_REGISTER_NAPI :: io_uring_register_op where [sys_consts]: "IORING_REGISTER_NAPI = 27"
definition IORING_UNREGISTER_NAPI :: io_uring_register_op where [sys_consts]: "IORING_UNREGISTER_NAPI = 28"
definition IORING_REGISTER_CLOCK :: io_uring_register_op where [sys_consts]: "IORING_REGISTER_CLOCK = 29"
definition IORING_REGISTER_CLONE_BUFFERS :: io_uring_register_op where [sys_consts]: "IORING_REGISTER_CLONE_BUFFERS = 30"
definition IORING_REGISTER_SEND_MSG_RING :: io_uring_register_op where [sys_consts]: "IORING_REGISTER_SEND_MSG_RING = 31"
definition IORING_REGISTER_ZCRX_IFQ :: io_uring_register_op where [sys_consts]: "IORING_REGISTER_ZCRX_IFQ = 32"
definition IORING_REGISTER_RESIZE_RINGS :: io_uring_register_op where [sys_consts]: "IORING_REGISTER_RESIZE_RINGS = 33"
definition IORING_REGISTER_MEM_REGION :: io_uring_register_op where [sys_consts]: "IORING_REGISTER_MEM_REGION = 34"
definition IORING_REGISTER_LAST :: io_uring_register_op where [sys_consts]: "IORING_REGISTER_LAST = 35"
definition IORING_REGISTER_USE_REGISTERED_RING :: io_uring_register_op where [sys_consts]: "IORING_REGISTER_USE_REGISTERED_RING = 2147483648"

subsection \<open>Resource registration\<close>

definition IORING_RSRC_REGISTER_SPARSE :: u32 where [sys_consts]: "IORING_RSRC_REGISTER_SPARSE = 1"
definition IORING_REGISTER_FILES_SKIP :: i32 where [sys_consts]: "IORING_REGISTER_FILES_SKIP = - 2"
definition IO_URING_OP_SUPPORTED :: u32 where [sys_consts]: "IO_URING_OP_SUPPORTED = 1"
definition IOU_PBUF_RING_INC :: u32 where [sys_consts]: "IOU_PBUF_RING_INC = 1"
definition IOU_PBUF_RING_MMAP :: u32 where [sys_consts]: "IOU_PBUF_RING_MMAP = 2"
definition IORING_MEM_REGION_TYPE_USER :: u32 where [sys_consts]: "IORING_MEM_REGION_TYPE_USER = 1"
definition IORING_ZCRX_AREA_SHIFT :: u32 where [sys_consts]: "IORING_ZCRX_AREA_SHIFT = 48"

section \<open>Structures\<close>

record io_uring_buf_reg =
  brg_ring_addr :: u64
  brg_ring_entries :: u32
  brg_bgid :: u16
  brg_flags :: u16
  brg_resv :: "u64 list"

definition io_uring_buf_reg_default :: io_uring_buf_reg where
  "io_uring_buf_reg_default = \<lparr>brg_ring_addr = 0, brg_ring_entries = 0, brg_bgid = 0, brg_flags = 0,
     brg_resv = replicate 3 0\<rparr>"

record io_uring_rsrc_register =
  rsr_nr :: u32
  rsr_flags :: u32
  rsr_resv2 :: u64
  rsr_data :: u64
  rsr_tags :: u64

definition io_uring_rsrc_register_default :: io_uring_rsrc_register where
  "io_uring_rsrc_register_default = \<lparr>rsr_nr = 0, rsr_flags = 0, rsr_resv2 = 0, rsr_data = 0,
     rsr_tags = 0\<rparr>"

record io_uring_rsrc_update2 =
  ru2_offset :: u32
  ru2_resv :: u32
  ru2_data :: u64
  ru2_tags :: u64
  ru2_nr :: u32
  ru2_resv2 :: u32

definition io_uring_rsrc_update2_default :: io_uring_rsrc_update2 where
  "io_uring_rsrc_update2_default = \<lparr>ru2_offset = 0, ru2_resv = 0, ru2_data = 0, ru2_tags = 0,
     ru2_nr = 0, ru2_resv2 = 0\<rparr>"

record io_uring_files_update =
  fup_offset :: u32
  fup_resv :: u32
  fup_fds :: u64

definition io_uring_files_update_default :: io_uring_files_update where
  "io_uring_files_update_default = \<lparr>fup_offset = 0, fup_resv = 0, fup_fds = 0\<rparr>"

record io_uring_sync_cancel_reg =
  scr_addr :: u64
  scr_fd :: i32
  scr_flags :: u32
  scr_timeout :: kernel_timespec
  scr_opcode :: u8
  scr_pad :: "u8 list"
  scr_pad2 :: "u64 list"

definition io_uring_sync_cancel_reg_default :: io_uring_sync_cancel_reg where
  "io_uring_sync_cancel_reg_default = \<lparr>scr_addr = 0, scr_fd = 0, scr_flags = 0,
     scr_timeout = \<lparr>tv_sec = 0, tv_nsec = 0\<rparr>,
     scr_opcode = 0, scr_pad = replicate 7 0, scr_pad2 = replicate 3 0\<rparr>"

record io_uring_probe_op =
  pop_op :: u8
  pop_resv :: u8
  pop_flags :: u16
  pop_resv2 :: u32

definition io_uring_probe_op_default :: io_uring_probe_op where
  "io_uring_probe_op_default = \<lparr>pop_op = 0, pop_resv = 0, pop_flags = 0, pop_resv2 = 0\<rparr>"

record io_uring_probe =
  prb_last_op :: u8
  prb_ops_len :: u8
  prb_resv :: u16
  prb_resv2 :: "u32 list"

definition io_uring_probe_default :: io_uring_probe where
  "io_uring_probe_default = \<lparr>prb_last_op = 0, prb_ops_len = 0, prb_resv = 0, prb_resv2 = replicate 3 0\<rparr>"

record io_uring_region_desc =
  rgd_user_addr :: u64
  rgd_size :: u64
  rgd_flags :: u32
  rgd_id :: u32
  rgd_mmap_offset :: u64
  rgd_resv :: "u64 list"

definition io_uring_region_desc_default :: io_uring_region_desc where
  "io_uring_region_desc_default = \<lparr>rgd_user_addr = 0, rgd_size = 0, rgd_flags = 0, rgd_id = 0,
     rgd_mmap_offset = 0, rgd_resv = replicate 4 0\<rparr>"

record io_uring_zcrx_area_reg =
  zar_addr :: u64
  zar_len :: u64
  zar_rq_area_token :: u64
  zar_flags :: u32
  zar_area_id :: u32
  zar_resv :: "u64 list"

definition io_uring_zcrx_area_reg_default :: io_uring_zcrx_area_reg where
  "io_uring_zcrx_area_reg_default = \<lparr>zar_addr = 0, zar_len = 0, zar_rq_area_token = 0, zar_flags = 0,
     zar_area_id = 0, zar_resv = replicate 2 0\<rparr>"

record io_uring_zcrx_cqe =
  zcq_off :: u64
  zcq_pad :: u64

definition io_uring_zcrx_cqe_default :: io_uring_zcrx_cqe where
  "io_uring_zcrx_cqe_default = \<lparr>zcq_off = 0, zcq_pad = 0\<rparr>"

record io_uring_zcrx_rqe =
  zrq_off :: u64
  zrq_len :: u32
  zrq_pad :: u32

definition io_uring_zcrx_rqe_default :: io_uring_zcrx_rqe where
  "io_uring_zcrx_rqe_default = \<lparr>zrq_off = 0, zrq_len = 0, zrq_pad = 0\<rparr>"

section \<open>Layouts\<close>

definition io_uring_getevents_arg_fields :: "(nat \<times> nat) list" where
  "io_uring_getevents_arg_fields = [(8,8), (4,4), (4,4), (8,8)]"

definition io_uring_buf_reg_fields :: "(nat \<times> nat) list" where
  "io_uring_buf_reg_fields = [(8,8), (4,4), (2,2), (2,2), (24,8)]"

definition io_uring_rsrc_register_fields :: "(nat \<times> nat) list" where
  "io_uring_rsrc_register_fields = [(4,4), (4,4), (8,8), (8,8), (8,8)]"

definition io_uring_rsrc_update2_fields :: "(nat \<times> nat) list" where
  "io_uring_rsrc_update2_fields = [(4,4), (4,4), (8,8), (8,8), (4,4), (4,4)]"

definition io_uring_files_update_fields :: "(nat \<times> nat) list" where
  "io_uring_files_update_fields = [(4,4), (4,4), (8,8)]"

definition io_uring_sync_cancel_reg_fields :: "(nat \<times> nat) list" where
  "io_uring_sync_cancel_reg_fields = [(8,8), (4,4), (4,4),
     (repr_c_size kernel_timespec_fields, repr_c_align kernel_timespec_fields), (1,1), (7,1), (24,8)]"

definition io_uring_probe_op_fields :: "(nat \<times> nat) list" where
  "io_uring_probe_op_fields = [(1,1), (1,1), (2,2), (4,4)]"

definition io_uring_probe_fields :: "(nat \<times> nat) list" where
  "io_uring_probe_fields = [(1,1), (1,1), (2,2), (12,4)]"

definition io_uring_restriction_fields :: "(nat \<times> nat) list" where
  "io_uring_restriction_fields = [(2,2), (1,1), (1,1), (1,1), (1,1), (12,4)]"

definition io_uring_region_desc_fields :: "(nat \<times> nat) list" where
  "io_uring_region_desc_fields = [(8,8), (8,8), (4,4), (4,4), (8,8), (32,8)]"

definition io_uring_zcrx_offsets_fields :: "(nat \<times> nat) list" where
  "io_uring_zcrx_offsets_fields = [(4,4), (4,4), (4,4), (4,4), (16,8)]"

definition io_uring_zcrx_ifq_reg_fields :: "(nat \<times> nat) list" where
  "io_uring_zcrx_ifq_reg_fields = [(4,4), (4,4), (4,4), (4,4), (4,4), (12,4),
     (repr_c_size io_uring_zcrx_offsets_fields, repr_c_align io_uring_zcrx_offsets_fields), (32,8)]"

definition io_uring_zcrx_area_reg_fields :: "(nat \<times> nat) list" where
  "io_uring_zcrx_area_reg_fields = [(8,8), (8,8), (8,8), (4,4), (4,4), (16,8)]"

definition io_uring_zcrx_cqe_fields :: "(nat \<times> nat) list" where
  "io_uring_zcrx_cqe_fields = [(8,8), (8,8)]"

definition io_uring_zcrx_rqe_fields :: "(nat \<times> nat) list" where
  "io_uring_zcrx_rqe_fields = [(8,8), (4,4), (4,4)]"

section \<open>How the constants are numbered\<close>

lemma register_opcodes_consecutive:
  "[IORING_REGISTER_BUFFERS, IORING_UNREGISTER_BUFFERS, IORING_REGISTER_FILES, IORING_UNREGISTER_FILES,
    IORING_REGISTER_EVENTFD, IORING_UNREGISTER_EVENTFD, IORING_REGISTER_FILES_UPDATE,
    IORING_REGISTER_EVENTFD_ASYNC, IORING_REGISTER_PROBE, IORING_REGISTER_PERSONALITY,
    IORING_UNREGISTER_PERSONALITY, IORING_REGISTER_RESTRICTIONS, IORING_REGISTER_ENABLE_RINGS,
    IORING_REGISTER_FILES2, IORING_REGISTER_FILES_UPDATE2, IORING_REGISTER_BUFFERS2,
    IORING_REGISTER_BUFFERS_UPDATE, IORING_REGISTER_IOWQ_AFF, IORING_UNREGISTER_IOWQ_AFF,
    IORING_REGISTER_IOWQ_MAX_WORKERS, IORING_REGISTER_RING_FDS, IORING_UNREGISTER_RING_FDS,
    IORING_REGISTER_PBUF_RING, IORING_UNREGISTER_PBUF_RING, IORING_REGISTER_SYNC_CANCEL,
    IORING_REGISTER_FILE_ALLOC_RANGE, IORING_REGISTER_PBUF_STATUS, IORING_REGISTER_NAPI,
    IORING_UNREGISTER_NAPI, IORING_REGISTER_CLOCK, IORING_REGISTER_CLONE_BUFFERS,
    IORING_REGISTER_SEND_MSG_RING, IORING_REGISTER_ZCRX_IFQ, IORING_REGISTER_RESIZE_RINGS,
    IORING_REGISTER_MEM_REGION] = map of_nat [0..<unat IORING_REGISTER_LAST]"
  by (simp add: sys_consts upt_conv_Cons)

lemma setup_flags_single_bits:
  "[IORING_SETUP_IOPOLL, IORING_SETUP_SQPOLL, IORING_SETUP_SQ_AFF, IORING_SETUP_CQSIZE, IORING_SETUP_CLAMP,
    IORING_SETUP_ATTACH_WQ, IORING_SETUP_R_DISABLED, IORING_SETUP_SUBMIT_ALL, IORING_SETUP_COOP_TASKRUN,
    IORING_SETUP_TASKRUN_FLAG, IORING_SETUP_SQE128, IORING_SETUP_CQE32, IORING_SETUP_SINGLE_ISSUER,
    IORING_SETUP_DEFER_TASKRUN, IORING_SETUP_NO_MMAP, IORING_SETUP_REGISTERED_FD_ONLY,
    IORING_SETUP_NO_SQARRAY, IORING_SETUP_HYBRID_IOPOLL] = map (\<lambda>i. push_bit i 1) [0..<18]"
  by (simp add: sys_consts upt_conv_Cons push_bit_eq_mult)

lemma feature_flags_single_bits:
  "[IORING_FEAT_SINGLE_MMAP, IORING_FEAT_NODROP, IORING_FEAT_SUBMIT_STABLE, IORING_FEAT_RW_CUR_POS,
    IORING_FEAT_CUR_PERSONALITY, IORING_FEAT_FAST_POLL, IORING_FEAT_POLL_32BITS,
    IORING_FEAT_SQPOLL_NONFIXED, IORING_FEAT_EXT_ARG, IORING_FEAT_NATIVE_WORKERS, IORING_FEAT_RSRC_TAGS,
    IORING_FEAT_CQE_SKIP, IORING_FEAT_LINKED_FILE, IORING_FEAT_REG_REG_RING,
    IORING_FEAT_RECVSEND_BUNDLE, IORING_FEAT_MIN_TIMEOUT, IORING_FEAT_RW_ATTR, IORING_FEAT_NO_IOWAIT]
     = map (\<lambda>i. push_bit i 1) [0..<18]"
  by (simp add: sys_consts upt_conv_Cons push_bit_eq_mult)

lemma timeout_masks:
  "IORING_TIMEOUT_CLOCK_MASK = IORING_TIMEOUT_BOOTTIME OR IORING_TIMEOUT_REALTIME"
  "IORING_TIMEOUT_UPDATE_MASK = IORING_TIMEOUT_UPDATE OR IORING_LINK_TIMEOUT_UPDATE"
  by (simp_all add: sys_consts)

lemma region_identifiers_in_mask:
  "\<forall>r\<in>{IORING_OFF_SQ_RING, IORING_OFF_CQ_RING, IORING_OFF_SQES, IORING_OFF_PBUF_RING}. r AND IORING_OFF_MMAP_MASK = r"
  "distinct [IORING_OFF_SQ_RING, IORING_OFF_CQ_RING, IORING_OFF_SQES, IORING_OFF_PBUF_RING]"
  by (simp_all add: sys_consts)

end
