(* ===== verification/Miring_Layout.thy ===== *)
theory Miring_Layout
  imports Miring_Sys_More Miring_Ring Miring_Submit_Laws
begin

text \<open>
  Entries as bytes.  The submitter does not know the entry types of its ring: it addresses the two
  arrays in bytes, with the stride of the entry type, reads the first bytes of a submission slot as
  an \<open>io_uring_sqe\<close> and writes an \<open>io_uring_cqe\<close> over the first bytes of a completion slot.  The
  records of the entry types in \<open>Miring_Squeue\<close> and \<open>Miring_Cqueue\<close> state what these accesses
  mean for an entry; here that is derived from the \<open>repr(C)\<close> layouts.  A structure is written as the
  bytes of its fields, each at its offset, little-endian; padding bytes are taken as zero.
\<close>

section \<open>Structures as bytes\<close>

fun struct_end :: "nat \<Rightarrow> (nat \<times> nat) list \<Rightarrow> u8 list list \<Rightarrow> u8 list" where
  "struct_end pos ((sz, al) # fs) (v # vs) =
     replicate (align_up al pos - pos) 0 @ v @ struct_end (align_up al pos + sz) fs vs"
| "struct_end pos _ _ = []"

definition struct_bytes :: "(nat \<times> nat) list \<Rightarrow> u8 list list \<Rightarrow> u8 list" where
  "struct_bytes fs vs = struct_end 0 fs vs @ replicate (repr_c_size fs - repr_c_end 0 fs) 0"

definition field_bytes :: "(nat \<times> nat) list \<Rightarrow> nat \<Rightarrow> u8 list \<Rightarrow> u8 list" where
  "field_bytes fs i bs = take (fst (fs ! i)) (drop (repr_c_offsets 0 fs ! i) bs)"

text \<open>The values have the sizes of the fields.\<close>

definition values_fit :: "(nat \<times> nat) list \<Rightarrow> u8 list list \<Rightarrow> bool" where
  "values_fit fs vs \<longleftrightarrow> map length vs = map fst fs \<and> list_all (\<lambda>(sz, al). 0 < al) fs"

lemma values_fit_Nil [simp]: "values_fit [] vs \<longleftrightarrow> vs = []"
  by (auto simp: values_fit_def)

lemma values_fit_Cons [simp]:
  "values_fit ((sz, al) # fs) vs \<longleftrightarrow> (\<exists>v ws. vs = v # ws \<and> length v = sz \<and> 0 < al \<and> values_fit fs ws)"
  by (cases vs) (auto simp: values_fit_def)

lemma values_fit_Nil2 [simp]: "values_fit fs [] \<longleftrightarrow> fs = []"
  by (auto simp: values_fit_def)

lemma repr_c_end_ge: "list_all (\<lambda>(sz, al). 0 < al) fs \<Longrightarrow> pos \<le> repr_c_end pos fs"
proof (induction pos fs rule: repr_c_end.induct)
  case (2 pos sz al fs)
  then show ?case using align_up_ge [of al pos] by simp
qed simp

lemma length_struct_end: "values_fit fs vs \<Longrightarrow> pos + length (struct_end pos fs vs) = repr_c_end pos fs"
proof (induction pos fs vs rule: struct_end.induct)
  case (1 pos sz al fs v vs)
  then show ?case using align_up_ge [of al pos] by simp
qed auto

lemma field_struct_end:
  "values_fit fs vs \<Longrightarrow> i < length fs \<Longrightarrow>
     take (fst (fs ! i)) (drop (repr_c_offsets pos fs ! i - pos) (struct_end pos fs vs)) = vs ! i"
proof (induction pos fs vs arbitrary: i rule: struct_end.induct)
  case (1 pos sz al fs v vs)
  then have ge: "pos \<le> align_up al pos" using align_up_ge by simp
  show ?case
  proof (cases i)
    case (Suc j)
    have "list_all (\<lambda>(sz, al). 0 < al) fs" using 1 by (simp add: values_fit_def)
    then have "align_up al pos + sz \<le> repr_c_offsets (align_up al pos + sz) fs ! j"
      using 1 Suc repr_c_offsets_ge by simp
    then have "drop (repr_c_offsets (align_up al pos + sz) fs ! j - pos)
        (struct_end pos ((sz, al) # fs) (v # vs))
      = drop (repr_c_offsets (align_up al pos + sz) fs ! j - (align_up al pos + sz))
          (struct_end (align_up al pos + sz) fs vs)"
      using 1 ge by simp
    with 1 Suc show ?thesis by simp
  qed (use 1 ge in simp)
qed auto

lemma repr_c_align_pos: "0 < repr_c_align fs"
  unfolding repr_c_align_def by (induction fs) auto

lemma repr_c_end_le: "repr_c_end 0 fs \<le> repr_c_size fs"
  unfolding repr_c_size_def using align_up_ge repr_c_align_pos .

lemma length_struct_bytes: "values_fit fs vs \<Longrightarrow> length (struct_bytes fs vs) = repr_c_size fs"
  using length_struct_end [of fs vs 0] repr_c_end_le [of fs] by (simp add: struct_bytes_def)

lemma field_end_le:
  "list_all (\<lambda>(sz, al). 0 < al) fs \<Longrightarrow> i < length fs \<Longrightarrow>
     repr_c_offsets pos fs ! i + fst (fs ! i) \<le> repr_c_end pos fs"
proof (induction pos fs arbitrary: i rule: repr_c_offsets.induct)
  case (2 pos sz al fs)
  then show ?case using repr_c_end_ge by (cases i) auto
qed simp

text \<open>Reading a field gives the bytes it was written with.\<close>

lemma field_struct_bytes [simp]:
  assumes "values_fit fs vs" "i < length fs"
  shows "field_bytes fs i (struct_bytes fs vs) = vs ! i"
proof -
  have "repr_c_offsets 0 fs ! i + fst (fs ! i) \<le> length (struct_end 0 fs vs)"
    using assms field_end_le [of fs i 0] length_struct_end [of fs vs 0] by (simp add: values_fit_def)
  then show ?thesis
    using field_struct_end [of fs vs i 0] assms by (simp add: field_bytes_def struct_bytes_def)
qed

section \<open>The entry types as bytes\<close>

definition sqe_bytes :: "io_uring_sqe \<Rightarrow> u8 list" where
  "sqe_bytes s = struct_bytes io_uring_sqe_fields
     [to_le_bytes 1 (sqe_opcode s), to_le_bytes 1 (sqe_flags s), to_le_bytes 2 (sqe_ioprio s),
      to_le_bytes 4 (sqe_fd s), to_le_bytes 8 (sqe_off s), to_le_bytes 8 (sqe_addr s), to_le_bytes 4 (sqe_len s),
      to_le_bytes 4 (sqe_op_flags s), to_le_bytes 8 (sqe_user_data s), to_le_bytes 2 (sqe_buf_index s),
      to_le_bytes 2 (sqe_personality s), to_le_bytes 4 (sqe_splice_fd_in s), to_le_bytes 8 (sqe_addr3 s),
      to_le_bytes 8 (sqe_pad2 s)]"

definition sqe_of_bytes :: "u8 list \<Rightarrow> io_uring_sqe" where
  "sqe_of_bytes bs = (let f = (\<lambda>i. field_bytes io_uring_sqe_fields i bs) in
     \<lparr>sqe_opcode = from_le_bytes (f 0), sqe_flags = from_le_bytes (f 1), sqe_ioprio = from_le_bytes (f 2),
      sqe_fd = from_le_bytes (f 3), sqe_off = from_le_bytes (f 4), sqe_addr = from_le_bytes (f 5),
      sqe_len = from_le_bytes (f 6), sqe_op_flags = from_le_bytes (f 7), sqe_user_data = from_le_bytes (f 8),
      sqe_buf_index = from_le_bytes (f 9), sqe_personality = from_le_bytes (f 10),
      sqe_splice_fd_in = from_le_bytes (f 11), sqe_addr3 = from_le_bytes (f 12), sqe_pad2 = from_le_bytes (f 13)\<rparr>)"

definition cqe_bytes :: "io_uring_cqe \<Rightarrow> u8 list" where
  "cqe_bytes c = struct_bytes io_uring_cqe_fields
     [to_le_bytes 8 (cqe_user_data c), to_le_bytes 4 (cqe_res c), to_le_bytes 4 (cqe_flags c)]"

definition cqe_of_bytes :: "u8 list \<Rightarrow> io_uring_cqe" where
  "cqe_of_bytes bs = (let f = (\<lambda>i. field_bytes io_uring_cqe_fields i bs) in
     \<lparr>cqe_user_data = from_le_bytes (f 0), cqe_res = from_le_bytes (f 1), cqe_flags = from_le_bytes (f 2)\<rparr>)"

text \<open>
  \<open>Entry(sys::io_uring_sqe)\<close>, \<open>Entry128(Entry, [u8; 64])\<close>, and on the completion side
  \<open>Entry(sys::io_uring_cqe)\<close> and \<open>Entry32(Entry, [u64; 2])\<close>.
\<close>

definition Entry_fields :: "(nat \<times> nat) list" where
  "Entry_fields = [(repr_c_size io_uring_sqe_fields, repr_c_align io_uring_sqe_fields)]"

definition Entry128_fields :: "(nat \<times> nat) list" where
  "Entry128_fields = [(repr_c_size Entry_fields, repr_c_align Entry_fields), (64, 1)]"

definition cq_Entry_fields :: "(nat \<times> nat) list" where
  "cq_Entry_fields = [(repr_c_size io_uring_cqe_fields, repr_c_align io_uring_cqe_fields)]"

definition cq_Entry32_fields :: "(nat \<times> nat) list" where
  "cq_Entry32_fields = [(repr_c_size cq_Entry_fields, repr_c_align cq_Entry_fields), (16, 8)]"

definition Entry_bytes :: "Entry \<Rightarrow> u8 list" where
  "Entry_bytes e = struct_bytes Entry_fields [sqe_bytes (entry_sqe e)]"

definition Entry128_bytes :: "Entry128 \<Rightarrow> u8 list" where
  "Entry128_bytes e = struct_bytes Entry128_fields [Entry_bytes (entry128_base e), entry128_cmd e]"

definition cq_Entry_bytes :: "cq_Entry \<Rightarrow> u8 list" where
  "cq_Entry_bytes e = struct_bytes cq_Entry_fields [cqe_bytes (cq_entry_cqe e)]"

definition cq_Entry32_bytes :: "cq_Entry32 \<Rightarrow> u8 list" where
  "cq_Entry32_bytes e = struct_bytes cq_Entry32_fields
     [cq_Entry_bytes (cq_entry32_base e), concat (map (to_le_bytes 8) (cq_entry32_big e))]"

text \<open>The lengths of the array fields are part of their types.\<close>

definition Entry128_ok :: "Entry128 \<Rightarrow> bool" where
  "Entry128_ok e \<longleftrightarrow> length (entry128_cmd e) = 64"

definition cq_Entry32_ok :: "cq_Entry32 \<Rightarrow> bool" where
  "cq_Entry32_ok e \<longleftrightarrow> length (cq_entry32_big e) = 2"

lemmas fields_defs = io_uring_sqe_fields_def io_uring_cqe_fields_def Entry_fields_def Entry128_fields_def
  cq_Entry_fields_def cq_Entry32_fields_def

lemma entry_layouts [simp]:
  "repr_c_size io_uring_sqe_fields = 64" "repr_c_align io_uring_sqe_fields = 8"
  "repr_c_size io_uring_cqe_fields = 16" "repr_c_align io_uring_cqe_fields = 8"
  "repr_c_size Entry_fields = 64" "repr_c_align Entry_fields = 8"
  "repr_c_size Entry128_fields = 128" "repr_c_align Entry128_fields = 8"
  "repr_c_size cq_Entry_fields = 16" "repr_c_align cq_Entry_fields = 8"
  "repr_c_size cq_Entry32_fields = 32" "repr_c_align cq_Entry32_fields = 8"
  by (simp_all add: fields_defs layout_simps)

lemma length_sqe_bytes [simp]: "length (sqe_bytes s) = 64"
proof -
  have "values_fit io_uring_sqe_fields
     [to_le_bytes 1 (sqe_opcode s), to_le_bytes 1 (sqe_flags s), to_le_bytes 2 (sqe_ioprio s),
      to_le_bytes 4 (sqe_fd s), to_le_bytes 8 (sqe_off s), to_le_bytes 8 (sqe_addr s), to_le_bytes 4 (sqe_len s),
      to_le_bytes 4 (sqe_op_flags s), to_le_bytes 8 (sqe_user_data s), to_le_bytes 2 (sqe_buf_index s),
      to_le_bytes 2 (sqe_personality s), to_le_bytes 4 (sqe_splice_fd_in s), to_le_bytes 8 (sqe_addr3 s),
      to_le_bytes 8 (sqe_pad2 s)]" by (simp add: io_uring_sqe_fields_def)
  from length_struct_bytes [OF this] show ?thesis by (simp add: sqe_bytes_def)
qed

lemma length_cqe_bytes [simp]: "length (cqe_bytes c) = 16"
proof -
  have "values_fit io_uring_cqe_fields
     [to_le_bytes 8 (cqe_user_data c), to_le_bytes 4 (cqe_res c), to_le_bytes 4 (cqe_flags c)]"
    by (simp add: io_uring_cqe_fields_def)
  from length_struct_bytes [OF this] show ?thesis by (simp add: cqe_bytes_def)
qed

lemma sqe_round_trip [simp]: "sqe_of_bytes (sqe_bytes s) = s"
  unfolding sqe_of_bytes_def sqe_bytes_def Let_def
  by (simp add: io_uring_sqe_fields_def from_to_le_bytes)

lemma cqe_round_trip [simp]: "cqe_of_bytes (cqe_bytes c) = c"
  unfolding cqe_of_bytes_def cqe_bytes_def Let_def
  by (simp add: io_uring_cqe_fields_def from_to_le_bytes)

lemma entry_fields_eq:
  "Entry_fields = [(64, 8)]" "Entry128_fields = [(64, 8), (64, 1)]"
  "cq_Entry_fields = [(16, 8)]" "cq_Entry32_fields = [(16, 8), (16, 8)]"
proof -
  show "Entry_fields = [(64, 8)]" "cq_Entry_fields = [(16, 8)]"
    by (simp_all add: Entry_fields_def cq_Entry_fields_def)
  show "Entry128_fields = [(64, 8), (64, 1)]" "cq_Entry32_fields = [(16, 8), (16, 8)]"
    by (simp_all add: Entry128_fields_def cq_Entry32_fields_def)
qed

text \<open>No entry type has padding: the base comes first, the rest directly behind it.\<close>

lemma entry_bytes_parts:
  "Entry_bytes e = sqe_bytes (entry_sqe e)"
  "Entry128_ok e128 \<Longrightarrow> Entry128_bytes e128 = sqe_bytes (entry_sqe (entry128_base e128)) @ entry128_cmd e128"
  "cq_Entry_bytes c = cqe_bytes (cq_entry_cqe c)"
  "cq_Entry32_ok c32 \<Longrightarrow> cq_Entry32_bytes c32 = cqe_bytes (cq_entry_cqe (cq_entry32_base c32))
     @ concat (map (to_le_bytes 8) (cq_entry32_big c32))"
proof -
  show 1: "Entry_bytes e = sqe_bytes (entry_sqe e)" for e
    by (simp add: Entry_bytes_def struct_bytes_def entry_fields_eq layout_simps)
  show 2: "cq_Entry_bytes c = cqe_bytes (cq_entry_cqe c)" for c
    by (simp add: cq_Entry_bytes_def struct_bytes_def entry_fields_eq layout_simps)
  show "Entry128_ok e128 \<Longrightarrow> Entry128_bytes e128 = sqe_bytes (entry_sqe (entry128_base e128)) @ entry128_cmd e128"
    by (simp add: Entry128_bytes_def struct_bytes_def entry_fields_eq Entry128_ok_def layout_simps 1)
  show "cq_Entry32_ok c32 \<Longrightarrow> cq_Entry32_bytes c32 = cqe_bytes (cq_entry_cqe (cq_entry32_base c32))
     @ concat (map (to_le_bytes 8) (cq_entry32_big c32))"
    by (simp add: cq_Entry32_bytes_def struct_bytes_def entry_fields_eq cq_Entry32_ok_def layout_simps 2)
qed

section \<open>Arrays of entries\<close>

text \<open>
  \<open>ptr.add(off)\<close> followed by \<open>ptr::read\<close> or \<open>ptr::write\<close> inside one allocation, which is aligned for
  its elements; \<open>al\<close> is the alignment of the type accessed.
\<close>

definition bytes_read :: "nat \<Rightarrow> u8 list \<Rightarrow> nat \<Rightarrow> nat \<Rightarrow> u8 list exec" where
  "bytes_read al arr off n =
     (if off mod al \<noteq> 0 then Inl (UndefinedBehavior UB_unaligned)
      else if length arr < off + n then Inl (UndefinedBehavior UB_out_of_bounds)
      else Inr (take n (drop off arr)))"

definition bytes_write :: "nat \<Rightarrow> u8 list \<Rightarrow> nat \<Rightarrow> u8 list \<Rightarrow> u8 list exec" where
  "bytes_write al arr off v =
     (if off mod al \<noteq> 0 then Inl (UndefinedBehavior UB_unaligned)
      else if length arr < off + length v then Inl (UndefinedBehavior UB_out_of_bounds)
      else Inr (take off arr @ v @ drop (off + length v) arr))"

definition array_bytes :: "('e \<Rightarrow> u8 list) \<Rightarrow> 'e list \<Rightarrow> u8 list" where
  "array_bytes enc es = concat (map enc es)"

text \<open>What an access through a pointer to bytes needs of the representation of the elements.\<close>

locale byte_array =
  fixes enc :: "'e \<Rightarrow> u8 list" and stride :: nat and ok :: "'e \<Rightarrow> bool"
  assumes length_enc: "ok e \<Longrightarrow> length (enc e) = stride"
    and stride_pos: "0 < stride"
    and stride_aligned: "stride mod 8 = 0"
begin

lemma length_array: "list_all ok es \<Longrightarrow> length (array_bytes enc es) = length es * stride"
  by (induction es) (simp_all add: array_bytes_def length_enc)

lemma drop_array: "list_all ok es \<Longrightarrow> drop (i * stride) (array_bytes enc es) = array_bytes enc (drop i es)"
proof (induction es arbitrary: i)
  case (Cons e es)
  then show ?case by (cases i) (simp_all add: array_bytes_def length_enc)
qed (simp add: array_bytes_def)

lemma take_array: "list_all ok es \<Longrightarrow> take (i * stride) (array_bytes enc es) = array_bytes enc (take i es)"
proof (induction es arbitrary: i)
  case (Cons e es)
  then show ?case by (cases i) (simp_all add: array_bytes_def length_enc)
qed (simp add: array_bytes_def)

lemma slot_in_array:
  assumes "list_all ok es" "i < length es"
  shows "array_bytes enc es = array_bytes enc (take i es) @ enc (es ! i) @ array_bytes enc (drop (Suc i) es)"
  using id_take_nth_drop [OF assms(2)] by (metis array_bytes_def concat.simps(2) concat_append list.simps(9) map_append)

text \<open>A slot that is not there is out of bounds for every access of at least one byte at its start.\<close>

lemma read_slot:
  assumes "list_all ok es" "0 < n" "n \<le> stride"
  shows "bytes_read 8 (array_bytes enc es) (i * stride) n =
    (if i < length es then Inr (take n (enc (es ! i))) else Inl (UndefinedBehavior UB_out_of_bounds))"
proof -
  have al: "i * stride mod 8 = 0" using stride_aligned by (metis mod_mult_right_eq mult_0_right mod_0)
  show ?thesis
  proof (cases "i < length es")
    case True
    then have "Suc i * stride \<le> length es * stride" by (intro mult_le_mono1) simp
    then have ok: "ok (es ! i)" and len: "i * stride + stride \<le> length es * stride"
      using assms(1) True by (simp_all add: list_all_length)
    have "drop (i * stride) (array_bytes enc es) = enc (es ! i) @ array_bytes enc (drop (Suc i) es)"
      using drop_array [OF assms(1)] True by (simp add: array_bytes_def Cons_nth_drop_Suc [symmetric])
    with True al len assms ok length_enc [OF ok] show ?thesis
      by (simp add: bytes_read_def length_array)
  next
    case False
    then have "length es * stride < i * stride + n"
      using assms(2) mult_le_mono1 [of "length es" i stride] by linarith
    with False al assms show ?thesis by (simp add: bytes_read_def length_array)
  qed
qed

lemma write_slot:
  assumes "list_all ok es" "i < length es" "off + length v \<le> stride" "off mod 8 = 0"
    and "ok e" "enc e = take off (enc (es ! i)) @ v @ drop (off + length v) (enc (es ! i))"
  shows "bytes_write 8 (array_bytes enc es) (i * stride + off) v = Inr (array_bytes enc (es[i := e]))"
proof -
  have ok: "ok (es ! i)" using assms by (simp add: list_all_length)
  have al: "(i * stride + off) mod 8 = 0"
    using stride_aligned assms(4) by (metis add_0 mod_0 mod_add_eq mod_mult_right_eq mult_0_right)
  have "Suc i * stride \<le> length es * stride" using assms(2) by (intro mult_le_mono1) simp
  then have len: "i * stride + off + length v \<le> length (array_bytes enc es)" using assms by (simp add: length_array)
  have pre: "length (array_bytes enc (take i es)) = i * stride"
    using assms(1,2) length_array [of "take i es"] by (auto simp: list_all_length)
  have post: "array_bytes enc (es[i := e]) = array_bytes enc (take i es) @ enc e @ array_bytes enc (drop (Suc i) es)"
    using assms(2) by (simp add: array_bytes_def upd_conv_take_nth_drop)
  have "bytes_write 8 (array_bytes enc es) (i * stride + off) v
      = Inr (take (i * stride + off) (array_bytes enc es) @ v @ drop (i * stride + off + length v) (array_bytes enc es))"
    using al len by (simp add: bytes_write_def)
  also have "\<dots> = Inr (array_bytes enc (take i es) @ (take off (enc (es ! i)) @ v @ drop (off + length v) (enc (es ! i)))
      @ array_bytes enc (drop (Suc i) es))"
    using assms(3) length_enc [OF ok] pre by (simp add: slot_in_array [OF assms(1,2)] add.assoc)
  finally show ?thesis using post assms(6) by simp
qed

end

interpretation entry_array: byte_array Entry_bytes "sem_size Entry_marker" "\<lambda>_. True"
  by unfold_locales (simp_all add: entry_bytes_parts Entry_marker_def)

interpretation entry128_array: byte_array Entry128_bytes "sem_size Entry128_marker" Entry128_ok
  by unfold_locales (simp_all add: entry_bytes_parts Entry128_marker_def, simp add: Entry128_ok_def)

interpretation cqe_array: byte_array cq_Entry_bytes "cem_size cq_Entry_marker" "\<lambda>_. True"
  by unfold_locales (simp_all add: entry_bytes_parts cq_Entry_marker_def)

interpretation cqe32_array: byte_array cq_Entry32_bytes "cem_size cq_Entry32_marker" cq_Entry32_ok
  by unfold_locales (simp_all add: entry_bytes_parts cq_Entry32_marker_def,
    auto simp: cq_Entry32_ok_def length_Suc_conv numeral_2_eq_2)

section \<open>The submitter over bytes\<close>

text \<open>
  \<open>enqueue_sqes\<close> and \<open>post_cqe\<close> as the source writes them: the two arrays are bytes, an element is
  found at its index times the stride.
\<close>

definition byte_read_sqe :: "('s, 'c) Submitter \<Rightarrow> u32 \<Rightarrow> u8 list \<Rightarrow> io_uring_sqe exec" where
  "byte_read_sqe sub head sqe_array =
     (let sq_idx = ring_index (sub_sq_ring_mask sub) head in
      and_then (bytes_read (repr_c_align io_uring_sqe_fields) sqe_array (sq_idx * sub_sqe_stride sub)
        (repr_c_size io_uring_sqe_fields)) (\<lambda>bs. Inr (sqe_of_bytes bs)))"

fun byte_snapshot_sqes :: "('s, 'c) Submitter \<Rightarrow> nat \<Rightarrow> u32 \<Rightarrow> u8 list \<Rightarrow> (io_uring_sqe list \<times> u32) exec" where
  "byte_snapshot_sqes sub 0 head sqe_array = Inr ([], head)"
| "byte_snapshot_sqes sub (Suc n) head sqe_array =
     and_then (byte_read_sqe sub head sqe_array) (\<lambda>sqe.
       and_then (byte_snapshot_sqes sub n (head + 1) sqe_array) (\<lambda>(sqes, head'). Inr (sqe # sqes, head')))"

definition byte_enqueue_sqes ::
  "('s, 'c) Submitter \<Rightarrow> u32 \<Rightarrow> (u8, u8) RingMemory \<Rightarrow> (usize io_Result \<times> (u8, u8) RingMemory) exec"
where
  "byte_enqueue_sqes sub to_submit mem =
     (let head = st_sq_head (rm_state mem);
          tail = st_sq_tail (rm_state mem);
          to_process = min to_submit (tail - head)
      in if to_process = 0 then Inr (Inr 0, mem)
         else and_then (byte_snapshot_sqes sub (unat to_process) head (rm_sqes mem)) (\<lambda>(sqes, head').
           Inr (Inr (ucast to_process), upd_state (\<lambda>st. st\<lparr>st_sq_head := head',
             st_pending := st_pending st @ [thread_spawn sqes]\<rparr>) mem)))"

definition byte_write_cqe :: "nat \<Rightarrow> nat \<Rightarrow> io_uring_cqe \<Rightarrow> u8 list \<Rightarrow> u8 list exec" where
  "byte_write_cqe stride cq_idx cqe cqe_array =
     (let cqe_ptr = cq_idx * stride in
      and_then (bytes_write (repr_c_align io_uring_cqe_fields) cqe_array cqe_ptr (cqe_bytes cqe)) (\<lambda>arr.
        if stride > repr_c_size io_uring_cqe_fields
        then let extra = cqe_ptr + repr_c_size io_uring_cqe_fields in
          and_then (bytes_write 8 arr extra (to_le_bytes 8 (0 :: u64))) (\<lambda>arr.
            bytes_write 8 arr (extra + 8) (to_le_bytes 8 (0 :: u64)))
        else Inr arr))"

definition byte_post_cqe ::
  "('s, 'c) Submitter \<Rightarrow> u64 \<Rightarrow> i32 \<Rightarrow> u32 \<Rightarrow> (u8, u8) RingMemory \<Rightarrow> (u8, u8) RingMemory exec"
where
  "byte_post_cqe sub user_data res flags mem =
     (let tail = st_cq_tail (rm_state mem);
          head = st_cq_head (rm_state mem)
      in if tail - head \<ge> sub_cq_ring_entries sub
         then let prev = st_cq_overflow (rm_state mem);
                  mem1 = upd_state (\<lambda>st. st\<lparr>st_cq_overflow := prev + 1\<rparr>) mem
              in if prev = 0
                 then Inr (upd_state (\<lambda>st. st\<lparr>st_sq_flags := st_sq_flags st OR IORING_SQ_CQ_OVERFLOW\<rparr>) mem1)
                 else Inr mem1
         else and_then (byte_write_cqe (sub_cqe_stride sub) (ring_index (sub_cq_ring_mask sub) tail)
             \<lparr>cqe_user_data = user_data, cqe_res = res, cqe_flags = flags\<rparr> (rm_cqes mem)) (\<lambda>arr.
           Inr (upd_state (\<lambda>st. st\<lparr>st_cq_tail := tail + 1\<rparr>) (mem\<lparr>rm_cqes := arr\<rparr>))))"

definition mem_bytes ::
  "('s \<Rightarrow> u8 list) \<Rightarrow> ('c \<Rightarrow> u8 list) \<Rightarrow> ('s, 'c) RingMemory \<Rightarrow> (u8, u8) RingMemory"
where
  "mem_bytes encs encc mem =
     \<lparr>rm_state = rm_state mem, rm_sqes = array_bytes encs (rm_sqes mem), rm_cqes = array_bytes encc (rm_cqes mem)\<rparr>"

lemma mem_bytes_simps [simp]:
  "rm_state (mem_bytes encs encc mem) = rm_state mem"
  "rm_sqes (mem_bytes encs encc mem) = array_bytes encs (rm_sqes mem)"
  "rm_cqes (mem_bytes encs encc mem) = array_bytes encc (rm_cqes mem)"
  "upd_state f (mem_bytes encs encc mem) = mem_bytes encs encc (upd_state f mem)"
  "(mem_bytes encs encc mem)\<lparr>rm_cqes := array_bytes encc cs\<rparr> = mem_bytes encs encc (mem\<lparr>rm_cqes := cs\<rparr>)"
  by (simp_all add: mem_bytes_def upd_state_def)

text \<open>A submission entry type whose elements start with an \<open>io_uring_sqe\<close>.\<close>

locale sqe_slots = byte_array enc "sem_size S" ok for S :: "'s sq_EntryMarker" and enc ok +
  assumes base_first: "ok e \<Longrightarrow> take 64 (enc e) = sqe_bytes (sem_sqe S e)"
    and base_fits: "64 \<le> sem_size S"
begin

lemma snapshot_bytes:
  assumes "sub_sqe_marker sub = S" "sub_sqe_stride sub = sem_size S" "list_all ok (rm_sqes mem)"
  shows "byte_snapshot_sqes sub n head (array_bytes enc (rm_sqes mem)) = snapshot_sqes sub n head mem"
proof (induction n arbitrary: head)
  case (Suc n)
  have "byte_read_sqe sub head (array_bytes enc (rm_sqes mem)) = read_sqe sub head mem" for head
    using assms base_fits by (auto simp: byte_read_sqe_def read_sqe_def read_slot list_all_length base_first Let_def)
  with Suc show ?case by simp
qed simp

lemma enqueue_bytes:
  assumes "sub_sqe_marker sub = S" "sub_sqe_stride sub = sem_size S" "list_all ok (rm_sqes mem)"
  shows "byte_enqueue_sqes sub to_submit (mem_bytes enc encc mem) =
    and_then (enqueue_sqes sub to_submit mem) (\<lambda>(r, mem'). Inr (r, mem_bytes enc encc mem'))"
  unfolding byte_enqueue_sqes_def enqueue_sqes_def Let_def
  by (auto simp: snapshot_bytes [OF assms] upd_state_def and_then_def split: sum.splits)

end

text \<open>A completion entry type on which the writes of \<open>post_cqe\<close> are those of its record.\<close>

locale cqe_slots = byte_array enc "cem_size C" ok for C :: "'c cq_EntryMarker" and enc ok +
  assumes write_bytes: "list_all ok cs \<Longrightarrow> i < length cs \<Longrightarrow>
      \<exists>e. write_cqe C cqe (cs ! i) = Inr e \<and> ok e
        \<and> byte_write_cqe (cem_size C) i cqe (array_bytes enc cs) = Inr (array_bytes enc (cs[i := e]))"
begin

lemma write_outside:
  assumes "list_all ok cs" "\<not> i < length cs"
  shows "byte_write_cqe (cem_size C) i cqe (array_bytes enc cs) = Inl (UndefinedBehavior UB_out_of_bounds)"
proof -
  have "i * cem_size C mod 8 = 0"
    using stride_aligned by (metis mod_mult_right_eq mult_0_right mod_0)
  moreover have "length cs * cem_size C < i * cem_size C + 16"
    using assms(2) mult_le_mono1 [of "length cs" i "cem_size C"] by linarith
  ultimately show ?thesis using assms(1) by (simp add: byte_write_cqe_def bytes_write_def length_array)
qed

lemma post_bytes:
  assumes "sub_cqe_marker sub = C" "sub_cqe_stride sub = cem_size C" "list_all ok (rm_cqes mem)"
  shows "byte_post_cqe sub user_data res flags (mem_bytes encs enc mem) =
    and_then (post_cqe sub user_data res flags mem) (\<lambda>mem'. Inr (mem_bytes encs enc mem'))"
proof (cases "sub_cq_ring_entries sub \<le> st_cq_tail (rm_state mem) - st_cq_head (rm_state mem)")
  case False
  let ?i = "ring_index (sub_cq_ring_mask sub) (st_cq_tail (rm_state mem))"
  let ?cqe = "\<lparr>cqe_user_data = user_data, cqe_res = res, cqe_flags = flags\<rparr>"
  show ?thesis
  proof (cases "?i < length (rm_cqes mem)")
    case True
    from write_bytes [OF assms(3) True, of ?cqe] obtain e where
      e: "write_cqe C ?cqe (rm_cqes mem ! ?i) = Inr e"
        "byte_write_cqe (cem_size C) ?i ?cqe (array_bytes enc (rm_cqes mem)) = Inr (array_bytes enc ((rm_cqes mem)[?i := e]))"
      by auto
    with False True assms show ?thesis
      by (simp add: byte_post_cqe_def post_cqe_def write_cqe_def Let_def cong: if_cong)
  next
    case outside: False
    with False assms show ?thesis
      by (simp add: byte_post_cqe_def post_cqe_def Let_def write_outside)
  qed
qed (simp add: byte_post_cqe_def post_cqe_def Let_def)

end

interpretation entry_slots: sqe_slots Entry_marker Entry_bytes "\<lambda>_. True"
  by unfold_locales (simp_all add: entry_bytes_parts Entry_marker_def)

interpretation entry128_slots: sqe_slots Entry128_marker Entry128_bytes Entry128_ok
  by unfold_locales (simp_all add: entry_bytes_parts Entry128_marker_def)

interpretation cqe_entry_slots: cqe_slots cq_Entry_marker cq_Entry_bytes "\<lambda>_. True"
proof unfold_locales
  fix cs i cqe
  assume cs: "list_all (\<lambda>_. True) (cs :: cq_Entry list)" "i < length cs"
  have "bytes_write 8 (array_bytes cq_Entry_bytes cs) (i * cem_size cq_Entry_marker + 0) (cqe_bytes cqe)
      = Inr (array_bytes cq_Entry_bytes (cs[i := cq_Entry cqe]))"
    by (rule cqe_array.write_slot [OF cs]) (simp_all add: entry_bytes_parts cq_Entry_marker_def)
  then have "byte_write_cqe (cem_size cq_Entry_marker) i cqe (array_bytes cq_Entry_bytes cs)
      = Inr (array_bytes cq_Entry_bytes (cs[i := cq_Entry cqe]))"
    by (simp add: byte_write_cqe_def Let_def cq_Entry_marker_def)
  then show "\<exists>e. write_cqe cq_Entry_marker cqe (cs ! i) = Inr e \<and> True
      \<and> byte_write_cqe (cem_size cq_Entry_marker) i cqe (array_bytes cq_Entry_bytes cs)
        = Inr (array_bytes cq_Entry_bytes (cs[i := e]))"
    by (simp add: write_cqe_def cq_Entry_marker_def)
qed

text \<open>The three writes into a 32-byte slot.\<close>

lemma write_cqe32_bytes:
  assumes cs: "list_all cq_Entry32_ok cs" "i < length cs"
  shows "byte_write_cqe (cem_size cq_Entry32_marker) i cqe (array_bytes cq_Entry32_bytes cs)
    = Inr (array_bytes cq_Entry32_bytes (cs[i := cq_Entry32 (cq_Entry cqe) [0, 0]]))"
proof -
  have "cq_Entry32_ok (cs ! i)" using cs by (simp add: list_all_length)
  then obtain b x y where csi: "cs ! i = cq_Entry32 b [x, y]"
    by (cases "cs ! i") (auto simp: cq_Entry32_ok_def length_Suc_conv numeral_2_eq_2)
  let ?w = "bytes_write 8" and ?a = "array_bytes cq_Entry32_bytes" and ?o = "i * cem_size cq_Entry32_marker"
  have sz: "cem_size cq_Entry32_marker = 32" by (simp add: cq_Entry32_marker_def)
  have ok: "list_all cq_Entry32_ok (cs[i := cq_Entry32 e [u, v]])" for e u v
    using cs by (auto simp: list_all_length nth_list_update cq_Entry32_ok_def)
  have 1: "?w (?a cs) (?o + 0) (cqe_bytes cqe) = Inr (?a (cs[i := cq_Entry32 (cq_Entry cqe) [x, y]]))"
    by (rule cqe32_array.write_slot [OF cs]) (simp_all add: csi entry_bytes_parts cq_Entry32_ok_def sz)
  have 2: "?w (?a (cs[i := cq_Entry32 (cq_Entry cqe) [x, y]])) (?o + 16) (to_le_bytes 8 (0 :: u64))
      = Inr (?a (cs[i := cq_Entry32 (cq_Entry cqe) [0, y]]))"
    using cqe32_array.write_slot [OF ok [of "cq_Entry cqe" x y], of i 16 "to_le_bytes 8 (0 :: u64)" "cq_Entry32 (cq_Entry cqe) [0, y]"] cs(2)
    by (simp add: entry_bytes_parts cq_Entry32_ok_def sz)
  have 3: "?w (?a (cs[i := cq_Entry32 (cq_Entry cqe) [0, y]])) (?o + 24) (to_le_bytes 8 (0 :: u64))
      = Inr (?a (cs[i := cq_Entry32 (cq_Entry cqe) [0, 0]]))"
    using cqe32_array.write_slot [OF ok [of "cq_Entry cqe" 0 y], of i 24 "to_le_bytes 8 (0 :: u64)" "cq_Entry32 (cq_Entry cqe) [0, 0]"] cs(2)
    by (simp add: entry_bytes_parts cq_Entry32_ok_def sz)
  from 1 2 3 show ?thesis by (simp add: byte_write_cqe_def Let_def sz add.commute [of 24])
qed

interpretation cqe32_entry_slots: cqe_slots cq_Entry32_marker cq_Entry32_bytes cq_Entry32_ok
proof unfold_locales
  fix cs i cqe
  assume "list_all cq_Entry32_ok cs" "i < length cs"
  then show "\<exists>e. write_cqe cq_Entry32_marker cqe (cs ! i) = Inr e \<and> cq_Entry32_ok e
      \<and> byte_write_cqe (cem_size cq_Entry32_marker) i cqe (array_bytes cq_Entry32_bytes cs)
        = Inr (array_bytes cq_Entry32_bytes (cs[i := e]))"
    by (simp add: write_cqe32_bytes) (simp add: write_cqe_def cq_Entry32_marker_def cq_Entry32_ok_def)
qed

lemma params_size: "repr_c_size io_uring_params_fields = 120"
proof -
  have "replicate 8 (4, 4) = [(4, 4), (4, 4), (4, 4), (4, 4), (4, 4), (4, 4), (4, 4), (4, 4) :: nat \<times> nat]"
    by (simp add: eval_nat_numeral)
  then have "repr_c_size io_sqring_offsets_fields = 40" "repr_c_align io_sqring_offsets_fields = 8"
    "repr_c_size io_cqring_offsets_fields = 40" "repr_c_align io_cqring_offsets_fields = 8"
    unfolding io_sqring_offsets_fields_def io_cqring_offsets_fields_def by (simp_all add: layout_simps)
  moreover have "replicate 7 (4, 4) = [(4, 4), (4, 4), (4, 4), (4, 4), (4, 4), (4, 4), (4, 4) :: nat \<times> nat]"
    by (simp add: eval_nat_numeral)
  ultimately show ?thesis unfolding io_uring_params_fields_def by (simp add: layout_simps)
qed

lemma struct_sizes: "repr_c_size kernel_timespec_fields = 16" "repr_c_size open_how_fields = 24"
  by (simp_all add: kernel_timespec_fields_def open_how_fields_def layout_simps)

text \<open>
  \<open>io_uring_restriction\<close>: the kernel's interface has the register opcode, the SQE opcode and the SQE
  flags in one byte, a union; in the source they follow each other, and the structure takes 20 bytes
  with two bytes of padding.
\<close>

lemma restriction_layout:
  "repr_c_offsets 0 io_uring_restriction_fields = [0, 2, 3, 4, 5, 8]" "repr_c_size io_uring_restriction_fields = 20"
  by (simp_all add: io_uring_restriction_fields_def layout_simps)

section \<open>Properties\<close>



text \<open>C22: The type-erased submitter addresses the two entry arrays in bytes.  On the bytes of a ring whose
  slots hold entries, for both widths of submission entries taking entries off the ring, and for both
  widths of completion entries posting a completion, is what the model of the submitter does on the
  entries themselves, errors included: no access is misaligned, none crosses into another slot, and
  what a wide slot holds behind its base is neither read nor, on the submission side, changed.\<close>

theorem byte_access_is_entry_access:
  "byte_enqueue_sqes (IoUring_submitter Entry_marker C ring) n (mem_bytes Entry_bytes encc mem)
     = and_then (enqueue_sqes (IoUring_submitter Entry_marker C ring) n mem)
         (\<lambda>(r, mem'). Inr (r, mem_bytes Entry_bytes encc mem'))
   \<and> (list_all Entry128_ok (rm_sqes wmem) \<longrightarrow>
      byte_enqueue_sqes (IoUring_submitter Entry128_marker C wring) n (mem_bytes Entry128_bytes encc wmem)
        = and_then (enqueue_sqes (IoUring_submitter Entry128_marker C wring) n wmem)
            (\<lambda>(r, mem'). Inr (r, mem_bytes Entry128_bytes encc mem')))
   \<and> byte_post_cqe (IoUring_submitter S cq_Entry_marker cring) user_data res flags (mem_bytes encs cq_Entry_bytes cmem)
     = and_then (post_cqe (IoUring_submitter S cq_Entry_marker cring) user_data res flags cmem)
         (\<lambda>mem'. Inr (mem_bytes encs cq_Entry_bytes mem'))
   \<and> (list_all cq_Entry32_ok (rm_cqes wcmem) \<longrightarrow>
      byte_post_cqe (IoUring_submitter S cq_Entry32_marker wcring) user_data res flags
          (mem_bytes encs cq_Entry32_bytes wcmem)
        = and_then (post_cqe (IoUring_submitter S cq_Entry32_marker wcring) user_data res flags wcmem)
            (\<lambda>mem'. Inr (mem_bytes encs cq_Entry32_bytes mem')))"
  using entry_slots.enqueue_bytes [of "IoUring_submitter Entry_marker C ring" mem n encc]
    entry128_slots.enqueue_bytes [of "IoUring_submitter Entry128_marker C wring" wmem n encc]
    cqe_entry_slots.post_bytes [of "IoUring_submitter S cq_Entry_marker cring" cmem user_data res flags encs]
    cqe32_entry_slots.post_bytes [of "IoUring_submitter S cq_Entry32_marker wcring" wcmem user_data res flags encs]
  by (simp add: IoUring_submitter_def list_all_length)

text \<open>A ring with two wide slots of each kind, one entry published and all completion slots free.\<close>

definition wide_ring :: "(Entry128, cq_Entry32) IoUring" where
  "wide_ring = (let st = \<lparr>st_sq_head = 0, st_sq_tail = 1, st_sq_flags = 0, st_sq_dropped = 0, st_cq_head = 0,
       st_cq_tail = 0, st_cq_overflow = 0, st_cq_flags = 0, st_pending = []\<rparr> in
     \<lparr>ring_sq = \<lparr>sqi_ring_mask = 1, sqi_ring_entries = 2\<rparr>, ring_cq = \<lparr>cqi_ring_mask = 1, cqi_ring_entries = 2\<rparr>,
      ring_params = Parameters io_uring_params_default,
      ring_memory = \<lparr>rm_state = st,
        rm_sqes = [Entry128 (Entry (io_uring_sqe_default\<lparr>sqe_user_data := 7\<rparr>)) (replicate 64 3), sem_zeroed Entry128_marker],
        rm_cqes = replicate 2 (cem_zeroed cq_Entry32_marker)\<rparr>\<rparr>)"

theorem byte_access_is_entry_access_witness:
  "let sub = IoUring_submitter Entry128_marker cq_Entry32_marker wide_ring; mem = ring_memory wide_ring;
       bs = mem_bytes Entry128_bytes cq_Entry32_bytes mem in
   (\<exists>mem'. byte_enqueue_sqes sub 1 bs = Inr (Inr 1, mem')
      \<and> map (map sqe_user_data \<circ> th_sqes) (st_pending (rm_state mem')) = [[7]])
   \<and> (\<exists>mem'. byte_post_cqe sub 7 0 0 bs = Inr mem' \<and> st_cq_tail (rm_state mem') = 1)"
proof -
  let ?sub = "IoUring_submitter Entry128_marker cq_Entry32_marker wide_ring" and ?mem = "ring_memory wide_ring"
  have ok: "list_all Entry128_ok (rm_sqes ?mem)" "list_all cq_Entry32_ok (rm_cqes ?mem)"
    by (simp_all add: wide_ring_def Let_def Entry128_ok_def cq_Entry32_ok_def Entry128_marker_def cq_Entry32_marker_def
        numeral_2_eq_2)
  have enq: "\<exists>mem'. enqueue_sqes ?sub 1 ?mem = Inr (Inr 1, mem')
      \<and> map (map sqe_user_data \<circ> th_sqes) (st_pending (rm_state mem')) = [[7]]"
    by (simp add: wide_ring_def Let_def enqueue_sqes_def read_sqe_def ring_index_def IoUring_submitter_def
        thread_spawn_def Entry128_marker_def upd_state_def)
  have post: "\<exists>mem'. post_cqe ?sub 7 0 0 ?mem = Inr mem' \<and> st_cq_tail (rm_state mem') = 1"
    by (simp add: wide_ring_def Let_def post_cqe_def ring_index_def IoUring_submitter_def cq_Entry32_marker_def
        upd_state_def)
  from byte_access_is_entry_access [where C = cq_Entry32_marker and S = Entry128_marker and wring = wide_ring
      and wcring = wide_ring and wmem = ?mem and wcmem = ?mem and encc = cq_Entry32_bytes
      and encs = Entry128_bytes and n = 1 and user_data = 7 and res = 0 and flags = 0] ok enq post
  show ?thesis unfolding Let_def by auto
qed

end
