(* ===== verification/Miring_Opcode.thy ===== *)
theory Miring_Opcode
  imports Miring_Squeue Miring_Types
begin

text \<open>
  What all operation builders of \<^verbatim>\<open>src/opcode.rs\<close> share: the zeroed entry, the
  macro \<open>assign_fd!\<close>, and the file index of the operations that install a descriptor.  A
  builder is a record with the required fields first and the optional ones after them;
  \<open>X_new\<close> sets the defaults, \<open>X_f\<close> is the setter of the optional field \<open>f\<close>, and
  \<open>X_build\<close> fills the entry statement by statement.  Pointers are addresses; an argument of
  type \<open>impl UseFixed\<close> is the \<open>Target\<close> it converts to, one of type \<open>impl UseFd\<close> the
  descriptor.
\<close>

definition sqe_zeroed :: io_uring_sqe where
  "sqe_zeroed = io_uring_sqe_default"

definition assign_fd :: "io_uring_sqe \<Rightarrow> Target \<Rightarrow> io_uring_sqe" where
  "assign_fd sqe opfd = (case opfd of
      Target_Fd fd \<Rightarrow> sqe\<lparr>sqe_fd := fd\<rparr>
    | Target_Fixed idx \<Rightarrow> (let sqe = sqe\<lparr>sqe_fd := idx\<rparr>
        in sqe\<lparr>sqe_flags := sqe_flags sqe OR Flags_FIXED_FILE\<rparr>))"

text \<open>\<open>if let Some(idx) = file_index { sqe.splice_fd_in = idx as i32 + 1; }\<close>, the same
  statement in four builders; the addition is on \<open>i32\<close> and can overflow.\<close>

definition with_file_index :: "io_uring_sqe \<Rightarrow> u32 option \<Rightarrow> io_uring_sqe exec" where
  "with_file_index sqe file_index = (case file_index of
      None \<Rightarrow> Inr sqe
    | Some idx \<Rightarrow> and_then (rust_sadd idx 1) (\<lambda>n. Inr (sqe\<lparr>sqe_splice_fd_in := n\<rparr>)))"

end
