(* ===== verification/Miring_Opcode_A.thy ===== *)
theory Miring_Opcode_A
  imports Miring_Opcode
begin

text \<open>
  The operation builders of \<^verbatim>\<open>src/opcode.rs\<close>, in the order of the source: from
  \<open>Nop\<close> to \<open>Send\<close>.
\<close>

record Nop =
  nop_nop_flags :: u32
  nop_nop_result :: u32

definition Nop_new :: Nop where
  "Nop_new = \<lparr>nop_nop_flags = 0, nop_nop_result = 0\<rparr>"

definition Nop_CODE :: u8 where
  "Nop_CODE = ucast IORING_OP_NOP"

definition Nop_nop_flags :: "Nop \<Rightarrow> u32 \<Rightarrow> Nop" where
  "Nop_nop_flags self nop_flags = self\<lparr>nop_nop_flags := nop_flags\<rparr>"

definition Nop_nop_result :: "Nop \<Rightarrow> u32 \<Rightarrow> Nop" where
  "Nop_nop_result self nop_result = self\<lparr>nop_nop_result := nop_result\<rparr>"

definition Nop_build :: "Nop \<Rightarrow> Entry" where
  "Nop_build self =
     (let nop_flags = nop_nop_flags self;
          nop_result = nop_nop_result self;
          sqe = sqe_zeroed;
          sqe = sqe\<lparr>sqe_opcode := Nop_CODE\<rparr>;
          sqe = sqe\<lparr>sqe_fd := - 1\<rparr>;
          sqe = sqe\<lparr>sqe_op_flags := nop_flags\<rparr>;
          sqe = sqe\<lparr>sqe_len := nop_result\<rparr>
      in Entry sqe)"

definition Nop_inject_result :: "Nop \<Rightarrow> u32 \<Rightarrow> Nop" where
  "Nop_inject_result self result = Nop_nop_result (Nop_nop_flags self IORING_NOP_INJECT_RESULT) result"

record Readv =
  readv_fd :: Target
  readv_iovec :: u64
  readv_len :: u32
  readv_ioprio :: u16
  readv_offset :: u64
  readv_rw_flags :: i32
  readv_buf_group :: u16

definition Readv_new :: "Target \<Rightarrow> u64 \<Rightarrow> u32 \<Rightarrow> Readv" where
  "Readv_new fd iovec len = \<lparr>readv_fd = fd, readv_iovec = iovec, readv_len = len,
     readv_ioprio = 0, readv_offset = 0, readv_rw_flags = 0, readv_buf_group = 0\<rparr>"

definition Readv_CODE :: u8 where
  "Readv_CODE = ucast IORING_OP_READV"

definition Readv_ioprio :: "Readv \<Rightarrow> u16 \<Rightarrow> Readv" where
  "Readv_ioprio self ioprio = self\<lparr>readv_ioprio := ioprio\<rparr>"

definition Readv_offset :: "Readv \<Rightarrow> u64 \<Rightarrow> Readv" where
  "Readv_offset self offset = self\<lparr>readv_offset := offset\<rparr>"

definition Readv_rw_flags :: "Readv \<Rightarrow> i32 \<Rightarrow> Readv" where
  "Readv_rw_flags self rw_flags = self\<lparr>readv_rw_flags := rw_flags\<rparr>"

definition Readv_buf_group :: "Readv \<Rightarrow> u16 \<Rightarrow> Readv" where
  "Readv_buf_group self buf_group = self\<lparr>readv_buf_group := buf_group\<rparr>"

definition Readv_build :: "Readv \<Rightarrow> Entry" where
  "Readv_build self =
     (let fd = readv_fd self;
          iovec = readv_iovec self;
          len = readv_len self;
          ioprio = readv_ioprio self;
          offset = readv_offset self;
          rw_flags = readv_rw_flags self;
          buf_group = readv_buf_group self;
          sqe = sqe_zeroed;
          sqe = sqe\<lparr>sqe_opcode := Readv_CODE\<rparr>;
          sqe = assign_fd sqe fd;
          sqe = sqe\<lparr>sqe_ioprio := ioprio\<rparr>;
          sqe = sqe\<lparr>sqe_addr := iovec\<rparr>;
          sqe = sqe\<lparr>sqe_len := len\<rparr>;
          sqe = sqe\<lparr>sqe_off := offset\<rparr>;
          sqe = sqe\<lparr>sqe_op_flags := rw_flags\<rparr>;
          sqe = sqe\<lparr>sqe_buf_index := buf_group\<rparr>
      in Entry sqe)"

record Writev =
  writev_fd :: Target
  writev_iovec :: u64
  writev_len :: u32
  writev_ioprio :: u16
  writev_offset :: u64
  writev_rw_flags :: i32

definition Writev_new :: "Target \<Rightarrow> u64 \<Rightarrow> u32 \<Rightarrow> Writev" where
  "Writev_new fd iovec len = \<lparr>writev_fd = fd, writev_iovec = iovec, writev_len = len,
     writev_ioprio = 0, writev_offset = 0, writev_rw_flags = 0\<rparr>"

definition Writev_CODE :: u8 where
  "Writev_CODE = ucast IORING_OP_WRITEV"

definition Writev_ioprio :: "Writev \<Rightarrow> u16 \<Rightarrow> Writev" where
  "Writev_ioprio self ioprio = self\<lparr>writev_ioprio := ioprio\<rparr>"

definition Writev_offset :: "Writev \<Rightarrow> u64 \<Rightarrow> Writev" where
  "Writev_offset self offset = self\<lparr>writev_offset := offset\<rparr>"

definition Writev_rw_flags :: "Writev \<Rightarrow> i32 \<Rightarrow> Writev" where
  "Writev_rw_flags self rw_flags = self\<lparr>writev_rw_flags := rw_flags\<rparr>"

definition Writev_build :: "Writev \<Rightarrow> Entry" where
  "Writev_build self =
     (let fd = writev_fd self;
          iovec = writev_iovec self;
          len = writev_len self;
          ioprio = writev_ioprio self;
          offset = writev_offset self;
          rw_flags = writev_rw_flags self;
          sqe = sqe_zeroed;
          sqe = sqe\<lparr>sqe_opcode := Writev_CODE\<rparr>;
          sqe = assign_fd sqe fd;
          sqe = sqe\<lparr>sqe_ioprio := ioprio\<rparr>;
          sqe = sqe\<lparr>sqe_addr := iovec\<rparr>;
          sqe = sqe\<lparr>sqe_len := len\<rparr>;
          sqe = sqe\<lparr>sqe_off := offset\<rparr>;
          sqe = sqe\<lparr>sqe_op_flags := rw_flags\<rparr>
      in Entry sqe)"

record Fsync =
  fsync_fd :: Target
  fsync_flags :: u32

definition Fsync_new :: "Target \<Rightarrow> Fsync" where
  "Fsync_new fd = \<lparr>fsync_fd = fd, fsync_flags = 0\<rparr>"

definition Fsync_CODE :: u8 where
  "Fsync_CODE = ucast IORING_OP_FSYNC"

definition Fsync_flags :: "Fsync \<Rightarrow> u32 \<Rightarrow> Fsync" where
  "Fsync_flags self flags = self\<lparr>fsync_flags := flags\<rparr>"

definition Fsync_build :: "Fsync \<Rightarrow> Entry" where
  "Fsync_build self =
     (let fd = fsync_fd self;
          flags = fsync_flags self;
          sqe = sqe_zeroed;
          sqe = sqe\<lparr>sqe_opcode := Fsync_CODE\<rparr>;
          sqe = assign_fd sqe fd;
          sqe = sqe\<lparr>sqe_op_flags := flags\<rparr>
      in Entry sqe)"

record ReadFixed =
  readfixed_fd :: Target
  readfixed_buf :: u64
  readfixed_len :: u32
  readfixed_buf_index :: u16
  readfixed_ioprio :: u16
  readfixed_offset :: u64
  readfixed_rw_flags :: i32

definition ReadFixed_new :: "Target \<Rightarrow> u64 \<Rightarrow> u32 \<Rightarrow> u16 \<Rightarrow> ReadFixed" where
  "ReadFixed_new fd buf len buf_index = \<lparr>readfixed_fd = fd, readfixed_buf = buf,
     readfixed_len = len, readfixed_buf_index = buf_index, readfixed_ioprio = 0,
     readfixed_offset = 0, readfixed_rw_flags = 0\<rparr>"

definition ReadFixed_CODE :: u8 where
  "ReadFixed_CODE = ucast IORING_OP_READ_FIXED"

definition ReadFixed_ioprio :: "ReadFixed \<Rightarrow> u16 \<Rightarrow> ReadFixed" where
  "ReadFixed_ioprio self ioprio = self\<lparr>readfixed_ioprio := ioprio\<rparr>"

definition ReadFixed_offset :: "ReadFixed \<Rightarrow> u64 \<Rightarrow> ReadFixed" where
  "ReadFixed_offset self offset = self\<lparr>readfixed_offset := offset\<rparr>"

definition ReadFixed_rw_flags :: "ReadFixed \<Rightarrow> i32 \<Rightarrow> ReadFixed" where
  "ReadFixed_rw_flags self rw_flags = self\<lparr>readfixed_rw_flags := rw_flags\<rparr>"

definition ReadFixed_build :: "ReadFixed \<Rightarrow> Entry" where
  "ReadFixed_build self =
     (let fd = readfixed_fd self;
          buf = readfixed_buf self;
          len = readfixed_len self;
          buf_index = readfixed_buf_index self;
          ioprio = readfixed_ioprio self;
          offset = readfixed_offset self;
          rw_flags = readfixed_rw_flags self;
          sqe = sqe_zeroed;
          sqe = sqe\<lparr>sqe_opcode := ReadFixed_CODE\<rparr>;
          sqe = assign_fd sqe fd;
          sqe = sqe\<lparr>sqe_ioprio := ioprio\<rparr>;
          sqe = sqe\<lparr>sqe_addr := buf\<rparr>;
          sqe = sqe\<lparr>sqe_len := len\<rparr>;
          sqe = sqe\<lparr>sqe_off := offset\<rparr>;
          sqe = sqe\<lparr>sqe_op_flags := rw_flags\<rparr>;
          sqe = sqe\<lparr>sqe_buf_index := buf_index\<rparr>
      in Entry sqe)"

record WriteFixed =
  writefixed_fd :: Target
  writefixed_buf :: u64
  writefixed_len :: u32
  writefixed_buf_index :: u16
  writefixed_ioprio :: u16
  writefixed_offset :: u64
  writefixed_rw_flags :: i32

definition WriteFixed_new :: "Target \<Rightarrow> u64 \<Rightarrow> u32 \<Rightarrow> u16 \<Rightarrow> WriteFixed" where
  "WriteFixed_new fd buf len buf_index = \<lparr>writefixed_fd = fd, writefixed_buf = buf,
     writefixed_len = len, writefixed_buf_index = buf_index, writefixed_ioprio = 0,
     writefixed_offset = 0, writefixed_rw_flags = 0\<rparr>"

definition WriteFixed_CODE :: u8 where
  "WriteFixed_CODE = ucast IORING_OP_WRITE_FIXED"

definition WriteFixed_ioprio :: "WriteFixed \<Rightarrow> u16 \<Rightarrow> WriteFixed" where
  "WriteFixed_ioprio self ioprio = self\<lparr>writefixed_ioprio := ioprio\<rparr>"

definition WriteFixed_offset :: "WriteFixed \<Rightarrow> u64 \<Rightarrow> WriteFixed" where
  "WriteFixed_offset self offset = self\<lparr>writefixed_offset := offset\<rparr>"

definition WriteFixed_rw_flags :: "WriteFixed \<Rightarrow> i32 \<Rightarrow> WriteFixed" where
  "WriteFixed_rw_flags self rw_flags = self\<lparr>writefixed_rw_flags := rw_flags\<rparr>"

definition WriteFixed_build :: "WriteFixed \<Rightarrow> Entry" where
  "WriteFixed_build self =
     (let fd = writefixed_fd self;
          buf = writefixed_buf self;
          len = writefixed_len self;
          buf_index = writefixed_buf_index self;
          ioprio = writefixed_ioprio self;
          offset = writefixed_offset self;
          rw_flags = writefixed_rw_flags self;
          sqe = sqe_zeroed;
          sqe = sqe\<lparr>sqe_opcode := WriteFixed_CODE\<rparr>;
          sqe = assign_fd sqe fd;
          sqe = sqe\<lparr>sqe_ioprio := ioprio\<rparr>;
          sqe = sqe\<lparr>sqe_addr := buf\<rparr>;
          sqe = sqe\<lparr>sqe_len := len\<rparr>;
          sqe = sqe\<lparr>sqe_off := offset\<rparr>;
          sqe = sqe\<lparr>sqe_op_flags := rw_flags\<rparr>;
          sqe = sqe\<lparr>sqe_buf_index := buf_index\<rparr>
      in Entry sqe)"

record PollAdd =
  polladd_fd :: Target
  polladd_flags :: u32
  polladd_multi :: bool

definition PollAdd_new :: "Target \<Rightarrow> u32 \<Rightarrow> PollAdd" where
  "PollAdd_new fd flags = \<lparr>polladd_fd = fd, polladd_flags = flags,
     polladd_multi = False\<rparr>"

definition PollAdd_CODE :: u8 where
  "PollAdd_CODE = ucast IORING_OP_POLL_ADD"

definition PollAdd_multi :: "PollAdd \<Rightarrow> bool \<Rightarrow> PollAdd" where
  "PollAdd_multi self multi = self\<lparr>polladd_multi := multi\<rparr>"

definition PollAdd_build :: "PollAdd \<Rightarrow> Entry" where
  "PollAdd_build self =
     (let fd = polladd_fd self;
          flags = polladd_flags self;
          multi = polladd_multi self;
          sqe = sqe_zeroed;
          sqe = sqe\<lparr>sqe_opcode := PollAdd_CODE\<rparr>;
          sqe = assign_fd sqe fd;
          sqe = sqe\<lparr>sqe_op_flags := flags\<rparr>;
          sqe = (if multi then sqe\<lparr>sqe_len := IORING_POLL_ADD_MULTI\<rparr> else sqe)
      in Entry sqe)"

record PollRemove =
  pollremove_user_data :: u64

definition PollRemove_new :: "u64 \<Rightarrow> PollRemove" where
  "PollRemove_new user_data = \<lparr>pollremove_user_data = user_data\<rparr>"

definition PollRemove_CODE :: u8 where
  "PollRemove_CODE = ucast IORING_OP_POLL_REMOVE"

definition PollRemove_build :: "PollRemove \<Rightarrow> Entry" where
  "PollRemove_build self =
     (let user_data = pollremove_user_data self;
          sqe = sqe_zeroed;
          sqe = sqe\<lparr>sqe_opcode := PollRemove_CODE\<rparr>;
          sqe = sqe\<lparr>sqe_fd := - 1\<rparr>;
          sqe = sqe\<lparr>sqe_addr := user_data\<rparr>
      in Entry sqe)"

record SyncFileRange =
  syncfilerange_fd :: Target
  syncfilerange_len :: u32
  syncfilerange_offset :: u64
  syncfilerange_flags :: u32

definition SyncFileRange_new :: "Target \<Rightarrow> u32 \<Rightarrow> SyncFileRange" where
  "SyncFileRange_new fd len = \<lparr>syncfilerange_fd = fd, syncfilerange_len = len,
     syncfilerange_offset = 0, syncfilerange_flags = 0\<rparr>"

definition SyncFileRange_CODE :: u8 where
  "SyncFileRange_CODE = ucast IORING_OP_SYNC_FILE_RANGE"

definition SyncFileRange_offset :: "SyncFileRange \<Rightarrow> u64 \<Rightarrow> SyncFileRange" where
  "SyncFileRange_offset self offset = self\<lparr>syncfilerange_offset := offset\<rparr>"

definition SyncFileRange_flags :: "SyncFileRange \<Rightarrow> u32 \<Rightarrow> SyncFileRange" where
  "SyncFileRange_flags self flags = self\<lparr>syncfilerange_flags := flags\<rparr>"

definition SyncFileRange_build :: "SyncFileRange \<Rightarrow> Entry" where
  "SyncFileRange_build self =
     (let fd = syncfilerange_fd self;
          len = syncfilerange_len self;
          offset = syncfilerange_offset self;
          flags = syncfilerange_flags self;
          sqe = sqe_zeroed;
          sqe = sqe\<lparr>sqe_opcode := SyncFileRange_CODE\<rparr>;
          sqe = assign_fd sqe fd;
          sqe = sqe\<lparr>sqe_len := len\<rparr>;
          sqe = sqe\<lparr>sqe_off := offset\<rparr>;
          sqe = sqe\<lparr>sqe_op_flags := flags\<rparr>
      in Entry sqe)"

record SendMsg =
  sendmsg_fd :: Target
  sendmsg_msg :: u64
  sendmsg_ioprio :: u16
  sendmsg_flags :: u32

definition SendMsg_new :: "Target \<Rightarrow> u64 \<Rightarrow> SendMsg" where
  "SendMsg_new fd msg = \<lparr>sendmsg_fd = fd, sendmsg_msg = msg, sendmsg_ioprio = 0,
     sendmsg_flags = 0\<rparr>"

definition SendMsg_CODE :: u8 where
  "SendMsg_CODE = ucast IORING_OP_SENDMSG"

definition SendMsg_ioprio :: "SendMsg \<Rightarrow> u16 \<Rightarrow> SendMsg" where
  "SendMsg_ioprio self ioprio = self\<lparr>sendmsg_ioprio := ioprio\<rparr>"

definition SendMsg_flags :: "SendMsg \<Rightarrow> u32 \<Rightarrow> SendMsg" where
  "SendMsg_flags self flags = self\<lparr>sendmsg_flags := flags\<rparr>"

definition SendMsg_build :: "SendMsg \<Rightarrow> Entry" where
  "SendMsg_build self =
     (let fd = sendmsg_fd self;
          msg = sendmsg_msg self;
          ioprio = sendmsg_ioprio self;
          flags = sendmsg_flags self;
          sqe = sqe_zeroed;
          sqe = sqe\<lparr>sqe_opcode := SendMsg_CODE\<rparr>;
          sqe = assign_fd sqe fd;
          sqe = sqe\<lparr>sqe_ioprio := ioprio\<rparr>;
          sqe = sqe\<lparr>sqe_addr := msg\<rparr>;
          sqe = sqe\<lparr>sqe_op_flags := flags\<rparr>;
          sqe = sqe\<lparr>sqe_len := 1\<rparr>
      in Entry sqe)"

record RecvMsg =
  recvmsg_fd :: Target
  recvmsg_msg :: u64
  recvmsg_ioprio :: u16
  recvmsg_flags :: u32
  recvmsg_buf_group :: u16

definition RecvMsg_new :: "Target \<Rightarrow> u64 \<Rightarrow> RecvMsg" where
  "RecvMsg_new fd msg = \<lparr>recvmsg_fd = fd, recvmsg_msg = msg, recvmsg_ioprio = 0,
     recvmsg_flags = 0, recvmsg_buf_group = 0\<rparr>"

definition RecvMsg_CODE :: u8 where
  "RecvMsg_CODE = ucast IORING_OP_RECVMSG"

definition RecvMsg_ioprio :: "RecvMsg \<Rightarrow> u16 \<Rightarrow> RecvMsg" where
  "RecvMsg_ioprio self ioprio = self\<lparr>recvmsg_ioprio := ioprio\<rparr>"

definition RecvMsg_flags :: "RecvMsg \<Rightarrow> u32 \<Rightarrow> RecvMsg" where
  "RecvMsg_flags self flags = self\<lparr>recvmsg_flags := flags\<rparr>"

definition RecvMsg_buf_group :: "RecvMsg \<Rightarrow> u16 \<Rightarrow> RecvMsg" where
  "RecvMsg_buf_group self buf_group = self\<lparr>recvmsg_buf_group := buf_group\<rparr>"

definition RecvMsg_build :: "RecvMsg \<Rightarrow> Entry" where
  "RecvMsg_build self =
     (let fd = recvmsg_fd self;
          msg = recvmsg_msg self;
          ioprio = recvmsg_ioprio self;
          flags = recvmsg_flags self;
          buf_group = recvmsg_buf_group self;
          sqe = sqe_zeroed;
          sqe = sqe\<lparr>sqe_opcode := RecvMsg_CODE\<rparr>;
          sqe = assign_fd sqe fd;
          sqe = sqe\<lparr>sqe_ioprio := ioprio\<rparr>;
          sqe = sqe\<lparr>sqe_addr := msg\<rparr>;
          sqe = sqe\<lparr>sqe_op_flags := flags\<rparr>;
          sqe = sqe\<lparr>sqe_len := 1\<rparr>;
          sqe = sqe\<lparr>sqe_buf_index := buf_group\<rparr>
      in Entry sqe)"

record Timeout =
  timeout_timespec :: u64
  timeout_count :: u32
  timeout_flags :: u32

definition Timeout_new :: "u64 \<Rightarrow> Timeout" where
  "Timeout_new timespec = \<lparr>timeout_timespec = timespec, timeout_count = 0,
     timeout_flags = 0\<rparr>"

definition Timeout_CODE :: u8 where
  "Timeout_CODE = ucast IORING_OP_TIMEOUT"

definition Timeout_count :: "Timeout \<Rightarrow> u32 \<Rightarrow> Timeout" where
  "Timeout_count self count = self\<lparr>timeout_count := count\<rparr>"

definition Timeout_flags :: "Timeout \<Rightarrow> u32 \<Rightarrow> Timeout" where
  "Timeout_flags self flags = self\<lparr>timeout_flags := flags\<rparr>"

definition Timeout_build :: "Timeout \<Rightarrow> Entry" where
  "Timeout_build self =
     (let timespec = timeout_timespec self;
          count = timeout_count self;
          flags = timeout_flags self;
          sqe = sqe_zeroed;
          sqe = sqe\<lparr>sqe_opcode := Timeout_CODE\<rparr>;
          sqe = sqe\<lparr>sqe_fd := - 1\<rparr>;
          sqe = sqe\<lparr>sqe_addr := timespec\<rparr>;
          sqe = sqe\<lparr>sqe_len := count\<rparr>;
          sqe = sqe\<lparr>sqe_op_flags := flags\<rparr>;
          sqe = sqe\<lparr>sqe_off := 1\<rparr>
      in Entry sqe)"

record TimeoutRemove =
  timeoutremove_user_data :: u64
  timeoutremove_flags :: u32

definition TimeoutRemove_new :: "u64 \<Rightarrow> TimeoutRemove" where
  "TimeoutRemove_new user_data = \<lparr>timeoutremove_user_data = user_data,
     timeoutremove_flags = 0\<rparr>"

definition TimeoutRemove_CODE :: u8 where
  "TimeoutRemove_CODE = ucast IORING_OP_TIMEOUT_REMOVE"

definition TimeoutRemove_flags :: "TimeoutRemove \<Rightarrow> u32 \<Rightarrow> TimeoutRemove" where
  "TimeoutRemove_flags self flags = self\<lparr>timeoutremove_flags := flags\<rparr>"

definition TimeoutRemove_build :: "TimeoutRemove \<Rightarrow> Entry" where
  "TimeoutRemove_build self =
     (let user_data = timeoutremove_user_data self;
          flags = timeoutremove_flags self;
          sqe = sqe_zeroed;
          sqe = sqe\<lparr>sqe_opcode := TimeoutRemove_CODE\<rparr>;
          sqe = sqe\<lparr>sqe_fd := - 1\<rparr>;
          sqe = sqe\<lparr>sqe_addr := user_data\<rparr>;
          sqe = sqe\<lparr>sqe_op_flags := flags\<rparr>
      in Entry sqe)"

record Accept =
  accept_fd :: Target
  accept_addr :: u64
  accept_addrlen :: u64
  accept_flags :: u32
  accept_file_index :: "u32 option"

definition Accept_new :: "Target \<Rightarrow> Accept" where
  "Accept_new fd = \<lparr>accept_fd = fd, accept_addr = 0, accept_addrlen = 0,
     accept_flags = 0, accept_file_index = None\<rparr>"

definition Accept_CODE :: u8 where
  "Accept_CODE = ucast IORING_OP_ACCEPT"

definition Accept_addr :: "Accept \<Rightarrow> u64 \<Rightarrow> Accept" where
  "Accept_addr self addr = self\<lparr>accept_addr := addr\<rparr>"

definition Accept_addrlen :: "Accept \<Rightarrow> u64 \<Rightarrow> Accept" where
  "Accept_addrlen self addrlen = self\<lparr>accept_addrlen := addrlen\<rparr>"

definition Accept_flags :: "Accept \<Rightarrow> u32 \<Rightarrow> Accept" where
  "Accept_flags self flags = self\<lparr>accept_flags := flags\<rparr>"

definition Accept_file_index :: "Accept \<Rightarrow> (u32 option) \<Rightarrow> Accept" where
  "Accept_file_index self file_index = self\<lparr>accept_file_index := file_index\<rparr>"

definition Accept_build :: "Accept \<Rightarrow> Entry exec" where
  "Accept_build self =
     (let fd = accept_fd self;
          addr = accept_addr self;
          addrlen = accept_addrlen self;
          flags = accept_flags self;
          file_index = accept_file_index self;
          sqe = sqe_zeroed;
          sqe = sqe\<lparr>sqe_opcode := Accept_CODE\<rparr>;
          sqe = assign_fd sqe fd;
          sqe = sqe\<lparr>sqe_addr := addr\<rparr>;
          sqe = sqe\<lparr>sqe_off := addrlen\<rparr>;
          sqe = sqe\<lparr>sqe_op_flags := flags\<rparr>
      in and_then (with_file_index sqe file_index) (\<lambda>sqe. Inr (Entry sqe)))"

record AsyncCancel =
  asynccancel_user_data :: u64

definition AsyncCancel_new :: "u64 \<Rightarrow> AsyncCancel" where
  "AsyncCancel_new user_data = \<lparr>asynccancel_user_data = user_data\<rparr>"

definition AsyncCancel_CODE :: u8 where
  "AsyncCancel_CODE = ucast IORING_OP_ASYNC_CANCEL"

definition AsyncCancel_build :: "AsyncCancel \<Rightarrow> Entry" where
  "AsyncCancel_build self =
     (let user_data = asynccancel_user_data self;
          sqe = sqe_zeroed;
          sqe = sqe\<lparr>sqe_opcode := AsyncCancel_CODE\<rparr>;
          sqe = sqe\<lparr>sqe_fd := - 1\<rparr>;
          sqe = sqe\<lparr>sqe_addr := user_data\<rparr>
      in Entry sqe)"

record LinkTimeout =
  linktimeout_timespec :: u64
  linktimeout_flags :: u32

definition LinkTimeout_new :: "u64 \<Rightarrow> LinkTimeout" where
  "LinkTimeout_new timespec = \<lparr>linktimeout_timespec = timespec,
     linktimeout_flags = 0\<rparr>"

definition LinkTimeout_CODE :: u8 where
  "LinkTimeout_CODE = ucast IORING_OP_LINK_TIMEOUT"

definition LinkTimeout_flags :: "LinkTimeout \<Rightarrow> u32 \<Rightarrow> LinkTimeout" where
  "LinkTimeout_flags self flags = self\<lparr>linktimeout_flags := flags\<rparr>"

definition LinkTimeout_build :: "LinkTimeout \<Rightarrow> Entry" where
  "LinkTimeout_build self =
     (let timespec = linktimeout_timespec self;
          flags = linktimeout_flags self;
          sqe = sqe_zeroed;
          sqe = sqe\<lparr>sqe_opcode := LinkTimeout_CODE\<rparr>;
          sqe = sqe\<lparr>sqe_fd := - 1\<rparr>;
          sqe = sqe\<lparr>sqe_addr := timespec\<rparr>;
          sqe = sqe\<lparr>sqe_op_flags := flags\<rparr>
      in Entry sqe)"

record Connect =
  connect_fd :: Target
  connect_addr :: u64
  connect_addrlen :: u32

definition Connect_new :: "Target \<Rightarrow> u64 \<Rightarrow> u32 \<Rightarrow> Connect" where
  "Connect_new fd addr addrlen = \<lparr>connect_fd = fd, connect_addr = addr,
     connect_addrlen = addrlen\<rparr>"

definition Connect_CODE :: u8 where
  "Connect_CODE = ucast IORING_OP_CONNECT"

definition Connect_build :: "Connect \<Rightarrow> Entry" where
  "Connect_build self =
     (let fd = connect_fd self;
          addr = connect_addr self;
          addrlen = connect_addrlen self;
          sqe = sqe_zeroed;
          sqe = sqe\<lparr>sqe_opcode := Connect_CODE\<rparr>;
          sqe = assign_fd sqe fd;
          sqe = sqe\<lparr>sqe_addr := addr\<rparr>;
          sqe = sqe\<lparr>sqe_off := ucast addrlen\<rparr>
      in Entry sqe)"

record Fallocate =
  fallocate_fd :: Target
  fallocate_len :: u64
  fallocate_offset :: u64
  fallocate_mode :: i32

definition Fallocate_new :: "Target \<Rightarrow> u64 \<Rightarrow> Fallocate" where
  "Fallocate_new fd len = \<lparr>fallocate_fd = fd, fallocate_len = len, fallocate_offset = 0,
     fallocate_mode = 0\<rparr>"

definition Fallocate_CODE :: u8 where
  "Fallocate_CODE = ucast IORING_OP_FALLOCATE"

definition Fallocate_offset :: "Fallocate \<Rightarrow> u64 \<Rightarrow> Fallocate" where
  "Fallocate_offset self offset = self\<lparr>fallocate_offset := offset\<rparr>"

definition Fallocate_mode :: "Fallocate \<Rightarrow> i32 \<Rightarrow> Fallocate" where
  "Fallocate_mode self mode = self\<lparr>fallocate_mode := mode\<rparr>"

definition Fallocate_build :: "Fallocate \<Rightarrow> Entry" where
  "Fallocate_build self =
     (let fd = fallocate_fd self;
          len = fallocate_len self;
          offset = fallocate_offset self;
          mode = fallocate_mode self;
          sqe = sqe_zeroed;
          sqe = sqe\<lparr>sqe_opcode := Fallocate_CODE\<rparr>;
          sqe = assign_fd sqe fd;
          sqe = sqe\<lparr>sqe_addr := len\<rparr>;
          sqe = sqe\<lparr>sqe_off := offset\<rparr>;
          sqe = sqe\<lparr>sqe_len := mode\<rparr>
      in Entry sqe)"

record OpenAt =
  openat_dirfd :: Target
  openat_pathname :: u64
  openat_flags :: i32
  openat_mode :: u32
  openat_file_index :: "u32 option"

definition OpenAt_new :: "Target \<Rightarrow> u64 \<Rightarrow> OpenAt" where
  "OpenAt_new dirfd pathname = \<lparr>openat_dirfd = dirfd, openat_pathname = pathname,
     openat_flags = 0, openat_mode = 0, openat_file_index = None\<rparr>"

definition OpenAt_CODE :: u8 where
  "OpenAt_CODE = ucast IORING_OP_OPENAT"

definition OpenAt_flags :: "OpenAt \<Rightarrow> i32 \<Rightarrow> OpenAt" where
  "OpenAt_flags self flags = self\<lparr>openat_flags := flags\<rparr>"

definition OpenAt_mode :: "OpenAt \<Rightarrow> u32 \<Rightarrow> OpenAt" where
  "OpenAt_mode self mode = self\<lparr>openat_mode := mode\<rparr>"

definition OpenAt_file_index :: "OpenAt \<Rightarrow> (u32 option) \<Rightarrow> OpenAt" where
  "OpenAt_file_index self file_index = self\<lparr>openat_file_index := file_index\<rparr>"

definition OpenAt_build :: "OpenAt \<Rightarrow> Entry exec" where
  "OpenAt_build self =
     (let dirfd = openat_dirfd self;
          pathname = openat_pathname self;
          flags = openat_flags self;
          mode = openat_mode self;
          file_index = openat_file_index self;
          sqe = sqe_zeroed;
          sqe = sqe\<lparr>sqe_opcode := OpenAt_CODE\<rparr>;
          sqe = assign_fd sqe dirfd;
          sqe = sqe\<lparr>sqe_addr := pathname\<rparr>;
          sqe = sqe\<lparr>sqe_op_flags := flags\<rparr>;
          sqe = sqe\<lparr>sqe_len := mode\<rparr>
      in and_then (with_file_index sqe file_index) (\<lambda>sqe. Inr (Entry sqe)))"

record Close =
  close_fd :: Target

definition Close_new :: "Target \<Rightarrow> Close" where
  "Close_new fd = \<lparr>close_fd = fd\<rparr>"

definition Close_CODE :: u8 where
  "Close_CODE = ucast IORING_OP_CLOSE"

definition Close_build :: "Close \<Rightarrow> Entry" where
  "Close_build self =
     (let fd = close_fd self;
          sqe = sqe_zeroed;
          sqe = sqe\<lparr>sqe_opcode := Close_CODE\<rparr>;
          sqe = assign_fd sqe fd
      in Entry sqe)"

record FilesUpdate =
  filesupdate_fds :: u64
  filesupdate_len :: u32
  filesupdate_offset :: i32

definition FilesUpdate_new :: "u64 \<Rightarrow> u32 \<Rightarrow> FilesUpdate" where
  "FilesUpdate_new fds len = \<lparr>filesupdate_fds = fds, filesupdate_len = len,
     filesupdate_offset = 0\<rparr>"

definition FilesUpdate_CODE :: u8 where
  "FilesUpdate_CODE = ucast IORING_OP_FILES_UPDATE"

definition FilesUpdate_offset :: "FilesUpdate \<Rightarrow> i32 \<Rightarrow> FilesUpdate" where
  "FilesUpdate_offset self offset = self\<lparr>filesupdate_offset := offset\<rparr>"

definition FilesUpdate_build :: "FilesUpdate \<Rightarrow> Entry" where
  "FilesUpdate_build self =
     (let fds = filesupdate_fds self;
          len = filesupdate_len self;
          offset = filesupdate_offset self;
          sqe = sqe_zeroed;
          sqe = sqe\<lparr>sqe_opcode := FilesUpdate_CODE\<rparr>;
          sqe = sqe\<lparr>sqe_fd := - 1\<rparr>;
          sqe = sqe\<lparr>sqe_addr := fds\<rparr>;
          sqe = sqe\<lparr>sqe_len := len\<rparr>;
          sqe = sqe\<lparr>sqe_off := scast offset\<rparr>
      in Entry sqe)"

record Statx =
  statx_dirfd :: Target
  statx_pathname :: u64
  statx_statxbuf :: u64
  statx_flags :: i32
  statx_mask :: u32

definition Statx_new :: "Target \<Rightarrow> u64 \<Rightarrow> u64 \<Rightarrow> Statx" where
  "Statx_new dirfd pathname statxbuf = \<lparr>statx_dirfd = dirfd, statx_pathname = pathname,
     statx_statxbuf = statxbuf, statx_flags = 0, statx_mask = 0\<rparr>"

definition Statx_CODE :: u8 where
  "Statx_CODE = ucast IORING_OP_STATX"

definition Statx_flags :: "Statx \<Rightarrow> i32 \<Rightarrow> Statx" where
  "Statx_flags self flags = self\<lparr>statx_flags := flags\<rparr>"

definition Statx_mask :: "Statx \<Rightarrow> u32 \<Rightarrow> Statx" where
  "Statx_mask self mask_bits = self\<lparr>statx_mask := mask_bits\<rparr>"

definition Statx_build :: "Statx \<Rightarrow> Entry" where
  "Statx_build self =
     (let dirfd = statx_dirfd self;
          pathname = statx_pathname self;
          statxbuf = statx_statxbuf self;
          flags = statx_flags self;
          mask_bits = statx_mask self;
          sqe = sqe_zeroed;
          sqe = sqe\<lparr>sqe_opcode := Statx_CODE\<rparr>;
          sqe = assign_fd sqe dirfd;
          sqe = sqe\<lparr>sqe_addr := pathname\<rparr>;
          sqe = sqe\<lparr>sqe_off := statxbuf\<rparr>;
          sqe = sqe\<lparr>sqe_len := mask_bits\<rparr>;
          sqe = sqe\<lparr>sqe_op_flags := flags\<rparr>
      in Entry sqe)"

record Read =
  read_fd :: Target
  read_buf :: u64
  read_len :: u32
  read_ioprio :: u16
  read_offset :: u64
  read_rw_flags :: i32
  read_buf_group :: u16

definition Read_new :: "Target \<Rightarrow> u64 \<Rightarrow> u32 \<Rightarrow> Read" where
  "Read_new fd buf len = \<lparr>read_fd = fd, read_buf = buf, read_len = len, read_ioprio = 0,
     read_offset = 0, read_rw_flags = 0, read_buf_group = 0\<rparr>"

definition Read_CODE :: u8 where
  "Read_CODE = ucast IORING_OP_READ"

definition Read_ioprio :: "Read \<Rightarrow> u16 \<Rightarrow> Read" where
  "Read_ioprio self ioprio = self\<lparr>read_ioprio := ioprio\<rparr>"

definition Read_offset :: "Read \<Rightarrow> u64 \<Rightarrow> Read" where
  "Read_offset self offset = self\<lparr>read_offset := offset\<rparr>"

definition Read_rw_flags :: "Read \<Rightarrow> i32 \<Rightarrow> Read" where
  "Read_rw_flags self rw_flags = self\<lparr>read_rw_flags := rw_flags\<rparr>"

definition Read_buf_group :: "Read \<Rightarrow> u16 \<Rightarrow> Read" where
  "Read_buf_group self buf_group = self\<lparr>read_buf_group := buf_group\<rparr>"

definition Read_build :: "Read \<Rightarrow> Entry" where
  "Read_build self =
     (let fd = read_fd self;
          buf = read_buf self;
          len = read_len self;
          ioprio = read_ioprio self;
          offset = read_offset self;
          rw_flags = read_rw_flags self;
          buf_group = read_buf_group self;
          sqe = sqe_zeroed;
          sqe = sqe\<lparr>sqe_opcode := Read_CODE\<rparr>;
          sqe = assign_fd sqe fd;
          sqe = sqe\<lparr>sqe_ioprio := ioprio\<rparr>;
          sqe = sqe\<lparr>sqe_addr := buf\<rparr>;
          sqe = sqe\<lparr>sqe_len := len\<rparr>;
          sqe = sqe\<lparr>sqe_off := offset\<rparr>;
          sqe = sqe\<lparr>sqe_op_flags := rw_flags\<rparr>;
          sqe = sqe\<lparr>sqe_buf_index := buf_group\<rparr>
      in Entry sqe)"

record Write =
  write_fd :: Target
  write_buf :: u64
  write_len :: u32
  write_ioprio :: u16
  write_offset :: u64
  write_rw_flags :: i32

definition Write_new :: "Target \<Rightarrow> u64 \<Rightarrow> u32 \<Rightarrow> Write" where
  "Write_new fd buf len = \<lparr>write_fd = fd, write_buf = buf, write_len = len,
     write_ioprio = 0, write_offset = 0, write_rw_flags = 0\<rparr>"

definition Write_CODE :: u8 where
  "Write_CODE = ucast IORING_OP_WRITE"

definition Write_ioprio :: "Write \<Rightarrow> u16 \<Rightarrow> Write" where
  "Write_ioprio self ioprio = self\<lparr>write_ioprio := ioprio\<rparr>"

definition Write_offset :: "Write \<Rightarrow> u64 \<Rightarrow> Write" where
  "Write_offset self offset = self\<lparr>write_offset := offset\<rparr>"

definition Write_rw_flags :: "Write \<Rightarrow> i32 \<Rightarrow> Write" where
  "Write_rw_flags self rw_flags = self\<lparr>write_rw_flags := rw_flags\<rparr>"

definition Write_build :: "Write \<Rightarrow> Entry" where
  "Write_build self =
     (let fd = write_fd self;
          buf = write_buf self;
          len = write_len self;
          ioprio = write_ioprio self;
          offset = write_offset self;
          rw_flags = write_rw_flags self;
          sqe = sqe_zeroed;
          sqe = sqe\<lparr>sqe_opcode := Write_CODE\<rparr>;
          sqe = assign_fd sqe fd;
          sqe = sqe\<lparr>sqe_ioprio := ioprio\<rparr>;
          sqe = sqe\<lparr>sqe_addr := buf\<rparr>;
          sqe = sqe\<lparr>sqe_len := len\<rparr>;
          sqe = sqe\<lparr>sqe_off := offset\<rparr>;
          sqe = sqe\<lparr>sqe_op_flags := rw_flags\<rparr>
      in Entry sqe)"

record Send =
  send_fd :: Target
  send_buf :: u64
  send_len :: u32
  send_flags :: u32
  send_dest_addr :: u64
  send_dest_addr_len :: u16

definition Send_new :: "Target \<Rightarrow> u64 \<Rightarrow> u32 \<Rightarrow> Send" where
  "Send_new fd buf len = \<lparr>send_fd = fd, send_buf = buf, send_len = len, send_flags = 0,
     send_dest_addr = 0, send_dest_addr_len = 0\<rparr>"

definition Send_CODE :: u8 where
  "Send_CODE = ucast IORING_OP_SEND"

definition Send_flags :: "Send \<Rightarrow> u32 \<Rightarrow> Send" where
  "Send_flags self flags = self\<lparr>send_flags := flags\<rparr>"

definition Send_dest_addr :: "Send \<Rightarrow> u64 \<Rightarrow> Send" where
  "Send_dest_addr self dest_addr = self\<lparr>send_dest_addr := dest_addr\<rparr>"

definition Send_dest_addr_len :: "Send \<Rightarrow> u16 \<Rightarrow> Send" where
  "Send_dest_addr_len self dest_addr_len = self\<lparr>send_dest_addr_len := dest_addr_len\<rparr>"

definition Send_build :: "Send \<Rightarrow> Entry" where
  "Send_build self =
     (let fd = send_fd self;
          buf = send_buf self;
          len = send_len self;
          flags = send_flags self;
          dest_addr = send_dest_addr self;
          dest_addr_len = send_dest_addr_len self;
          sqe = sqe_zeroed;
          sqe = sqe\<lparr>sqe_opcode := Send_CODE\<rparr>;
          sqe = assign_fd sqe fd;
          sqe = sqe\<lparr>sqe_addr := buf\<rparr>;
          sqe = sqe\<lparr>sqe_len := len\<rparr>;
          sqe = sqe\<lparr>sqe_op_flags := flags\<rparr>;
          sqe = (if dest_addr \<noteq> 0 then (let sqe = sqe\<lparr>sqe_addr3 := dest_addr\<rparr>
               in sqe\<lparr>sqe_splice_fd_in := ucast dest_addr_len\<rparr>)
              else sqe)
      in Entry sqe)"

end
