(* ===== verification/Miring_Loom.thy ===== *)
theory Miring_Loom
  imports Miring_Ring_Laws Miring_Opcode_A
begin

text \<open>
  The client programs of \<open>loom_tests\<close> in \<^verbatim>\<open>src/lib.rs\<close>, call by call, with their
  \<open>unwrap\<close>s and assertions as panics.  Each ends with the drop of its handles and of the ring.  That
  they return says that no \<open>unwrap\<close> and no assertion fails and that nothing is undefined behaviour.
  A dispatch thread runs when it is joined; each test has one batch outstanding at a time, for which
  every schedule has the same outcome.
\<close>

section \<open>Panics of a test\<close>

definition unwrap :: "'e + 'a \<Rightarrow> 'a exec" where
  "unwrap r = (case r of Inl _ \<Rightarrow> Inl (Panic Panic_unwrap) | Inr a \<Rightarrow> Inr a)"

definition unwrap_option :: "'a option \<Rightarrow> 'a exec" where
  "unwrap_option r = (case r of None \<Rightarrow> Inl (Panic Panic_unwrap) | Some a \<Rightarrow> Inr a)"

definition assert_eq :: "'a \<Rightarrow> 'a \<Rightarrow> unit exec" where
  "assert_eq a b = guard_or (Panic Panic_assert) (a = b)"

section \<open>The calls\<close>

abbreviation smark :: "Entry sq_EntryMarker" where "smark \<equiv> Entry_marker"
abbreviation cmark :: "cq_Entry cq_EntryMarker" where "cmark \<equiv> cq_Entry_marker"

definition nop_with :: "u64 \<Rightarrow> Entry" where
  "nop_with u = Entry_user_data (Nop_build Nop_new) u"

text \<open>\<open>ring.submission().push(&nop).unwrap()\<close>: the handle is a temporary, dropped at the semicolon.\<close>

definition push_temporary :: "Entry \<Rightarrow> (Entry, cq_Entry) IoUring \<Rightarrow> (Entry, cq_Entry) IoUring exec" where
  "push_temporary e ring =
     and_then (squeue_push e (IoUring_submission ring) (ring_memory ring)) (\<lambda>(r, sq, mem).
     and_then (unwrap r) (\<lambda>_. Inr (ring\<lparr>ring_memory := squeue_drop sq mem\<rparr>)))"

text \<open>\<open>ring.completion().next().unwrap()\<close>\<close>

definition next_temporary ::
  "(Entry, cq_Entry) IoUring \<Rightarrow> umem \<Rightarrow> (cq_Entry \<times> (Entry, cq_Entry) IoUring \<times> umem) exec"
where
  "next_temporary ring m =
     and_then (IoUring_completion smark cmark ring m) (\<lambda>(cq, ring1, m1).
     and_then (cqueue_next cq (ring_memory ring1)) (\<lambda>(e, cq1).
     and_then (unwrap_option e) (\<lambda>cqe.
       Inr (cqe, ring1\<lparr>ring_memory := cqueue_drop cq1 (ring_memory ring1)\<rparr>, m1))))"

section \<open>The tests\<close>

definition loom_push_submit_complete :: "umem \<Rightarrow> umem exec" where
  "loom_push_submit_complete m =
     and_then (and_then (IoUring_new 4) unwrap) (\<lambda>ring.
     and_then (push_temporary (nop_with 42) ring) (\<lambda>ring1.
     and_then (IoUring_submit smark cmark ring1 m) (\<lambda>(r, ring2, m2).
     and_then (unwrap r) (\<lambda>_.
     and_then (IoUring_completion smark cmark ring2 m2) (\<lambda>(cq, ring3, m3).
     and_then (cqueue_next cq (ring_memory ring3)) (\<lambda>(e, cq1).
     and_then (unwrap_option e) (\<lambda>cqe.
     and_then (assert_eq (cq_Entry_user_data cqe) 42) (\<lambda>_.
     and_then (assert_eq (cq_Entry_result cqe) 0) (\<lambda>_.
       RingMemory_drop (cqueue_drop cq1 (ring_memory ring3)) m3)))))))))"

definition loom_batch_submit :: "umem \<Rightarrow> umem exec" where
  "loom_batch_submit m =
     and_then (and_then (IoUring_new 4) unwrap) (\<lambda>ring.
     and_then (squeue_push (nop_with 1) (IoUring_submission ring) (ring_memory ring)) (\<lambda>(r1, sq1, mem1).
     and_then (unwrap r1) (\<lambda>_.
     and_then (squeue_push (nop_with 2) sq1 mem1) (\<lambda>(r2, sq2, mem2).
     and_then (unwrap r2) (\<lambda>_.
     and_then (IoUring_submit smark cmark (ring\<lparr>ring_memory := squeue_drop sq2 mem2\<rparr>) m) (\<lambda>(r, ring2, m2).
     and_then (unwrap r) (\<lambda>_.
     and_then (IoUring_completion smark cmark ring2 m2) (\<lambda>(cq, ring3, m3).
     and_then (cqueue_next cq (ring_memory ring3)) (\<lambda>(e1, cq1).
     and_then (unwrap_option e1) (\<lambda>cqe1.
     and_then (cqueue_next cq1 (ring_memory ring3)) (\<lambda>(e2, cq2).
     and_then (unwrap_option e2) (\<lambda>cqe2.
     and_then (assert_eq (sort [cq_Entry_user_data cqe1, cq_Entry_user_data cqe2]) [1, 2]) (\<lambda>_.
       RingMemory_drop (cqueue_drop cq2 (ring_memory ring3)) m3)))))))))))))"

definition loom_split_submit :: "umem \<Rightarrow> umem exec" where
  "loom_split_submit m =
     and_then (and_then (IoUring_new 4) unwrap) (\<lambda>ring.
     and_then (IoUring_split smark cmark ring m) (\<lambda>((submitter, sq, cq), ring1, m1).
     and_then (squeue_push (nop_with 99) sq (ring_memory ring1)) (\<lambda>(r1, sq1, mem1).
     and_then (unwrap r1) (\<lambda>_.
       let (sq2, mem2) = squeue_sync sq1 mem1 in
     and_then (submitter_submit_and_wait submitter 1 mem2 m1) (\<lambda>(r, mem3, m3).
     and_then (unwrap r) (\<lambda>_.
       let (cq1, mem4) = cqueue_sync cq mem3 in
     and_then (cqueue_next cq1 mem4) (\<lambda>(e, cq2).
     and_then (unwrap_option e) (\<lambda>cqe.
     and_then (assert_eq (cq_Entry_user_data cqe) 99) (\<lambda>_.
       RingMemory_drop (squeue_drop sq2 (cqueue_drop cq2 mem4)) m3)))))))))"

text \<open>One iteration of the loop of \<open>loom_sequential_submit_complete_cycles\<close>, and the loop.\<close>

definition loom_cycle :: "u64 \<Rightarrow> (Entry, cq_Entry) IoUring \<Rightarrow> umem \<Rightarrow> ((Entry, cq_Entry) IoUring \<times> umem) exec" where
  "loom_cycle i ring m =
     and_then (push_temporary (nop_with i) ring) (\<lambda>ring1.
     and_then (IoUring_submit smark cmark ring1 m) (\<lambda>(r, ring2, m2).
     and_then (unwrap r) (\<lambda>_.
     and_then (next_temporary ring2 m2) (\<lambda>(cqe, ring3, m3).
     and_then (assert_eq (cq_Entry_user_data cqe) i) (\<lambda>_. Inr (ring3, m3))))))"

fun loom_cycles :: "u64 list \<Rightarrow> (Entry, cq_Entry) IoUring \<Rightarrow> umem \<Rightarrow> ((Entry, cq_Entry) IoUring \<times> umem) exec" where
  "loom_cycles [] ring m = Inr (ring, m)"
| "loom_cycles (i # is) ring m = and_then (loom_cycle i ring m) (\<lambda>(ring', m'). loom_cycles is ring' m')"

definition loom_sequential_submit_complete_cycles :: "umem \<Rightarrow> umem exec" where
  "loom_sequential_submit_complete_cycles m =
     and_then (and_then (IoUring_new 2) unwrap) (\<lambda>ring.
     and_then (loom_cycles [0, 1, 2] ring m) (\<lambda>(ring', m'). RingMemory_drop (ring_memory ring') m'))"

definition loom_submit_and_wait_flushes :: "umem \<Rightarrow> umem exec" where
  "loom_submit_and_wait_flushes m =
     and_then (and_then (IoUring_new 4) unwrap) (\<lambda>ring.
     and_then (push_temporary (nop_with 7) ring) (\<lambda>ring1.
     and_then (IoUring_submit_and_wait smark cmark 1 ring1 m) (\<lambda>(r, ring2, m2).
     and_then (unwrap r) (\<lambda>_.
     and_then (next_temporary ring2 m2) (\<lambda>(cqe, ring3, m3).
     and_then (assert_eq (cq_Entry_user_data cqe) 7) (\<lambda>_. RingMemory_drop (ring_memory ring3) m3))))))"

section \<open>Evaluating the tests\<close>

definition fresh_ring :: "u32 \<Rightarrow> Parameters \<Rightarrow> (Entry, cq_Entry) IoUring" where
  "fresh_ring n prm = \<lparr>ring_sq = \<lparr>sqi_ring_mask = n - 1, sqi_ring_entries = n\<rparr>,
     ring_cq = \<lparr>cqi_ring_mask = 2 * n - 1, cqi_ring_entries = 2 * n\<rparr>, ring_params = prm,
     ring_memory = \<lparr>rm_state = new_RingState, rm_sqes = replicate (unat n) (sem_zeroed smark),
       rm_cqes = replicate (2 * unat n) (cem_zeroed cmark)\<rparr>\<rparr>"

lemma small_pow2: "next_power_of_two 4 = Inr 4" "next_power_of_two 2 = Inr 2"
  by (simp_all add: next_power_of_two_def next_pow2_nat.simps Let_def)

lemma new_small:
  obtains prm where "IoUring_new 4 = Inr (Inr (fresh_ring 4 prm))"
  by (simp add: IoUring_new_def IoUring_builder_def Builder_build_def Builder_default_def small_pow2
      build_cq_entries_def rust_mul_def rust_sub_def checked_sub_def Entry_marker_def cq_Entry_marker_def
      io_uring_params_default_def sys_consts fresh_ring_def)

lemma new_two:
  obtains ring where "IoUring_new 2 = Inr (Inr ring)"
  by (simp add: IoUring_new_def IoUring_builder_def Builder_build_def Builder_default_def small_pow2
      build_cq_entries_def rust_mul_def rust_sub_def checked_sub_def Entry_marker_def cq_Entry_marker_def
      io_uring_params_default_def sys_consts)

lemma nop_with_simps:
  "dispatch_op (entry_sqe (nop_with u)) m = Inr (0, m)" "sqe_user_data (entry_sqe (nop_with u)) = u"
  "sqe_flags (entry_sqe (nop_with u)) = 0"
  by (simp_all add: dispatch_op_def sys_consts dispatch_nop_def nop_with_def Nop_build_def Nop_new_def Nop_CODE_def
      Entry_user_data_def sqe_zeroed_def io_uring_sqe_default_def)

lemma snapshot_two: "snapshot_sqes sub 2 = snapshot_sqes sub (Suc (Suc 0))"
  by (simp add: numeral_2_eq_2)

lemmas client_eval = unwrap_def unwrap_option_def assert_eq_def push_temporary_def next_temporary_def
  IoUring_submission_def squeue_borrow_def squeue_borrow_shared_def unsync_load_def squeue_push_def
  squeue_push_unchecked_def squeue_is_full_def squeue_len_def squeue_capacity_def squeue_drop_def squeue_sync_def

lemmas kernel_eval = IoUring_submit_def IoUring_submit_and_wait_def submitter_submit_def submitter_submit_and_wait_def
  sub_sq_len_def enqueue_sqes_def read_sqe_def IoUring_completion_def IoUring_flush_pending_def flush_pending_def
  IoUring_submitter_def IoUring_split_def thread_spawn_def thread_join_def complete_one_def is_link_def is_hardlink_def
  is_skip_success_def post_cqe_def cqe_size cqueue_borrow_def cqueue_borrow_shared_def cqueue_next_def cqueue_pop_def
  cqueue_drop_def cqueue_sync_def RingMemory_drop_def ring_index_def upd_state_def

lemmas loom_eval = client_eval kernel_eval fresh_ring_def new_RingState_def Entry_marker_def cq_Entry_marker_def
  cq_Entry_user_data_def cq_Entry_result_def Let_def nop_with_simps snapshot_two word_le_nat_alt

section \<open>Cycles on any ring\<close>

lemma single_push:
  assumes "squeue_push_multiple [e] sq mem = Inr (Inr (), sq', mem')" "\<not> squeue_is_full sq"
  shows "squeue_push e sq mem = Inr (Inr (), sq', mem')"
  using assms by (auto simp: squeue_push_multiple_def squeue_push_def and_then_eq_Inr split: if_splits)

lemma single_next:
  assumes "cqueue_fill (unat (cqueue_len cq)) cq mem = Inr ([c], cq')"
  shows "cqueue_next cq mem = Inr (Some c, cq')"
proof (cases "unat (cqueue_len cq)")
  case 0
  with assms show ?thesis by (simp add: cqueue_fill_def)
next
  case (Suc n)
  have "cq_head cq \<noteq> cq_tail cq" using Suc by (auto simp: cqueue_len_def)
  moreover obtain c1 cq1 cs where "cqueue_pop cq mem = Inr (c1, cq1)" "cqueue_pop_each n cq1 mem = Inr (cs, cq')"
    "[c] = c1 # cs"
    using assms Suc by (auto simp: cqueue_fill_def and_then_eq_Inr)
  moreover from this have "n = 0" by (cases n) (auto simp: and_then_eq_Inr)
  ultimately show ?thesis by (simp add: cqueue_next_def)
qed

lemma loom_cycle_idle:
  assumes i: "ring_idle smark cmark ring"
  shows "\<exists>ring'. loom_cycle u ring m = Inr (ring', m) \<and> ring_idle smark cmark ring'"
proof -
  have inv: "ring_inv smark cmark ring" and e: "ring_sqes smark cmark ring = []" "ring_cqes smark cmark ring = []"
    using i by (simp_all add: ring_idle_def)
  have "dist (st_cq_head (rm_state (ring_memory ring))) (st_cq_tail (rm_state (ring_memory ring))) = 0"
    using e(2) by (simp add: ring_cqes_def cq_posted_def ring_slice_def)
  then have g: "0 < unat (sqi_ring_entries (ring_sq ring))" "0 < ring_cq_free smark cmark ring"
    using inv ring_geom_entries
    by (fastforce simp: ring_inv_def sub_inv_def IoUring_submitter_def ring_cq_free_def cq_free_def)+
  obtain sq mem where p:
    "squeue_push_multiple [nop_with u] (IoUring_submission ring) (ring_memory ring) = Inr (Inr (), sq, mem)"
    and q: "ring_inv smark cmark (ring\<lparr>ring_memory := squeue_drop sq mem\<rparr>)"
      "ring_sqes smark cmark (ring\<lparr>ring_memory := squeue_drop sq mem\<rparr>) = [entry_sqe (nop_with u)]"
      "ring_cqes smark cmark (ring\<lparr>ring_memory := squeue_drop sq mem\<rparr>) = []"
      "ring_threads (ring\<lparr>ring_memory := squeue_drop sq mem\<rparr>) = []"
      "ring_cq_free smark cmark (ring\<lparr>ring_memory := squeue_drop sq mem\<rparr>) = ring_cq_free smark cmark ring"
    using push_batch [OF i, of "[nop_with u]"] g(1) by (auto simp: Entry_marker_def)
  have "\<not> squeue_is_full (IoUring_submission ring)"
    using IoUring_submission_view(1,3) [OF inv] sq_view_room e(1) g(1) by fastforce
  with p have p': "push_temporary (nop_with u) ring = Inr (ring\<lparr>ring_memory := squeue_drop sq mem\<rparr>)"
    by (simp add: push_temporary_def single_push unwrap_def)
  from IoUring_submit_law [OF q(1), of m] q(2-5) obtain ring2 where s:
    "IoUring_submit smark cmark (ring\<lparr>ring_memory := squeue_drop sq mem\<rparr>) m = Inr (Inr 1, ring2, m)"
    "ring_inv smark cmark ring2" "ring_sqes smark cmark ring2 = []" "ring_cqes smark cmark ring2 = []"
    "ring_threads ring2 = [thread_spawn [entry_sqe (nop_with u)]]" "ring_cq_free smark cmark ring2 = ring_cq_free smark cmark ring"
    by auto
  have "run_threads dispatch_op (ring_threads ring2) m = Inr ([completed 0 (entry_sqe (nop_with u))], m)"
    by (simp add: s(5) thread_join_spawn [THEN iffD2] links_def is_link_def is_hardlink_def nop_with_simps)
  from reap_all [OF s(2,3) this] obtain cq ring3 cqes cq' where r:
    "IoUring_completion smark cmark ring2 m = Inr (cq, ring3, m)"
    "cqueue_fill (unat (cqueue_len cq)) cq (ring_memory ring3) = Inr (cqes, cq')"
    "map (cqe_of cmark) cqes = ring_cqes smark cmark ring2
       @ take (ring_cq_free smark cmark ring2) (cqes_of [completed 0 (entry_sqe (nop_with u))])"
    "ring_idle smark cmark (ring3\<lparr>ring_memory := cqueue_drop cq' (ring_memory ring3)\<rparr>)"
    by blast
  have "cqes_of [completed 0 (entry_sqe (nop_with u))] = [\<lparr>cqe_user_data = u, cqe_res = 0, cqe_flags = 0\<rparr>]"
    by (simp add: cqes_of_def visible_def completed_def cqe_of_cd_def is_skip_success_def nop_with_simps)
  then obtain c where c: "cqes = [c]" "cqe_of cmark c = \<lparr>cqe_user_data = u, cqe_res = 0, cqe_flags = 0\<rparr>"
    using r(3) s(4,6) g(2) by (auto simp: take_Cons')
  then have "cq_Entry_user_data c = u" by (simp add: cq_Entry_user_data_def cqe_of_def cq_Entry_marker_def)
  with single_next [of cq "ring_memory ring3" c cq'] r c(1) p' s(1) show ?thesis
    by (simp add: loom_cycle_def next_temporary_def unwrap_def unwrap_option_def assert_eq_def)
qed

lemma loom_cycles_idle:
  "ring_idle smark cmark ring \<Longrightarrow> \<exists>ring'. loom_cycles is ring m = Inr (ring', m) \<and> ring_idle smark cmark ring'"
proof (induction "is" arbitrary: ring)
  case (Cons u us)
  obtain ring1 where "loom_cycle u ring m = Inr (ring1, m)" "ring_idle smark cmark ring1"
    using loom_cycle_idle [OF Cons.prems] by blast
  with Cons.IH [of ring1] show ?case by simp
qed simp

lemma new_idle:
  assumes "IoUring_new entries = Inr (Inr ring)"
  shows "ring_idle smark cmark ring"
proof -
  let ?b = "IoUring_builder smark cmark"
  have b: "Builder_build smark cmark ?b entries = Inr (Inr ring)" using assms by (simp add: IoUring_new_def)
  have w: "\<not> wants_cqsize ?b"
    by (simp add: wants_cqsize_def IoUring_builder_def Builder_default_def Entry_marker_def cq_Entry_marker_def
        io_uring_params_default_def)
  then have "entries_ok entries" using b Builder_build_error [of smark cmark ?b entries InvalidInput] by auto
  from Builder_build_ok [OF this, of ?b cmark smark] w b show ?thesis by (auto simp: ring_idle_def)
qed

section \<open>The property\<close>

text \<open>The five loom tests pass: from any user memory, each of the client programs returns, without
  an \<open>unwrap\<close> or an assertion that fails and without undefined behaviour, and leaves that memory as it
  was.  The loop of the fourth passes for any user data, any number of rounds, also past the point where
  the 32-bit positions wrap, and any ring that \<open>IoUring::new\<close> makes.\<close>

theorem loom_tests_pass:
  "loom_push_submit_complete m = Inr m \<and> loom_batch_submit m = Inr m \<and> loom_split_submit m = Inr m
   \<and> loom_sequential_submit_complete_cycles m = Inr m \<and> loom_submit_and_wait_flushes m = Inr m
   \<and> (case IoUring_new entries of
        Inr (Inr ring) \<Rightarrow> (\<exists>ring'. loom_cycles is ring m = Inr (ring', m) \<and> ring_idle smark cmark ring') | _ \<Rightarrow> True)"
proof (intro conjI)
  obtain prm where n: "IoUring_new 4 = Inr (Inr (fresh_ring 4 prm))" by (rule new_small)
  show "loom_push_submit_complete m = Inr m" unfolding loom_push_submit_complete_def n by (simp add: loom_eval)
  show "loom_batch_submit m = Inr m" unfolding loom_batch_submit_def n by (simp add: loom_eval)
  show "loom_split_submit m = Inr m" unfolding loom_split_submit_def n by (simp add: loom_eval)
  show "loom_submit_and_wait_flushes m = Inr m" unfolding loom_submit_and_wait_flushes_def n by (simp add: loom_eval)
  show "case IoUring_new entries of
      Inr (Inr ring) \<Rightarrow> (\<exists>ring'. loom_cycles is ring m = Inr (ring', m) \<and> ring_idle smark cmark ring') | _ \<Rightarrow> True"
    using new_idle loom_cycles_idle by (auto split: sum.split)
  obtain ring where r: "IoUring_new 2 = Inr (Inr ring)" by (rule new_two)
  then obtain ring' where "loom_cycles [0, 1, 2] ring m = Inr (ring', m)" "ring_idle smark cmark ring'"
    using loom_cycles_idle [OF new_idle [OF r]] by blast
  then show "loom_sequential_submit_complete_cycles m = Inr m"
    using r by (simp add: loom_sequential_submit_complete_cycles_def unwrap_def RingMemory_drop_def ring_idle_def
        ring_threads_def)
qed

end
