(* ===== verification/Miring_Tests.thy ===== *)
theory Miring_Tests
  imports Miring_Loom Miring_Example
begin

text \<open>
  Integration tests of the crate, \<^verbatim>\<open>tests/ring.rs\<close>, as programs over the model: those on building
  rings, on the queues, on \<open>Nop\<close> batches with result injection, links and skipped completions, on
  overflow, on wrapping round and on the wide entry types.  A failed assertion and an \<open>unwrap\<close> of an
  error are panics, so that a test returns says that it passes.  A dispatch thread runs when it is
  joined.
\<close>

section \<open>What the tests are made of\<close>

definition assert_true :: "bool \<Rightarrow> unit exec" where
  "assert_true b = guard_or (Panic Panic_assert) b"

text \<open>Pushes through one handle, each unwrapped, and a block that ends with the drop of the handle.\<close>

fun push_unwrapped ::
  "'s list \<Rightarrow> SubmissionQueue \<Rightarrow> ('s, 'c) RingMemory \<Rightarrow> (SubmissionQueue \<times> ('s, 'c) RingMemory) exec"
where
  "push_unwrapped [] sq mem = Inr (sq, mem)"
| "push_unwrapped (e # es) sq mem = and_then (squeue_push e sq mem) (\<lambda>(r, sq1, mem1).
     and_then (unwrap r) (\<lambda>_. push_unwrapped es sq1 mem1))"

definition push_block :: "'s list \<Rightarrow> ('s, 'c) IoUring \<Rightarrow> ('s, 'c) IoUring exec" where
  "push_block es ring = and_then (push_unwrapped es (IoUring_submission ring) (ring_memory ring)) (\<lambda>(sq, mem).
     Inr (ring\<lparr>ring_memory := squeue_drop sq mem\<rparr>))"

text \<open>\<open>ring.submit().unwrap()\<close>, \<open>cq.next().unwrap()\<close> and \<open>assert!(cq.next().is_none())\<close>\<close>

definition submit_unwrap ::
  "'s sq_EntryMarker \<Rightarrow> 'c cq_EntryMarker \<Rightarrow> ('s, 'c) IoUring \<Rightarrow> umem \<Rightarrow> (usize \<times> ('s, 'c) IoUring \<times> umem) exec"
where
  "submit_unwrap S C ring m = and_then (IoUring_submit S C ring m) (\<lambda>(r, ring', m').
     and_then (unwrap r) (\<lambda>n. Inr (n, ring', m')))"

fun assert_each ::
  "('c \<Rightarrow> unit exec) list \<Rightarrow> CompletionQueue \<Rightarrow> ('s, 'c) RingMemory \<Rightarrow> CompletionQueue exec"
where
  "assert_each [] cq mem = Inr cq"
| "assert_each (check # checks) cq mem = and_then (cqueue_next cq mem) (\<lambda>(e, cq1).
     and_then (unwrap_option e) (\<lambda>cqe. and_then (check cqe) (\<lambda>_. assert_each checks cq1 mem)))"

definition assert_none :: "CompletionQueue \<Rightarrow> ('s, 'c) RingMemory \<Rightarrow> CompletionQueue exec" where
  "assert_none cq mem = and_then (cqueue_next cq mem) (\<lambda>(e, cq'). and_then (assert_true (e = None)) (\<lambda>_. Inr cq'))"

definition has_user_data :: "u64 \<Rightarrow> cq_Entry \<Rightarrow> unit exec" where
  "has_user_data u cqe = assert_eq (cq_Entry_user_data cqe) u"

definition has_result :: "i32 \<Rightarrow> cq_Entry \<Rightarrow> unit exec" where
  "has_result res cqe = assert_eq (cq_Entry_result cqe) res"

definition has :: "u64 \<Rightarrow> i32 \<Rightarrow> cq_Entry \<Rightarrow> unit exec" where
  "has u res cqe = and_then (has_user_data u cqe) (\<lambda>_. has_result res cqe)"

text \<open>
  The form many tests have: a ring, entries pushed through one handle, one submit with or without an
  assertion on its result, the completions that are read and asserted on, perhaps the assertion that
  no other follows, and the drop of everything.
\<close>

definition batch_test ::
  "'s sq_EntryMarker \<Rightarrow> 'c cq_EntryMarker \<Rightarrow> u32 \<Rightarrow> 's list \<Rightarrow> (usize \<Rightarrow> unit exec) \<Rightarrow> ('c \<Rightarrow> unit exec) list
     \<Rightarrow> (CompletionQueue \<Rightarrow> ('s, 'c) RingMemory \<Rightarrow> CompletionQueue exec) \<Rightarrow> umem \<Rightarrow> umem exec"
where
  "batch_test S C entries es submitted checks at_end m =
     and_then (and_then (Builder_build S C (IoUring_builder S C) entries) unwrap) (\<lambda>ring.
     and_then (push_block es ring) (\<lambda>ring1.
     and_then (submit_unwrap S C ring1 m) (\<lambda>(n, ring2, m2).
     and_then (submitted n) (\<lambda>_.
     and_then (IoUring_completion S C ring2 m2) (\<lambda>(cq, ring3, m3).
     and_then (assert_each checks cq (ring_memory ring3)) (\<lambda>cq1.
     and_then (at_end cq1 (ring_memory ring3)) (\<lambda>cq2.
       RingMemory_drop (cqueue_drop cq2 (ring_memory ring3)) m3)))))))"

abbreviation any_count :: "'a \<Rightarrow> unit exec" where "any_count \<equiv> \<lambda>_. Inr ()"
abbreviation no_more :: "CompletionQueue \<Rightarrow> ('s, 'c) RingMemory \<Rightarrow> CompletionQueue exec" where
  "no_more \<equiv> assert_none"
abbreviation as_is :: "CompletionQueue \<Rightarrow> ('s, 'c) RingMemory \<Rightarrow> CompletionQueue exec" where
  "as_is \<equiv> \<lambda>cq mem. Inr cq"

definition nop_inject :: "i32 \<Rightarrow> u64 \<Rightarrow> Entry" where
  "nop_inject res u = Entry_user_data (Nop_build (Nop_inject_result Nop_new res)) u"

section \<open>Tests of one batch\<close>

definition submit_single_nop :: "umem \<Rightarrow> umem exec" where
  "submit_single_nop = batch_test smark cmark 8 [nop_with 0xBEEF] (\<lambda>n. assert_eq n 1) [has 0xBEEF 0] no_more"

definition submit_batch_nops :: "umem \<Rightarrow> umem exec" where
  "submit_batch_nops = batch_test smark cmark 8 (map nop_with [0, 1, 2, 3, 4]) (\<lambda>n. assert_eq n 5)
     (map (\<lambda>i. has i 0) [0, 1, 2, 3, 4]) no_more"

definition nop_inject_result :: "umem \<Rightarrow> umem exec" where
  "nop_inject_result = batch_test smark cmark 8 [nop_inject 42 1] any_count [has 1 42] as_is"

definition nop_inject_negative_result :: "umem \<Rightarrow> umem exec" where
  "nop_inject_negative_result = batch_test smark cmark 8 [nop_inject (- 22) 2] any_count [has_result (- 22)] as_is"

definition skip_success_suppresses_cqe :: "umem \<Rightarrow> umem exec" where
  "skip_success_suppresses_cqe = batch_test smark cmark 8 [Entry_flags (nop_with 1) Flags_SKIP_SUCCESS, nop_with 2]
     (\<lambda>n. assert_eq n 2) [has_user_data 2] no_more"

definition skip_success_still_posts_on_error :: "umem \<Rightarrow> umem exec" where
  "skip_success_still_posts_on_error = batch_test smark cmark 8 [Entry_flags (nop_inject (- 1) 1) Flags_SKIP_SUCCESS]
     any_count [has 1 (- 1)] as_is"

definition linked_ops_cancel_on_failure :: "umem \<Rightarrow> umem exec" where
  "linked_ops_cancel_on_failure = batch_test smark cmark 8 [Entry_flags (nop_inject (- 1) 1) Flags_IO_LINK, nop_with 2]
     any_count [has 1 (- 1), has 2 (- 125)] as_is"

definition hardlinked_ops_continue_on_failure :: "umem \<Rightarrow> umem exec" where
  "hardlinked_ops_continue_on_failure =
     batch_test smark cmark 8 [Entry_flags (nop_inject (- 1) 1) Flags_IO_HARDLINK, nop_with 2]
     any_count [has 1 (- 1), has 2 0] as_is"

definition link_chain_propagates_cancel :: "umem \<Rightarrow> umem exec" where
  "link_chain_propagates_cancel = batch_test smark cmark 8
     [Entry_flags (nop_inject (- 1) 1) Flags_IO_LINK, Entry_flags (nop_with 2) Flags_IO_LINK, nop_with 3]
     any_count [has 1 (- 1), has 2 (- 125), has 3 (- 125)] as_is"

definition linked_ops_succeed_when_no_failure :: "umem \<Rightarrow> umem exec" where
  "linked_ops_succeed_when_no_failure = batch_test smark cmark 8
     [Entry_flags (nop_with 1) Flags_IO_LINK, nop_with 2] any_count [has_result 0, has_result 0] as_is"

definition entry32_ring :: "umem \<Rightarrow> umem exec" where
  "entry32_ring = batch_test smark cq_Entry32_marker 8 [nop_with 0xDEAD] any_count
     [\<lambda>cqe. and_then (assert_eq (cq_Entry32_user_data cqe) 0xDEAD) (\<lambda>_.
        and_then (assert_eq (cq_Entry32_result cqe) 0) (\<lambda>_. assert_eq (cq_Entry32_big_cqe cqe) [0, 0]))] as_is"

definition entry128_ring :: "umem \<Rightarrow> umem exec" where
  "entry128_ring = batch_test Entry128_marker cmark 4 [Entry128_from_Entry (nop_with 0xFACE)] any_count [has 0xFACE 0] as_is"

section \<open>Tests of several submits\<close>

text \<open>Blocks of pushes, each followed by an unwrapped submit.\<close>

fun submit_rounds ::
  "'s sq_EntryMarker \<Rightarrow> 'c cq_EntryMarker \<Rightarrow> 's list list \<Rightarrow> ('s, 'c) IoUring \<Rightarrow> umem \<Rightarrow> (('s, 'c) IoUring \<times> umem) exec"
where
  "submit_rounds S C [] ring m = Inr (ring, m)"
| "submit_rounds S C (es # ess) ring m = and_then (push_block es ring) (\<lambda>ring1.
     and_then (submit_unwrap S C ring1 m) (\<lambda>(_, ring2, m2). submit_rounds S C ess ring2 m2))"

definition multiple_submits_accumulate_cqes :: "umem \<Rightarrow> umem exec" where
  "multiple_submits_accumulate_cqes m =
     and_then (and_then (IoUring_new 8) unwrap) (\<lambda>ring.
     and_then (submit_rounds smark cmark [[nop_with 0], [nop_with 1], [nop_with 2]] ring m) (\<lambda>(ring1, m1).
     and_then (IoUring_completion smark cmark ring1 m1) (\<lambda>(cq, ring2, m2).
     and_then (assert_each (map has_user_data [0, 1, 2]) cq (ring_memory ring2)) (\<lambda>cq1.
     and_then (assert_none cq1 (ring_memory ring2)) (\<lambda>cq2.
       RingMemory_drop (cqueue_drop cq2 (ring_memory ring2)) m2)))))"

definition cq_overflow_counter :: "umem \<Rightarrow> umem exec" where
  "cq_overflow_counter m =
     and_then (and_then (Builder_build smark cmark (setup_cqsize (IoUring_builder smark cmark) 4) 4) unwrap) (\<lambda>ring.
     and_then (submit_rounds smark cmark [map nop_with [0, 1, 2, 3], [nop_with 99]] ring m) (\<lambda>(ring1, m1).
     and_then (IoUring_completion smark cmark ring1 m1) (\<lambda>(cq, ring2, m2).
     and_then (assert_eq (cqueue_overflow (ring_memory ring2)) 1) (\<lambda>_.
       RingMemory_drop (cqueue_drop cq (ring_memory ring2)) m2))))"

text \<open>
  One round of \<open>ring_wraps_around\<close>.  The loop over the iterator calls \<open>next\<close> until it returns \<open>None\<close>;
  that its count is 4 says that there are four completions and then none.
\<close>

definition wrap_round :: "u64 \<Rightarrow> (Entry, cq_Entry) IoUring \<Rightarrow> umem \<Rightarrow> ((Entry, cq_Entry) IoUring \<times> umem) exec" where
  "wrap_round round ring m =
     and_then (push_block (map (\<lambda>i. nop_with (round * 4 + i)) [0, 1, 2, 3]) ring) (\<lambda>ring1.
     and_then (submit_unwrap smark cmark ring1 m) (\<lambda>(submitted, ring2, m2).
     and_then (assert_eq submitted 4) (\<lambda>_.
     and_then (IoUring_completion smark cmark ring2 m2) (\<lambda>(cq, ring3, m3).
     and_then (assert_each (map (\<lambda>i. has_user_data (round * 4 + i)) [0, 1, 2, 3]) cq (ring_memory ring3)) (\<lambda>cq1.
     and_then (assert_none cq1 (ring_memory ring3)) (\<lambda>cq2.
       Inr (ring3\<lparr>ring_memory := cqueue_drop cq2 (ring_memory ring3)\<rparr>, m3)))))))"

fun wrap_rounds :: "u64 list \<Rightarrow> (Entry, cq_Entry) IoUring \<Rightarrow> umem \<Rightarrow> ((Entry, cq_Entry) IoUring \<times> umem) exec" where
  "wrap_rounds [] ring m = Inr (ring, m)"
| "wrap_rounds (r # rs) ring m = and_then (wrap_round r ring m) (\<lambda>(ring', m'). wrap_rounds rs ring' m')"

definition ring_wraps_around :: "umem \<Rightarrow> umem exec" where
  "ring_wraps_around m =
     and_then (and_then (IoUring_new 4) unwrap) (\<lambda>ring.
     and_then (wrap_rounds [0, 1, 2, 3, 4, 5, 6, 7, 8, 9] ring m) (\<lambda>(ring', m').
       RingMemory_drop (ring_memory ring') m'))"

definition split_api :: "umem \<Rightarrow> umem exec" where
  "split_api m =
     and_then (and_then (IoUring_new 8) unwrap) (\<lambda>ring.
     and_then (IoUring_split smark cmark ring m) (\<lambda>((submitter, sq, cq), ring1, m1).
     and_then (squeue_push (nop_with 0xCAFE) sq (ring_memory ring1)) (\<lambda>(r1, sq1, mem1).
     and_then (unwrap r1) (\<lambda>_.
       let (sq2, mem2) = squeue_sync sq1 mem1 in
     and_then (submitter_submit submitter mem2 m1) (\<lambda>(r, mem3, m3).
     and_then (unwrap r) (\<lambda>submitted.
     and_then (assert_eq submitted 1) (\<lambda>_.
       RingMemory_drop (squeue_drop sq2 (cqueue_drop cq mem3)) m3)))))))"

section \<open>Tests of building, of the queue handle and of values\<close>

text \<open>Each ends with the drop of the ring it has built.\<close>

definition with_ring :: "Builder \<Rightarrow> u32 \<Rightarrow> ((Entry, cq_Entry) IoUring \<Rightarrow> unit exec) \<Rightarrow> umem \<Rightarrow> umem exec" where
  "with_ring b entries checks m = and_then (and_then (Builder_build smark cmark b entries) unwrap) (\<lambda>ring.
     and_then (checks ring) (\<lambda>_. RingMemory_drop (ring_memory ring) m))"

definition create_and_drop :: "umem \<Rightarrow> umem exec" where
  "create_and_drop = with_ring (IoUring_builder smark cmark) 8 (\<lambda>ring. Inr ())"

definition builder_default :: "umem \<Rightarrow> umem exec" where
  "builder_default = with_ring (IoUring_builder smark cmark) 16 (\<lambda>ring. let p = IoUring_params ring in
     and_then (assert_eq (params_sq_entries p) 16) (\<lambda>_. and_then (assert_eq (params_cq_entries p) 32) (\<lambda>_.
     and_then (assert_true (is_feature_single_mmap p)) (\<lambda>_. and_then (assert_true (is_feature_nodrop p)) (\<lambda>_.
       assert_true (is_feature_skip_cqe_on_success p))))))"

definition builder_custom_cqsize :: "umem \<Rightarrow> umem exec" where
  "builder_custom_cqsize = with_ring (setup_cqsize (IoUring_builder smark cmark) 64) 8 (\<lambda>ring.
     let p = IoUring_params ring in
     and_then (assert_eq (params_sq_entries p) 8) (\<lambda>_. assert_eq (params_cq_entries p) 64))"

definition entries_rounded_to_power_of_two :: "umem \<Rightarrow> umem exec" where
  "entries_rounded_to_power_of_two = with_ring (IoUring_builder smark cmark) 5 (\<lambda>ring.
     and_then (assert_eq (params_sq_entries (IoUring_params ring)) 8) (\<lambda>_.
       assert_eq (params_cq_entries (IoUring_params ring)) 16))"

definition zero_entries_is_error :: "unit exec" where
  "zero_entries_is_error = and_then (IoUring_new 0) (\<lambda>r. assert_true (isl r))"

definition params_features :: "umem \<Rightarrow> umem exec" where
  "params_features = with_ring (IoUring_builder smark cmark) 8 (\<lambda>ring. let p = IoUring_params ring in
     assert_true (list_all (\<lambda>feature. feature p) [is_feature_single_mmap, is_feature_nodrop, is_feature_submit_stable,
       is_feature_rw_cur_pos, is_feature_cur_personality, is_feature_fast_poll, is_feature_poll_32bits,
       is_feature_ext_arg, is_feature_native_workers, is_feature_resource_tagging, is_feature_skip_cqe_on_success,
       is_feature_linked_file]))"

definition sq_push_and_len :: "umem \<Rightarrow> umem exec" where
  "sq_push_and_len m =
     and_then (and_then (IoUring_new 4) unwrap) (\<lambda>ring.
     let sq = IoUring_submission ring in
     and_then (assert_true (squeue_is_empty sq)) (\<lambda>_.
     and_then (assert_eq (squeue_capacity sq) 4) (\<lambda>_.
     and_then (push_unwrapped [nop_with 42] sq (ring_memory ring)) (\<lambda>(sq1, mem1).
     and_then (assert_eq (squeue_len sq1) 1) (\<lambda>_. RingMemory_drop (squeue_drop sq1 mem1) m)))))"

definition sq_full_returns_push_error :: "umem \<Rightarrow> umem exec" where
  "sq_full_returns_push_error m =
     and_then (and_then (IoUring_new 2) unwrap) (\<lambda>ring.
     let nop = Nop_build Nop_new in
     and_then (push_unwrapped [nop, nop] (IoUring_submission ring) (ring_memory ring)) (\<lambda>(sq1, mem1).
     and_then (squeue_push nop sq1 mem1) (\<lambda>(r, sq2, mem2).
     and_then (assert_true (isl r)) (\<lambda>_. RingMemory_drop (squeue_drop sq2 mem2) m))))"

definition entry_user_data_roundtrip :: "unit exec" where
  "entry_user_data_roundtrip = assert_eq (Entry_get_user_data (Entry_user_data (Nop_build Nop_new) (- 1))) (- 1)"

definition entry_opcode_is_nop :: "unit exec" where
  "entry_opcode_is_nop = assert_eq (Entry_get_opcode (Nop_build Nop_new)) 0"

definition cqueue_flag_tests :: "unit exec" where
  "cqueue_flag_tests =
     and_then (assert_true (cq_buffer_select 0 = None)) (\<lambda>_.
     and_then (assert_eq (cq_buffer_select (1 OR push_bit 16 42)) (Some 42)) (\<lambda>_.
     and_then (assert_true (\<not> cq_more 0)) (\<lambda>_. and_then (assert_true (cq_more 2)) (\<lambda>_.
     and_then (assert_true (\<not> cq_sock_nonempty 0)) (\<lambda>_. assert_true (cq_sock_nonempty 4))))))"

section \<open>Laws of the parts\<close>

lemma push_unwrapped_each:
  "sq_view sq mem \<Longrightarrow> length es \<le> sq_room sq \<Longrightarrow> push_unwrapped es sq mem = squeue_push_each es sq mem"
proof (induction es arbitrary: sq mem)
  case (Cons e es)
  then have room: "0 < sq_room sq" by simp
  obtain sq1 mem1 where 1: "squeue_push_unchecked e sq mem = Inr (sq1, mem1)" "sq_view sq1 mem1"
    "sq_room sq1 = sq_room sq - 1"
    using squeue_push_unchecked_law [OF Cons.prems(1) room] by metis
  have "\<not> squeue_is_full sq" using sq_view_room [OF Cons.prems(1)] room by simp
  with 1 Cons show ?case by (simp add: squeue_push_def unwrap_def)
qed simp

lemma push_block_law:
  assumes i: "ring_inv S C ring"
    and n: "length (ring_sqes S C ring) + length es \<le> unat (sqi_ring_entries (ring_sq ring))"
  obtains ring1 where "push_block es ring = Inr ring1" "ring_inv S C ring1"
    "ring_sqes S C ring1 = ring_sqes S C ring @ map (sem_sqe S) es" "ring_cqes S C ring1 = ring_cqes S C ring"
    "ring_threads ring1 = ring_threads ring" "ring_cq_free S C ring1 = ring_cq_free S C ring"
    "ring_sq ring1 = ring_sq ring" "cqueue_overflow (ring_memory ring1) = cqueue_overflow (ring_memory ring)"
    "ring_cq ring1 = ring_cq ring"
proof -
  note v = IoUring_submission_view [OF i]
  have room: "length es \<le> sq_room (IoUring_submission ring)" using n v(3) by simp
  from squeue_push_each_law [OF v(1) room] obtain sq mem where
    p: "squeue_push_each es (IoUring_submission ring) (ring_memory ring) = Inr (sq, mem)" "sq_view sq mem"
      "sq_unconsumed sq mem = sq_unconsumed (IoUring_submission ring) (ring_memory ring) @ es"
      "rm_state mem = rm_state (ring_memory ring)" "rm_cqes mem = rm_cqes (ring_memory ring)" by blast
  from squeue_push_each_queue [OF p(1)] have q: "sq_queue sq = ring_sq ring"
    and l: "length (rm_sqes mem) = length (rm_sqes (ring_memory ring))"
    by (simp_all add: IoUring_submission_def squeue_borrow_def squeue_borrow_shared_def)
  note d = ring_inv_squeue_drop [OF i p(2) q p(4,5) l]
  show ?thesis
    by (rule that [of "ring\<lparr>ring_memory := squeue_drop sq mem\<rparr>"])
      (use d p v(2) in \<open>simp_all add: push_block_def push_unwrapped_each [OF v(1) room] cqueue_overflow_def squeue_drop_def\<close>)
qed

lemma completion_law:
  assumes i: "ring_inv S C ring" and r: "run_threads dispatch_op (ring_threads ring) m = Inr (rs, m')"
  obtains cq ring1 where "IoUring_completion S C ring m = Inr (cq, ring1, m')" "ring_inv S C ring1"
    "cq_view cq (ring_memory ring1)" "cq_queue cq = ring_cq ring1"
    "map (cqe_of C) (cq_ready cq (ring_memory ring1)) = ring_cqes S C ring @ take (ring_cq_free S C ring) (cqes_of rs)"
    "cqueue_overflow (ring_memory ring1) = cqueue_overflow (ring_memory ring)
       + of_nat (length (cqes_of rs) - ring_cq_free S C ring)"
    "ring_threads ring1 = []" "ring_sqes S C ring1 = ring_sqes S C ring" "ring_sq ring1 = ring_sq ring"
    "ring_cq ring1 = ring_cq ring" "cq_tail cq = st_cq_tail (rm_state (ring_memory ring1))"
proof -
  from IoUring_flush_pending_law [OF i r] obtain ring1 where
    f: "IoUring_flush_pending S C ring m = Inr (ring1, m')" "ring_inv S C ring1"
      "ring_cqes S C ring1 = ring_cqes S C ring @ take (ring_cq_free S C ring) (cqes_of rs)"
      "cqueue_overflow (ring_memory ring1) = cqueue_overflow (ring_memory ring)
        + of_nat (length (cqes_of rs) - ring_cq_free S C ring)"
      "ring_threads ring1 = []" "ring_sqes S C ring1 = ring_sqes S C ring" "ring_sq ring1 = ring_sq ring"
      "ring_cq ring1 = ring_cq ring"
    by blast
  show ?thesis
    by (rule that [of "cqueue_borrow (ring_cq ring1) (ring_memory ring1)" ring1])
      (use f cqueue_borrow_view [OF f(2)] in
        \<open>simp_all add: IoUring_completion_def cqueue_borrow_def cqueue_borrow_shared_def\<close>)
qed

lemma assert_each_law:
  "cq_view cq mem \<Longrightarrow> cq_ready cq mem = cs @ rest \<Longrightarrow> list_all2 (\<lambda>f c. f c = Inr ()) checks cs \<Longrightarrow>
     \<exists>cq'. assert_each checks cq mem = Inr cq' \<and> cq_view cq' mem \<and> cq_ready cq' mem = rest
       \<and> cq_queue cq' = cq_queue cq \<and> cq_tail cq' = cq_tail cq"
proof (induction checks arbitrary: cs cq)
  case (Cons f checks)
  then obtain c cs' where cs: "cs = c # cs'" "f c = Inr ()" "list_all2 (\<lambda>f c. f c = Inr ()) checks cs'"
    by (cases cs) auto
  obtain cq1 where "cqueue_pop cq mem = Inr (c, cq1)" "cq_view cq1 mem" "cq_ready cq1 mem = cs' @ rest"
    "cq_queue cq1 = cq_queue cq" "cq_tail cq1 = cq_tail cq"
    using cqueue_pop_law [OF Cons.prems(1), of c "cs' @ rest"] Cons.prems(2) cs(1) by auto
  moreover have "cq_head cq \<noteq> cq_tail cq" using Cons.prems(2) cs(1) by (auto simp: cq_ready_def)
  ultimately show ?case using Cons.IH [of cq1 cs'] cs by (auto simp: cqueue_next_def unwrap_option_def)
qed auto

lemma run_one_batch:
  "run_chains disp (link_chains sqes) m = Inr r \<Longrightarrow>
     run_threads disp (if sqes = [] then [] else [thread_spawn sqes]) m = Inr r"
  using thread_join_spawn [of disp sqes m r] by (cases r) (auto)

lemma submit_unwrap_law:
  assumes "ring_inv S C ring"
  obtains ring1 where "submit_unwrap S C ring m = Inr (of_nat (length (ring_sqes S C ring)), ring1, m)"
    "ring_inv S C ring1" "ring_sqes S C ring1 = []" "ring_cqes S C ring1 = ring_cqes S C ring"
    "ring_threads ring1 = ring_threads ring @ (if ring_sqes S C ring = [] then [] else [thread_spawn (ring_sqes S C ring)])"
    "ring_cq_free S C ring1 = ring_cq_free S C ring" "ring_sq ring1 = ring_sq ring" "ring_cq ring1 = ring_cq ring"
  using IoUring_submit_law [OF assms, of m] by (auto simp: submit_unwrap_def unwrap_def)

lemma drop_empty: "ring_threads ring = [] \<Longrightarrow> RingMemory_drop (cqueue_drop cq (ring_memory ring)) m = Inr m"
  by (simp add: RingMemory_drop_def cqueue_drop_def ring_threads_def)

text \<open>A test of one batch passes when the reference semantics gives what it asserts.\<close>

lemma batch_test_passes:
  assumes C: "cqe_marker_ok C" and e: "entries_ok entries" and plain: "\<not> wants_cqsize (IoUring_builder S C)"
    and es: "length es \<le> next_pow2_nat (unat entries)"
    and r: "run_chains dispatch_op (link_chains (map (sem_sqe S) es)) m = Inr (rs, m')"
    and fits: "length (cqes_of rs) \<le> 2 * next_pow2_nat (unat entries)"
    and n: "submitted (of_nat (length es)) = Inr ()"
    and checks: "\<And>cs. map (cqe_of C) cs = cqes_of rs \<Longrightarrow> list_all2 (\<lambda>f c. f c = Inr ()) checks cs"
    and at_end: "at_end = as_is \<or> at_end = no_more"
  shows "batch_test S C entries es submitted checks at_end m = Inr m'"
proof -
  obtain ring where b: "Builder_build S C (IoUring_builder S C) entries = Inr (Inr ring)" "ring_inv S C ring"
    "unat (params_sq_entries (ring_params ring)) = next_pow2_nat (unat entries)"
    "squeue_capacity (IoUring_submission ring) = ucast (params_sq_entries (ring_params ring))"
    "ring_cq_free S C ring = 2 * next_pow2_nat (unat entries)"
    "ring_sqes S C ring = []" "ring_cqes S C ring = []" "ring_threads ring = []"
    using Builder_build_ok [OF e _ C, of "IoUring_builder S C" S] plain by (auto simp: cq_size_of_def)
  have "unat (sqi_ring_entries (ring_sq ring)) = next_pow2_nat (unat entries)"
    using arg_cong [OF b(4), of unat] b(3)
    by (simp add: IoUring_submission_def squeue_borrow_def squeue_borrow_shared_def)
  with b es obtain ring1 where p: "push_block es ring = Inr ring1" "ring_inv S C ring1"
    "ring_sqes S C ring1 = map (sem_sqe S) es" "ring_cqes S C ring1 = []" "ring_threads ring1 = []"
    "ring_cq_free S C ring1 = 2 * next_pow2_nat (unat entries)"
    using push_block_law [OF b(2), of es] by auto
  obtain ring2 where s: "submit_unwrap S C ring1 m = Inr (of_nat (length es), ring2, m)" "ring_inv S C ring2"
    "ring_cqes S C ring2 = []" "ring_cq_free S C ring2 = 2 * next_pow2_nat (unat entries)"
    "ring_threads ring2 = (if map (sem_sqe S) es = [] then [] else [thread_spawn (map (sem_sqe S) es)])"
    by (rule submit_unwrap_law [OF p(2), of m]) (use p in auto)
  obtain cq ring3 where c: "IoUring_completion S C ring2 m = Inr (cq, ring3, m')" "cq_view cq (ring_memory ring3)"
    "map (cqe_of C) (cq_ready cq (ring_memory ring3)) = cqes_of rs" "ring_threads ring3 = []"
    by (rule completion_law [OF s(2) run_one_batch [OF r, folded s(5)]]) (use s(3,4) fits in auto)
  from assert_each_law [OF c(2) _ checks [OF c(3)], of "[]"] obtain cq1 where
    q: "assert_each checks cq (ring_memory ring3) = Inr cq1" "cq_ready cq1 (ring_memory ring3) = []" by auto
  have "\<exists>cq'. at_end cq1 (ring_memory ring3) = Inr cq'"
    using at_end cqueue_next_empty [OF q(2)] by (auto simp: assert_none_def assert_true_def)
  with q(1) b(1) p(1) s(1) n c(1) show ?thesis
    by (auto simp: batch_test_def unwrap_def drop_empty [OF c(4)])
qed

text \<open>The same with the evaluation of the batch as one premise.\<close>

lemma batch_passes:
  assumes "case run_chains dispatch_op (link_chains (map (sem_sqe S) es)) m of Inl _ \<Rightarrow> False
    | Inr (rs, m1) \<Rightarrow> m1 = m' \<and> length (cqes_of rs) \<le> 2 * next_pow2_nat (unat entries)
        \<and> (\<forall>cs. map (cqe_of C) cs = cqes_of rs \<longrightarrow> list_all2 (\<lambda>f c. f c = Inr ()) checks cs)"
    and "cqe_marker_ok C" "entries_ok entries" "\<not> wants_cqsize (IoUring_builder S C)"
    and "length es \<le> next_pow2_nat (unat entries)" "submitted (of_nat (length es)) = Inr ()"
    and "at_end = as_is \<or> at_end = no_more"
  shows "batch_test S C entries es submitted checks at_end m = Inr m'"
  using assms by (auto intro!: batch_test_passes split: sum.splits)

section \<open>The tests of one batch pass\<close>

lemma nop_flagged:
  "dispatch_op (entry_sqe (nop_inject res u)) m = Inr (res, m)"
  "dispatch_op (entry_sqe (Entry_flags (nop_inject res u) f)) m = Inr (res, m)"
  "dispatch_op (entry_sqe (Entry_flags (nop_with u) f)) m = Inr (0, m)"
  "sqe_user_data (entry_sqe (nop_inject res u)) = u" "sqe_flags (entry_sqe (nop_inject res u)) = 0"
  "sqe_user_data (entry_sqe (Entry_flags e f)) = sqe_user_data (entry_sqe e)"
  "sqe_flags (entry_sqe (Entry_flags e f)) = sqe_flags (entry_sqe e) OR f"
  by (simp_all add: dispatch_op_def sys_consts dispatch_nop_def nop_with_def nop_inject_def Nop_build_def Nop_new_def
      Nop_CODE_def Nop_inject_result_def Nop_nop_result_def Nop_nop_flags_def Entry_user_data_def Entry_flags_def
      sqe_zeroed_def io_uring_sqe_default_def)

lemma plain_builders: "\<not> wants_cqsize (IoUring_builder smark cmark)" "\<not> wants_cqsize (IoUring_builder smark cq_Entry32_marker)"
  "\<not> wants_cqsize (IoUring_builder Entry128_marker cmark)"
  by (simp_all add: wants_cqsize_def IoUring_builder_def Builder_default_def Entry_marker_def Entry128_marker_def
      cq_Entry_marker_def cq_Entry32_marker_def io_uring_params_default_def sys_consts)

lemma small_rings: "next_pow2_nat 8 = 8" "next_pow2_nat 4 = 4" "entries_ok 8" "entries_ok 4"
  by (simp_all add: next_pow2_nat.simps entries_ok_def)

lemmas nop_eval = nop_flagged nop_with_simps links_def is_link_def is_hardlink_def is_skip_success_def flag_consts completed_def
  cqes_of_def cqe_of_cd_def visible_def ECANCELED_def

lemmas check_eval = has_def has_user_data_def has_result_def assert_eq_def map_eq_Cons_conv cqe_of_def
  cq_Entry_user_data_def cq_Entry_result_def

lemma marker_views: "sem_sqe smark = entry_sqe" "sem_sqe Entry128_marker e = entry_sqe (entry128_base e)" "cem_into cmark c = c"
  by (simp_all add: Entry_marker_def Entry128_marker_def cq_Entry_marker_def)

lemmas batch_eval = small_rings plain_builders nop_eval check_eval marker_views

lemmas batch_test_defs = submit_single_nop_def submit_batch_nops_def nop_inject_result_def nop_inject_negative_result_def
  skip_success_suppresses_cqe_def skip_success_still_posts_on_error_def linked_ops_cancel_on_failure_def
  hardlinked_ops_continue_on_failure_def link_chain_propagates_cancel_def linked_ops_succeed_when_no_failure_def
  entry128_ring_def Entry128_from_Entry_def

lemma batch_tests:
  "submit_single_nop m = Inr m" "submit_batch_nops m = Inr m" "nop_inject_result m = Inr m"
  "nop_inject_negative_result m = Inr m" "skip_success_suppresses_cqe m = Inr m"
  "skip_success_still_posts_on_error m = Inr m" "linked_ops_cancel_on_failure m = Inr m"
  "hardlinked_ops_continue_on_failure m = Inr m" "link_chain_propagates_cancel m = Inr m"
  "linked_ops_succeed_when_no_failure m = Inr m" "entry128_ring m = Inr m"
  unfolding batch_test_defs by (rule batch_passes; auto simp: batch_eval)+

lemma entry32_ring_passes: "entry32_ring m = Inr m"
  unfolding entry32_ring_def batch_test_def
  by (simp add: loom_eval push_block_def submit_unwrap_def IoUring_builder_def Builder_build_def Builder_default_def
      build_cq_entries_def rust_mul_def rust_sub_def checked_sub_def cq_Entry32_marker_def
      io_uring_params_default_def sys_consts next_power_of_two_def next_pow2_nat.simps
      cq_Entry32_user_data_def cq_Entry32_result_def cq_Entry32_big_cqe_def)

section \<open>The other tests pass\<close>

lemma enqueue_keeps_overflow: "enqueue_sqes sub k mem = Inr (r, mem') \<Longrightarrow> cqueue_overflow mem' = cqueue_overflow mem"
  unfolding enqueue_sqes_def Let_def
  by (cases "min k (st_sq_tail (rm_state mem) - st_sq_head (rm_state mem)) = 0")
    (auto simp: and_then_eq_Inr cqueue_overflow_def)

lemma submit_keeps_overflow:
  "submit_unwrap S C ring m = Inr (n, ring', m') \<Longrightarrow> cqueue_overflow (ring_memory ring') = cqueue_overflow (ring_memory ring)"
  by (cases "enqueue_sqes (IoUring_submitter S C ring) (ucast (sub_sq_len (ring_memory ring))) (ring_memory ring)")
    (auto simp: submit_unwrap_def IoUring_submit_def submitter_submit_def submitter_submit_and_wait_def
      and_then_eq_Inr Let_def split: sum.splits dest: enqueue_keeps_overflow)

lemma submit_rounds_law:
  assumes "ring_inv S C ring" "ring_sqes S C ring = []"
    "\<forall>es\<in>set ess. es \<noteq> [] \<and> length es \<le> unat (sqi_ring_entries (ring_sq ring))"
  shows "\<exists>ring'. submit_rounds S C ess ring m = Inr (ring', m) \<and> ring_inv S C ring'
    \<and> ring_cqes S C ring' = ring_cqes S C ring \<and> ring_cq_free S C ring' = ring_cq_free S C ring
    \<and> ring_threads ring' = ring_threads ring @ map (\<lambda>es. thread_spawn (map (sem_sqe S) es)) ess
    \<and> cqueue_overflow (ring_memory ring') = cqueue_overflow (ring_memory ring)"
  using assms
proof (induction ess arbitrary: ring)
  case (Cons es ess)
  have "length (ring_sqes S C ring) + length es \<le> unat (sqi_ring_entries (ring_sq ring))" using Cons.prems by simp
  from push_block_law [OF Cons.prems(1) this] obtain ring1 where p: "push_block es ring = Inr ring1" "ring_inv S C ring1"
    "ring_sqes S C ring1 = map (sem_sqe S) es" "ring_cqes S C ring1 = ring_cqes S C ring"
    "ring_threads ring1 = ring_threads ring" "ring_cq_free S C ring1 = ring_cq_free S C ring"
    "ring_sq ring1 = ring_sq ring" "cqueue_overflow (ring_memory ring1) = cqueue_overflow (ring_memory ring)"
    using Cons.prems(2) by auto
  obtain ring2 n where s: "submit_unwrap S C ring1 m = Inr (n, ring2, m)" "ring_inv S C ring2"
    "ring_sqes S C ring2 = []" "ring_cqes S C ring2 = ring_cqes S C ring1"
    "ring_threads ring2 = ring_threads ring @ [thread_spawn (map (sem_sqe S) es)]"
    "ring_cq_free S C ring2 = ring_cq_free S C ring1" "ring_sq ring2 = ring_sq ring1"
    by (rule submit_unwrap_law [OF p(2), of m]) (use p Cons.prems(3) in auto)
  have "\<exists>ring'. submit_rounds S C ess ring2 m = Inr (ring', m) \<and> ring_inv S C ring'
    \<and> ring_cqes S C ring' = ring_cqes S C ring2 \<and> ring_cq_free S C ring' = ring_cq_free S C ring2
    \<and> ring_threads ring' = ring_threads ring2 @ map (\<lambda>es. thread_spawn (map (sem_sqe S) es)) ess
    \<and> cqueue_overflow (ring_memory ring') = cqueue_overflow (ring_memory ring2)"
    by (rule Cons.IH) (use s p Cons.prems(3) in auto)
  with p s submit_keeps_overflow [OF s(1)] show ?case by auto
qed simp

lemma join_nops:
  "run_threads dispatch_op (map (\<lambda>us. thread_spawn (map (\<lambda>u. entry_sqe (nop_with u)) us)) uss) m
     = Inr (map (\<lambda>u. completed 0 (entry_sqe (nop_with u))) (concat uss), m)"
proof (induction uss)
  case (Cons us uss)
  have "run_chains dispatch_op (link_chains (map (\<lambda>u. entry_sqe (nop_with u)) us)) m
      = Inr (map (\<lambda>u. completed 0 (entry_sqe (nop_with u))) us, m)"
    by (induction us) (simp_all add: links_def is_link_def is_hardlink_def nop_with_simps)
  then have "thread_join dispatch_op (thread_spawn (map (\<lambda>u. entry_sqe (nop_with u)) us)) m
      = Inr (map (\<lambda>u. completed 0 (entry_sqe (nop_with u))) us, m)"
    by (simp only: thread_join_spawn)
  with Cons show ?case by simp
qed simp

lemma cqes_of_nops:
  "cqes_of (map (\<lambda>u. completed 0 (entry_sqe (nop_with u))) us) = map (\<lambda>u. \<lparr>cqe_user_data = u, cqe_res = 0, cqe_flags = 0\<rparr>) us"
  by (induction us) (simp_all add: cqes_of_def visible_def completed_def cqe_of_cd_def is_skip_success_def nop_with_simps)

lemma new_ring:
  assumes "entries_ok entries"
  obtains ring where "IoUring_new entries = Inr (Inr ring)" "ring_idle smark cmark ring"
    "unat (sqi_ring_entries (ring_sq ring)) = next_pow2_nat (unat entries)"
    "ring_cq_free smark cmark ring = 2 * next_pow2_nat (unat entries)"
proof -
  obtain ring where b: "Builder_build smark cmark (IoUring_builder smark cmark) entries = Inr (Inr ring)"
    "unat (params_sq_entries (ring_params ring)) = next_pow2_nat (unat entries)"
    "squeue_capacity (IoUring_submission ring) = ucast (params_sq_entries (ring_params ring))"
    "ring_cq_free smark cmark ring = 2 * next_pow2_nat (unat entries)" "ring_idle smark cmark ring"
    using Builder_build_ok [OF assms, of "IoUring_builder smark cmark" cmark smark] plain_builders(1)
    by (auto simp: cq_size_of_def ring_idle_def)
  have "unat (sqi_ring_entries (ring_sq ring)) = next_pow2_nat (unat entries)"
    using arg_cong [OF b(3), of unat] b(2)
    by (simp add: IoUring_submission_def squeue_borrow_def squeue_borrow_shared_def)
  with b that show ?thesis by (simp add: IoUring_new_def)
qed

lemma map_cqe_of_cmark: "map (cqe_of cmark) cs = xs \<longleftrightarrow> cs = map cq_Entry xs"
  by (induction xs arbitrary: cs) (auto simp: map_eq_Cons_conv cqe_of_def marker_views intro: cq_Entry.expand)

lemma multiple_submits_pass: "multiple_submits_accumulate_cqes m = Inr m"
proof -
  obtain ring where n: "IoUring_new 8 = Inr (Inr ring)" "ring_idle smark cmark ring"
    "unat (sqi_ring_entries (ring_sq ring)) = 8" "ring_cq_free smark cmark ring = 16"
    by (rule new_ring [of 8]) (simp_all add: small_rings)
  then obtain ring1 where s: "submit_rounds smark cmark [[nop_with 0], [nop_with 1], [nop_with 2]] ring m = Inr (ring1, m)"
    "ring_inv smark cmark ring1" "ring_cqes smark cmark ring1 = []" "ring_cq_free smark cmark ring1 = 16"
    "ring_threads ring1 = map (\<lambda>us. thread_spawn (map (\<lambda>u. entry_sqe (nop_with u)) us)) [[0], [1], [2]]"
    using submit_rounds_law [of smark cmark ring "[[nop_with 0], [nop_with 1], [nop_with 2]]" m]
    by (auto simp: ring_idle_def marker_views)
  obtain cq ring2 where c: "IoUring_completion smark cmark ring1 m = Inr (cq, ring2, m)" "cq_view cq (ring_memory ring2)"
    "cq_ready cq (ring_memory ring2) = map (\<lambda>u. cq_Entry \<lparr>cqe_user_data = u, cqe_res = 0, cqe_flags = 0\<rparr>) [0, 1, 2]"
    "ring_threads ring2 = []"
    by (rule completion_law [OF s(2) join_nops [of "[[0], [1], [2]]" m, folded s(5)]])
      (use s(3,4) in \<open>auto simp: cqes_of_nops map_cqe_of_cmark simp del: list.map\<close>)
  have "list_all2 (\<lambda>f c. f c = Inr ()) (map has_user_data [0, 1, 2])
      (map (\<lambda>u. cq_Entry \<lparr>cqe_user_data = u, cqe_res = 0, cqe_flags = 0\<rparr>) [0, 1, 2])"
    by (simp add: check_eval)
  from assert_each_law [OF c(2) _ this, of "[]"] c(3) obtain cq1 where
    q: "assert_each (map has_user_data [0, 1, 2]) cq (ring_memory ring2) = Inr cq1" "cq_ready cq1 (ring_memory ring2) = []"
    by auto
  with n(1) s(1) c(1) cqueue_next_empty [OF q(2)] show ?thesis
    by (simp add: multiple_submits_accumulate_cqes_def unwrap_def assert_none_def assert_true_def drop_empty [OF c(4)])
qed

lemma overflow_passes: "cq_overflow_counter m = Inr m"
proof -
  let ?b = "setup_cqsize (IoUring_builder smark cmark) 4"
  have w: "wants_cqsize ?b" "prm_cq_entries (builder_params ?b) = 4"
    by (simp_all add: wants_cqsize_def setup_cqsize_def builder_or_flags_def IoUring_builder_def Builder_default_def
        Entry_marker_def cq_Entry_marker_def io_uring_params_default_def sys_consts)
  then obtain ring where n: "Builder_build smark cmark ?b 4 = Inr (Inr ring)" "ring_inv smark cmark ring"
    "unat (params_sq_entries (ring_params ring)) = 4" "ring_sqes smark cmark ring = []" "ring_cqes smark cmark ring = []"
    "squeue_capacity (IoUring_submission ring) = ucast (params_sq_entries (ring_params ring))"
    "ring_cq_free smark cmark ring = 4" "ring_threads ring = []" "cqueue_overflow (ring_memory ring) = 0"
    using Builder_build_ok [OF small_rings(4), of ?b cmark smark]
    by (auto simp: cq_size_of_def small_rings cqueue_overflow_def new_RingState_def)
  have sz: "unat (sqi_ring_entries (ring_sq ring)) = 4"
    using arg_cong [OF n(6), of unat] n(3) by (simp add: IoUring_submission_def squeue_borrow_def squeue_borrow_shared_def)
  let ?uss = "[[0, 1, 2, 3], [99]] :: u64 list list"
  have "\<forall>es\<in>set (map (map nop_with) ?uss). es \<noteq> [] \<and> length es \<le> unat (sqi_ring_entries (ring_sq ring))"
    by (simp add: sz)
  from submit_rounds_law [OF n(2,4) this, of m] obtain ring1 where
    s: "submit_rounds smark cmark (map (map nop_with) ?uss) ring m = Inr (ring1, m)"
    "ring_inv smark cmark ring1" "ring_cqes smark cmark ring1 = []" "ring_cq_free smark cmark ring1 = 4"
    "ring_threads ring1 = map (\<lambda>us. thread_spawn (map (\<lambda>u. entry_sqe (nop_with u)) us)) ?uss"
    "cqueue_overflow (ring_memory ring1) = 0"
    using n(5,7-9) by (auto simp: marker_views)
  obtain cq ring2 where c: "IoUring_completion smark cmark ring1 m = Inr (cq, ring2, m)"
    "cqueue_overflow (ring_memory ring2) = 1" "ring_threads ring2 = []"
    by (rule completion_law [OF s(2) join_nops [of ?uss m, folded s(5)]])
      (use s(3,4,6) in \<open>auto simp: cqes_of_nops simp del: list.map\<close>)
  with n(1) s(1) show ?thesis
    by (simp add: cq_overflow_counter_def unwrap_def assert_eq_def drop_empty [OF c(3)])
qed

lemma idle_free:
  "ring_idle S C ring \<Longrightarrow> ring_cq_free S C ring = unat (cqi_ring_entries (ring_cq ring))"
  by (auto simp: ring_idle_def ring_cqes_def cq_posted_def ring_slice_def ring_cq_free_def cq_free_def IoUring_submitter_def)

lemma wrap_round_idle:
  assumes i: "ring_idle smark cmark ring" and sz: "4 \<le> unat (sqi_ring_entries (ring_sq ring))"
    and fr: "4 \<le> unat (cqi_ring_entries (ring_cq ring))"
  shows "\<exists>ring'. wrap_round r ring m = Inr (ring', m) \<and> ring_idle smark cmark ring'
    \<and> ring_sq ring' = ring_sq ring \<and> ring_cq ring' = ring_cq ring"
proof -
  define us where "us = map (\<lambda>i. r * 4 + i) [0, 1, 2, 3]"
  have len: "length us = 4" "us \<noteq> []" by (simp_all add: us_def)
  have inv: "ring_inv smark cmark ring" and e: "ring_sqes smark cmark ring = []" "ring_cqes smark cmark ring = []"
    "ring_threads ring = []" using i by (simp_all add: ring_idle_def)
  obtain ring1 where p: "push_block (map nop_with us) ring = Inr ring1" "ring_inv smark cmark ring1"
    "ring_sqes smark cmark ring1 = map (\<lambda>u. entry_sqe (nop_with u)) us" "ring_cqes smark cmark ring1 = []"
    "ring_threads ring1 = []" "ring_cq_free smark cmark ring1 = unat (cqi_ring_entries (ring_cq ring))"
    "ring_sq ring1 = ring_sq ring" "ring_cq ring1 = ring_cq ring"
    by (rule push_block_law [OF inv, of "map nop_with us"]) (use e sz len idle_free [OF i] in \<open>auto simp: marker_views\<close>)
  obtain ring2 where s: "submit_unwrap smark cmark ring1 m = Inr (4, ring2, m)" "ring_inv smark cmark ring2"
    "ring_sqes smark cmark ring2 = []" "ring_cqes smark cmark ring2 = []"
    "ring_cq_free smark cmark ring2 = unat (cqi_ring_entries (ring_cq ring))"
    "ring_threads ring2 = map (\<lambda>us. thread_spawn (map (\<lambda>u. entry_sqe (nop_with u)) us)) [us]"
    "ring_sq ring2 = ring_sq ring" "ring_cq ring2 = ring_cq ring"
    by (rule submit_unwrap_law [OF p(2), of m]) (use p len in auto)
  obtain cq ring3 where c: "IoUring_completion smark cmark ring2 m = Inr (cq, ring3, m)" "ring_inv smark cmark ring3"
    "cq_view cq (ring_memory ring3)" "cq_queue cq = ring_cq ring3" "cq_tail cq = st_cq_tail (rm_state (ring_memory ring3))"
    "cq_ready cq (ring_memory ring3) = map (\<lambda>u. cq_Entry \<lparr>cqe_user_data = u, cqe_res = 0, cqe_flags = 0\<rparr>) us"
    "ring_threads ring3 = []" "ring_sqes smark cmark ring3 = []" "ring_sq ring3 = ring_sq ring" "ring_cq ring3 = ring_cq ring"
    by (rule completion_law [OF s(2) join_nops [of "[us]" m, folded s(6)]])
      (use s(3-5,7,8) fr len in \<open>auto simp: cqes_of_nops map_cqe_of_cmark\<close>)
  have "list_all2 (\<lambda>f c. f c = Inr ()) (map has_user_data us)
      (map (\<lambda>u. cq_Entry \<lparr>cqe_user_data = u, cqe_res = 0, cqe_flags = 0\<rparr>) us)"
    by (simp add: list_all2_conv_all_nth check_eval)
  from assert_each_law [OF c(3) _ this, of "[]"] c(4-6) obtain cq1 where
    q: "assert_each (map has_user_data us) cq (ring_memory ring3) = Inr cq1" "cq_ready cq1 (ring_memory ring3) = []"
      "cq_view cq1 (ring_memory ring3)" "cq_queue cq1 = ring_cq ring3" "cq_tail cq1 = st_cq_tail (rm_state (ring_memory ring3))"
    by auto
  have "cq_unread cq1 (ring_memory ring3) = []" using q(2,5) by (simp add: cq_unread_def cq_ready_def)
  with ring_inv_cqueue_drop [OF c(2) q(3,4)] c(7,8)
  have "ring_idle smark cmark (ring3\<lparr>ring_memory := cqueue_drop cq1 (ring_memory ring3)\<rparr>)" by (simp add: ring_idle_def)
  moreover have "map (\<lambda>i. nop_with (r * 4 + i)) [0, 1, 2, 3] = map nop_with us"
    "map (\<lambda>i. has_user_data (r * 4 + i)) [0, 1, 2, 3] = map has_user_data us" by (simp_all add: us_def)
  ultimately show ?thesis
    using p(1) s(1) c(1,9,10) q(1) cqueue_next_empty [OF q(2)]
    unfolding wrap_round_def by (simp add: assert_eq_def assert_none_def assert_true_def del: list.map)
qed

lemma wrap_rounds_idle:
  "ring_idle smark cmark ring \<Longrightarrow> 4 \<le> unat (sqi_ring_entries (ring_sq ring)) \<Longrightarrow>
     4 \<le> unat (cqi_ring_entries (ring_cq ring)) \<Longrightarrow>
     \<exists>ring'. wrap_rounds rs ring m = Inr (ring', m) \<and> ring_idle smark cmark ring'"
proof (induction rs arbitrary: ring)
  case (Cons r rs)
  obtain ring1 where "wrap_round r ring m = Inr (ring1, m)" "ring_idle smark cmark ring1"
    "ring_sq ring1 = ring_sq ring" "ring_cq ring1 = ring_cq ring"
    using wrap_round_idle [OF Cons.prems] by blast
  with Cons.IH [of ring1] Cons.prems show ?case by simp
qed simp

lemma ring_wraps_around_passes: "ring_wraps_around m = Inr m"
proof -
  obtain ring where n: "IoUring_new 4 = Inr (Inr ring)" "ring_idle smark cmark ring"
    "unat (sqi_ring_entries (ring_sq ring)) = 4" "ring_cq_free smark cmark ring = 8"
    by (rule new_ring [of 4]) (simp_all add: small_rings)
  obtain ring' where "wrap_rounds [0, 1, 2, 3, 4, 5, 6, 7, 8, 9] ring m = Inr (ring', m)" "ring_idle smark cmark ring'"
    using wrap_rounds_idle [OF n(2), of "[0, 1, 2, 3, 4, 5, 6, 7, 8, 9]" m] n(3,4) idle_free [OF n(2)] by auto
  then show ?thesis using n(1)
    by (simp add: ring_wraps_around_def unwrap_def RingMemory_drop_def ring_idle_def ring_threads_def)
qed

lemma new_ring_8: obtains prm where "IoUring_new 8 = Inr (Inr (fresh_ring 8 prm))"
proof -
  have "next_power_of_two 8 = Inr (8 :: u32)" by (simp add: next_power_of_two_def next_pow2_nat.simps Let_def)
  then show ?thesis using that
    by (simp add: IoUring_new_def IoUring_builder_def Builder_build_def Builder_default_def build_cq_entries_def
        rust_mul_def rust_sub_def checked_sub_def Entry_marker_def cq_Entry_marker_def io_uring_params_default_def
        sys_consts fresh_ring_def)
qed

lemma split_api_passes: "split_api m = Inr m"
  by (rule new_ring_8) (simp add: split_api_def loom_eval)

lemmas build_eval = with_ring_def IoUring_builder_def Builder_build_def Builder_default_def build_cq_entries_def
  rust_mul_def rust_sub_def checked_sub_def Entry_marker_def cq_Entry_marker_def io_uring_params_default_def
  sys_consts next_power_of_two_def next_pow2_nat.simps Let_def unwrap_def RingMemory_drop_def new_RingState_def
  IoUring_params_def params_sq_entries_def params_cq_entries_def assert_eq_def assert_true_def
  setup_cqsize_def builder_or_flags_def build_features_def prm_has_feature_def IoUring_new_def

lemma building_tests:
  "create_and_drop m = Inr m" "builder_default m = Inr m" "builder_custom_cqsize m = Inr m"
  "entries_rounded_to_power_of_two m = Inr m" "zero_entries_is_error = Inr ()" "params_features m = Inr m"
  by (simp_all add: create_and_drop_def builder_default_def builder_custom_cqsize_def
      entries_rounded_to_power_of_two_def zero_entries_is_error_def params_features_def build_eval
      is_feature_single_mmap_def is_feature_nodrop_def is_feature_submit_stable_def
      is_feature_rw_cur_pos_def is_feature_cur_personality_def is_feature_fast_poll_def is_feature_poll_32bits_def
      is_feature_ext_arg_def is_feature_native_workers_def is_feature_resource_tagging_def
      is_feature_skip_cqe_on_success_def is_feature_linked_file_def)

lemma handle_tests: "sq_push_and_len m = Inr m" "sq_full_returns_push_error m = Inr m"
  by (simp_all add: sq_push_and_len_def sq_full_returns_push_error_def build_eval client_eval squeue_is_empty_def
      ring_index_def upd_state_def)

lemma value_tests: "entry_user_data_roundtrip = Inr ()" "entry_opcode_is_nop = Inr ()" "cqueue_flag_tests = Inr ()"
  by (simp_all add: entry_user_data_roundtrip_def entry_opcode_is_nop_def cqueue_flag_tests_def assert_eq_def assert_true_def
      Entry_get_user_data_def Entry_user_data_def Entry_get_opcode_def Nop_build_def Nop_new_def Nop_CODE_def sqe_zeroed_def
      io_uring_sqe_default_def cq_buffer_select_def cq_more_def cq_sock_nonempty_def sys_consts Let_def)

section \<open>The property\<close>


end
