(* ===== verification/Miring_Opcode_B.thy ===== *)
theory Miring_Opcode_B
  imports Miring_Opcode
begin

text \<open>
  The operation builders of \<^verbatim>\<open>src/opcode.rs\<close>, in the order of the source: from
  \<open>Recv\<close> to \<open>RecvMulti\<close>.
\<close>

record Recv =
  recv_fd :: Target
  recv_buf :: u64
  recv_len :: u32
  recv_flags :: u32
  recv_buf_group :: u16

definition Recv_new :: "Target \<Rightarrow> u64 \<Rightarrow> u32 \<Rightarrow> Recv" where
  "Recv_new fd buf len = \<lparr>recv_fd = fd, recv_buf = buf, recv_len = len, recv_flags = 0,
     recv_buf_group = 0\<rparr>"

definition Recv_CODE :: u8 where
  "Recv_CODE = ucast IORING_OP_RECV"

definition Recv_flags :: "Recv \<Rightarrow> u32 \<Rightarrow> Recv" where
  "Recv_flags self flags = self\<lparr>recv_flags := flags\<rparr>"

definition Recv_buf_group :: "Recv \<Rightarrow> u16 \<Rightarrow> Recv" where
  "Recv_buf_group self buf_group = self\<lparr>recv_buf_group := buf_group\<rparr>"

definition Recv_build :: "Recv \<Rightarrow> Entry" where
  "Recv_build self =
     (let fd = recv_fd self;
          buf = recv_buf self;
          len = recv_len self;
          flags = recv_flags self;
          buf_group = recv_buf_group self;
          sqe = sqe_zeroed;
          sqe = sqe\<lparr>sqe_opcode := Recv_CODE\<rparr>;
          sqe = assign_fd sqe fd;
          sqe = sqe\<lparr>sqe_addr := buf\<rparr>;
          sqe = sqe\<lparr>sqe_len := len\<rparr>;
          sqe = sqe\<lparr>sqe_op_flags := flags\<rparr>;
          sqe = sqe\<lparr>sqe_buf_index := buf_group\<rparr>
      in Entry sqe)"

record OpenAt2 =
  openat2_dirfd :: Target
  openat2_pathname :: u64
  openat2_how :: u64
  openat2_file_index :: "u32 option"

definition OpenAt2_new :: "Target \<Rightarrow> u64 \<Rightarrow> u64 \<Rightarrow> OpenAt2" where
  "OpenAt2_new dirfd pathname how = \<lparr>openat2_dirfd = dirfd, openat2_pathname = pathname,
     openat2_how = how, openat2_file_index = None\<rparr>"

definition OpenAt2_CODE :: u8 where
  "OpenAt2_CODE = ucast IORING_OP_OPENAT2"

definition OpenAt2_file_index :: "OpenAt2 \<Rightarrow> (u32 option) \<Rightarrow> OpenAt2" where
  "OpenAt2_file_index self file_index = self\<lparr>openat2_file_index := file_index\<rparr>"

definition OpenAt2_build :: "OpenAt2 \<Rightarrow> Entry exec" where
  "OpenAt2_build self =
     (let dirfd = openat2_dirfd self;
          pathname = openat2_pathname self;
          how = openat2_how self;
          file_index = openat2_file_index self;
          sqe = sqe_zeroed;
          sqe = sqe\<lparr>sqe_opcode := OpenAt2_CODE\<rparr>;
          sqe = assign_fd sqe dirfd;
          sqe = sqe\<lparr>sqe_addr := pathname\<rparr>;
          sqe = sqe\<lparr>sqe_off := how\<rparr>;
          sqe = sqe\<lparr>sqe_len := of_nat (repr_c_size open_how_fields)\<rparr>
      in and_then (with_file_index sqe file_index) (\<lambda>sqe. Inr (Entry sqe)))"

record EpollCtl =
  epollctl_epfd :: Target
  epollctl_fd :: i32
  epollctl_op :: i32
  epollctl_ev :: u64

definition EpollCtl_new :: "Target \<Rightarrow> i32 \<Rightarrow> i32 \<Rightarrow> u64 \<Rightarrow> EpollCtl" where
  "EpollCtl_new epfd fd oper ev = \<lparr>epollctl_epfd = epfd, epollctl_fd = fd,
     epollctl_op = oper, epollctl_ev = ev\<rparr>"

definition EpollCtl_CODE :: u8 where
  "EpollCtl_CODE = ucast IORING_OP_EPOLL_CTL"

definition EpollCtl_build :: "EpollCtl \<Rightarrow> Entry" where
  "EpollCtl_build self =
     (let epfd = epollctl_epfd self;
          fd = epollctl_fd self;
          oper = epollctl_op self;
          ev = epollctl_ev self;
          sqe = sqe_zeroed;
          sqe = sqe\<lparr>sqe_opcode := EpollCtl_CODE\<rparr>;
          sqe = assign_fd sqe epfd;
          sqe = sqe\<lparr>sqe_off := scast fd\<rparr>;
          sqe = sqe\<lparr>sqe_len := oper\<rparr>;
          sqe = sqe\<lparr>sqe_addr := ev\<rparr>
      in Entry sqe)"

record Splice =
  splice_fd_in :: Target
  splice_off_in :: i64
  splice_fd_out :: Target
  splice_off_out :: i64
  splice_len :: u32
  splice_flags :: u32

definition Splice_new :: "Target \<Rightarrow> i64 \<Rightarrow> Target \<Rightarrow> i64 \<Rightarrow> u32 \<Rightarrow> Splice" where
  "Splice_new fd_in off_in fd_out off_out len = \<lparr>splice_fd_in = fd_in,
     splice_off_in = off_in, splice_fd_out = fd_out, splice_off_out = off_out,
     splice_len = len, splice_flags = 0\<rparr>"

definition Splice_CODE :: u8 where
  "Splice_CODE = ucast IORING_OP_SPLICE"

definition Splice_flags :: "Splice \<Rightarrow> u32 \<Rightarrow> Splice" where
  "Splice_flags self flags = self\<lparr>splice_flags := flags\<rparr>"

definition Splice_build :: "Splice \<Rightarrow> Entry" where
  "Splice_build self =
     (let fd_in = splice_fd_in self;
          off_in = splice_off_in self;
          fd_out = splice_fd_out self;
          off_out = splice_off_out self;
          len = splice_len self;
          flags = splice_flags self;
          sqe = sqe_zeroed;
          sqe = sqe\<lparr>sqe_opcode := Splice_CODE\<rparr>;
          sqe = (case fd_out of Target_Fd fd \<Rightarrow> sqe\<lparr>sqe_fd := fd\<rparr>
             | Target_Fixed idx \<Rightarrow> (let sqe = sqe\<lparr>sqe_fd := idx\<rparr>
               in sqe\<lparr>sqe_flags := sqe_flags sqe OR Flags_FIXED_FILE\<rparr>));
          sqe = sqe\<lparr>sqe_off := off_out\<rparr>;
          sqe = sqe\<lparr>sqe_addr := off_in\<rparr>;
          sqe = sqe\<lparr>sqe_len := len\<rparr>;
          sqe = sqe\<lparr>sqe_op_flags := flags\<rparr>;
          sqe = (case fd_in of Target_Fd fd \<Rightarrow> sqe\<lparr>sqe_splice_fd_in := fd\<rparr>
             | Target_Fixed idx \<Rightarrow> (let sqe = sqe\<lparr>sqe_splice_fd_in := idx\<rparr>
               in sqe\<lparr>sqe_op_flags := sqe_op_flags sqe OR SPLICE_F_FD_IN_FIXED\<rparr>))
      in Entry sqe)"

record ProvideBuffers =
  providebuffers_addr :: u64
  providebuffers_len :: i32
  providebuffers_nbufs :: u16
  providebuffers_bgid :: u16
  providebuffers_bid :: u16

definition ProvideBuffers_new :: "u64 \<Rightarrow> i32 \<Rightarrow> u16 \<Rightarrow> u16 \<Rightarrow> u16 \<Rightarrow> ProvideBuffers" where
  "ProvideBuffers_new addr len nbufs bgid bid = \<lparr>providebuffers_addr = addr,
     providebuffers_len = len, providebuffers_nbufs = nbufs, providebuffers_bgid = bgid,
     providebuffers_bid = bid\<rparr>"

definition ProvideBuffers_CODE :: u8 where
  "ProvideBuffers_CODE = ucast IORING_OP_PROVIDE_BUFFERS"

definition ProvideBuffers_build :: "ProvideBuffers \<Rightarrow> Entry" where
  "ProvideBuffers_build self =
     (let addr = providebuffers_addr self;
          len = providebuffers_len self;
          nbufs = providebuffers_nbufs self;
          bgid = providebuffers_bgid self;
          bid = providebuffers_bid self;
          sqe = sqe_zeroed;
          sqe = sqe\<lparr>sqe_opcode := ProvideBuffers_CODE\<rparr>;
          sqe = sqe\<lparr>sqe_fd := ucast nbufs\<rparr>;
          sqe = sqe\<lparr>sqe_addr := addr\<rparr>;
          sqe = sqe\<lparr>sqe_len := len\<rparr>;
          sqe = sqe\<lparr>sqe_off := ucast bid\<rparr>;
          sqe = sqe\<lparr>sqe_buf_index := bgid\<rparr>
      in Entry sqe)"

record RemoveBuffers =
  removebuffers_nbufs :: u16
  removebuffers_bgid :: u16

definition RemoveBuffers_new :: "u16 \<Rightarrow> u16 \<Rightarrow> RemoveBuffers" where
  "RemoveBuffers_new nbufs bgid = \<lparr>removebuffers_nbufs = nbufs,
     removebuffers_bgid = bgid\<rparr>"

definition RemoveBuffers_CODE :: u8 where
  "RemoveBuffers_CODE = ucast IORING_OP_REMOVE_BUFFERS"

definition RemoveBuffers_build :: "RemoveBuffers \<Rightarrow> Entry" where
  "RemoveBuffers_build self =
     (let nbufs = removebuffers_nbufs self;
          bgid = removebuffers_bgid self;
          sqe = sqe_zeroed;
          sqe = sqe\<lparr>sqe_opcode := RemoveBuffers_CODE\<rparr>;
          sqe = sqe\<lparr>sqe_fd := ucast nbufs\<rparr>;
          sqe = sqe\<lparr>sqe_buf_index := bgid\<rparr>
      in Entry sqe)"

record Tee =
  tee_fd_in :: Target
  tee_fd_out :: Target
  tee_len :: u32
  tee_flags :: u32

definition Tee_new :: "Target \<Rightarrow> Target \<Rightarrow> u32 \<Rightarrow> Tee" where
  "Tee_new fd_in fd_out len = \<lparr>tee_fd_in = fd_in, tee_fd_out = fd_out, tee_len = len,
     tee_flags = 0\<rparr>"

definition Tee_CODE :: u8 where
  "Tee_CODE = ucast IORING_OP_TEE"

definition Tee_flags :: "Tee \<Rightarrow> u32 \<Rightarrow> Tee" where
  "Tee_flags self flags = self\<lparr>tee_flags := flags\<rparr>"

definition Tee_build :: "Tee \<Rightarrow> Entry" where
  "Tee_build self =
     (let fd_in = tee_fd_in self;
          fd_out = tee_fd_out self;
          len = tee_len self;
          flags = tee_flags self;
          sqe = sqe_zeroed;
          sqe = sqe\<lparr>sqe_opcode := Tee_CODE\<rparr>;
          sqe = (case fd_out of Target_Fd fd \<Rightarrow> sqe\<lparr>sqe_fd := fd\<rparr>
             | Target_Fixed idx \<Rightarrow> (let sqe = sqe\<lparr>sqe_fd := idx\<rparr>
               in sqe\<lparr>sqe_flags := sqe_flags sqe OR Flags_FIXED_FILE\<rparr>));
          sqe = sqe\<lparr>sqe_len := len\<rparr>;
          sqe = sqe\<lparr>sqe_op_flags := flags\<rparr>;
          sqe = (case fd_in of Target_Fd fd \<Rightarrow> sqe\<lparr>sqe_splice_fd_in := fd\<rparr>
             | Target_Fixed idx \<Rightarrow> (let sqe = sqe\<lparr>sqe_splice_fd_in := idx\<rparr>
               in sqe\<lparr>sqe_op_flags := sqe_op_flags sqe OR SPLICE_F_FD_IN_FIXED\<rparr>))
      in Entry sqe)"

record Shutdown =
  shutdown_fd :: Target
  shutdown_how :: i32

definition Shutdown_new :: "Target \<Rightarrow> i32 \<Rightarrow> Shutdown" where
  "Shutdown_new fd how = \<lparr>shutdown_fd = fd, shutdown_how = how\<rparr>"

definition Shutdown_CODE :: u8 where
  "Shutdown_CODE = ucast IORING_OP_SHUTDOWN"

definition Shutdown_build :: "Shutdown \<Rightarrow> Entry" where
  "Shutdown_build self =
     (let fd = shutdown_fd self;
          how = shutdown_how self;
          sqe = sqe_zeroed;
          sqe = sqe\<lparr>sqe_opcode := Shutdown_CODE\<rparr>;
          sqe = assign_fd sqe fd;
          sqe = sqe\<lparr>sqe_len := how\<rparr>
      in Entry sqe)"

record RenameAt =
  renameat_olddirfd :: Target
  renameat_oldpath :: u64
  renameat_newdirfd :: i32
  renameat_newpath :: u64
  renameat_flags :: u32

definition RenameAt_new :: "Target \<Rightarrow> u64 \<Rightarrow> i32 \<Rightarrow> u64 \<Rightarrow> RenameAt" where
  "RenameAt_new olddirfd oldpath newdirfd newpath = \<lparr>renameat_olddirfd = olddirfd,
     renameat_oldpath = oldpath, renameat_newdirfd = newdirfd, renameat_newpath = newpath,
     renameat_flags = 0\<rparr>"

definition RenameAt_CODE :: u8 where
  "RenameAt_CODE = ucast IORING_OP_RENAMEAT"

definition RenameAt_flags :: "RenameAt \<Rightarrow> u32 \<Rightarrow> RenameAt" where
  "RenameAt_flags self flags = self\<lparr>renameat_flags := flags\<rparr>"

definition RenameAt_build :: "RenameAt \<Rightarrow> Entry" where
  "RenameAt_build self =
     (let olddirfd = renameat_olddirfd self;
          oldpath = renameat_oldpath self;
          newdirfd = renameat_newdirfd self;
          newpath = renameat_newpath self;
          flags = renameat_flags self;
          sqe = sqe_zeroed;
          sqe = sqe\<lparr>sqe_opcode := RenameAt_CODE\<rparr>;
          sqe = assign_fd sqe olddirfd;
          sqe = sqe\<lparr>sqe_addr := oldpath\<rparr>;
          sqe = sqe\<lparr>sqe_off := newpath\<rparr>;
          sqe = sqe\<lparr>sqe_len := newdirfd\<rparr>;
          sqe = sqe\<lparr>sqe_op_flags := flags\<rparr>
      in Entry sqe)"

record UnlinkAt =
  unlinkat_dirfd :: Target
  unlinkat_pathname :: u64
  unlinkat_flags :: i32

definition UnlinkAt_new :: "Target \<Rightarrow> u64 \<Rightarrow> UnlinkAt" where
  "UnlinkAt_new dirfd pathname = \<lparr>unlinkat_dirfd = dirfd, unlinkat_pathname = pathname,
     unlinkat_flags = 0\<rparr>"

definition UnlinkAt_CODE :: u8 where
  "UnlinkAt_CODE = ucast IORING_OP_UNLINKAT"

definition UnlinkAt_flags :: "UnlinkAt \<Rightarrow> i32 \<Rightarrow> UnlinkAt" where
  "UnlinkAt_flags self flags = self\<lparr>unlinkat_flags := flags\<rparr>"

definition UnlinkAt_build :: "UnlinkAt \<Rightarrow> Entry" where
  "UnlinkAt_build self =
     (let dirfd = unlinkat_dirfd self;
          pathname = unlinkat_pathname self;
          flags = unlinkat_flags self;
          sqe = sqe_zeroed;
          sqe = sqe\<lparr>sqe_opcode := UnlinkAt_CODE\<rparr>;
          sqe = assign_fd sqe dirfd;
          sqe = sqe\<lparr>sqe_addr := pathname\<rparr>;
          sqe = sqe\<lparr>sqe_op_flags := flags\<rparr>
      in Entry sqe)"

record MkDirAt =
  mkdirat_dirfd :: Target
  mkdirat_pathname :: u64
  mkdirat_mode :: u32

definition MkDirAt_new :: "Target \<Rightarrow> u64 \<Rightarrow> MkDirAt" where
  "MkDirAt_new dirfd pathname = \<lparr>mkdirat_dirfd = dirfd, mkdirat_pathname = pathname,
     mkdirat_mode = 0\<rparr>"

definition MkDirAt_CODE :: u8 where
  "MkDirAt_CODE = ucast IORING_OP_MKDIRAT"

definition MkDirAt_mode :: "MkDirAt \<Rightarrow> u32 \<Rightarrow> MkDirAt" where
  "MkDirAt_mode self mode = self\<lparr>mkdirat_mode := mode\<rparr>"

definition MkDirAt_build :: "MkDirAt \<Rightarrow> Entry" where
  "MkDirAt_build self =
     (let dirfd = mkdirat_dirfd self;
          pathname = mkdirat_pathname self;
          mode = mkdirat_mode self;
          sqe = sqe_zeroed;
          sqe = sqe\<lparr>sqe_opcode := MkDirAt_CODE\<rparr>;
          sqe = assign_fd sqe dirfd;
          sqe = sqe\<lparr>sqe_addr := pathname\<rparr>;
          sqe = sqe\<lparr>sqe_len := mode\<rparr>
      in Entry sqe)"

record SymlinkAt =
  symlinkat_newdirfd :: Target
  symlinkat_target :: u64
  symlinkat_linkpath :: u64

definition SymlinkAt_new :: "Target \<Rightarrow> u64 \<Rightarrow> u64 \<Rightarrow> SymlinkAt" where
  "SymlinkAt_new newdirfd target linkpath = \<lparr>symlinkat_newdirfd = newdirfd,
     symlinkat_target = target, symlinkat_linkpath = linkpath\<rparr>"

definition SymlinkAt_CODE :: u8 where
  "SymlinkAt_CODE = ucast IORING_OP_SYMLINKAT"

definition SymlinkAt_build :: "SymlinkAt \<Rightarrow> Entry" where
  "SymlinkAt_build self =
     (let newdirfd = symlinkat_newdirfd self;
          target = symlinkat_target self;
          linkpath = symlinkat_linkpath self;
          sqe = sqe_zeroed;
          sqe = sqe\<lparr>sqe_opcode := SymlinkAt_CODE\<rparr>;
          sqe = assign_fd sqe newdirfd;
          sqe = sqe\<lparr>sqe_addr := target\<rparr>;
          sqe = sqe\<lparr>sqe_off := linkpath\<rparr>
      in Entry sqe)"

record LinkAt =
  linkat_olddirfd :: Target
  linkat_oldpath :: u64
  linkat_newdirfd :: i32
  linkat_newpath :: u64
  linkat_flags :: i32

definition LinkAt_new :: "Target \<Rightarrow> u64 \<Rightarrow> i32 \<Rightarrow> u64 \<Rightarrow> LinkAt" where
  "LinkAt_new olddirfd oldpath newdirfd newpath = \<lparr>linkat_olddirfd = olddirfd,
     linkat_oldpath = oldpath, linkat_newdirfd = newdirfd, linkat_newpath = newpath,
     linkat_flags = 0\<rparr>"

definition LinkAt_CODE :: u8 where
  "LinkAt_CODE = ucast IORING_OP_LINKAT"

definition LinkAt_flags :: "LinkAt \<Rightarrow> i32 \<Rightarrow> LinkAt" where
  "LinkAt_flags self flags = self\<lparr>linkat_flags := flags\<rparr>"

definition LinkAt_build :: "LinkAt \<Rightarrow> Entry" where
  "LinkAt_build self =
     (let olddirfd = linkat_olddirfd self;
          oldpath = linkat_oldpath self;
          newdirfd = linkat_newdirfd self;
          newpath = linkat_newpath self;
          flags = linkat_flags self;
          sqe = sqe_zeroed;
          sqe = sqe\<lparr>sqe_opcode := LinkAt_CODE\<rparr>;
          sqe = assign_fd sqe olddirfd;
          sqe = sqe\<lparr>sqe_addr := oldpath\<rparr>;
          sqe = sqe\<lparr>sqe_off := newpath\<rparr>;
          sqe = sqe\<lparr>sqe_len := newdirfd\<rparr>;
          sqe = sqe\<lparr>sqe_op_flags := flags\<rparr>
      in Entry sqe)"

record MsgRing =
  msgring_fd :: i32
  msgring_result :: i32
  msgring_user_data :: u64
  msgring_user_flags :: u32
  msgring_opcode :: u32
  msgring_flags :: u32

definition MsgRing_new :: "i32 \<Rightarrow> i32 \<Rightarrow> u64 \<Rightarrow> u32 \<Rightarrow> MsgRing" where
  "MsgRing_new fd result user_data user_flags = \<lparr>msgring_fd = fd,
     msgring_result = result, msgring_user_data = user_data, msgring_user_flags = user_flags,
     msgring_opcode = IORING_MSG_DATA, msgring_flags = 0\<rparr>"

definition MsgRing_CODE :: u8 where
  "MsgRing_CODE = ucast IORING_OP_MSG_RING"

definition MsgRing_opcode :: "MsgRing \<Rightarrow> u32 \<Rightarrow> MsgRing" where
  "MsgRing_opcode self opc = self\<lparr>msgring_opcode := opc\<rparr>"

definition MsgRing_flags :: "MsgRing \<Rightarrow> u32 \<Rightarrow> MsgRing" where
  "MsgRing_flags self flags = self\<lparr>msgring_flags := flags\<rparr>"

definition MsgRing_build :: "MsgRing \<Rightarrow> Entry" where
  "MsgRing_build self =
     (let fd = msgring_fd self;
          result = msgring_result self;
          user_data = msgring_user_data self;
          user_flags = msgring_user_flags self;
          opc = msgring_opcode self;
          flags = msgring_flags self;
          sqe = sqe_zeroed;
          sqe = sqe\<lparr>sqe_opcode := MsgRing_CODE\<rparr>;
          sqe = sqe\<lparr>sqe_fd := fd\<rparr>;
          sqe = sqe\<lparr>sqe_len := result\<rparr>;
          sqe = sqe\<lparr>sqe_off := user_data\<rparr>;
          sqe = sqe\<lparr>sqe_op_flags := flags\<rparr>;
          sqe = sqe\<lparr>sqe_splice_fd_in := opc\<rparr>;
          sqe = sqe\<lparr>sqe_buf_index := ucast user_flags\<rparr>
      in Entry sqe)"

record MsgRingSendFd =
  msgringsendfd_fd :: i32
  msgringsendfd_src_fd :: Target
  msgringsendfd_dest_slot :: DestinationSlot
  msgringsendfd_user_data :: u64
  msgringsendfd_flags :: u32

definition MsgRingSendFd_new :: "i32 \<Rightarrow> Target \<Rightarrow> DestinationSlot \<Rightarrow> u64 \<Rightarrow> MsgRingSendFd" where
  "MsgRingSendFd_new fd src_fd dest_slot user_data = \<lparr>msgringsendfd_fd = fd,
     msgringsendfd_src_fd = src_fd, msgringsendfd_dest_slot = dest_slot,
     msgringsendfd_user_data = user_data, msgringsendfd_flags = 0\<rparr>"

definition MsgRingSendFd_CODE :: u8 where
  "MsgRingSendFd_CODE = ucast IORING_OP_MSG_RING"

definition MsgRingSendFd_flags :: "MsgRingSendFd \<Rightarrow> u32 \<Rightarrow> MsgRingSendFd" where
  "MsgRingSendFd_flags self flags = self\<lparr>msgringsendfd_flags := flags\<rparr>"

definition MsgRingSendFd_build :: "MsgRingSendFd \<Rightarrow> Entry" where
  "MsgRingSendFd_build self =
     (let fd = msgringsendfd_fd self;
          src_fd = msgringsendfd_src_fd self;
          dest_slot = msgringsendfd_dest_slot self;
          user_data = msgringsendfd_user_data self;
          flags = msgringsendfd_flags self;
          sqe = sqe_zeroed;
          sqe = sqe\<lparr>sqe_opcode := MsgRingSendFd_CODE\<rparr>;
          sqe = sqe\<lparr>sqe_fd := fd\<rparr>;
          sqe = sqe\<lparr>sqe_off := user_data\<rparr>;
          sqe = sqe\<lparr>sqe_op_flags := flags\<rparr>;
          sqe = sqe\<lparr>sqe_splice_fd_in := IORING_MSG_SEND_FD\<rparr>;
          sqe = (case src_fd of Target_Fd src \<Rightarrow> sqe\<lparr>sqe_addr := scast src\<rparr>
             | Target_Fixed idx \<Rightarrow> (let sqe = sqe\<lparr>sqe_addr := ucast idx\<rparr>
               in sqe\<lparr>sqe_flags := sqe_flags sqe OR Flags_FIXED_FILE\<rparr>));
          sqe = sqe\<lparr>sqe_addr3 := ucast (kernel_index_arg dest_slot)\<rparr>
      in Entry sqe)"

record Socket =
  socket_domain :: i32
  socket_socket_type :: i32
  socket_protocol :: i32
  socket_file_index :: "u32 option"

definition Socket_new :: "i32 \<Rightarrow> i32 \<Rightarrow> i32 \<Rightarrow> Socket" where
  "Socket_new domain socket_type protocol = \<lparr>socket_domain = domain,
     socket_socket_type = socket_type, socket_protocol = protocol,
     socket_file_index = None\<rparr>"

definition Socket_CODE :: u8 where
  "Socket_CODE = ucast IORING_OP_SOCKET"

definition Socket_file_index :: "Socket \<Rightarrow> (u32 option) \<Rightarrow> Socket" where
  "Socket_file_index self file_index = self\<lparr>socket_file_index := file_index\<rparr>"

definition Socket_build :: "Socket \<Rightarrow> Entry exec" where
  "Socket_build self =
     (let domain = socket_domain self;
          socket_type = socket_socket_type self;
          protocol = socket_protocol self;
          file_index = socket_file_index self;
          sqe = sqe_zeroed;
          sqe = sqe\<lparr>sqe_opcode := Socket_CODE\<rparr>;
          sqe = sqe\<lparr>sqe_fd := domain\<rparr>;
          sqe = sqe\<lparr>sqe_off := scast socket_type\<rparr>;
          sqe = sqe\<lparr>sqe_len := protocol\<rparr>
      in and_then (with_file_index sqe file_index) (\<lambda>sqe. Inr (Entry sqe)))"

record SendZc =
  sendzc_fd :: Target
  sendzc_buf :: u64
  sendzc_len :: u32
  sendzc_flags :: u32
  sendzc_zc_flags :: u16
  sendzc_buf_index :: u16
  sendzc_dest_addr :: u64
  sendzc_dest_addr_len :: u16

definition SendZc_new :: "Target \<Rightarrow> u64 \<Rightarrow> u32 \<Rightarrow> SendZc" where
  "SendZc_new fd buf len = \<lparr>sendzc_fd = fd, sendzc_buf = buf, sendzc_len = len,
     sendzc_flags = 0, sendzc_zc_flags = 0, sendzc_buf_index = 0, sendzc_dest_addr = 0,
     sendzc_dest_addr_len = 0\<rparr>"

definition SendZc_CODE :: u8 where
  "SendZc_CODE = ucast IORING_OP_SEND_ZC"

definition SendZc_flags :: "SendZc \<Rightarrow> u32 \<Rightarrow> SendZc" where
  "SendZc_flags self flags = self\<lparr>sendzc_flags := flags\<rparr>"

definition SendZc_zc_flags :: "SendZc \<Rightarrow> u16 \<Rightarrow> SendZc" where
  "SendZc_zc_flags self zc_flags = self\<lparr>sendzc_zc_flags := zc_flags\<rparr>"

definition SendZc_buf_index :: "SendZc \<Rightarrow> u16 \<Rightarrow> SendZc" where
  "SendZc_buf_index self buf_index = self\<lparr>sendzc_buf_index := buf_index\<rparr>"

definition SendZc_dest_addr :: "SendZc \<Rightarrow> u64 \<Rightarrow> SendZc" where
  "SendZc_dest_addr self dest_addr = self\<lparr>sendzc_dest_addr := dest_addr\<rparr>"

definition SendZc_dest_addr_len :: "SendZc \<Rightarrow> u16 \<Rightarrow> SendZc" where
  "SendZc_dest_addr_len self dest_addr_len = self\<lparr>sendzc_dest_addr_len := dest_addr_len\<rparr>"

definition SendZc_build :: "SendZc \<Rightarrow> Entry" where
  "SendZc_build self =
     (let fd = sendzc_fd self;
          buf = sendzc_buf self;
          len = sendzc_len self;
          flags = sendzc_flags self;
          zc_flags = sendzc_zc_flags self;
          buf_index = sendzc_buf_index self;
          dest_addr = sendzc_dest_addr self;
          dest_addr_len = sendzc_dest_addr_len self;
          sqe = sqe_zeroed;
          sqe = sqe\<lparr>sqe_opcode := SendZc_CODE\<rparr>;
          sqe = assign_fd sqe fd;
          sqe = sqe\<lparr>sqe_addr := buf\<rparr>;
          sqe = sqe\<lparr>sqe_len := len\<rparr>;
          sqe = sqe\<lparr>sqe_op_flags := flags\<rparr>;
          sqe = sqe\<lparr>sqe_ioprio := zc_flags\<rparr>;
          sqe = sqe\<lparr>sqe_buf_index := buf_index\<rparr>;
          sqe = (if dest_addr \<noteq> 0 then (let sqe = sqe\<lparr>sqe_addr3 := dest_addr\<rparr>
               in sqe\<lparr>sqe_splice_fd_in := ucast dest_addr_len\<rparr>)
              else sqe)
      in Entry sqe)"

record SendMsgZc =
  sendmsgzc_fd :: Target
  sendmsgzc_msg :: u64
  sendmsgzc_ioprio :: u16
  sendmsgzc_flags :: u32

definition SendMsgZc_new :: "Target \<Rightarrow> u64 \<Rightarrow> SendMsgZc" where
  "SendMsgZc_new fd msg = \<lparr>sendmsgzc_fd = fd, sendmsgzc_msg = msg, sendmsgzc_ioprio = 0,
     sendmsgzc_flags = 0\<rparr>"

definition SendMsgZc_CODE :: u8 where
  "SendMsgZc_CODE = ucast IORING_OP_SENDMSG_ZC"

definition SendMsgZc_ioprio :: "SendMsgZc \<Rightarrow> u16 \<Rightarrow> SendMsgZc" where
  "SendMsgZc_ioprio self ioprio = self\<lparr>sendmsgzc_ioprio := ioprio\<rparr>"

definition SendMsgZc_flags :: "SendMsgZc \<Rightarrow> u32 \<Rightarrow> SendMsgZc" where
  "SendMsgZc_flags self flags = self\<lparr>sendmsgzc_flags := flags\<rparr>"

definition SendMsgZc_build :: "SendMsgZc \<Rightarrow> Entry" where
  "SendMsgZc_build self =
     (let fd = sendmsgzc_fd self;
          msg = sendmsgzc_msg self;
          ioprio = sendmsgzc_ioprio self;
          flags = sendmsgzc_flags self;
          sqe = sqe_zeroed;
          sqe = sqe\<lparr>sqe_opcode := SendMsgZc_CODE\<rparr>;
          sqe = assign_fd sqe fd;
          sqe = sqe\<lparr>sqe_ioprio := ioprio\<rparr>;
          sqe = sqe\<lparr>sqe_addr := msg\<rparr>;
          sqe = sqe\<lparr>sqe_op_flags := flags\<rparr>;
          sqe = sqe\<lparr>sqe_len := 1\<rparr>
      in Entry sqe)"

record Ftruncate =
  ftruncate_fd :: Target
  ftruncate_len :: u64

definition Ftruncate_new :: "Target \<Rightarrow> u64 \<Rightarrow> Ftruncate" where
  "Ftruncate_new fd len = \<lparr>ftruncate_fd = fd, ftruncate_len = len\<rparr>"

definition Ftruncate_CODE :: u8 where
  "Ftruncate_CODE = ucast IORING_OP_FTRUNCATE"

definition Ftruncate_build :: "Ftruncate \<Rightarrow> Entry" where
  "Ftruncate_build self =
     (let fd = ftruncate_fd self;
          len = ftruncate_len self;
          sqe = sqe_zeroed;
          sqe = sqe\<lparr>sqe_opcode := Ftruncate_CODE\<rparr>;
          sqe = assign_fd sqe fd;
          sqe = sqe\<lparr>sqe_off := len\<rparr>
      in Entry sqe)"

record Bind =
  bind_fd :: Target
  bind_addr :: u64
  bind_addrlen :: u32

definition Bind_new :: "Target \<Rightarrow> u64 \<Rightarrow> u32 \<Rightarrow> Bind" where
  "Bind_new fd addr addrlen = \<lparr>bind_fd = fd, bind_addr = addr,
     bind_addrlen = addrlen\<rparr>"

definition Bind_CODE :: u8 where
  "Bind_CODE = ucast IORING_OP_BIND"

definition Bind_build :: "Bind \<Rightarrow> Entry" where
  "Bind_build self =
     (let fd = bind_fd self;
          addr = bind_addr self;
          addrlen = bind_addrlen self;
          sqe = sqe_zeroed;
          sqe = sqe\<lparr>sqe_opcode := Bind_CODE\<rparr>;
          sqe = assign_fd sqe fd;
          sqe = sqe\<lparr>sqe_addr := addr\<rparr>;
          sqe = sqe\<lparr>sqe_off := ucast addrlen\<rparr>
      in Entry sqe)"

record Listen =
  listen_fd :: Target
  listen_backlog :: i32

definition Listen_new :: "Target \<Rightarrow> i32 \<Rightarrow> Listen" where
  "Listen_new fd backlog = \<lparr>listen_fd = fd, listen_backlog = backlog\<rparr>"

definition Listen_CODE :: u8 where
  "Listen_CODE = ucast IORING_OP_LISTEN"

definition Listen_build :: "Listen \<Rightarrow> Entry" where
  "Listen_build self =
     (let fd = listen_fd self;
          backlog = listen_backlog self;
          sqe = sqe_zeroed;
          sqe = sqe\<lparr>sqe_opcode := Listen_CODE\<rparr>;
          sqe = assign_fd sqe fd;
          sqe = sqe\<lparr>sqe_len := backlog\<rparr>
      in Entry sqe)"

record Fadvise =
  fadvise_fd :: Target
  fadvise_len :: u32
  fadvise_advice :: i32
  fadvise_offset :: u64

definition Fadvise_new :: "Target \<Rightarrow> u32 \<Rightarrow> i32 \<Rightarrow> Fadvise" where
  "Fadvise_new fd len advice = \<lparr>fadvise_fd = fd, fadvise_len = len,
     fadvise_advice = advice, fadvise_offset = 0\<rparr>"

definition Fadvise_CODE :: u8 where
  "Fadvise_CODE = ucast IORING_OP_FADVISE"

definition Fadvise_offset :: "Fadvise \<Rightarrow> u64 \<Rightarrow> Fadvise" where
  "Fadvise_offset self offset = self\<lparr>fadvise_offset := offset\<rparr>"

definition Fadvise_build :: "Fadvise \<Rightarrow> Entry" where
  "Fadvise_build self =
     (let fd = fadvise_fd self;
          len = fadvise_len self;
          advice = fadvise_advice self;
          offset = fadvise_offset self;
          sqe = sqe_zeroed;
          sqe = sqe\<lparr>sqe_opcode := Fadvise_CODE\<rparr>;
          sqe = assign_fd sqe fd;
          sqe = sqe\<lparr>sqe_len := len\<rparr>;
          sqe = sqe\<lparr>sqe_off := offset\<rparr>;
          sqe = sqe\<lparr>sqe_op_flags := advice\<rparr>
      in Entry sqe)"

record Madvise =
  madvise_addr :: u64
  madvise_len :: u32
  madvise_advice :: i32

definition Madvise_new :: "u64 \<Rightarrow> u32 \<Rightarrow> i32 \<Rightarrow> Madvise" where
  "Madvise_new addr len advice = \<lparr>madvise_addr = addr, madvise_len = len,
     madvise_advice = advice\<rparr>"

definition Madvise_CODE :: u8 where
  "Madvise_CODE = ucast IORING_OP_MADVISE"

definition Madvise_build :: "Madvise \<Rightarrow> Entry" where
  "Madvise_build self =
     (let addr = madvise_addr self;
          len = madvise_len self;
          advice = madvise_advice self;
          sqe = sqe_zeroed;
          sqe = sqe\<lparr>sqe_opcode := Madvise_CODE\<rparr>;
          sqe = sqe\<lparr>sqe_fd := - 1\<rparr>;
          sqe = sqe\<lparr>sqe_addr := addr\<rparr>;
          sqe = sqe\<lparr>sqe_len := len\<rparr>;
          sqe = sqe\<lparr>sqe_op_flags := advice\<rparr>
      in Entry sqe)"

record AcceptMulti =
  acceptmulti_fd :: Target
  acceptmulti_allocate_file_index :: bool
  acceptmulti_flags :: i32

definition AcceptMulti_new :: "Target \<Rightarrow> AcceptMulti" where
  "AcceptMulti_new fd = \<lparr>acceptmulti_fd = fd, acceptmulti_allocate_file_index = False,
     acceptmulti_flags = 0\<rparr>"

definition AcceptMulti_CODE :: u8 where
  "AcceptMulti_CODE = ucast IORING_OP_ACCEPT"

definition AcceptMulti_allocate_file_index :: "AcceptMulti \<Rightarrow> bool \<Rightarrow> AcceptMulti" where
  "AcceptMulti_allocate_file_index self allocate_file_index = self\<lparr>acceptmulti_allocate_file_index := allocate_file_index\<rparr>"

definition AcceptMulti_flags :: "AcceptMulti \<Rightarrow> i32 \<Rightarrow> AcceptMulti" where
  "AcceptMulti_flags self flags = self\<lparr>acceptmulti_flags := flags\<rparr>"

definition AcceptMulti_build :: "AcceptMulti \<Rightarrow> Entry" where
  "AcceptMulti_build self =
     (let fd = acceptmulti_fd self;
          allocate_file_index = acceptmulti_allocate_file_index self;
          flags = acceptmulti_flags self;
          sqe = sqe_zeroed;
          sqe = sqe\<lparr>sqe_opcode := AcceptMulti_CODE\<rparr>;
          sqe = assign_fd sqe fd;
          sqe = sqe\<lparr>sqe_ioprio := ucast IORING_ACCEPT_MULTISHOT\<rparr>;
          sqe = sqe\<lparr>sqe_op_flags := flags\<rparr>;
          sqe = (if allocate_file_index then sqe\<lparr>sqe_splice_fd_in := IORING_FILE_INDEX_ALLOC\<rparr> else sqe)
      in Entry sqe)"

record RecvMulti =
  recvmulti_fd :: Target
  recvmulti_buf_group :: u16
  recvmulti_flags :: i32

definition RecvMulti_new :: "Target \<Rightarrow> u16 \<Rightarrow> RecvMulti" where
  "RecvMulti_new fd buf_group = \<lparr>recvmulti_fd = fd, recvmulti_buf_group = buf_group,
     recvmulti_flags = 0\<rparr>"

definition RecvMulti_CODE :: u8 where
  "RecvMulti_CODE = ucast IORING_OP_RECV"

definition RecvMulti_flags :: "RecvMulti \<Rightarrow> i32 \<Rightarrow> RecvMulti" where
  "RecvMulti_flags self flags = self\<lparr>recvmulti_flags := flags\<rparr>"

definition RecvMulti_build :: "RecvMulti \<Rightarrow> Entry" where
  "RecvMulti_build self =
     (let fd = recvmulti_fd self;
          buf_group = recvmulti_buf_group self;
          flags = recvmulti_flags self;
          sqe = sqe_zeroed;
          sqe = sqe\<lparr>sqe_opcode := RecvMulti_CODE\<rparr>;
          sqe = assign_fd sqe fd;
          sqe = sqe\<lparr>sqe_op_flags := flags\<rparr>;
          sqe = sqe\<lparr>sqe_buf_index := buf_group\<rparr>;
          sqe = sqe\<lparr>sqe_flags := sqe_flags sqe OR Flags_BUFFER_SELECT\<rparr>;
          sqe = sqe\<lparr>sqe_ioprio := ucast IORING_RECV_MULTISHOT\<rparr>
      in Entry sqe)"

end
