(* ===== verification/Miring_Opcode_C.thy ===== *)
theory Miring_Opcode_C
  imports Miring_Opcode
begin

text \<open>
  The operation builders of \<^verbatim>\<open>src/opcode.rs\<close>, in the order of the source: from
  \<open>RecvMsgMulti\<close> to \<open>Pipe\<close>.
\<close>

record RecvMsgMulti =
  recvmsgmulti_fd :: Target
  recvmsgmulti_msg :: u64
  recvmsgmulti_buf_group :: u16
  recvmsgmulti_ioprio :: u16
  recvmsgmulti_flags :: u32

definition RecvMsgMulti_new :: "Target \<Rightarrow> u64 \<Rightarrow> u16 \<Rightarrow> RecvMsgMulti" where
  "RecvMsgMulti_new fd msg buf_group = \<lparr>recvmsgmulti_fd = fd, recvmsgmulti_msg = msg,
     recvmsgmulti_buf_group = buf_group, recvmsgmulti_ioprio = 0,
     recvmsgmulti_flags = 0\<rparr>"

definition RecvMsgMulti_CODE :: u8 where
  "RecvMsgMulti_CODE = ucast IORING_OP_RECVMSG"

definition RecvMsgMulti_ioprio :: "RecvMsgMulti \<Rightarrow> u16 \<Rightarrow> RecvMsgMulti" where
  "RecvMsgMulti_ioprio self ioprio = self\<lparr>recvmsgmulti_ioprio := ioprio\<rparr>"

definition RecvMsgMulti_flags :: "RecvMsgMulti \<Rightarrow> u32 \<Rightarrow> RecvMsgMulti" where
  "RecvMsgMulti_flags self flags = self\<lparr>recvmsgmulti_flags := flags\<rparr>"

definition RecvMsgMulti_build :: "RecvMsgMulti \<Rightarrow> Entry" where
  "RecvMsgMulti_build self =
     (let fd = recvmsgmulti_fd self;
          msg = recvmsgmulti_msg self;
          buf_group = recvmsgmulti_buf_group self;
          ioprio = recvmsgmulti_ioprio self;
          flags = recvmsgmulti_flags self;
          sqe = sqe_zeroed;
          sqe = sqe\<lparr>sqe_opcode := RecvMsgMulti_CODE\<rparr>;
          sqe = assign_fd sqe fd;
          sqe = sqe\<lparr>sqe_addr := msg\<rparr>;
          sqe = sqe\<lparr>sqe_len := 1\<rparr>;
          sqe = sqe\<lparr>sqe_op_flags := flags\<rparr>;
          sqe = sqe\<lparr>sqe_buf_index := buf_group\<rparr>;
          sqe = sqe\<lparr>sqe_flags := sqe_flags sqe OR Flags_BUFFER_SELECT\<rparr>;
          sqe = sqe\<lparr>sqe_ioprio := ioprio OR ucast IORING_RECV_MULTISHOT\<rparr>
      in Entry sqe)"

record RecvBundle =
  recvbundle_fd :: Target
  recvbundle_buf_group :: u16
  recvbundle_flags :: i32

definition RecvBundle_new :: "Target \<Rightarrow> u16 \<Rightarrow> RecvBundle" where
  "RecvBundle_new fd buf_group = \<lparr>recvbundle_fd = fd, recvbundle_buf_group = buf_group,
     recvbundle_flags = 0\<rparr>"

definition RecvBundle_CODE :: u8 where
  "RecvBundle_CODE = ucast IORING_OP_RECV"

definition RecvBundle_flags :: "RecvBundle \<Rightarrow> i32 \<Rightarrow> RecvBundle" where
  "RecvBundle_flags self flags = self\<lparr>recvbundle_flags := flags\<rparr>"

definition RecvBundle_build :: "RecvBundle \<Rightarrow> Entry" where
  "RecvBundle_build self =
     (let fd = recvbundle_fd self;
          buf_group = recvbundle_buf_group self;
          flags = recvbundle_flags self;
          sqe = sqe_zeroed;
          sqe = sqe\<lparr>sqe_opcode := RecvBundle_CODE\<rparr>;
          sqe = assign_fd sqe fd;
          sqe = sqe\<lparr>sqe_op_flags := flags\<rparr>;
          sqe = sqe\<lparr>sqe_buf_index := buf_group\<rparr>;
          sqe = sqe\<lparr>sqe_flags := sqe_flags sqe OR Flags_BUFFER_SELECT\<rparr>;
          sqe = sqe\<lparr>sqe_ioprio := sqe_ioprio sqe OR ucast IORING_RECVSEND_BUNDLE\<rparr>
      in Entry sqe)"

record RecvMultiBundle =
  recvmultibundle_fd :: Target
  recvmultibundle_buf_group :: u16
  recvmultibundle_flags :: i32

definition RecvMultiBundle_new :: "Target \<Rightarrow> u16 \<Rightarrow> RecvMultiBundle" where
  "RecvMultiBundle_new fd buf_group = \<lparr>recvmultibundle_fd = fd,
     recvmultibundle_buf_group = buf_group, recvmultibundle_flags = 0\<rparr>"

definition RecvMultiBundle_CODE :: u8 where
  "RecvMultiBundle_CODE = ucast IORING_OP_RECV"

definition RecvMultiBundle_flags :: "RecvMultiBundle \<Rightarrow> i32 \<Rightarrow> RecvMultiBundle" where
  "RecvMultiBundle_flags self flags = self\<lparr>recvmultibundle_flags := flags\<rparr>"

definition RecvMultiBundle_build :: "RecvMultiBundle \<Rightarrow> Entry" where
  "RecvMultiBundle_build self =
     (let fd = recvmultibundle_fd self;
          buf_group = recvmultibundle_buf_group self;
          flags = recvmultibundle_flags self;
          sqe = sqe_zeroed;
          sqe = sqe\<lparr>sqe_opcode := RecvMultiBundle_CODE\<rparr>;
          sqe = assign_fd sqe fd;
          sqe = sqe\<lparr>sqe_op_flags := flags\<rparr>;
          sqe = sqe\<lparr>sqe_buf_index := buf_group\<rparr>;
          sqe = sqe\<lparr>sqe_flags := sqe_flags sqe OR Flags_BUFFER_SELECT\<rparr>;
          sqe = sqe\<lparr>sqe_ioprio := ucast IORING_RECV_MULTISHOT\<rparr>;
          sqe = sqe\<lparr>sqe_ioprio := sqe_ioprio sqe OR ucast IORING_RECVSEND_BUNDLE\<rparr>
      in Entry sqe)"

record SendBundle =
  sendbundle_fd :: Target
  sendbundle_buf_group :: u16
  sendbundle_flags :: i32
  sendbundle_len :: u32

definition SendBundle_new :: "Target \<Rightarrow> u16 \<Rightarrow> SendBundle" where
  "SendBundle_new fd buf_group = \<lparr>sendbundle_fd = fd, sendbundle_buf_group = buf_group,
     sendbundle_flags = 0, sendbundle_len = 0\<rparr>"

definition SendBundle_CODE :: u8 where
  "SendBundle_CODE = ucast IORING_OP_SEND"

definition SendBundle_flags :: "SendBundle \<Rightarrow> i32 \<Rightarrow> SendBundle" where
  "SendBundle_flags self flags = self\<lparr>sendbundle_flags := flags\<rparr>"

definition SendBundle_len :: "SendBundle \<Rightarrow> u32 \<Rightarrow> SendBundle" where
  "SendBundle_len self len = self\<lparr>sendbundle_len := len\<rparr>"

definition SendBundle_build :: "SendBundle \<Rightarrow> Entry" where
  "SendBundle_build self =
     (let fd = sendbundle_fd self;
          buf_group = sendbundle_buf_group self;
          flags = sendbundle_flags self;
          len = sendbundle_len self;
          sqe = sqe_zeroed;
          sqe = sqe\<lparr>sqe_opcode := SendBundle_CODE\<rparr>;
          sqe = assign_fd sqe fd;
          sqe = sqe\<lparr>sqe_len := len\<rparr>;
          sqe = sqe\<lparr>sqe_op_flags := flags\<rparr>;
          sqe = sqe\<lparr>sqe_ioprio := sqe_ioprio sqe OR ucast IORING_RECVSEND_BUNDLE\<rparr>;
          sqe = sqe\<lparr>sqe_flags := sqe_flags sqe OR Flags_BUFFER_SELECT\<rparr>;
          sqe = sqe\<lparr>sqe_buf_index := buf_group\<rparr>
      in Entry sqe)"

record ReadMulti =
  readmulti_fd :: Target
  readmulti_len :: u32
  readmulti_buf_group :: u16
  readmulti_offset :: u64

definition ReadMulti_new :: "Target \<Rightarrow> u32 \<Rightarrow> u16 \<Rightarrow> ReadMulti" where
  "ReadMulti_new fd len buf_group = \<lparr>readmulti_fd = fd, readmulti_len = len,
     readmulti_buf_group = buf_group, readmulti_offset = 0\<rparr>"

definition ReadMulti_CODE :: u8 where
  "ReadMulti_CODE = ucast IORING_OP_READ_MULTISHOT"

definition ReadMulti_offset :: "ReadMulti \<Rightarrow> u64 \<Rightarrow> ReadMulti" where
  "ReadMulti_offset self offset = self\<lparr>readmulti_offset := offset\<rparr>"

definition ReadMulti_build :: "ReadMulti \<Rightarrow> Entry" where
  "ReadMulti_build self =
     (let fd = readmulti_fd self;
          len = readmulti_len self;
          buf_group = readmulti_buf_group self;
          offset = readmulti_offset self;
          sqe = sqe_zeroed;
          sqe = sqe\<lparr>sqe_opcode := ReadMulti_CODE\<rparr>;
          sqe = assign_fd sqe fd;
          sqe = sqe\<lparr>sqe_off := offset\<rparr>;
          sqe = sqe\<lparr>sqe_len := len\<rparr>;
          sqe = sqe\<lparr>sqe_buf_index := buf_group\<rparr>;
          sqe = sqe\<lparr>sqe_flags := Flags_BUFFER_SELECT\<rparr>
      in Entry sqe)"

record GetXattr =
  getxattr_name :: u64
  getxattr_value :: u64
  getxattr_path :: u64
  getxattr_len :: u32

definition GetXattr_new :: "u64 \<Rightarrow> u64 \<Rightarrow> u64 \<Rightarrow> u32 \<Rightarrow> GetXattr" where
  "GetXattr_new name val_ptr path len = \<lparr>getxattr_name = name, getxattr_value = val_ptr,
     getxattr_path = path, getxattr_len = len\<rparr>"

definition GetXattr_CODE :: u8 where
  "GetXattr_CODE = ucast IORING_OP_GETXATTR"

definition GetXattr_build :: "GetXattr \<Rightarrow> Entry" where
  "GetXattr_build self =
     (let name = getxattr_name self;
          val_ptr = getxattr_value self;
          path = getxattr_path self;
          len = getxattr_len self;
          sqe = sqe_zeroed;
          sqe = sqe\<lparr>sqe_opcode := GetXattr_CODE\<rparr>;
          sqe = sqe\<lparr>sqe_addr := name\<rparr>;
          sqe = sqe\<lparr>sqe_len := len\<rparr>;
          sqe = sqe\<lparr>sqe_off := val_ptr\<rparr>;
          sqe = sqe\<lparr>sqe_addr3 := path\<rparr>;
          sqe = sqe\<lparr>sqe_op_flags := 0\<rparr>
      in Entry sqe)"

record SetXattr =
  setxattr_name :: u64
  setxattr_value :: u64
  setxattr_path :: u64
  setxattr_len :: u32
  setxattr_flags :: i32

definition SetXattr_new :: "u64 \<Rightarrow> u64 \<Rightarrow> u64 \<Rightarrow> u32 \<Rightarrow> SetXattr" where
  "SetXattr_new name val_ptr path len = \<lparr>setxattr_name = name, setxattr_value = val_ptr,
     setxattr_path = path, setxattr_len = len, setxattr_flags = 0\<rparr>"

definition SetXattr_CODE :: u8 where
  "SetXattr_CODE = ucast IORING_OP_SETXATTR"

definition SetXattr_flags :: "SetXattr \<Rightarrow> i32 \<Rightarrow> SetXattr" where
  "SetXattr_flags self flags = self\<lparr>setxattr_flags := flags\<rparr>"

definition SetXattr_build :: "SetXattr \<Rightarrow> Entry" where
  "SetXattr_build self =
     (let name = setxattr_name self;
          val_ptr = setxattr_value self;
          path = setxattr_path self;
          len = setxattr_len self;
          flags = setxattr_flags self;
          sqe = sqe_zeroed;
          sqe = sqe\<lparr>sqe_opcode := SetXattr_CODE\<rparr>;
          sqe = sqe\<lparr>sqe_addr := name\<rparr>;
          sqe = sqe\<lparr>sqe_len := len\<rparr>;
          sqe = sqe\<lparr>sqe_off := val_ptr\<rparr>;
          sqe = sqe\<lparr>sqe_addr3 := path\<rparr>;
          sqe = sqe\<lparr>sqe_op_flags := flags\<rparr>
      in Entry sqe)"

record FGetXattr =
  fgetxattr_fd :: Target
  fgetxattr_name :: u64
  fgetxattr_value :: u64
  fgetxattr_len :: u32

definition FGetXattr_new :: "Target \<Rightarrow> u64 \<Rightarrow> u64 \<Rightarrow> u32 \<Rightarrow> FGetXattr" where
  "FGetXattr_new fd name val_ptr len = \<lparr>fgetxattr_fd = fd, fgetxattr_name = name,
     fgetxattr_value = val_ptr, fgetxattr_len = len\<rparr>"

definition FGetXattr_CODE :: u8 where
  "FGetXattr_CODE = ucast IORING_OP_FGETXATTR"

definition FGetXattr_build :: "FGetXattr \<Rightarrow> Entry" where
  "FGetXattr_build self =
     (let fd = fgetxattr_fd self;
          name = fgetxattr_name self;
          val_ptr = fgetxattr_value self;
          len = fgetxattr_len self;
          sqe = sqe_zeroed;
          sqe = sqe\<lparr>sqe_opcode := FGetXattr_CODE\<rparr>;
          sqe = assign_fd sqe fd;
          sqe = sqe\<lparr>sqe_addr := name\<rparr>;
          sqe = sqe\<lparr>sqe_len := len\<rparr>;
          sqe = sqe\<lparr>sqe_off := val_ptr\<rparr>;
          sqe = sqe\<lparr>sqe_op_flags := 0\<rparr>
      in Entry sqe)"

record FSetXattr =
  fsetxattr_fd :: Target
  fsetxattr_name :: u64
  fsetxattr_value :: u64
  fsetxattr_len :: u32
  fsetxattr_flags :: i32

definition FSetXattr_new :: "Target \<Rightarrow> u64 \<Rightarrow> u64 \<Rightarrow> u32 \<Rightarrow> FSetXattr" where
  "FSetXattr_new fd name val_ptr len = \<lparr>fsetxattr_fd = fd, fsetxattr_name = name,
     fsetxattr_value = val_ptr, fsetxattr_len = len, fsetxattr_flags = 0\<rparr>"

definition FSetXattr_CODE :: u8 where
  "FSetXattr_CODE = ucast IORING_OP_FSETXATTR"

definition FSetXattr_flags :: "FSetXattr \<Rightarrow> i32 \<Rightarrow> FSetXattr" where
  "FSetXattr_flags self flags = self\<lparr>fsetxattr_flags := flags\<rparr>"

definition FSetXattr_build :: "FSetXattr \<Rightarrow> Entry" where
  "FSetXattr_build self =
     (let fd = fsetxattr_fd self;
          name = fsetxattr_name self;
          val_ptr = fsetxattr_value self;
          len = fsetxattr_len self;
          flags = fsetxattr_flags self;
          sqe = sqe_zeroed;
          sqe = sqe\<lparr>sqe_opcode := FSetXattr_CODE\<rparr>;
          sqe = assign_fd sqe fd;
          sqe = sqe\<lparr>sqe_addr := name\<rparr>;
          sqe = sqe\<lparr>sqe_len := len\<rparr>;
          sqe = sqe\<lparr>sqe_off := val_ptr\<rparr>;
          sqe = sqe\<lparr>sqe_op_flags := flags\<rparr>
      in Entry sqe)"

record AsyncCancel2 =
  asynccancel2_builder :: CancelBuilder

definition AsyncCancel2_new :: "CancelBuilder \<Rightarrow> AsyncCancel2" where
  "AsyncCancel2_new builder = \<lparr>asynccancel2_builder = builder\<rparr>"

definition AsyncCancel2_CODE :: u8 where
  "AsyncCancel2_CODE = ucast IORING_OP_ASYNC_CANCEL"

definition AsyncCancel2_build :: "AsyncCancel2 \<Rightarrow> Entry" where
  "AsyncCancel2_build self =
     (let builder = asynccancel2_builder self;
          sqe = sqe_zeroed;
          sqe = sqe\<lparr>sqe_opcode := AsyncCancel2_CODE\<rparr>;
          sqe = sqe\<lparr>sqe_fd := CancelBuilder_to_fd builder\<rparr>;
          sqe = sqe\<lparr>sqe_addr := (case cb_user_data builder of Some u \<Rightarrow> u
             | None \<Rightarrow> 0)\<rparr>;
          sqe = sqe\<lparr>sqe_op_flags := cb_flags builder\<rparr>
      in Entry sqe)"

record TimeoutUpdate =
  timeoutupdate_user_data :: u64
  timeoutupdate_timespec :: u64
  timeoutupdate_flags :: u32

definition TimeoutUpdate_new :: "u64 \<Rightarrow> u64 \<Rightarrow> TimeoutUpdate" where
  "TimeoutUpdate_new user_data timespec = \<lparr>timeoutupdate_user_data = user_data,
     timeoutupdate_timespec = timespec, timeoutupdate_flags = 0\<rparr>"

definition TimeoutUpdate_CODE :: u8 where
  "TimeoutUpdate_CODE = ucast IORING_OP_TIMEOUT_REMOVE"

definition TimeoutUpdate_flags :: "TimeoutUpdate \<Rightarrow> u32 \<Rightarrow> TimeoutUpdate" where
  "TimeoutUpdate_flags self flags = self\<lparr>timeoutupdate_flags := flags\<rparr>"

definition TimeoutUpdate_build :: "TimeoutUpdate \<Rightarrow> Entry" where
  "TimeoutUpdate_build self =
     (let user_data = timeoutupdate_user_data self;
          timespec = timeoutupdate_timespec self;
          flags = timeoutupdate_flags self;
          sqe = sqe_zeroed;
          sqe = sqe\<lparr>sqe_opcode := TimeoutUpdate_CODE\<rparr>;
          sqe = sqe\<lparr>sqe_fd := - 1\<rparr>;
          sqe = sqe\<lparr>sqe_off := timespec\<rparr>;
          sqe = sqe\<lparr>sqe_addr := user_data\<rparr>;
          sqe = sqe\<lparr>sqe_op_flags := flags OR IORING_TIMEOUT_UPDATE\<rparr>
      in Entry sqe)"

record UringCmd16 =
  uringcmd16_fd :: Target
  uringcmd16_cmd_op :: u32
  uringcmd16_buf_index :: "u16 option"
  uringcmd16_cmd :: "u8 list"

definition UringCmd16_new :: "Target \<Rightarrow> u32 \<Rightarrow> UringCmd16" where
  "UringCmd16_new fd cmd_op = \<lparr>uringcmd16_fd = fd, uringcmd16_cmd_op = cmd_op,
     uringcmd16_buf_index = None, uringcmd16_cmd = replicate 16 0\<rparr>"

definition UringCmd16_CODE :: u8 where
  "UringCmd16_CODE = ucast IORING_OP_URING_CMD"

definition UringCmd16_buf_index :: "UringCmd16 \<Rightarrow> (u16 option) \<Rightarrow> UringCmd16" where
  "UringCmd16_buf_index self buf_index = self\<lparr>uringcmd16_buf_index := buf_index\<rparr>"

definition UringCmd16_cmd :: "UringCmd16 \<Rightarrow> (u8 list) \<Rightarrow> UringCmd16" where
  "UringCmd16_cmd self cmd = self\<lparr>uringcmd16_cmd := cmd\<rparr>"

definition UringCmd16_build :: "UringCmd16 \<Rightarrow> Entry" where
  "UringCmd16_build self =
     (let fd = uringcmd16_fd self;
          cmd_op = uringcmd16_cmd_op self;
          buf_index = uringcmd16_buf_index self;
          cmd = uringcmd16_cmd self;
          sqe = sqe_zeroed;
          sqe = sqe\<lparr>sqe_opcode := UringCmd16_CODE\<rparr>;
          sqe = assign_fd sqe fd;
          sqe = sqe\<lparr>sqe_off := ucast cmd_op\<rparr>;
          sqe = sqe\<lparr>sqe_addr3 := from_le_bytes (take 8 cmd)\<rparr>;
          sqe = sqe\<lparr>sqe_pad2 := from_le_bytes (take 8 (drop 8 cmd))\<rparr>;
          sqe = (case buf_index of None \<Rightarrow> sqe
             | Some buf_index \<Rightarrow> (let sqe = sqe\<lparr>sqe_buf_index := buf_index\<rparr>
               in sqe\<lparr>sqe_op_flags := sqe_op_flags sqe OR IORING_URING_CMD_FIXED\<rparr>))
      in Entry sqe)"

record UringCmd80 =
  uringcmd80_fd :: Target
  uringcmd80_cmd_op :: u32
  uringcmd80_buf_index :: "u16 option"
  uringcmd80_cmd :: "u8 list"

definition UringCmd80_new :: "Target \<Rightarrow> u32 \<Rightarrow> UringCmd80" where
  "UringCmd80_new fd cmd_op = \<lparr>uringcmd80_fd = fd, uringcmd80_cmd_op = cmd_op,
     uringcmd80_buf_index = None, uringcmd80_cmd = replicate 80 0\<rparr>"

definition UringCmd80_CODE :: u8 where
  "UringCmd80_CODE = ucast IORING_OP_URING_CMD"

definition UringCmd80_buf_index :: "UringCmd80 \<Rightarrow> (u16 option) \<Rightarrow> UringCmd80" where
  "UringCmd80_buf_index self buf_index = self\<lparr>uringcmd80_buf_index := buf_index\<rparr>"

definition UringCmd80_cmd :: "UringCmd80 \<Rightarrow> (u8 list) \<Rightarrow> UringCmd80" where
  "UringCmd80_cmd self cmd = self\<lparr>uringcmd80_cmd := cmd\<rparr>"

definition UringCmd80_build :: "UringCmd80 \<Rightarrow> Entry128" where
  "UringCmd80_build self =
     (let fd = uringcmd80_fd self;
          cmd_op = uringcmd80_cmd_op self;
          buf_index = uringcmd80_buf_index self;
          cmd = uringcmd80_cmd self;
          cmd1 = take 16 cmd;
          cmd2 = drop 16 cmd;
          sqe = sqe_zeroed;
          sqe = sqe\<lparr>sqe_opcode := UringCmd80_CODE\<rparr>;
          sqe = assign_fd sqe fd;
          sqe = sqe\<lparr>sqe_off := ucast cmd_op\<rparr>;
          sqe = sqe\<lparr>sqe_addr3 := from_le_bytes (take 8 cmd1)\<rparr>;
          sqe = sqe\<lparr>sqe_pad2 := from_le_bytes (take 8 (drop 8 cmd1))\<rparr>;
          sqe = (case buf_index of None \<Rightarrow> sqe
             | Some buf_index \<Rightarrow> (let sqe = sqe\<lparr>sqe_buf_index := buf_index\<rparr>
               in sqe\<lparr>sqe_op_flags := sqe_op_flags sqe OR IORING_URING_CMD_FIXED\<rparr>))
      in Entry128 (Entry sqe) cmd2)"

record SetSockOpt =
  setsockopt_fd :: Target
  setsockopt_level :: u32
  setsockopt_optname :: u32
  setsockopt_optval :: u64
  setsockopt_optlen :: u32
  setsockopt_flags :: u32

definition SetSockOpt_new :: "Target \<Rightarrow> u32 \<Rightarrow> u32 \<Rightarrow> u64 \<Rightarrow> u32 \<Rightarrow> SetSockOpt" where
  "SetSockOpt_new fd level optname optval optlen = \<lparr>setsockopt_fd = fd,
     setsockopt_level = level, setsockopt_optname = optname, setsockopt_optval = optval,
     setsockopt_optlen = optlen, setsockopt_flags = 0\<rparr>"

definition SetSockOpt_CODE :: u8 where
  "SetSockOpt_CODE = ucast IORING_OP_URING_CMD"

definition SetSockOpt_flags :: "SetSockOpt \<Rightarrow> u32 \<Rightarrow> SetSockOpt" where
  "SetSockOpt_flags self flags = self\<lparr>setsockopt_flags := flags\<rparr>"

definition SetSockOpt_build :: "SetSockOpt \<Rightarrow> Entry" where
  "SetSockOpt_build self =
     (let fd = setsockopt_fd self;
          level = setsockopt_level self;
          optname = setsockopt_optname self;
          optval = setsockopt_optval self;
          optlen = setsockopt_optlen self;
          flags = setsockopt_flags self;
          sqe = sqe_zeroed;
          sqe = sqe\<lparr>sqe_opcode := SetSockOpt_CODE\<rparr>;
          sqe = assign_fd sqe fd;
          sqe = sqe\<lparr>sqe_off := ucast SOCKET_URING_OP_SETSOCKOPT\<rparr>;
          sqe = sqe\<lparr>sqe_addr := push_bit 32 (ucast optname) OR ucast level\<rparr>;
          sqe = sqe\<lparr>sqe_op_flags := flags\<rparr>;
          sqe = sqe\<lparr>sqe_splice_fd_in := optlen\<rparr>;
          sqe = sqe\<lparr>sqe_addr3 := optval\<rparr>
      in Entry sqe)"

record FutexWait =
  futexwait_futex :: u64
  futexwait_val :: u64
  futexwait_mask :: u64
  futexwait_futex_flags :: u32
  futexwait_flags :: u32

definition FutexWait_new :: "u64 \<Rightarrow> u64 \<Rightarrow> u64 \<Rightarrow> u32 \<Rightarrow> FutexWait" where
  "FutexWait_new futex val mask_bits futex_flags = \<lparr>futexwait_futex = futex,
     futexwait_val = val, futexwait_mask = mask_bits, futexwait_futex_flags = futex_flags,
     futexwait_flags = 0\<rparr>"

definition FutexWait_CODE :: u8 where
  "FutexWait_CODE = ucast IORING_OP_FUTEX_WAIT"

definition FutexWait_flags :: "FutexWait \<Rightarrow> u32 \<Rightarrow> FutexWait" where
  "FutexWait_flags self flags = self\<lparr>futexwait_flags := flags\<rparr>"

definition FutexWait_build :: "FutexWait \<Rightarrow> Entry" where
  "FutexWait_build self =
     (let futex = futexwait_futex self;
          val = futexwait_val self;
          mask_bits = futexwait_mask self;
          futex_flags = futexwait_futex_flags self;
          flags = futexwait_flags self;
          sqe = sqe_zeroed;
          sqe = sqe\<lparr>sqe_opcode := FutexWait_CODE\<rparr>;
          sqe = sqe\<lparr>sqe_fd := futex_flags\<rparr>;
          sqe = sqe\<lparr>sqe_addr := futex\<rparr>;
          sqe = sqe\<lparr>sqe_off := val\<rparr>;
          sqe = sqe\<lparr>sqe_addr3 := mask_bits\<rparr>;
          sqe = sqe\<lparr>sqe_op_flags := flags\<rparr>
      in Entry sqe)"

record FutexWake =
  futexwake_futex :: u64
  futexwake_val :: u64
  futexwake_mask :: u64
  futexwake_futex_flags :: u32
  futexwake_flags :: u32

definition FutexWake_new :: "u64 \<Rightarrow> u64 \<Rightarrow> u64 \<Rightarrow> u32 \<Rightarrow> FutexWake" where
  "FutexWake_new futex val mask_bits futex_flags = \<lparr>futexwake_futex = futex,
     futexwake_val = val, futexwake_mask = mask_bits, futexwake_futex_flags = futex_flags,
     futexwake_flags = 0\<rparr>"

definition FutexWake_CODE :: u8 where
  "FutexWake_CODE = ucast IORING_OP_FUTEX_WAKE"

definition FutexWake_flags :: "FutexWake \<Rightarrow> u32 \<Rightarrow> FutexWake" where
  "FutexWake_flags self flags = self\<lparr>futexwake_flags := flags\<rparr>"

definition FutexWake_build :: "FutexWake \<Rightarrow> Entry" where
  "FutexWake_build self =
     (let futex = futexwake_futex self;
          val = futexwake_val self;
          mask_bits = futexwake_mask self;
          futex_flags = futexwake_futex_flags self;
          flags = futexwake_flags self;
          sqe = sqe_zeroed;
          sqe = sqe\<lparr>sqe_opcode := FutexWake_CODE\<rparr>;
          sqe = sqe\<lparr>sqe_fd := futex_flags\<rparr>;
          sqe = sqe\<lparr>sqe_addr := futex\<rparr>;
          sqe = sqe\<lparr>sqe_off := val\<rparr>;
          sqe = sqe\<lparr>sqe_addr3 := mask_bits\<rparr>;
          sqe = sqe\<lparr>sqe_op_flags := flags\<rparr>
      in Entry sqe)"

record FutexWaitV_op =
  futexwaitv_op_futexv :: u64
  futexwaitv_op_nr_futex :: u32
  futexwaitv_op_flags :: u32

definition FutexWaitV_op_new :: "u64 \<Rightarrow> u32 \<Rightarrow> FutexWaitV_op" where
  "FutexWaitV_op_new futexv nr_futex = \<lparr>futexwaitv_op_futexv = futexv,
     futexwaitv_op_nr_futex = nr_futex, futexwaitv_op_flags = 0\<rparr>"

definition FutexWaitV_op_CODE :: u8 where
  "FutexWaitV_op_CODE = ucast IORING_OP_FUTEX_WAITV"

definition FutexWaitV_op_flags :: "FutexWaitV_op \<Rightarrow> u32 \<Rightarrow> FutexWaitV_op" where
  "FutexWaitV_op_flags self flags = self\<lparr>futexwaitv_op_flags := flags\<rparr>"

definition FutexWaitV_op_build :: "FutexWaitV_op \<Rightarrow> Entry" where
  "FutexWaitV_op_build self =
     (let futexv = futexwaitv_op_futexv self;
          nr_futex = futexwaitv_op_nr_futex self;
          flags = futexwaitv_op_flags self;
          sqe = sqe_zeroed;
          sqe = sqe\<lparr>sqe_opcode := FutexWaitV_op_CODE\<rparr>;
          sqe = sqe\<lparr>sqe_addr := futexv\<rparr>;
          sqe = sqe\<lparr>sqe_len := nr_futex\<rparr>;
          sqe = sqe\<lparr>sqe_op_flags := flags\<rparr>
      in Entry sqe)"

record WaitId =
  waitid_idtype :: u32
  waitid_id :: u32
  waitid_options :: i32
  waitid_infop :: u64
  waitid_flags :: u32

definition WaitId_new :: "u32 \<Rightarrow> u32 \<Rightarrow> i32 \<Rightarrow> WaitId" where
  "WaitId_new idtype ident options = \<lparr>waitid_idtype = idtype, waitid_id = ident,
     waitid_options = options, waitid_infop = 0, waitid_flags = 0\<rparr>"

definition WaitId_CODE :: u8 where
  "WaitId_CODE = ucast IORING_OP_WAITID"

definition WaitId_infop :: "WaitId \<Rightarrow> u64 \<Rightarrow> WaitId" where
  "WaitId_infop self infop = self\<lparr>waitid_infop := infop\<rparr>"

definition WaitId_flags :: "WaitId \<Rightarrow> u32 \<Rightarrow> WaitId" where
  "WaitId_flags self flags = self\<lparr>waitid_flags := flags\<rparr>"

definition WaitId_build :: "WaitId \<Rightarrow> Entry" where
  "WaitId_build self =
     (let idtype = waitid_idtype self;
          ident = waitid_id self;
          options = waitid_options self;
          infop = waitid_infop self;
          flags = waitid_flags self;
          sqe = sqe_zeroed;
          sqe = sqe\<lparr>sqe_opcode := WaitId_CODE\<rparr>;
          sqe = sqe\<lparr>sqe_fd := ident\<rparr>;
          sqe = sqe\<lparr>sqe_len := idtype\<rparr>;
          sqe = sqe\<lparr>sqe_op_flags := flags\<rparr>;
          sqe = sqe\<lparr>sqe_splice_fd_in := options\<rparr>;
          sqe = sqe\<lparr>sqe_off := infop\<rparr>
      in Entry sqe)"

record FixedFdInstall =
  fixedfdinstall_fd :: Fixed
  fixedfdinstall_file_flags :: u32

definition FixedFdInstall_new :: "Fixed \<Rightarrow> u32 \<Rightarrow> FixedFdInstall" where
  "FixedFdInstall_new fd file_flags = \<lparr>fixedfdinstall_fd = fd,
     fixedfdinstall_file_flags = file_flags\<rparr>"

definition FixedFdInstall_CODE :: u8 where
  "FixedFdInstall_CODE = ucast IORING_OP_FIXED_FD_INSTALL"

definition FixedFdInstall_build :: "FixedFdInstall \<Rightarrow> Entry" where
  "FixedFdInstall_build self =
     (let fd = fixedfdinstall_fd self;
          file_flags = fixedfdinstall_file_flags self;
          sqe = sqe_zeroed;
          sqe = sqe\<lparr>sqe_opcode := FixedFdInstall_CODE\<rparr>;
          sqe = sqe\<lparr>sqe_fd := fixed_0 fd\<rparr>;
          sqe = sqe\<lparr>sqe_flags := Flags_FIXED_FILE\<rparr>;
          sqe = sqe\<lparr>sqe_op_flags := file_flags\<rparr>
      in Entry sqe)"

record RecvZc =
  recvzc_fd :: Target
  recvzc_len :: u32
  recvzc_ifq :: u32
  recvzc_ioprio :: u16

definition RecvZc_new :: "Target \<Rightarrow> u32 \<Rightarrow> RecvZc" where
  "RecvZc_new fd len = \<lparr>recvzc_fd = fd, recvzc_len = len, recvzc_ifq = 0,
     recvzc_ioprio = 0\<rparr>"

definition RecvZc_CODE :: u8 where
  "RecvZc_CODE = ucast IORING_OP_RECV_ZC"

definition RecvZc_ifq :: "RecvZc \<Rightarrow> u32 \<Rightarrow> RecvZc" where
  "RecvZc_ifq self ifq = self\<lparr>recvzc_ifq := ifq\<rparr>"

definition RecvZc_ioprio :: "RecvZc \<Rightarrow> u16 \<Rightarrow> RecvZc" where
  "RecvZc_ioprio self ioprio = self\<lparr>recvzc_ioprio := ioprio\<rparr>"

definition RecvZc_build :: "RecvZc \<Rightarrow> Entry" where
  "RecvZc_build self =
     (let fd = recvzc_fd self;
          len = recvzc_len self;
          ifq = recvzc_ifq self;
          ioprio = recvzc_ioprio self;
          sqe = sqe_zeroed;
          sqe = sqe\<lparr>sqe_opcode := RecvZc_CODE\<rparr>;
          sqe = assign_fd sqe fd;
          sqe = sqe\<lparr>sqe_len := len\<rparr>;
          sqe = sqe\<lparr>sqe_ioprio := ioprio OR ucast IORING_RECV_MULTISHOT\<rparr>;
          sqe = sqe\<lparr>sqe_splice_fd_in := ifq\<rparr>
      in Entry sqe)"

record EpollWait =
  epollwait_fd :: Target
  epollwait_events :: u64
  epollwait_max_events :: u32
  epollwait_flags :: u32

definition EpollWait_new :: "Target \<Rightarrow> u64 \<Rightarrow> u32 \<Rightarrow> EpollWait" where
  "EpollWait_new fd events max_events = \<lparr>epollwait_fd = fd, epollwait_events = events,
     epollwait_max_events = max_events, epollwait_flags = 0\<rparr>"

definition EpollWait_CODE :: u8 where
  "EpollWait_CODE = ucast IORING_OP_EPOLL_WAIT"

definition EpollWait_flags :: "EpollWait \<Rightarrow> u32 \<Rightarrow> EpollWait" where
  "EpollWait_flags self flags = self\<lparr>epollwait_flags := flags\<rparr>"

definition EpollWait_build :: "EpollWait \<Rightarrow> Entry" where
  "EpollWait_build self =
     (let fd = epollwait_fd self;
          events = epollwait_events self;
          max_events = epollwait_max_events self;
          flags = epollwait_flags self;
          sqe = sqe_zeroed;
          sqe = sqe\<lparr>sqe_opcode := EpollWait_CODE\<rparr>;
          sqe = assign_fd sqe fd;
          sqe = sqe\<lparr>sqe_addr := events\<rparr>;
          sqe = sqe\<lparr>sqe_len := max_events\<rparr>;
          sqe = sqe\<lparr>sqe_op_flags := flags\<rparr>
      in Entry sqe)"

record ReadvFixed =
  readvfixed_fd :: Target
  readvfixed_iovec :: u64
  readvfixed_len :: u32
  readvfixed_buf_index :: u16
  readvfixed_ioprio :: u16
  readvfixed_offset :: u64
  readvfixed_rw_flags :: i32

definition ReadvFixed_new :: "Target \<Rightarrow> u64 \<Rightarrow> u32 \<Rightarrow> u16 \<Rightarrow> ReadvFixed" where
  "ReadvFixed_new fd iovec len buf_index = \<lparr>readvfixed_fd = fd,
     readvfixed_iovec = iovec, readvfixed_len = len, readvfixed_buf_index = buf_index,
     readvfixed_ioprio = 0, readvfixed_offset = 0, readvfixed_rw_flags = 0\<rparr>"

definition ReadvFixed_CODE :: u8 where
  "ReadvFixed_CODE = ucast IORING_OP_READV_FIXED"

definition ReadvFixed_ioprio :: "ReadvFixed \<Rightarrow> u16 \<Rightarrow> ReadvFixed" where
  "ReadvFixed_ioprio self ioprio = self\<lparr>readvfixed_ioprio := ioprio\<rparr>"

definition ReadvFixed_offset :: "ReadvFixed \<Rightarrow> u64 \<Rightarrow> ReadvFixed" where
  "ReadvFixed_offset self offset = self\<lparr>readvfixed_offset := offset\<rparr>"

definition ReadvFixed_rw_flags :: "ReadvFixed \<Rightarrow> i32 \<Rightarrow> ReadvFixed" where
  "ReadvFixed_rw_flags self rw_flags = self\<lparr>readvfixed_rw_flags := rw_flags\<rparr>"

definition ReadvFixed_build :: "ReadvFixed \<Rightarrow> Entry" where
  "ReadvFixed_build self =
     (let fd = readvfixed_fd self;
          iovec = readvfixed_iovec self;
          len = readvfixed_len self;
          buf_index = readvfixed_buf_index self;
          ioprio = readvfixed_ioprio self;
          offset = readvfixed_offset self;
          rw_flags = readvfixed_rw_flags self;
          sqe = sqe_zeroed;
          sqe = sqe\<lparr>sqe_opcode := ReadvFixed_CODE\<rparr>;
          sqe = assign_fd sqe fd;
          sqe = sqe\<lparr>sqe_off := offset\<rparr>;
          sqe = sqe\<lparr>sqe_addr := iovec\<rparr>;
          sqe = sqe\<lparr>sqe_len := len\<rparr>;
          sqe = sqe\<lparr>sqe_buf_index := buf_index\<rparr>;
          sqe = sqe\<lparr>sqe_ioprio := ioprio\<rparr>;
          sqe = sqe\<lparr>sqe_op_flags := rw_flags\<rparr>
      in Entry sqe)"

record WritevFixed =
  writevfixed_fd :: Target
  writevfixed_iovec :: u64
  writevfixed_len :: u32
  writevfixed_buf_index :: u16
  writevfixed_ioprio :: u16
  writevfixed_offset :: u64
  writevfixed_rw_flags :: i32

definition WritevFixed_new :: "Target \<Rightarrow> u64 \<Rightarrow> u32 \<Rightarrow> u16 \<Rightarrow> WritevFixed" where
  "WritevFixed_new fd iovec len buf_index = \<lparr>writevfixed_fd = fd,
     writevfixed_iovec = iovec, writevfixed_len = len, writevfixed_buf_index = buf_index,
     writevfixed_ioprio = 0, writevfixed_offset = 0, writevfixed_rw_flags = 0\<rparr>"

definition WritevFixed_CODE :: u8 where
  "WritevFixed_CODE = ucast IORING_OP_WRITEV_FIXED"

definition WritevFixed_ioprio :: "WritevFixed \<Rightarrow> u16 \<Rightarrow> WritevFixed" where
  "WritevFixed_ioprio self ioprio = self\<lparr>writevfixed_ioprio := ioprio\<rparr>"

definition WritevFixed_offset :: "WritevFixed \<Rightarrow> u64 \<Rightarrow> WritevFixed" where
  "WritevFixed_offset self offset = self\<lparr>writevfixed_offset := offset\<rparr>"

definition WritevFixed_rw_flags :: "WritevFixed \<Rightarrow> i32 \<Rightarrow> WritevFixed" where
  "WritevFixed_rw_flags self rw_flags = self\<lparr>writevfixed_rw_flags := rw_flags\<rparr>"

definition WritevFixed_build :: "WritevFixed \<Rightarrow> Entry" where
  "WritevFixed_build self =
     (let fd = writevfixed_fd self;
          iovec = writevfixed_iovec self;
          len = writevfixed_len self;
          buf_index = writevfixed_buf_index self;
          ioprio = writevfixed_ioprio self;
          offset = writevfixed_offset self;
          rw_flags = writevfixed_rw_flags self;
          sqe = sqe_zeroed;
          sqe = sqe\<lparr>sqe_opcode := WritevFixed_CODE\<rparr>;
          sqe = assign_fd sqe fd;
          sqe = sqe\<lparr>sqe_off := offset\<rparr>;
          sqe = sqe\<lparr>sqe_addr := iovec\<rparr>;
          sqe = sqe\<lparr>sqe_len := len\<rparr>;
          sqe = sqe\<lparr>sqe_buf_index := buf_index\<rparr>;
          sqe = sqe\<lparr>sqe_ioprio := ioprio\<rparr>;
          sqe = sqe\<lparr>sqe_op_flags := rw_flags\<rparr>
      in Entry sqe)"

record Pipe =
  pipe_fds :: u64
  pipe_flags :: u32
  pipe_file_index :: "DestinationSlot option"

definition Pipe_new :: "u64 \<Rightarrow> Pipe" where
  "Pipe_new fds = \<lparr>pipe_fds = fds, pipe_flags = 0, pipe_file_index = None\<rparr>"

definition Pipe_CODE :: u8 where
  "Pipe_CODE = ucast IORING_OP_PIPE"

definition Pipe_flags :: "Pipe \<Rightarrow> u32 \<Rightarrow> Pipe" where
  "Pipe_flags self flags = self\<lparr>pipe_flags := flags\<rparr>"

definition Pipe_file_index :: "Pipe \<Rightarrow> (DestinationSlot option) \<Rightarrow> Pipe" where
  "Pipe_file_index self file_index = self\<lparr>pipe_file_index := file_index\<rparr>"

definition Pipe_build :: "Pipe \<Rightarrow> Entry" where
  "Pipe_build self =
     (let fds = pipe_fds self;
          flags = pipe_flags self;
          file_index = pipe_file_index self;
          sqe = sqe_zeroed;
          sqe = sqe\<lparr>sqe_opcode := Pipe_CODE\<rparr>;
          sqe = sqe\<lparr>sqe_fd := 0\<rparr>;
          sqe = sqe\<lparr>sqe_addr := fds\<rparr>;
          sqe = sqe\<lparr>sqe_op_flags := flags\<rparr>;
          sqe = (case file_index of None \<Rightarrow> sqe
             | Some dest \<Rightarrow> sqe\<lparr>sqe_splice_fd_in := kernel_index_arg dest\<rparr>)
      in Entry sqe)"

end
