(* ===== verification/Miring_Opcode_Laws.thy ===== *)
theory Miring_Opcode_Laws
  imports Miring_Submit_Laws Miring_Dispatch_Props Miring_Opcode_A Miring_Opcode_B Miring_Opcode_C
begin

text \<open>
  What the operation builders of \<^verbatim>\<open>src/opcode.rs\<close> promise.  All of them build a
  fresh entry: it has the builder's opcode, which the dispatcher handles, no user data and no
  personality, and no flag but those that select a fixed file or a buffer group, so that it is
  not linked and its completion is not skipped.  This contract is the locale
  \<open>op_builder\<close>, which every builder instantiates.  The other lemmas say that a builder and
  the handler of its opcode agree on where the arguments are, and that packed arguments can be
  read back.
\<close>

section \<open>The contract of a builder\<close>

definition fresh_sqe :: "u8 \<Rightarrow> io_uring_sqe \<Rightarrow> bool" where
  "fresh_sqe code sqe \<longleftrightarrow> sqe_opcode sqe = code \<and> sqe_user_data sqe = 0 \<and> sqe_personality sqe = 0
     \<and> sqe_flags sqe \<in> {0, Flags_FIXED_FILE, Flags_BUFFER_SELECT, Flags_FIXED_FILE OR Flags_BUFFER_SELECT}"

lemmas Flags_defs = Flags_FIXED_FILE_def Flags_IO_DRAIN_def Flags_IO_LINK_def Flags_IO_HARDLINK_def
  Flags_ASYNC_def Flags_BUFFER_SELECT_def Flags_SKIP_SUCCESS_def

lemma fresh_sqe_plain:
  "fresh_sqe code sqe \<Longrightarrow> \<not> links sqe \<and> \<not> is_skip_success sqe"
  by (auto simp: fresh_sqe_def links_def is_link_def is_hardlink_def is_skip_success_def Flags_defs
      sys_consts)

locale op_builder =
  fixes build :: "'b \<Rightarrow> Entry" and code :: u8
  assumes fresh: "fresh_sqe code (entry_sqe (build b))"
    and code_handled: "ucast code < IORING_OP_LAST"
begin

lemma opcode_handled: "Entry_get_opcode (build b) \<in> set HANDLED_OPCODES"
  using fresh [of b] code_handled by (simp add: Entry_get_opcode_def fresh_sqe_def handled_iff)

lemma own_chain: "link_chains (entry_sqe (build b) # ss) = [entry_sqe (build b)] # link_chains ss"
  using fresh_sqe_plain [OF fresh [of b]] by simp

lemma never_skipped: "visible (completed r (entry_sqe (build b)))"
  using fresh_sqe_plain [OF fresh [of b]] by (simp add: visible_def completed_def)

end

lemmas build_simps = Let_def assign_fd_def sqe_zeroed_def io_uring_sqe_default_def fresh_sqe_def
  sys_consts Flags_defs

interpretation b_Nop: op_builder Nop_build Nop_CODE
  by unfold_locales (auto simp: build_simps Nop_build_def Nop_CODE_def split: Target.splits option.splits)

interpretation b_Readv: op_builder Readv_build Readv_CODE
  by unfold_locales (auto simp: build_simps Readv_build_def Readv_CODE_def split: Target.splits option.splits)

interpretation b_Writev: op_builder Writev_build Writev_CODE
  by unfold_locales (auto simp: build_simps Writev_build_def Writev_CODE_def split: Target.splits option.splits)

interpretation b_Fsync: op_builder Fsync_build Fsync_CODE
  by unfold_locales (auto simp: build_simps Fsync_build_def Fsync_CODE_def split: Target.splits option.splits)

interpretation b_ReadFixed: op_builder ReadFixed_build ReadFixed_CODE
  by unfold_locales (auto simp: build_simps ReadFixed_build_def ReadFixed_CODE_def split: Target.splits option.splits)

interpretation b_WriteFixed: op_builder WriteFixed_build WriteFixed_CODE
  by unfold_locales (auto simp: build_simps WriteFixed_build_def WriteFixed_CODE_def split: Target.splits option.splits)

interpretation b_PollAdd: op_builder PollAdd_build PollAdd_CODE
  by unfold_locales (auto simp: build_simps PollAdd_build_def PollAdd_CODE_def split: Target.splits option.splits)

interpretation b_PollRemove: op_builder PollRemove_build PollRemove_CODE
  by unfold_locales (auto simp: build_simps PollRemove_build_def PollRemove_CODE_def split: Target.splits option.splits)

interpretation b_SyncFileRange: op_builder SyncFileRange_build SyncFileRange_CODE
  by unfold_locales (auto simp: build_simps SyncFileRange_build_def SyncFileRange_CODE_def split: Target.splits option.splits)

interpretation b_SendMsg: op_builder SendMsg_build SendMsg_CODE
  by unfold_locales (auto simp: build_simps SendMsg_build_def SendMsg_CODE_def split: Target.splits option.splits)

interpretation b_RecvMsg: op_builder RecvMsg_build RecvMsg_CODE
  by unfold_locales (auto simp: build_simps RecvMsg_build_def RecvMsg_CODE_def split: Target.splits option.splits)

interpretation b_Timeout: op_builder Timeout_build Timeout_CODE
  by unfold_locales (auto simp: build_simps Timeout_build_def Timeout_CODE_def split: Target.splits option.splits)

interpretation b_TimeoutRemove: op_builder TimeoutRemove_build TimeoutRemove_CODE
  by unfold_locales (auto simp: build_simps TimeoutRemove_build_def TimeoutRemove_CODE_def split: Target.splits option.splits)

interpretation b_AsyncCancel: op_builder AsyncCancel_build AsyncCancel_CODE
  by unfold_locales (auto simp: build_simps AsyncCancel_build_def AsyncCancel_CODE_def split: Target.splits option.splits)

interpretation b_LinkTimeout: op_builder LinkTimeout_build LinkTimeout_CODE
  by unfold_locales (auto simp: build_simps LinkTimeout_build_def LinkTimeout_CODE_def split: Target.splits option.splits)

interpretation b_Connect: op_builder Connect_build Connect_CODE
  by unfold_locales (auto simp: build_simps Connect_build_def Connect_CODE_def split: Target.splits option.splits)

interpretation b_Fallocate: op_builder Fallocate_build Fallocate_CODE
  by unfold_locales (auto simp: build_simps Fallocate_build_def Fallocate_CODE_def split: Target.splits option.splits)

interpretation b_Close: op_builder Close_build Close_CODE
  by unfold_locales (auto simp: build_simps Close_build_def Close_CODE_def split: Target.splits option.splits)

interpretation b_FilesUpdate: op_builder FilesUpdate_build FilesUpdate_CODE
  by unfold_locales (auto simp: build_simps FilesUpdate_build_def FilesUpdate_CODE_def split: Target.splits option.splits)

interpretation b_Statx: op_builder Statx_build Statx_CODE
  by unfold_locales (auto simp: build_simps Statx_build_def Statx_CODE_def split: Target.splits option.splits)

interpretation b_Read: op_builder Read_build Read_CODE
  by unfold_locales (auto simp: build_simps Read_build_def Read_CODE_def split: Target.splits option.splits)

interpretation b_Write: op_builder Write_build Write_CODE
  by unfold_locales (auto simp: build_simps Write_build_def Write_CODE_def split: Target.splits option.splits)

interpretation b_Send: op_builder Send_build Send_CODE
  by unfold_locales (auto simp: build_simps Send_build_def Send_CODE_def split: Target.splits option.splits)

interpretation b_Recv: op_builder Recv_build Recv_CODE
  by unfold_locales (auto simp: build_simps Recv_build_def Recv_CODE_def split: Target.splits option.splits)

interpretation b_EpollCtl: op_builder EpollCtl_build EpollCtl_CODE
  by unfold_locales (auto simp: build_simps EpollCtl_build_def EpollCtl_CODE_def split: Target.splits option.splits)

interpretation b_Splice: op_builder Splice_build Splice_CODE
  by unfold_locales (auto simp: build_simps Splice_build_def Splice_CODE_def split: Target.splits option.splits)

interpretation b_ProvideBuffers: op_builder ProvideBuffers_build ProvideBuffers_CODE
  by unfold_locales (auto simp: build_simps ProvideBuffers_build_def ProvideBuffers_CODE_def split: Target.splits option.splits)

interpretation b_RemoveBuffers: op_builder RemoveBuffers_build RemoveBuffers_CODE
  by unfold_locales (auto simp: build_simps RemoveBuffers_build_def RemoveBuffers_CODE_def split: Target.splits option.splits)

interpretation b_Tee: op_builder Tee_build Tee_CODE
  by unfold_locales (auto simp: build_simps Tee_build_def Tee_CODE_def split: Target.splits option.splits)

interpretation b_Shutdown: op_builder Shutdown_build Shutdown_CODE
  by unfold_locales (auto simp: build_simps Shutdown_build_def Shutdown_CODE_def split: Target.splits option.splits)

interpretation b_RenameAt: op_builder RenameAt_build RenameAt_CODE
  by unfold_locales (auto simp: build_simps RenameAt_build_def RenameAt_CODE_def split: Target.splits option.splits)

interpretation b_UnlinkAt: op_builder UnlinkAt_build UnlinkAt_CODE
  by unfold_locales (auto simp: build_simps UnlinkAt_build_def UnlinkAt_CODE_def split: Target.splits option.splits)

interpretation b_MkDirAt: op_builder MkDirAt_build MkDirAt_CODE
  by unfold_locales (auto simp: build_simps MkDirAt_build_def MkDirAt_CODE_def split: Target.splits option.splits)

interpretation b_SymlinkAt: op_builder SymlinkAt_build SymlinkAt_CODE
  by unfold_locales (auto simp: build_simps SymlinkAt_build_def SymlinkAt_CODE_def split: Target.splits option.splits)

interpretation b_LinkAt: op_builder LinkAt_build LinkAt_CODE
  by unfold_locales (auto simp: build_simps LinkAt_build_def LinkAt_CODE_def split: Target.splits option.splits)

interpretation b_MsgRing: op_builder MsgRing_build MsgRing_CODE
  by unfold_locales (auto simp: build_simps MsgRing_build_def MsgRing_CODE_def split: Target.splits option.splits)

interpretation b_MsgRingSendFd: op_builder MsgRingSendFd_build MsgRingSendFd_CODE
  by unfold_locales (auto simp: build_simps MsgRingSendFd_build_def MsgRingSendFd_CODE_def split: Target.splits option.splits)

interpretation b_SendZc: op_builder SendZc_build SendZc_CODE
  by unfold_locales (auto simp: build_simps SendZc_build_def SendZc_CODE_def split: Target.splits option.splits)

interpretation b_SendMsgZc: op_builder SendMsgZc_build SendMsgZc_CODE
  by unfold_locales (auto simp: build_simps SendMsgZc_build_def SendMsgZc_CODE_def split: Target.splits option.splits)

interpretation b_Ftruncate: op_builder Ftruncate_build Ftruncate_CODE
  by unfold_locales (auto simp: build_simps Ftruncate_build_def Ftruncate_CODE_def split: Target.splits option.splits)

interpretation b_Bind: op_builder Bind_build Bind_CODE
  by unfold_locales (auto simp: build_simps Bind_build_def Bind_CODE_def split: Target.splits option.splits)

interpretation b_Listen: op_builder Listen_build Listen_CODE
  by unfold_locales (auto simp: build_simps Listen_build_def Listen_CODE_def split: Target.splits option.splits)

interpretation b_Fadvise: op_builder Fadvise_build Fadvise_CODE
  by unfold_locales (auto simp: build_simps Fadvise_build_def Fadvise_CODE_def split: Target.splits option.splits)

interpretation b_Madvise: op_builder Madvise_build Madvise_CODE
  by unfold_locales (auto simp: build_simps Madvise_build_def Madvise_CODE_def split: Target.splits option.splits)

interpretation b_AcceptMulti: op_builder AcceptMulti_build AcceptMulti_CODE
  by unfold_locales (auto simp: build_simps AcceptMulti_build_def AcceptMulti_CODE_def split: Target.splits option.splits)

interpretation b_RecvMulti: op_builder RecvMulti_build RecvMulti_CODE
  by unfold_locales (auto simp: build_simps RecvMulti_build_def RecvMulti_CODE_def split: Target.splits option.splits)

interpretation b_RecvMsgMulti: op_builder RecvMsgMulti_build RecvMsgMulti_CODE
  by unfold_locales (auto simp: build_simps RecvMsgMulti_build_def RecvMsgMulti_CODE_def split: Target.splits option.splits)

interpretation b_RecvBundle: op_builder RecvBundle_build RecvBundle_CODE
  by unfold_locales (auto simp: build_simps RecvBundle_build_def RecvBundle_CODE_def split: Target.splits option.splits)

interpretation b_RecvMultiBundle: op_builder RecvMultiBundle_build RecvMultiBundle_CODE
  by unfold_locales (auto simp: build_simps RecvMultiBundle_build_def RecvMultiBundle_CODE_def split: Target.splits option.splits)

interpretation b_SendBundle: op_builder SendBundle_build SendBundle_CODE
  by unfold_locales (auto simp: build_simps SendBundle_build_def SendBundle_CODE_def split: Target.splits option.splits)

interpretation b_ReadMulti: op_builder ReadMulti_build ReadMulti_CODE
  by unfold_locales (auto simp: build_simps ReadMulti_build_def ReadMulti_CODE_def split: Target.splits option.splits)

interpretation b_GetXattr: op_builder GetXattr_build GetXattr_CODE
  by unfold_locales (auto simp: build_simps GetXattr_build_def GetXattr_CODE_def split: Target.splits option.splits)

interpretation b_SetXattr: op_builder SetXattr_build SetXattr_CODE
  by unfold_locales (auto simp: build_simps SetXattr_build_def SetXattr_CODE_def split: Target.splits option.splits)

interpretation b_FGetXattr: op_builder FGetXattr_build FGetXattr_CODE
  by unfold_locales (auto simp: build_simps FGetXattr_build_def FGetXattr_CODE_def split: Target.splits option.splits)

interpretation b_FSetXattr: op_builder FSetXattr_build FSetXattr_CODE
  by unfold_locales (auto simp: build_simps FSetXattr_build_def FSetXattr_CODE_def split: Target.splits option.splits)

interpretation b_AsyncCancel2: op_builder AsyncCancel2_build AsyncCancel2_CODE
  by unfold_locales (auto simp: build_simps AsyncCancel2_build_def AsyncCancel2_CODE_def split: Target.splits option.splits)

interpretation b_TimeoutUpdate: op_builder TimeoutUpdate_build TimeoutUpdate_CODE
  by unfold_locales (auto simp: build_simps TimeoutUpdate_build_def TimeoutUpdate_CODE_def split: Target.splits option.splits)

interpretation b_UringCmd16: op_builder UringCmd16_build UringCmd16_CODE
  by unfold_locales (auto simp: build_simps UringCmd16_build_def UringCmd16_CODE_def split: Target.splits option.splits)

interpretation b_SetSockOpt: op_builder SetSockOpt_build SetSockOpt_CODE
  by unfold_locales (auto simp: build_simps SetSockOpt_build_def SetSockOpt_CODE_def split: Target.splits option.splits)

interpretation b_FutexWait: op_builder FutexWait_build FutexWait_CODE
  by unfold_locales (auto simp: build_simps FutexWait_build_def FutexWait_CODE_def split: Target.splits option.splits)

interpretation b_FutexWake: op_builder FutexWake_build FutexWake_CODE
  by unfold_locales (auto simp: build_simps FutexWake_build_def FutexWake_CODE_def split: Target.splits option.splits)

interpretation b_FutexWaitV_op: op_builder FutexWaitV_op_build FutexWaitV_op_CODE
  by unfold_locales (auto simp: build_simps FutexWaitV_op_build_def FutexWaitV_op_CODE_def split: Target.splits option.splits)

interpretation b_WaitId: op_builder WaitId_build WaitId_CODE
  by unfold_locales (auto simp: build_simps WaitId_build_def WaitId_CODE_def split: Target.splits option.splits)

interpretation b_FixedFdInstall: op_builder FixedFdInstall_build FixedFdInstall_CODE
  by unfold_locales (auto simp: build_simps FixedFdInstall_build_def FixedFdInstall_CODE_def split: Target.splits option.splits)

interpretation b_RecvZc: op_builder RecvZc_build RecvZc_CODE
  by unfold_locales (auto simp: build_simps RecvZc_build_def RecvZc_CODE_def split: Target.splits option.splits)

interpretation b_EpollWait: op_builder EpollWait_build EpollWait_CODE
  by unfold_locales (auto simp: build_simps EpollWait_build_def EpollWait_CODE_def split: Target.splits option.splits)

interpretation b_ReadvFixed: op_builder ReadvFixed_build ReadvFixed_CODE
  by unfold_locales (auto simp: build_simps ReadvFixed_build_def ReadvFixed_CODE_def split: Target.splits option.splits)

interpretation b_WritevFixed: op_builder WritevFixed_build WritevFixed_CODE
  by unfold_locales (auto simp: build_simps WritevFixed_build_def WritevFixed_CODE_def split: Target.splits option.splits)

interpretation b_Pipe: op_builder Pipe_build Pipe_CODE
  by unfold_locales (auto simp: build_simps Pipe_build_def Pipe_CODE_def split: Target.splits option.splits)

text \<open>The list of all builder opcodes, and the statement of the contract for all builders.\<close>

definition BUILDER_CODES :: "u8 list" where
  "BUILDER_CODES = [Nop_CODE, Readv_CODE, Writev_CODE, Fsync_CODE, ReadFixed_CODE,
     WriteFixed_CODE, PollAdd_CODE, PollRemove_CODE, SyncFileRange_CODE, SendMsg_CODE,
     RecvMsg_CODE, Timeout_CODE, TimeoutRemove_CODE, Accept_CODE, AsyncCancel_CODE,
     LinkTimeout_CODE, Connect_CODE, Fallocate_CODE, OpenAt_CODE, Close_CODE,
     FilesUpdate_CODE, Statx_CODE, Read_CODE, Write_CODE, Send_CODE,
     Recv_CODE, OpenAt2_CODE, EpollCtl_CODE, Splice_CODE, ProvideBuffers_CODE,
     RemoveBuffers_CODE, Tee_CODE, Shutdown_CODE, RenameAt_CODE, UnlinkAt_CODE,
     MkDirAt_CODE, SymlinkAt_CODE, LinkAt_CODE, MsgRing_CODE, MsgRingSendFd_CODE,
     Socket_CODE, SendZc_CODE, SendMsgZc_CODE, Ftruncate_CODE, Bind_CODE,
     Listen_CODE, Fadvise_CODE, Madvise_CODE, AcceptMulti_CODE, RecvMulti_CODE,
     RecvMsgMulti_CODE, RecvBundle_CODE, RecvMultiBundle_CODE, SendBundle_CODE, ReadMulti_CODE,
     GetXattr_CODE, SetXattr_CODE, FGetXattr_CODE, FSetXattr_CODE, AsyncCancel2_CODE,
     TimeoutUpdate_CODE, UringCmd16_CODE, UringCmd80_CODE, SetSockOpt_CODE, FutexWait_CODE,
     FutexWake_CODE, FutexWaitV_op_CODE, WaitId_CODE, FixedFdInstall_CODE, RecvZc_CODE,
     EpollWait_CODE, ReadvFixed_CODE, WritevFixed_CODE, Pipe_CODE]"

lemmas CODE_defs = Nop_CODE_def Readv_CODE_def Writev_CODE_def Fsync_CODE_def
  ReadFixed_CODE_def WriteFixed_CODE_def PollAdd_CODE_def PollRemove_CODE_def
  SyncFileRange_CODE_def SendMsg_CODE_def RecvMsg_CODE_def Timeout_CODE_def
  TimeoutRemove_CODE_def Accept_CODE_def AsyncCancel_CODE_def LinkTimeout_CODE_def
  Connect_CODE_def Fallocate_CODE_def OpenAt_CODE_def Close_CODE_def
  FilesUpdate_CODE_def Statx_CODE_def Read_CODE_def Write_CODE_def
  Send_CODE_def Recv_CODE_def OpenAt2_CODE_def EpollCtl_CODE_def
  Splice_CODE_def ProvideBuffers_CODE_def RemoveBuffers_CODE_def Tee_CODE_def
  Shutdown_CODE_def RenameAt_CODE_def UnlinkAt_CODE_def MkDirAt_CODE_def
  SymlinkAt_CODE_def LinkAt_CODE_def MsgRing_CODE_def MsgRingSendFd_CODE_def
  Socket_CODE_def SendZc_CODE_def SendMsgZc_CODE_def Ftruncate_CODE_def
  Bind_CODE_def Listen_CODE_def Fadvise_CODE_def Madvise_CODE_def
  AcceptMulti_CODE_def RecvMulti_CODE_def RecvMsgMulti_CODE_def RecvBundle_CODE_def
  RecvMultiBundle_CODE_def SendBundle_CODE_def ReadMulti_CODE_def GetXattr_CODE_def
  SetXattr_CODE_def FGetXattr_CODE_def FSetXattr_CODE_def AsyncCancel2_CODE_def
  TimeoutUpdate_CODE_def UringCmd16_CODE_def UringCmd80_CODE_def SetSockOpt_CODE_def
  FutexWait_CODE_def FutexWake_CODE_def FutexWaitV_op_CODE_def WaitId_CODE_def
  FixedFdInstall_CODE_def RecvZc_CODE_def EpollWait_CODE_def ReadvFixed_CODE_def
  WritevFixed_CODE_def Pipe_CODE_def

section \<open>Properties\<close>

lemma builder_codes_handled: "set (map ucast BUILDER_CODES) = set HANDLED_OPCODES"
  by (simp add: BUILDER_CODES_def CODE_defs HANDLED_OPCODES_def sys_consts) blast

text \<open>The builders cover the dispatcher: the opcodes that some builder produces are exactly the
  opcodes the dispatcher handles, and these are the ones below \<open>IORING_OP_LAST\<close>.\<close>

theorem builders_cover_dispatcher:
  "set (map ucast BUILDER_CODES) = set HANDLED_OPCODES
   \<and> set HANDLED_OPCODES = {opc. opc < IORING_OP_LAST}"
  using builder_codes_handled handled_iff by blast

lemma fresh_exec:
  "case Accept_build b1 of Inl f \<Rightarrow> True | Inr e \<Rightarrow> fresh_sqe Accept_CODE (entry_sqe e)"
  "case OpenAt_build b2 of Inl f \<Rightarrow> True | Inr e \<Rightarrow> fresh_sqe OpenAt_CODE (entry_sqe e)"
  "case OpenAt2_build b3 of Inl f \<Rightarrow> True | Inr e \<Rightarrow> fresh_sqe OpenAt2_CODE (entry_sqe e)"
  "case Socket_build b4 of Inl f \<Rightarrow> True | Inr e \<Rightarrow> fresh_sqe Socket_CODE (entry_sqe e)"
  by (auto simp: build_simps with_file_index_def and_then_def Accept_build_def Accept_CODE_def
      OpenAt_build_def OpenAt_CODE_def OpenAt2_build_def OpenAt2_CODE_def Socket_build_def
      Socket_CODE_def split: Target.splits option.splits sum.splits)

lemma fresh_80: "fresh_sqe UringCmd80_CODE (entry_sqe (entry128_base (UringCmd80_build b)))"
  by (auto simp: build_simps UringCmd80_build_def UringCmd80_CODE_def split: Target.splits option.splits)


lemma rust_sadd_1:
  "rust_sadd idx (1 :: i32) = (if unat idx = 2 ^ 31 - 1 then Inl (Panic Panic_overflow) else Inr (idx + 1))"
proof (cases "unat idx < 2 ^ 31")
  case True
  then have "sint idx = int (unat idx)" by (rule sint_small)
  then show ?thesis using True by (auto simp: rust_sadd_def simp del: of_nat_unat)
next
  case False
  then have "sint idx = int (unat idx) - 2 ^ 32" by (intro sint_large) simp
  then show ?thesis using False unat_u32_lt [of idx] by (auto simp: rust_sadd_def simp del: of_nat_unat)
qed

text \<open>\<open>Accept\<close>, \<open>OpenAt\<close>, \<open>OpenAt2\<close> and \<open>Socket\<close> store \<open>idx as i32 + 1\<close> for a file index: at
  \<open>idx = 2 ^ 31 - 1\<close> the addition overflows and the build panics, at \<open>idx = 2 ^ 32 - 1\<close> it wraps to 0,
  which means no file index at all, and only otherwise is it the index plus one.\<close>

theorem file_index_overflow:
  "map_sum id (\<lambda>e. sqe_splice_fd_in (entry_sqe e)) (Accept_build (Accept_file_index a (Some idx))) =
     (if unat idx = 2 ^ 31 - 1 then Inl (Panic Panic_overflow) else Inr (idx + 1))
   \<and> map_sum id (\<lambda>e. sqe_splice_fd_in (entry_sqe e)) (OpenAt_build (OpenAt_file_index b (Some idx))) =
     (if unat idx = 2 ^ 31 - 1 then Inl (Panic Panic_overflow) else Inr (idx + 1))
   \<and> map_sum id (\<lambda>e. sqe_splice_fd_in (entry_sqe e)) (OpenAt2_build (OpenAt2_file_index c (Some idx))) =
     (if unat idx = 2 ^ 31 - 1 then Inl (Panic Panic_overflow) else Inr (idx + 1))
   \<and> map_sum id (\<lambda>e. sqe_splice_fd_in (entry_sqe e)) (Socket_build (Socket_file_index d (Some idx))) =
     (if unat idx = 2 ^ 31 - 1 then Inl (Panic Panic_overflow) else Inr (idx + 1))
   \<and> Accept_build (Accept_file_index a (Some (- 1))) = Accept_build (Accept_file_index a None)"
  by (simp add: Accept_build_def Accept_file_index_def OpenAt_build_def OpenAt_file_index_def
      OpenAt2_build_def OpenAt2_file_index_def Socket_build_def Socket_file_index_def
      with_file_index_def rust_sadd_1 unsigned_minus_1_eq_mask mask_eq_exp_minus_1 Let_def assign_fd_def
      sqe_zeroed_def io_uring_sqe_default_def split: Target.split)

text \<open>the arguments that builders pack into shared fields can be read back: level and option name
  of \<open>SetSockOpt\<close> from the two halves of \<open>addr\<close>, the 16 command bytes of \<open>UringCmd16\<close> from
  \<open>addr3\<close> and the pad, and the 80 bytes of \<open>UringCmd80\<close> from these and the extra half of the entry.\<close>

theorem packed_arguments_read_back:
  "ucast (sqe_addr (entry_sqe (SetSockOpt_build s))) = setsockopt_level s
   \<and> ucast (drop_bit 32 (sqe_addr (entry_sqe (SetSockOpt_build s)))) = setsockopt_optname s
   \<and> (length (uringcmd16_cmd c) = 16 \<longrightarrow>
        to_le_bytes 8 (sqe_addr3 (entry_sqe (UringCmd16_build c)))
        @ to_le_bytes 8 (sqe_pad2 (entry_sqe (UringCmd16_build c))) = uringcmd16_cmd c)
   \<and> (length (uringcmd80_cmd d) = 80 \<longrightarrow>
        to_le_bytes 8 (sqe_addr3 (entry_sqe (entry128_base (UringCmd80_build d))))
        @ to_le_bytes 8 (sqe_pad2 (entry_sqe (entry128_base (UringCmd80_build d))))
        @ entry128_cmd (UringCmd80_build d) = uringcmd80_cmd d)"
proof -
  have le: "to_le_bytes 8 (from_le_bytes bs :: u64) = bs" if "length bs = 8" for bs
    using to_from_le_bytes [of bs, where 'a = 64] that by simp
  have a: "sqe_addr (entry_sqe (SetSockOpt_build s)) =
      push_bit 32 (ucast (setsockopt_optname s)) OR ucast (setsockopt_level s)"
    by (simp add: SetSockOpt_build_def Let_def assign_fd_def)
  have "ucast (push_bit 32 (ucast (p :: u32)) OR ucast (l :: u32) :: u64) = l" for p l
    by (rule bit_eqI) (auto simp: bit_simps dest: bit_imp_le_length)
  moreover have "ucast (drop_bit 32 (push_bit 32 (ucast (p :: u32)) OR ucast (l :: u32) :: u64)) = p" for p l
    by (rule bit_eqI) (auto simp: bit_simps dest: bit_imp_le_length)
  moreover have "sqe_addr3 (entry_sqe (UringCmd16_build c)) = from_le_bytes (take 8 (uringcmd16_cmd c))"
    "sqe_pad2 (entry_sqe (UringCmd16_build c)) = from_le_bytes (take 8 (drop 8 (uringcmd16_cmd c)))"
    by (simp_all add: UringCmd16_build_def Let_def split: option.split)
  moreover have "sqe_addr3 (entry_sqe (entry128_base (UringCmd80_build d))) =
      from_le_bytes (take 8 (take 16 (uringcmd80_cmd d)))"
    "sqe_pad2 (entry_sqe (entry128_base (UringCmd80_build d))) =
      from_le_bytes (take 8 (drop 8 (take 16 (uringcmd80_cmd d))))"
    "entry128_cmd (UringCmd80_build d) = drop 16 (uringcmd80_cmd d)"
    by (simp_all add: UringCmd80_build_def Let_def split: option.split)
  moreover have "take 8 xs @ take 8 (drop 8 xs) = take 16 xs" for xs :: "u8 list"
    using take_add [of 8 8 xs] by simp
  ultimately show ?thesis unfolding a
    by (auto simp: le drop_take simp flip: append_assoc)
qed

theorem packed_arguments_read_back_witness:
  "to_le_bytes 8 (sqe_addr3 (entry_sqe (UringCmd16_build (UringCmd16_cmd (UringCmd16_new (Target_Fd 3) 1)
       (map of_nat [1..<17])))))
     @ to_le_bytes 8 (sqe_pad2 (entry_sqe (UringCmd16_build (UringCmd16_cmd (UringCmd16_new (Target_Fd 3) 1)
       (map of_nat [1..<17]))))) = map of_nat [1..<17]"
  using packed_arguments_read_back [of undefined "UringCmd16_cmd (UringCmd16_new (Target_Fd 3) 1)
       (map of_nat [1..<17])" undefined]
  by (simp add: UringCmd16_cmd_def UringCmd16_new_def del: upt_rec_numeral)

definition fill_result :: "u64 \<Rightarrow> u32 \<Rightarrow> umem \<Rightarrow> (i32 \<times> umem) exec" where
  "fill_result buf len m = (if buf = 0 \<or> len = 0 then Inr (0, m)
     else if live m buf (unat len) then Inr (len, zeroed m (region buf (unat len)))
     else UB UB_out_of_bounds)"

definition sink_result :: "u64 \<Rightarrow> u32 \<Rightarrow> umem \<Rightarrow> (i32 \<times> umem) exec" where
  "sink_result buf len m = (if buf = 0 \<or> len = 0 then Inr (0, m)
     else if readable m buf (unat len) then Inr (len, m)
     else if live m buf (unat len) then UB UB_uninit else UB UB_out_of_bounds)"

definition sockaddr_result :: "u64 \<Rightarrow> u32 \<Rightarrow> umem \<Rightarrow> (i32 \<times> umem) exec" where
  "sockaddr_result addr len m = (if addr = 0 \<or> len = 0 then Inr (EFAULT, m)
     else if readable m addr (unat len) then Inr (0, m)
     else if live m addr (unat len) then UB UB_uninit else UB UB_out_of_bounds)"

lemma fill_resultI:
  "ucast (sqe_opcode sqe) \<in> {IORING_OP_READ, IORING_OP_READ_FIXED, IORING_OP_RECV, IORING_OP_READ_MULTISHOT}
   \<Longrightarrow> sqe_addr sqe = buf \<Longrightarrow> sqe_len sqe = len \<Longrightarrow> dispatch_op sqe m = fill_result buf len m"
  by (simp only: dispatch_op_fill dispatch_buf_fill_eq fill_result_def)

lemma sink_resultI:
  "ucast (sqe_opcode sqe) \<in> {IORING_OP_WRITE, IORING_OP_WRITE_FIXED, IORING_OP_SEND, IORING_OP_SEND_ZC}
   \<Longrightarrow> sqe_addr sqe = buf \<Longrightarrow> sqe_len sqe = len \<Longrightarrow> dispatch_op sqe m = sink_result buf len m"
  by (simp only: dispatch_op_sink dispatch_buf_sink_eq sink_result_def)

lemma sockaddr_resultI:
  assumes "ucast (sqe_opcode sqe) \<in> {IORING_OP_CONNECT, IORING_OP_BIND}"
    and "sqe_addr sqe = addr" "sqe_off sqe = ucast (len :: u32)"
  shows "dispatch_op sqe m = sockaddr_result addr len m"
proof -
  have "dispatch_op sqe m = dispatch_connect sqe m"
    using assms(1) by (elim insertE emptyE; simp add: dispatch_op_def sys_consts)
  moreover obtain v where "addr = 0 \<or> slice_sink m addr (unat len) 0 =
      (if readable m addr (unat len) then Inr v
       else if live m addr (unat len) then UB UB_uninit else UB UB_out_of_bounds)"
    using slice_sink_eq [of addr "unat len" m 0] unat_u32_less [of len] by blast
  ultimately show ?thesis using assms(2,3) by (auto simp: dispatch_connect_def sockaddr_result_def)
qed

lemmas io_build_defs = Read_build_def Read_CODE_def ReadFixed_build_def ReadFixed_CODE_def Recv_build_def
  Recv_CODE_def Write_build_def Write_CODE_def WriteFixed_build_def WriteFixed_CODE_def Send_build_def
  Send_CODE_def SendZc_build_def SendZc_CODE_def Connect_build_def Connect_CODE_def Bind_build_def
  Bind_CODE_def

text \<open>C34: a builder and the handler of its opcode agree on where the buffer is: dispatching the entry
  of a read-like builder zeroes exactly the buffer given to the builder, dispatching that of a
  write-like builder reads exactly it, and \<open>Connect\<close> and \<open>Bind\<close> read exactly the socket address
  they were given.\<close>

theorem builders_agree_with_handlers:
  "dispatch_op (entry_sqe (Read_build b1)) m = fill_result (read_buf b1) (read_len b1) m
   \<and> dispatch_op (entry_sqe (ReadFixed_build b2)) m = fill_result (readfixed_buf b2) (readfixed_len b2) m
   \<and> dispatch_op (entry_sqe (Recv_build b3)) m = fill_result (recv_buf b3) (recv_len b3) m
   \<and> dispatch_op (entry_sqe (Write_build b4)) m = sink_result (write_buf b4) (write_len b4) m
   \<and> dispatch_op (entry_sqe (WriteFixed_build b5)) m = sink_result (writefixed_buf b5) (writefixed_len b5) m
   \<and> dispatch_op (entry_sqe (Send_build b6)) m = sink_result (send_buf b6) (send_len b6) m
   \<and> dispatch_op (entry_sqe (SendZc_build b7)) m = sink_result (sendzc_buf b7) (sendzc_len b7) m
   \<and> dispatch_op (entry_sqe (Connect_build b8)) m = sockaddr_result (connect_addr b8) (connect_addrlen b8) m
   \<and> dispatch_op (entry_sqe (Bind_build b9)) m = sockaddr_result (bind_addr b9) (bind_addrlen b9) m"
  by (intro conjI fill_resultI sink_resultI sockaddr_resultI)
    (simp_all add: io_build_defs Let_def assign_fd_def sys_consts split: Target.split)

end
