(* ===== verification/Miring_Locals.thy ===== *)
theory Miring_Locals
  imports Miring_Tests Miring_Opcode_Laws
begin

text \<open>
  Local variables of a test whose address the test passes to the ring, in the user memory of
  \<open>Miring_Memory\<close>.  Where the compiler puts a variable is not known: its address is a parameter of
  the test, with the assumptions that it is not null, aligned for its type, inside the address space
  and apart from the other variables.  Initialising the variable stores its bytes.  The lemmas say what
  the handlers of \<open>Miring_Dispatch\<close> find there.
\<close>

section \<open>Variables in memory\<close>

definition slot :: "u64 \<Rightarrow> nat \<Rightarrow> nat \<Rightarrow> bool" where
  "slot a n al \<longleftrightarrow> a \<noteq> 0 \<and> unat a mod al = 0 \<and> unat a + n \<le> 2 ^ 64"

definition apart :: "u64 \<Rightarrow> nat \<Rightarrow> u64 \<Rightarrow> nat \<Rightarrow> bool" where
  "apart a n b k \<longleftrightarrow> region a n \<inter> region b k = {}"

text \<open>Several variables: address, size and alignment of each.\<close>

fun placed :: "(u64 \<times> nat \<times> nat) list \<Rightarrow> bool" where
  "placed [] = True"
| "placed ((a, n, al) # vs) = (slot a n al \<and> list_all (\<lambda>(b, k, _). apart a n b k) vs \<and> placed vs)"

definition holds :: "umem \<Rightarrow> u64 \<Rightarrow> u8 list \<Rightarrow> bool" where
  "holds m a bs \<longleftrightarrow> load m a (length bs) = Inr bs"

text \<open>The bytes of a Rust byte string, of an array of a byte, of a word, of two kernel structures and of an iovec.\<close>

definition byte_string :: "string \<Rightarrow> u8 list" where
  "byte_string s = map of_char s"

definition iovec_bytes :: "u64 \<Rightarrow> usize \<Rightarrow> u8 list" where
  "iovec_bytes base len = to_le_bytes 8 base @ to_le_bytes 8 len"

definition msghdr_bytes :: "u64 \<Rightarrow> usize \<Rightarrow> u8 list" where
  "msghdr_bytes msg_iov msg_iovlen = to_le_bytes 8 (0 :: u64) @ to_le_bytes 4 (0 :: u32) @ to_le_bytes 4 (0 :: u32)
     @ to_le_bytes 8 msg_iov @ to_le_bytes 8 msg_iovlen @ to_le_bytes 8 (0 :: u64) @ to_le_bytes 8 (0 :: usize)
     @ to_le_bytes 4 (0 :: i32) @ to_le_bytes 4 (0 :: u32)"

definition Timespec_bytes :: "Timespec \<Rightarrow> u8 list" where
  "Timespec_bytes ts = to_le_bytes 8 (tv_sec (timespec_0 ts)) @ to_le_bytes 8 (tv_nsec (timespec_0 ts))"

definition OpenHow_bytes :: "OpenHow \<Rightarrow> u8 list" where
  "OpenHow_bytes how = to_le_bytes 8 (how_flags (openhow_0 how)) @ to_le_bytes 8 (how_mode (openhow_0 how))
     @ to_le_bytes 8 (how_resolve (openhow_0 how))"

definition FutexWaitV_bytes :: "FutexWaitV \<Rightarrow> u8 list" where
  "FutexWaitV_bytes w = to_le_bytes 8 (fwv_val (futexwaitv_0 w)) @ to_le_bytes 8 (fwv_uaddr (futexwaitv_0 w))
     @ to_le_bytes 4 (fwv_flags (futexwaitv_0 w)) @ to_le_bytes 4 (fwv_reserved (futexwaitv_0 w))"

lemma length_bytes [simp]: "length (byte_string s) = length s" "length (iovec_bytes b l) = 16"
  "length (msghdr_bytes i n) = 56" "length (Timespec_bytes ts) = 16" "length (OpenHow_bytes h) = 24"
  "length (FutexWaitV_bytes w) = 24"
  by (simp_all add: byte_string_def iovec_bytes_def msghdr_bytes_def Timespec_bytes_def OpenHow_bytes_def FutexWaitV_bytes_def)

section \<open>What is found there\<close>

lemma apart_sym: "apart a n b k \<Longrightarrow> apart b k a n"
  by (auto simp: apart_def)

lemma apart_before: "unat a + n \<le> unat b \<Longrightarrow> unat b + k \<le> 2 ^ 64 \<Longrightarrow> apart a n b k"
proof -
  assume le: "unat a + n \<le> unat b" "unat b + k \<le> 2 ^ 64"
  have "a + of_nat u \<noteq> b + of_nat v" if "u < n" "v < k" for u v
  proof
    assume "a + of_nat u = b + of_nat v"
    then have "unat (a + of_nat u) = unat (b + of_nat v)" by simp
    moreover have "unat (a + of_nat u) = unat a + u" "unat (b + of_nat v) = unat b + v"
      using le that by (simp_all add: unat_word_ariths unat_of_nat)
    ultimately show False using le that by simp
  qed
  then show ?thesis by (fastforce simp: apart_def region_def)
qed

lemma apart_next: "i + k \<le> 2 ^ 64 \<Longrightarrow> apart (a + of_nat i) k a i"
proof -
  assume le: "i + k \<le> 2 ^ 64"
  have "a + of_nat i + of_nat u \<noteq> a + of_nat v" if "u < k" "v < i" for u v
  proof
    assume "a + of_nat i + of_nat u = a + of_nat v"
    then have "(of_nat (i + u) :: u64) = of_nat v" by (simp add: add.assoc)
    then have "unat (of_nat (i + u) :: u64) = unat (of_nat v :: u64)" by simp
    with le that show False by (simp add: unat_of_nat del: of_nat_add)
  qed
  then show ?thesis by (fastforce simp: apart_def region_def)
qed

lemma holds_iff: "holds m a bs \<longleftrightarrow> (\<forall>i<length bs. m (a + of_nat i) = Some (Byte (bs ! i)))"
  by (simp add: holds_def load_Inr_iff)

lemma holds_store: "slot a (length bs) al \<Longrightarrow> holds (store m a bs) a bs"
  by (simp add: holds_def load_store slot_def)

lemma holds_other:
  assumes "holds m a bs" "apart a (length bs) b (length cs)"
  shows "holds (store m b cs) a bs"
proof -
  have "load (store m b cs) a (length bs) = load m a (length bs)"
    by (rule load_cong) (use assms(2) in \<open>auto simp: apart_def intro!: store_frame\<close>)
  with assms(1) show ?thesis by (simp add: holds_def)
qed

lemma holds_zeroed: "holds m a bs \<Longrightarrow> length bs = n \<Longrightarrow> region a n \<inter> R = {} \<Longrightarrow> holds (zeroed m R) a bs"
  unfolding holds_iff zeroed_def using region_mem by (auto simp: disjoint_iff)

lemma zeroed_holds: "holds (zeroed m (region a n)) a (replicate n 0)"
  by (simp add: holds_iff zeroed_def region_mem)

lemma holds_part:
  assumes "holds m a bs" "i + n \<le> length bs"
  shows "load m (a + of_nat i) n = Inr (take n (drop i bs))"
proof -
  have "m (a + of_nat i + of_nat j) = Some (Byte (take n (drop i bs) ! j))" if "j < n" for j
  proof -
    have "m (a + of_nat (i + j)) = Some (Byte (bs ! (i + j)))"
      using assms that unfolding holds_iff by (metis nat_add_left_cancel_less order_less_le_trans)
    with assms(2) that show ?thesis by (simp add: add.assoc)
  qed
  with assms(2) show ?thesis by (simp add: load_Inr_iff)
qed

lemma holds_live: "holds m a bs \<Longrightarrow> slot a (length bs) al \<Longrightarrow> n \<le> length bs \<Longrightarrow> live m a n"
  by (auto simp: holds_iff slot_def live_def)

lemma holds_readable: "holds m a bs \<Longrightarrow> slot a (length bs) al \<Longrightarrow> readable m a (length bs)"
  using holds_live [of m a bs al "length bs"] by (auto simp: holds_iff readable_def)

lemma unat_slot: "slot a n al \<Longrightarrow> i < n \<Longrightarrow> unat (a + of_nat i) = unat a + i"
  by (simp add: slot_def unat_word_ariths unat_of_nat)

lemma slot_part:
  assumes "slot a n al" "i < n" "i mod al = 0" "i + k \<le> n"
  shows "slot (a + of_nat i) k al"
proof -
  have "unat (a + of_nat i) = unat a + i" using assms(1,2) by (rule unat_slot)
  moreover have "unat a \<noteq> 0" "unat a mod al = 0" "unat a + n \<le> 2 ^ 64"
    using assms(1) by (simp_all add: slot_def unat_eq_0)
  ultimately show ?thesis
    using assms(3,4) by (auto simp: slot_def mod_add_eq dest!: arg_cong [of _ 0 unat])
qed

lemma slot_mono: "slot a n al \<Longrightarrow> k \<le> n \<Longrightarrow> slot a k al"
  by (simp add: slot_def)

lemma holds_drop:
  assumes "holds m a bs" "i + n \<le> length bs"
  shows "holds m (a + of_nat i) (take n (drop i bs))"
  using holds_part [OF assms] assms(2) by (simp add: holds_def)

lemma ptr_read_holds:
  assumes "holds m a bs" "slot a (length bs) al"
  shows "ptr_read m a al (length bs) = Inr bs"
  using assms holds_live [OF assms order.refl] by (simp add: ptr_read_def deref_check_def slot_def holds_def)

lemma read_u64_holds:
  assumes "holds m a bs" "slot a (length bs) 8" "i mod 8 = 0" "i + 8 \<le> length bs"
  shows "read_u64 m (a + of_nat i) = Inr (from_le_bytes (take 8 (drop i bs)))"
  using ptr_read_holds [OF holds_drop [OF assms(1,4)]] slot_part [OF assms(2) _ assms(3), of 8] assms(4)
  by (simp add: read_u64_def)

lemma read_u32_holds:
  assumes "holds m a bs" "slot a (length bs) al" "4 dvd al" "i mod al = 0" "i + 4 \<le> length bs"
  shows "read_u32 m (a + of_nat i) = Inr (from_le_bytes (take 4 (drop i bs)))"
proof -
  have "slot (a + of_nat i) 4 4"
    using slot_part [OF assms(2) _ assms(4), of 4] assms(3,5) by (auto simp: slot_def dvd_eq_mod_eq_0 [symmetric] intro: dvd_trans)
  with ptr_read_holds [OF holds_drop [OF assms(1,5)]] assms(5) show ?thesis by (simp add: read_u32_def)
qed

lemma walk_cstr_holds:
  assumes h: "holds m p (byte_string s @ [0])" and p: "slot p n 1" "n = Suc (length s)"
    and s: "list_all (\<lambda>c. of_char c \<noteq> (0 :: u8)) s"
  shows "walk_cstr m p = Inr ()"
proof (rule walk_cstr_found)
  have "\<exists>b. b \<noteq> 0 \<and> m (p + of_nat i) = Some (Byte b)" if "i < length s" for i
    using h s that by (auto simp: holds_iff byte_string_def nth_append list_all_length)
  moreover have "m (p + of_nat (length s)) = Some (Byte 0)"
    using h unfolding holds_iff by (auto simp: nth_append byte_string_def dest: spec [of _ "length s"])
  ultimately show "cstr_at m p (length s)" using p by (simp add: cstr_at_def slot_def)
qed

lemma slice_sink_holds:
  assumes "holds m a bs" "slot a n al" "length bs = n" "n < 2 ^ 63"
  shows "\<exists>v. slice_sink m a n s = Inr v"
proof -
  have "a \<noteq> 0" using assms(2) by (simp add: slot_def)
  from slice_sink_eq [OF this assms(4), of m s] holds_readable [OF assms(1), of al] assms(2,3) show ?thesis by auto
qed

lemma slice_fill_holds:
  assumes "holds m a bs" "slot a (length bs) al" "length bs < 2 ^ 63"
  shows "slice_fill m a (length bs) = Inr (zeroed m (region a (length bs)))"
  using assms holds_live [OF assms(1,2) order.refl] by (simp add: slice_fill_eq slot_def)

lemma holds_append: "holds m a (xs @ ys) \<longleftrightarrow> holds m a xs \<and> holds m (a + of_nat (length xs)) ys"
proof -
  have "(\<forall>i<k + n. P i) \<longleftrightarrow> (\<forall>i<k. P i) \<and> (\<forall>i<n. P (k + i))" for P and k n :: nat
    by (metis add_less_cancel_left le_add_diff_inverse linorder_not_less trans_less_add1)
  then show ?thesis by (auto simp: holds_iff nth_append add.assoc)
qed

lemma slice_check_holds:
  assumes "holds m a bs" "slot a (length bs) al" "k * sz = length bs" "length bs < 2 ^ 63"
  shows "slice_check m a k sz al = Inr ()"
  using assms holds_live [OF assms(1,2) order.refl] by (simp add: slot_def)

lemma two_holds:
  assumes "slot a i al" "slot b j be" "apart a i b j" "length xs = i" "length ys = j"
  shows "holds (store (store m a xs) b ys) a xs" "holds (store (store m a xs) b ys) b ys"
  using assms by (auto intro: holds_other holds_store)

lemma three_holds:
  assumes "slot a i al" "slot b j be" "slot c k ga" "apart a i b j" "apart a i c k" "apart b j c k"
    and "length xs = i" "length ys = j" "length zs = k"
  shows "holds (store (store (store m a xs) b ys) c zs) a xs"
    "holds (store (store (store m a xs) b ys) c zs) b ys"
    "holds (store (store (store m a xs) b ys) c zs) c zs"
  using assms by (auto intro: holds_other holds_store)

subsection \<open>Vectors and message headers\<close>

lemma iovec_pair:
  assumes "holds m p (iovec_bytes b l)" "slot p 16 8" "b \<noteq> 0" "0 < l"
  shows "pair_at m p (p + 8) = Inr (Some (b, l))"
  using read_u64_holds [OF assms(1), of 0] read_u64_holds [OF assms(1), of 8] assms(2-4)
  by (simp add: pair_at_def iovec_bytes_def from_to_le_bytes)

lemma one_iovec:
  "holds m p (iovec_bytes b l) \<Longrightarrow> slot p 16 8 \<Longrightarrow> b \<noteq> 0 \<Longrightarrow> 0 < l \<Longrightarrow> decode_iovs 1 p m = Inr [(b, l)]"
  by (simp add: iovec_pair)

lemma two_iovecs:
  assumes "holds m p (iovec_bytes b l @ iovec_bytes c k)" "slot p 32 8" "b \<noteq> 0" "0 < l" "c \<noteq> 0" "0 < k"
  shows "decode_iovs 2 p m = Inr [(b, l), (c, k)]"
proof -
  have "pair_at m p (p + 8) = Inr (Some (b, l))"
    using assms slot_mono [OF assms(2), of 16] by (intro iovec_pair) (simp_all add: holds_append)
  moreover have "pair_at m (p + 16) (p + 16 + 8) = Inr (Some (c, k))"
    using assms slot_part [OF assms(2), of 16 16] by (intro iovec_pair) (simp_all add: holds_append)
  ultimately show ?thesis by (simp add: numeral_2_eq_2)
qed

lemma msghdr_holds:
  assumes "holds m h (msghdr_bytes v n)" "slot h 56 8" "v \<noteq> 0" "0 < n"
  shows "deref_check m h 8 56 = Inr ()" "name_at m h = Inr None" "pair_at m (h + 32) (h + 40) = Inr None"
    "pair_at m (h + 16) (h + 24) = Inr (Some (v, n))"
  using read_u64_holds [OF assms(1), of 0] read_u64_holds [OF assms(1), of 16] read_u64_holds [OF assms(1), of 24]
    read_u64_holds [OF assms(1), of 32] holds_live [OF assms(1), of 8 56] assms(2-4)
  by (simp_all add: name_at_def pair_at_def msghdr_bytes_def slot_def from_to_le_bytes)

section \<open>A test of one operation\<close>

text \<open>
  The form of the tests of operations: a ring of eight entries, one entry pushed, submitted and completed, an
  assertion on its completion, assertions on the variables afterwards, and the drop of the ring.
\<close>

definition op_test ::
  "Entry exec \<Rightarrow> (cq_Entry \<Rightarrow> unit exec) \<Rightarrow> (umem \<Rightarrow> unit exec) \<Rightarrow> umem \<Rightarrow> umem exec"
where
  "op_test entry check afterwards m =
     and_then (and_then (IoUring_new 8) unwrap) (\<lambda>ring.
     and_then entry (\<lambda>e.
     and_then (push_block [e] ring) (\<lambda>ring1.
     and_then (submit_unwrap smark cmark ring1 m) (\<lambda>(_, ring2, m2).
     and_then (IoUring_completion smark cmark ring2 m2) (\<lambda>(cq, ring3, m3).
     and_then (assert_each [check] cq (ring_memory ring3)) (\<lambda>cq1.
     and_then (afterwards m3) (\<lambda>_.
       RingMemory_drop (cqueue_drop cq1 (ring_memory ring3)) m3)))))))"

text \<open>\<open>assert!(buf.iter().all(|&b| b == 0))\<close>, and no assertion\<close>

definition all_zero :: "u64 \<Rightarrow> nat \<Rightarrow> umem \<Rightarrow> unit exec" where
  "all_zero a n m = and_then (load m a n) (\<lambda>bs. assert_true (list_all (\<lambda>b. b = 0) bs))"

abbreviation nothing :: "umem \<Rightarrow> unit exec" where "nothing \<equiv> \<lambda>_. Inr ()"

lemma all_zero_holds: "holds m a (replicate n 0) \<Longrightarrow> all_zero a n m = Inr ()"
  by (simp add: all_zero_def holds_def assert_true_def list_all_length)

lemma all_zero_zeroed: "all_zero a n (zeroed m (region a n)) = Inr ()"
  by (rule all_zero_holds [OF zeroed_holds])

lemma all_zero_more: "region a n \<subseteq> R \<Longrightarrow> all_zero a n (zeroed m R) = Inr ()"
  using region_mem by (intro all_zero_holds) (auto simp: holds_iff zeroed_def)

text \<open>What all of them begin with: a new ring and one entry pushed.\<close>

lemma pushed_entry:
  obtains ring ring1 where "IoUring_new 8 = Inr (Inr ring)" "push_block [e] ring = Inr ring1" "ring_inv smark cmark ring1"
    "ring_sqes smark cmark ring1 = [entry_sqe e]" "ring_cqes smark cmark ring1 = []" "ring_threads ring1 = []"
    "ring_cq_free smark cmark ring1 = 16" "unat (sqi_ring_entries (ring_sq ring1)) = 8"
proof -
  obtain ring where n: "IoUring_new 8 = Inr (Inr ring)" "ring_idle smark cmark ring"
    "unat (sqi_ring_entries (ring_sq ring)) = 8" "ring_cq_free smark cmark ring = 16"
    by (rule new_ring [of 8]) (simp_all add: small_rings)
  obtain ring1 where "push_block [e] ring = Inr ring1" "ring_inv smark cmark ring1"
    "ring_sqes smark cmark ring1 = [entry_sqe e]" "ring_cqes smark cmark ring1 = []" "ring_threads ring1 = []"
    "ring_cq_free smark cmark ring1 = 16" "unat (sqi_ring_entries (ring_sq ring1)) = 8"
    by (rule push_block_law [of smark cmark ring "[e]"]) (use n in \<open>auto simp: ring_idle_def marker_views\<close>)
  with n(1) that show ?thesis by blast
qed

lemma one_thread:
  assumes "dispatch_op (entry_sqe e) m = Inr (r, m')" "\<not> links (entry_sqe e)"
  shows "thread_join dispatch_op (thread_spawn [entry_sqe e]) m = Inr ([completed r (entry_sqe e)], m')"
  using assms by (simp add: kernel.thread_join_run thread_spawn_def complete_one_simps)

lemma one_check:
  assumes "cq_view cq mem" "cq_ready cq mem = [c]" "check c = Inr ()"
  obtains cq1 where "assert_each [check] cq mem = Inr cq1"
  using assert_each_law [OF assms(1), of "[c]" "[]" "[check]"] assms(2,3) by auto

lemma op_test_passes:
  assumes e: "entry = Inr e" and d: "dispatch_op (entry_sqe e) m = Inr (r, m')"
    and p: "\<not> links (entry_sqe e)" "\<not> is_skip_success (entry_sqe e)"
    and c: "check (cq_Entry \<lparr>cqe_user_data = sqe_user_data (entry_sqe e), cqe_res = r, cqe_flags = 0\<rparr>) = Inr ()"
    and a: "afterwards m' = Inr ()"
  shows "op_test entry check afterwards m = Inr m'"
proof -
  obtain ring ring1 where q: "IoUring_new 8 = Inr (Inr ring)" "push_block [e] ring = Inr ring1" "ring_inv smark cmark ring1"
    "ring_sqes smark cmark ring1 = [entry_sqe e]" "ring_cqes smark cmark ring1 = []" "ring_threads ring1 = []"
    "ring_cq_free smark cmark ring1 = 16" by (rule pushed_entry)
  obtain ring2 n2 where s: "submit_unwrap smark cmark ring1 m = Inr (n2, ring2, m)" "ring_inv smark cmark ring2"
    "ring_cqes smark cmark ring2 = []" "ring_threads ring2 = [thread_spawn [entry_sqe e]]" "ring_cq_free smark cmark ring2 = 16"
    by (rule submit_unwrap_law [OF q(3), of m]) (use q in auto)
  have "run_threads dispatch_op (ring_threads ring2) m = Inr ([completed r (entry_sqe e)], m')"
    using d p by (simp add: s(4) one_thread)
  then obtain cq ring3 where t: "IoUring_completion smark cmark ring2 m = Inr (cq, ring3, m')" "cq_view cq (ring_memory ring3)"
    "cq_ready cq (ring_memory ring3) = [cq_Entry \<lparr>cqe_user_data = sqe_user_data (entry_sqe e), cqe_res = r, cqe_flags = 0\<rparr>]"
    "ring_threads ring3 = []"
    by (rule completion_law [OF s(2)])
      (use s(3,5) p(2) in \<open>auto simp: cqes_of_def visible_def completed_def cqe_of_cd_def map_cqe_of_cmark\<close>)
  from t(2,3) c obtain cq1 where "assert_each [check] cq (ring_memory ring3) = Inr cq1" by (rule one_check)
  with e q(1,2) s(1) t(1) a show ?thesis by (simp add: op_test_def unwrap_def drop_empty [OF t(4)])
qed

end
