(* ===== verification/Miring_Tests_Ops.thy ===== *)
theory Miring_Tests_Ops
  imports Miring_Locals
begin

text \<open>
  The integration tests of \<^verbatim>\<open>tests/ring.rs\<close> that pass buffers to operations, over the model: what the
  test stores in its variables, the entry it builds, what it asserts of the completion and of its
  variables afterwards.  The arguments of a test are the addresses of its variables.
\<close>

abbreviation fd :: "i32 \<Rightarrow> Target" where "fd n \<equiv> UseFixed_into_Fd (Fd n)"

section \<open>Buffers\<close>

definition read_op_fills_buffer :: "u64 \<Rightarrow> umem \<Rightarrow> umem exec" where
  "read_op_fills_buffer buf m =
     op_test (Inr (Entry_user_data (Read_build (Read_new (fd 0) buf 64)) 99)) (has 99 64) (all_zero buf 64)
       (store m buf (replicate 64 0xFF))"

definition write_op_reads_buffer :: "u64 \<Rightarrow> umem \<Rightarrow> umem exec" where
  "write_op_reads_buffer buf m =
     op_test (Inr (Entry_user_data (Write_build (Write_new (fd 1) buf 32)) 100)) (has 100 32) nothing
       (store m buf (replicate 32 42))"

definition recv_fills_buffer :: "u64 \<Rightarrow> umem \<Rightarrow> umem exec" where
  "recv_fills_buffer buf m =
     op_test (Inr (Entry_user_data (Recv_build (Recv_new (fd 3) buf 128)) 300)) (has_result 128) (all_zero buf 128)
       (store m buf (replicate 128 0xFF))"

definition send_reads_buffer :: "u64 \<Rightarrow> umem \<Rightarrow> umem exec" where
  "send_reads_buffer buf m =
     op_test (Inr (Entry_user_data (Send_build (Send_new (fd 3) buf 64)) 301)) (has_result 64) nothing
       (store m buf (replicate 64 77))"

definition send_zc_reads_buffer :: "u64 \<Rightarrow> umem \<Rightarrow> umem exec" where
  "send_zc_reads_buffer buf m =
     op_test (Inr (Entry_user_data (SendZc_build (SendZc_new (fd 3) buf 48)) 1104)) (has_result 48) nothing
       (store m buf (replicate 48 99))"

definition submit_defers_buffer_touch_to_completion :: "u64 \<Rightarrow> umem \<Rightarrow> umem exec" where
  "submit_defers_buffer_touch_to_completion buf m =
     op_test (Inr (Entry_user_data (Read_build (Read_new (fd 0) buf 64)) 1)) (has 1 64) (all_zero buf 64)
       (store m buf (replicate 64 0xFF))"

definition timeout_reads_timespec :: "u64 \<Rightarrow> umem \<Rightarrow> umem exec" where
  "timeout_reads_timespec ts m =
     op_test (Inr (Entry_user_data (Timeout_build (Timeout_new ts)) 400)) (has 400 (- 62)) nothing
       (store m ts (Timespec_bytes (Timespec_nsec (Timespec_sec Timespec_new 1) 500000000)))"

definition close_succeeds :: "umem \<Rightarrow> umem exec" where
  "close_succeeds m = op_test (Inr (Entry_user_data (Close_build (Close_new (fd 5))) 500)) (has_result 0) nothing m"

section \<open>Vectors\<close>

definition readv_fills_scatter_buffers :: "u64 \<Rightarrow> u64 \<Rightarrow> u64 \<Rightarrow> umem \<Rightarrow> umem exec" where
  "readv_fills_scatter_buffers buf1 buf2 iovecs m =
     op_test (Inr (Entry_user_data (Readv_build (Readv_new (fd 0) iovecs 2)) 200)) (has 200 48)
       (\<lambda>m. and_then (all_zero buf1 16 m) (\<lambda>_. all_zero buf2 32 m))
       (store (store (store m buf1 (replicate 16 0xFF)) buf2 (replicate 32 0xFF))
         iovecs (iovec_bytes buf1 16 @ iovec_bytes buf2 32))"

definition writev_reads_gather_buffers :: "u64 \<Rightarrow> u64 \<Rightarrow> u64 \<Rightarrow> umem \<Rightarrow> umem exec" where
  "writev_reads_gather_buffers buf1 buf2 iovecs m =
     op_test (Inr (Entry_user_data (Writev_build (Writev_new (fd 1) iovecs 2)) 201)) (has 201 48) nothing
       (store (store (store m buf1 (replicate 16 1)) buf2 (replicate 32 2))
         iovecs (iovec_bytes buf1 16 @ iovec_bytes buf2 32))"

definition readv_fixed_fills_scatter_buffers :: "u64 \<Rightarrow> u64 \<Rightarrow> u64 \<Rightarrow> umem \<Rightarrow> umem exec" where
  "readv_fixed_fills_scatter_buffers buf1 buf2 iovecs m =
     op_test (Inr (Entry_user_data (ReadvFixed_build (ReadvFixed_new (fd 0) iovecs 2 0)) 1500)) (has_result 48)
       (\<lambda>m. and_then (all_zero buf1 32 m) (\<lambda>_. all_zero buf2 16 m))
       (store (store (store m buf1 (replicate 32 0xFF)) buf2 (replicate 16 0xFF))
         iovecs (iovec_bytes buf1 32 @ iovec_bytes buf2 16))"

definition writev_fixed_reads_gather_buffers :: "u64 \<Rightarrow> u64 \<Rightarrow> u64 \<Rightarrow> umem \<Rightarrow> umem exec" where
  "writev_fixed_reads_gather_buffers buf1 buf2 iovecs m =
     op_test (Inr (Entry_user_data (WritevFixed_build (WritevFixed_new (fd 1) iovecs 2 0)) 1501)) (has_result 30) nothing
       (store (store (store m buf1 (replicate 20 1)) buf2 (replicate 10 2))
         iovecs (iovec_bytes buf1 20 @ iovec_bytes buf2 10))"

definition sendmsg_reads_msghdr :: "u64 \<Rightarrow> u64 \<Rightarrow> u64 \<Rightarrow> umem \<Rightarrow> umem exec" where
  "sendmsg_reads_msghdr buf iov hdr m =
     op_test (Inr (Entry_user_data (SendMsg_build (SendMsg_new (fd 3) hdr)) 1105)) (has_result 32) nothing
       (store (store (store m buf (replicate 32 42)) iov (iovec_bytes buf 32)) hdr (msghdr_bytes iov 1))"

definition recvmsg_writes_msghdr :: "u64 \<Rightarrow> u64 \<Rightarrow> u64 \<Rightarrow> umem \<Rightarrow> umem exec" where
  "recvmsg_writes_msghdr buf iov hdr m =
     op_test (Inr (Entry_user_data (RecvMsg_build (RecvMsg_new (fd 3) hdr)) 1106)) (has_result 64) (all_zero buf 64)
       (store (store (store m buf (replicate 64 0xFF)) iov (iovec_bytes buf 64)) hdr (msghdr_bytes iov 1))"

section \<open>Paths\<close>

definition renameat_reads_two_pathnames :: "u64 \<Rightarrow> u64 \<Rightarrow> umem \<Rightarrow> umem exec" where
  "renameat_reads_two_pathnames old new m =
     op_test (Inr (Entry_user_data (RenameAt_build (RenameAt_new (fd (- 1)) old (- 1) new)) 1000)) (has 1000 0) nothing
       (store (store m old (byte_string ''/tmp/old'' @ [0])) new (byte_string ''/tmp/new'' @ [0]))"

definition unlinkat_reads_pathname :: "u64 \<Rightarrow> umem \<Rightarrow> umem exec" where
  "unlinkat_reads_pathname path m =
     op_test (Inr (Entry_user_data (UnlinkAt_build (UnlinkAt_new (fd (- 1)) path)) 1001)) (has_result 0) nothing
       (store m path (byte_string ''/tmp/gone'' @ [0]))"

definition mkdirat_reads_pathname :: "u64 \<Rightarrow> umem \<Rightarrow> umem exec" where
  "mkdirat_reads_pathname path m =
     op_test (Inr (Entry_user_data (MkDirAt_build (MkDirAt_new (fd (- 1)) path)) 1002)) (has_result 0) nothing
       (store m path (byte_string ''/tmp/dir'' @ [0]))"

definition symlinkat_reads_two_pathnames :: "u64 \<Rightarrow> u64 \<Rightarrow> umem \<Rightarrow> umem exec" where
  "symlinkat_reads_two_pathnames target link m =
     op_test (Inr (Entry_user_data (SymlinkAt_build (SymlinkAt_new (fd (- 1)) target link)) 1003)) (has_result 0) nothing
       (store (store m target (byte_string ''/tmp/target'' @ [0])) link (byte_string ''/tmp/link'' @ [0]))"

definition linkat_reads_two_pathnames :: "u64 \<Rightarrow> u64 \<Rightarrow> umem \<Rightarrow> umem exec" where
  "linkat_reads_two_pathnames old new m =
     op_test (Inr (Entry_user_data (LinkAt_build (LinkAt_new (fd (- 1)) old (- 1) new)) 1004)) (has_result 0) nothing
       (store (store m old (byte_string ''/tmp/existing'' @ [0])) new (byte_string ''/tmp/hardlink'' @ [0]))"

definition openat_reads_pathname_returns_fd :: "u64 \<Rightarrow> umem \<Rightarrow> umem exec" where
  "openat_reads_pathname_returns_fd path m =
     op_test (and_then (OpenAt_build (OpenAt_new (fd (- 1)) path)) (\<lambda>e. Inr (Entry_user_data e 1600))) (has_result 42) nothing
       (store m path (byte_string ''/tmp/test'' @ [0]))"

definition openat2_reads_pathname_and_how :: "u64 \<Rightarrow> u64 \<Rightarrow> umem \<Rightarrow> umem exec" where
  "openat2_reads_pathname_and_how path how m =
     op_test (and_then (OpenAt2_build (OpenAt2_new (fd (- 1)) path how)) (\<lambda>e. Inr (Entry_user_data e 1601))) (has_result 42) nothing
       (store (store m path (byte_string ''/tmp/test2'' @ [0])) how
         (OpenHow_bytes (OpenHow_mode (OpenHow_flags OpenHow_new 0) 420)))"

definition statx_reads_pathname_writes_buffer :: "u64 \<Rightarrow> u64 \<Rightarrow> umem \<Rightarrow> umem exec" where
  "statx_reads_pathname_writes_buffer path statxbuf m =
     op_test (Inr (Entry_user_data (Statx_build (Statx_new (fd (- 1)) path statxbuf)) 1602)) (has_result 0) (all_zero statxbuf 256)
       (store (store m path (byte_string ''/tmp/stat'' @ [0])) statxbuf (replicate 256 0xFF))"

section \<open>Sockets\<close>

definition connect_reads_sockaddr :: "u64 \<Rightarrow> umem \<Rightarrow> umem exec" where
  "connect_reads_sockaddr sockaddr m =
     op_test (Inr (Entry_user_data (Connect_build (Connect_new (fd 3) sockaddr 16)) 1100)) (has_result 0) nothing
       (store m sockaddr (replicate 16 0))"

definition bind_reads_sockaddr :: "u64 \<Rightarrow> umem \<Rightarrow> umem exec" where
  "bind_reads_sockaddr sockaddr m =
     op_test (Inr (Entry_user_data (Bind_build (Bind_new (fd 3) sockaddr 16)) 1102)) (has_result 0) nothing
       (store m sockaddr (replicate 16 2))"

definition accept_writes_sockaddr :: "u64 \<Rightarrow> u64 \<Rightarrow> umem \<Rightarrow> umem exec" where
  "accept_writes_sockaddr sockaddr addrlen m =
     op_test (and_then (Accept_build (Accept_addrlen (Accept_addr (Accept_new (fd 3)) sockaddr) addrlen))
         (\<lambda>e. Inr (Entry_user_data e 1101))) (has_result 42) (all_zero sockaddr 28)
       (store (store m sockaddr (replicate 28 0xFF)) addrlen (to_le_bytes 4 (28 :: u32)))"

definition socket_returns_fd :: "umem \<Rightarrow> umem exec" where
  "socket_returns_fd m =
     op_test (and_then (Socket_build (Socket_new 2 1 0)) (\<lambda>e. Inr (Entry_user_data e 1103))) (has_result 42) nothing m"

section \<open>Extended attributes\<close>

definition fsetxattr_reads_name_and_value :: "u64 \<Rightarrow> u64 \<Rightarrow> umem \<Rightarrow> umem exec" where
  "fsetxattr_reads_name_and_value name val m =
     op_test (Inr (Entry_user_data (FSetXattr_build (FSetXattr_new (fd 3) name val 5)) 1200)) (has_result 0) nothing
       (store (store m name (byte_string ''user.test'' @ [0])) val (byte_string ''hello''))"

definition fgetxattr_reads_name_writes_value :: "u64 \<Rightarrow> u64 \<Rightarrow> umem \<Rightarrow> umem exec" where
  "fgetxattr_reads_name_writes_value name val m =
     op_test (Inr (Entry_user_data (FGetXattr_build (FGetXattr_new (fd 3) name val 32)) 1201)) (has_result 32) (all_zero val 32)
       (store (store m name (byte_string ''user.test'' @ [0])) val (replicate 32 0xFF))"

definition setxattr_reads_name_value_path :: "u64 \<Rightarrow> u64 \<Rightarrow> u64 \<Rightarrow> umem \<Rightarrow> umem exec" where
  "setxattr_reads_name_value_path name val path m =
     op_test (Inr (Entry_user_data (SetXattr_build (SetXattr_new name val path 4)) 1202)) (has_result 0) nothing
       (store (store (store m name (byte_string ''user.test'' @ [0])) val (byte_string ''data'')) path
         (byte_string ''/tmp/file'' @ [0]))"

definition getxattr_reads_name_path_writes_value :: "u64 \<Rightarrow> u64 \<Rightarrow> u64 \<Rightarrow> umem \<Rightarrow> umem exec" where
  "getxattr_reads_name_path_writes_value name val path m =
     op_test (Inr (Entry_user_data (GetXattr_build (GetXattr_new name val path 16)) 1203)) (has_result 16) (all_zero val 16)
       (store (store (store m name (byte_string ''user.test'' @ [0])) val (replicate 16 0xFF)) path
         (byte_string ''/tmp/file'' @ [0]))"

section \<open>Futexes and the rest\<close>

definition futex_wait_reads_word :: "u64 \<Rightarrow> umem \<Rightarrow> umem exec" where
  "futex_wait_reads_word futex_word m =
     op_test (Inr (Entry_user_data (FutexWait_build (FutexWait_new futex_word 0 0xFFFFFFFF 0)) 1300)) (has_result 0) nothing
       (store m futex_word (to_le_bytes 4 (42 :: u32)))"

definition futex_wake_reads_word :: "u64 \<Rightarrow> umem \<Rightarrow> umem exec" where
  "futex_wake_reads_word futex_word m =
     op_test (Inr (Entry_user_data (FutexWake_build (FutexWake_new futex_word 1 0xFFFFFFFF 0)) 1301)) (has_result 0) nothing
       (store m futex_word (to_le_bytes 4 (0 :: u32)))"

definition futex_waitv_reads_array :: "u64 \<Rightarrow> umem \<Rightarrow> umem exec" where
  "futex_waitv_reads_array entries m =
     op_test (Inr (Entry_user_data (FutexWaitV_op_build (FutexWaitV_op_new entries 2)) 1302)) (has_result 0) nothing
       (store m entries (FutexWaitV_bytes (FutexWaitV_flags (FutexWaitV_uaddr (FutexWaitV_val FutexWaitV_new 1) 0x1000) 0)
         @ FutexWaitV_bytes (FutexWaitV_flags (FutexWaitV_uaddr (FutexWaitV_val FutexWaitV_new 2) 0x2000) 0)))"

definition epoll_ctl_reads_event :: "u64 \<Rightarrow> umem \<Rightarrow> umem exec" where
  "epoll_ctl_reads_event ev m =
     op_test (Inr (Entry_user_data (EpollCtl_build (EpollCtl_new (fd 5) 3 1 ev)) 1400)) (has_result 0) nothing
       (store m ev (replicate 12 0))"

definition epoll_wait_writes_events :: "u64 \<Rightarrow> umem \<Rightarrow> umem exec" where
  "epoll_wait_writes_events events m =
     op_test (Inr (Entry_user_data (EpollWait_build (EpollWait_new (fd 5) events 4)) 1401)) (has_result 0) (all_zero events 48)
       (store m events (replicate 48 0xFF))"

definition pipe_writes_two_fds :: "u64 \<Rightarrow> umem \<Rightarrow> umem exec" where
  "pipe_writes_two_fds fds m =
     op_test (Inr (Entry_user_data (Pipe_build (Pipe_new fds)) 1402)) (has_result 0)
       (\<lambda>m. and_then (read_u32 m fds) (\<lambda>v0. and_then (assert_eq v0 42) (\<lambda>_.
          and_then (read_u32 m (fds + 4)) (\<lambda>v1. assert_eq v1 43))))
       (store m fds (to_le_bytes 4 (- 1 :: i32) @ to_le_bytes 4 (- 1 :: i32)))"

definition waitid_writes_siginfo :: "u64 \<Rightarrow> umem \<Rightarrow> umem exec" where
  "waitid_writes_siginfo siginfo m =
     op_test (Inr (Entry_user_data (WaitId_build (WaitId_infop (WaitId_new 1 0 0) siginfo)) 1403)) (has_result 0) (all_zero siginfo 128)
       (store m siginfo (replicate 128 0xFF))"

definition fixed_fd_install_returns_fd :: "umem \<Rightarrow> umem exec" where
  "fixed_fd_install_returns_fd m =
     op_test (Inr (Entry_user_data (FixedFdInstall_build (FixedFdInstall_new (Fixed 0) 0)) 1404)) (has_result 42) nothing m"

definition provide_buffers_validates_range :: "u64 \<Rightarrow> umem \<Rightarrow> umem exec" where
  "provide_buffers_validates_range bufs m =
     op_test (Inr (Entry_user_data (ProvideBuffers_build (ProvideBuffers_new bufs 64 4 1 0)) 1405)) (has_result 0) nothing
       (store m bufs (replicate 256 0))"

definition files_update_reads_fd_array :: "u64 \<Rightarrow> umem \<Rightarrow> umem exec" where
  "files_update_reads_fd_array fds m =
     op_test (Inr (Entry_user_data (FilesUpdate_build (FilesUpdate_new fds 4)) 1406)) (has_result 4) nothing
       (store m fds (concat (map (\<lambda>v. to_le_bytes 4 (v :: i32)) [3, 4, 5, - 1])))"

definition uring_cmd16_dispatches_success :: "umem \<Rightarrow> umem exec" where
  "uring_cmd16_dispatches_success m =
     op_test (Inr (Entry_user_data (UringCmd16_build (UringCmd16_cmd (UringCmd16_new (fd 3) 0) (replicate 16 0))) 1800)) (has 1800 0)
       nothing m"

section \<open>They pass\<close>

abbreviation passes :: "umem exec \<Rightarrow> bool" where "passes t \<equiv> \<exists>m'. t = Inr m'"

lemma passesI:
  assumes "afterwards m' = Inr ()"
    and "check (cq_Entry \<lparr>cqe_user_data = sqe_user_data (entry_sqe e), cqe_res = r, cqe_flags = 0\<rparr>) = Inr ()"
    and "\<not> links (entry_sqe e)" "\<not> is_skip_success (entry_sqe e)" "dispatch_op (entry_sqe e) m = Inr (r, m')"
  shows "passes (op_test (Inr e) check afterwards m)"
  by (rule exI, rule op_test_passes [OF refl]) (fact assms)+

text \<open>What is evaluated: the builders, the choice of the handler, and the assertion on the completion.\<close>

lemmas entry_eval = Entry_user_data_def Let_def assign_fd_def sqe_zeroed_def io_uring_sqe_default_def UseFixed_into_Fd_def
  links_def is_link_def is_hardlink_def is_skip_success_def Flags_defs sys_consts with_file_index_def

lemmas result_eval = has_def has_user_data_def has_result_def assert_eq_def cq_Entry_user_data_def cq_Entry_result_def

lemmas op_eval = entry_eval result_eval dispatch_op_def all_zero_zeroed

subsection \<open>Buffers\<close>

lemma stored_live: "slot a n 1 \<Longrightarrow> length bs = n \<Longrightarrow> live (store m a bs) a n"
  by (meson holds_live holds_store order.refl)

lemma stored_readable: "slot a n 1 \<Longrightarrow> length bs = n \<Longrightarrow> readable (store m a bs) a n"
  by (meson holds_readable holds_store)

lemmas buffer_ops = Read_build_def Read_new_def Read_CODE_def Recv_build_def Recv_new_def Recv_CODE_def
  Write_build_def Write_new_def Write_CODE_def Send_build_def Send_new_def Send_CODE_def
  SendZc_build_def SendZc_new_def SendZc_CODE_def dispatch_buf_fill_eq dispatch_buf_sink_eq

lemma fill_tests:
  "slot buf 64 1 \<Longrightarrow> passes (read_op_fills_buffer buf m)"
  "slot buf 64 1 \<Longrightarrow> passes (submit_defers_buffer_touch_to_completion buf m)"
  "slot buf 128 1 \<Longrightarrow> passes (recv_fills_buffer buf m)"
  unfolding read_op_fills_buffer_def submit_defers_buffer_touch_to_completion_def recv_fills_buffer_def
  by (rule passesI; simp add: op_eval buffer_ops stored_live stored_readable slot_def)+

lemma sink_tests:
  "slot buf 32 1 \<Longrightarrow> passes (write_op_reads_buffer buf m)"
  "slot buf 64 1 \<Longrightarrow> passes (send_reads_buffer buf m)"
  "slot buf 48 1 \<Longrightarrow> passes (send_zc_reads_buffer buf m)"
  unfolding write_op_reads_buffer_def send_reads_buffer_def send_zc_reads_buffer_def
  by (rule passesI; simp add: op_eval buffer_ops stored_live stored_readable slot_def)+

lemma plain_tests: "passes (close_succeeds m)" "passes (fixed_fd_install_returns_fd m)" "passes (uring_cmd16_dispatches_success m)"
  unfolding close_succeeds_def fixed_fd_install_returns_fd_def uring_cmd16_dispatches_success_def
  by (rule passesI; simp add: op_eval Close_build_def Close_new_def Close_CODE_def FixedFdInstall_build_def
      FixedFdInstall_new_def FixedFdInstall_CODE_def UringCmd16_build_def UringCmd16_new_def UringCmd16_cmd_def UringCmd16_CODE_def)+

lemma socket_test: "passes (socket_returns_fd m)"
  unfolding socket_returns_fd_def
  by (simp add: Socket_build_def Socket_new_def entry_eval, rule passesI; simp add: op_eval Socket_CODE_def)

lemma timeout_test: "slot ts 16 8 \<Longrightarrow> passes (timeout_reads_timespec ts m)"
proof -
  assume s: "slot ts 16 8"
  let ?bs = "Timespec_bytes (Timespec_nsec (Timespec_sec Timespec_new 1) 500000000)"
  have "ptr_read (store m ts ?bs) ts 8 16 = Inr ?bs"
    using ptr_read_holds [OF holds_store, of ts ?bs 8 8 m] s by simp
  then show ?thesis unfolding timeout_reads_timespec_def using s
    by - (rule passesI; simp add: op_eval Timeout_build_def Timeout_new_def Timeout_CODE_def dispatch_timeout_def slot_def)
qed

subsection \<open>Paths\<close>

lemma stored_path:
  "slot p (Suc (length s)) 1 \<Longrightarrow> list_all (\<lambda>c. of_char c \<noteq> (0 :: u8)) s \<Longrightarrow>
     walk_cstr (store m p (byte_string s @ [0])) p = Inr ()"
  using holds_store [of p "byte_string s @ [0]" 1 m] by (intro walk_cstr_holds [of _ _ s]) simp_all

lemma stored_path_first:
  "slot p n 1 \<Longrightarrow> n = Suc (length s) \<Longrightarrow> list_all (\<lambda>c. of_char c \<noteq> (0 :: u8)) s \<Longrightarrow> length bs = k \<Longrightarrow>
     apart p n q k \<Longrightarrow> walk_cstr (store (store m p (byte_string s @ [0])) q bs) p = Inr ()"
  using holds_other [OF holds_store [of p "byte_string s @ [0]" 1 m], of q bs]
  by (intro walk_cstr_holds [of _ _ s]) simp_all

lemmas path_ops = OpenAt_CODE_def dispatch_openat_def RenameAt_build_def RenameAt_new_def RenameAt_CODE_def UnlinkAt_build_def UnlinkAt_new_def UnlinkAt_CODE_def
  MkDirAt_build_def MkDirAt_new_def MkDirAt_CODE_def SymlinkAt_build_def SymlinkAt_new_def SymlinkAt_CODE_def
  LinkAt_build_def LinkAt_new_def LinkAt_CODE_def dispatch_pathname_def

lemma path_tests:
  "slot path 10 1 \<Longrightarrow> passes (unlinkat_reads_pathname path m)"
  "slot path 9 1 \<Longrightarrow> passes (mkdirat_reads_pathname path m)"
  "slot path 10 1 \<Longrightarrow> passes (openat_reads_pathname_returns_fd path m)"
  unfolding unlinkat_reads_pathname_def mkdirat_reads_pathname_def openat_reads_pathname_returns_fd_def
    OpenAt_build_def OpenAt_new_def with_file_index_def Let_def
  by (simp, rule passesI; simp add: op_eval path_ops stored_path slot_def)+

lemma two_path_passes:
  assumes "slot p n 1" "slot q k 1" "apart p n q k" "n = Suc (length s)" "k = Suc (length t)"
    and "list_all (\<lambda>c. of_char c \<noteq> (0 :: u8)) s" "list_all (\<lambda>c. of_char c \<noteq> (0 :: u8)) t"
    and "\<And>m. dispatch_op (entry_sqe e) m = dispatch_pathname2 (entry_sqe e) m" "sqe_addr (entry_sqe e) = p" "sqe_off (entry_sqe e) = q"
    and "check (cq_Entry \<lparr>cqe_user_data = sqe_user_data (entry_sqe e), cqe_res = 0, cqe_flags = 0\<rparr>) = Inr ()"
    and "\<not> links (entry_sqe e)" "\<not> is_skip_success (entry_sqe e)"
  shows "passes (op_test (Inr e) check nothing (store (store m p (byte_string s @ [0])) q (byte_string t @ [0])))"
  using stored_path_first [of p n s "byte_string t @ [0]" k q m] stored_path [of q t] assms
  by - (rule passesI; simp add: dispatch_pathname2_def slot_def)

lemma two_path_tests:
  "slot old 9 1 \<Longrightarrow> slot new 9 1 \<Longrightarrow> apart old 9 new 9 \<Longrightarrow> passes (renameat_reads_two_pathnames old new m)"
  "slot old 12 1 \<Longrightarrow> slot new 10 1 \<Longrightarrow> apart old 12 new 10 \<Longrightarrow> passes (symlinkat_reads_two_pathnames old new m)"
  "slot old 14 1 \<Longrightarrow> slot new 14 1 \<Longrightarrow> apart old 14 new 14 \<Longrightarrow> passes (linkat_reads_two_pathnames old new m)"
  unfolding renameat_reads_two_pathnames_def symlinkat_reads_two_pathnames_def linkat_reads_two_pathnames_def
  by (erule (2) two_path_passes; simp add: op_eval path_ops)+

subsection \<open>A path or a name with a buffer\<close>

lemma openat2_test:
  assumes "slot path 11 1" "slot how 24 8" "apart path 11 how 24"
  shows "passes (openat2_reads_pathname_and_how path how m)"
proof -
  let ?bs = "OpenHow_bytes (OpenHow_mode (OpenHow_flags OpenHow_new 0) 420)"
  let ?m = "store (store m path (byte_string ''/tmp/test2'' @ [0])) how ?bs"
  have "ptr_read ?m how 8 24 = Inr ?bs"
    using ptr_read_holds [OF holds_store, of how ?bs 8 8] assms(2) by simp
  moreover have "walk_cstr ?m path = Inr ()" by (rule stored_path_first [OF assms(1) _ _ _ assms(3)]) simp_all
  ultimately show ?thesis
    using assms unfolding openat2_reads_pathname_and_how_def OpenAt2_build_def OpenAt2_new_def with_file_index_def Let_def
    by (simp, intro passesI) (simp_all add: op_eval OpenAt2_CODE_def dispatch_openat2_def slot_def)
qed

lemma stored_fill:
  "slot a n al \<Longrightarrow> length bs = n \<Longrightarrow> n < 2 ^ 63 \<Longrightarrow> slice_fill (store m a bs) a n = Inr (zeroed (store m a bs) (region a n))"
  using slice_fill_holds [OF holds_store] by blast

lemma statx_test:
  assumes "slot path 10 1" "slot buf 256 1" "apart path 10 buf 256"
  shows "passes (statx_reads_pathname_writes_buffer path buf m)"
proof -
  let ?m = "store (store m path (byte_string ''/tmp/stat'' @ [0])) buf (replicate 256 0xFF)"
  have "walk_cstr ?m path = Inr ()" by (rule stored_path_first [OF assms(1) _ _ _ assms(3)]) simp_all
  moreover have "slice_fill ?m buf 256 = Inr (zeroed ?m (region buf 256))"
    by (rule stored_fill [OF assms(2)]) simp_all
  ultimately show ?thesis
    using assms unfolding statx_reads_pathname_writes_buffer_def
    by - (rule passesI; simp add: op_eval Statx_build_def Statx_new_def Statx_CODE_def dispatch_statx_def slot_def)
qed

subsection \<open>Vectors\<close>

text \<open>Two buffers and an iovec array that names them, in the memory of a test.\<close>

definition scattered :: "umem \<Rightarrow> u64 \<Rightarrow> nat \<Rightarrow> u64 \<Rightarrow> nat \<Rightarrow> u64 \<Rightarrow> bool" where
  "scattered m b l c k p \<longleftrightarrow> slot b l 1 \<and> slot c k 1 \<and> slot p 32 8 \<and> 0 < l \<and> 0 < k \<and> l < 2 ^ 63 \<and> k < 2 ^ 63
     \<and> apart b l p 32 \<and> apart c k p 32 \<and> (\<exists>bs. length bs = l \<and> holds m b bs) \<and> (\<exists>cs. length cs = k \<and> holds m c cs)
     \<and> holds m p (iovec_bytes b (of_nat l) @ iovec_bytes c (of_nat k))"

lemma scatteredD:
  assumes "scattered m b l c k p"
  shows "decode_iovs 2 p m = Inr [(b, of_nat l), (c, of_nat k)]" "slice_check m p 2 16 8 = Inr ()"
    "iovs_live m [(b, of_nat l), (c, of_nat k)]" "iovs_readable m [(b, of_nat l), (c, of_nat k)]"
    "iov_bytes [(b, of_nat l), (c, of_nat k)] = region b l \<union> region c k"
    "(region b l \<union> region c k) \<inter> region p 32 = {}" "p \<noteq> 0"
proof -
  have [simp]: "unat (of_nat l :: usize) = l" "unat (of_nat k :: usize) = k"
    using assms by (simp_all add: scattered_def unat_of_nat)
  then have "0 < (of_nat l :: usize)" "0 < (of_nat k :: usize)"
    using assms by (simp_all add: scattered_def word_less_nat_alt)
  with assms two_iovecs [of m p b "of_nat l" c "of_nat k"] show "decode_iovs 2 p m = Inr [(b, of_nat l), (c, of_nat k)]"
    by (simp add: scattered_def slot_def)
  show "slice_check m p 2 16 8 = Inr ()"
    using assms slice_check_holds [of m p "iovec_bytes b (of_nat l) @ iovec_bytes c (of_nat k)" 8 2 16] by (simp add: scattered_def)
  show "iovs_live m [(b, of_nat l), (c, of_nat k)]" "iovs_readable m [(b, of_nat l), (c, of_nat k)]"
    using assms by (auto simp: scattered_def iovs_live_def iovs_readable_def intro: holds_live holds_readable)
  show "iov_bytes [(b, of_nat l), (c, of_nat k)] = region b l \<union> region c k" by (simp add: iov_bytes_def)
  show "(region b l \<union> region c k) \<inter> region p 32 = {}" "p \<noteq> 0"
    using assms by (auto simp: scattered_def apart_def slot_def)
qed

lemma scattered_stored:
  assumes "slot b (length bs) 1" "slot c (length cs) 1" "slot p 32 8" "bs \<noteq> []" "cs \<noteq> []" "length bs < 2 ^ 63" "length cs < 2 ^ 63"
    and "apart b (length bs) c (length cs)" "apart b (length bs) p 32" "apart c (length cs) p 32"
  shows "scattered (store (store (store m b bs) c cs) p (iovec_bytes b (of_nat (length bs)) @ iovec_bytes c (of_nat (length cs))))
     b (length bs) c (length cs) p"
  using assms three_holds [OF assms(1-3,8-10), of bs cs "iovec_bytes b (of_nat (length bs)) @ iovec_bytes c (of_nat (length cs))" m]
  by (auto simp: scattered_def)

lemma readv_scattered:
  assumes "scattered m b l c k p" "ucast (sqe_opcode sqe) \<in> {IORING_OP_READV, IORING_OP_READV_FIXED}"
    "sqe_addr sqe = p" "sqe_len sqe = 2"
  shows "dispatch_op sqe m = Inr (ucast (iov_total 0 [(b, of_nat l), (c, of_nat k)]), zeroed m (region b l \<union> region c k))"
  using fill_iovs_ref [OF scatteredD(1,3) [OF assms(1)], of 0] scatteredD [OF assms(1)] assms(3,4)
  by (simp add: dispatch_op_readv [OF assms(2)] dispatch_readv_def Let_def del: slice_check_Inr)

lemma writev_scattered:
  assumes "scattered m b l c k p" "ucast (sqe_opcode sqe) \<in> {IORING_OP_WRITEV, IORING_OP_WRITEV_FIXED}"
    "sqe_addr sqe = p" "sqe_len sqe = 2"
  shows "dispatch_op sqe m = Inr (ucast (iov_total 0 [(b, of_nat l), (c, of_nat k)]), m)"
  using sink_iovs_ref [OF scatteredD(1,4) [OF assms(1)], of 0 0] scatteredD [OF assms(1)] assms(3,4)
  by (simp add: dispatch_op_writev [OF assms(2)] dispatch_writev_def Let_def del: slice_check_Inr)

lemmas vector_ops = Readv_build_def Readv_new_def Readv_CODE_def Writev_build_def Writev_new_def Writev_CODE_def
  ReadvFixed_build_def ReadvFixed_new_def ReadvFixed_CODE_def WritevFixed_build_def WritevFixed_new_def WritevFixed_CODE_def

lemma readv_tests:
  "slot b 16 1 \<Longrightarrow> slot c 32 1 \<Longrightarrow> slot p 32 8 \<Longrightarrow> apart b 16 c 32 \<Longrightarrow> apart b 16 p 32 \<Longrightarrow> apart c 32 p 32 \<Longrightarrow>
     passes (readv_fills_scatter_buffers b c p m)"
  "slot b 32 1 \<Longrightarrow> slot c 16 1 \<Longrightarrow> slot p 32 8 \<Longrightarrow> apart b 32 c 16 \<Longrightarrow> apart b 32 p 32 \<Longrightarrow> apart c 16 p 32 \<Longrightarrow>
     passes (readv_fixed_fills_scatter_buffers b c p m)"
  unfolding readv_fills_scatter_buffers_def readv_fixed_fills_scatter_buffers_def
  using scattered_stored [of b "replicate 16 0xFF" c "replicate 32 0xFF" p m]
    scattered_stored [of b "replicate 32 0xFF" c "replicate 16 0xFF" p m]
  by - (rule passesI, rule_tac [5] readv_scattered; simp add: op_eval vector_ops all_zero_more iov_total_def saturating_add_def)+

lemma writev_tests:
  "slot b 16 1 \<Longrightarrow> slot c 32 1 \<Longrightarrow> slot p 32 8 \<Longrightarrow> apart b 16 c 32 \<Longrightarrow> apart b 16 p 32 \<Longrightarrow> apart c 32 p 32 \<Longrightarrow>
     passes (writev_reads_gather_buffers b c p m)"
  "slot b 20 1 \<Longrightarrow> slot c 10 1 \<Longrightarrow> slot p 32 8 \<Longrightarrow> apart b 20 c 10 \<Longrightarrow> apart b 20 p 32 \<Longrightarrow> apart c 10 p 32 \<Longrightarrow>
     passes (writev_fixed_reads_gather_buffers b c p m)"
  unfolding writev_reads_gather_buffers_def writev_fixed_reads_gather_buffers_def
  using scattered_stored [of b "replicate 16 1" c "replicate 32 2" p m]
    scattered_stored [of b "replicate 20 1" c "replicate 10 2" p m]
  by - (rule passesI, rule_tac [5] writev_scattered; simp add: op_eval vector_ops iov_total_def saturating_add_def)+

subsection \<open>Message headers\<close>

lemma message_stored:
  assumes "slot b (length bs) 1" "slot v 16 8" "slot h 56 8" "bs \<noteq> []" "length bs < 2 ^ 63"
    and "apart b (length bs) v 16" "apart b (length bs) h 56" "apart v 16 h 56"
    and m': "m' = store (store (store m b bs) v (iovec_bytes b (of_nat (length bs)))) h (msghdr_bytes v 1)"
  shows "deref_check m' h 8 56 = Inr ()" "name_at m' h = Inr None" "pair_at m' (h + 32) (h + 40) = Inr None"
    "pair_at m' (h + 16) (h + 24) = Inr (Some (v, 1))" "slice_check m' v 1 16 8 = Inr ()"
    "fill_iovs 1 v 0 m' = Inr (of_nat (length bs), zeroed m' (region b (length bs)))" "sink_iovs 1 v 0 0 m' = Inr (of_nat (length bs))"
proof -
  have h: "holds m' b bs" "holds m' v (iovec_bytes b (of_nat (length bs)))" "holds m' h (msghdr_bytes v 1)"
    using three_holds [OF assms(1-3,6-8), of bs "iovec_bytes b (of_nat (length bs))" "msghdr_bytes v 1" m] by (simp_all add: m')
  have l [simp]: "unat (of_nat (length bs) :: usize) = length bs" using assms(5) by (simp add: unat_of_nat)
  then have 0: "0 < (of_nat (length bs) :: usize)" using assms(4) by (simp add: word_less_nat_alt)
  show "deref_check m' h 8 56 = Inr ()" "name_at m' h = Inr None" "pair_at m' (h + 32) (h + 40) = Inr None"
    "pair_at m' (h + 16) (h + 24) = Inr (Some (v, 1))"
    using msghdr_holds [OF h(3)] assms(2,3) by (simp_all add: slot_def)
  show "slice_check m' v 1 16 8 = Inr ()"
    using slice_check_holds [OF h(2), of 8 1 16] assms(2) by simp
  have d: "decode_iovs 1 v m' = Inr [(b, of_nat (length bs))]"
    using one_iovec [OF h(2)] assms(1,2) 0 by (simp add: slot_def)
  show "sink_iovs 1 v 0 0 m' = Inr (of_nat (length bs))"
    using sink_iovs_ref [OF d, of 0 0] holds_readable [OF h(1) assms(1)] assms(5)
    by (simp add: iovs_readable_def iov_total_def saturating_add_def)
  show "fill_iovs 1 v 0 m' = Inr (of_nat (length bs), zeroed m' (region b (length bs)))"
    using fill_iovs_ref [OF d, of 0] holds_live [OF h(1) assms(1) order.refl] assms(5,6)
    by (simp add: iovs_live_def iov_total_def iov_bytes_def saturating_add_def apart_def)
qed

lemma sendmsg_test:
  assumes "slot buf 32 1" "slot iov 16 8" "slot hdr 56 8" "apart buf 32 iov 16" "apart buf 32 hdr 56" "apart iov 16 hdr 56"
  shows "passes (sendmsg_reads_msghdr buf iov hdr m)"
  using message_stored [of buf "replicate 32 42" iov hdr _ m, OF _ _ _ _ _ _ _ _ refl] assms
  unfolding sendmsg_reads_msghdr_def
  by - (rule passesI; simp add: op_eval SendMsg_build_def SendMsg_new_def SendMsg_CODE_def dispatch_sendmsg_def fill_if_def sink_if_def
      slot_def del: slice_check_Inr deref_check_Inr)

lemma recvmsg_test:
  assumes "slot buf 64 1" "slot iov 16 8" "slot hdr 56 8" "apart buf 64 iov 16" "apart buf 64 hdr 56" "apart iov 16 hdr 56"
  shows "passes (recvmsg_writes_msghdr buf iov hdr m)"
  using message_stored [of buf "replicate 64 0xFF" iov hdr _ m, OF _ _ _ _ _ _ _ _ refl] assms
  unfolding recvmsg_writes_msghdr_def
  by - (rule passesI; simp add: op_eval RecvMsg_build_def RecvMsg_new_def RecvMsg_CODE_def dispatch_recvmsg_def fill_if_def sink_if_def
      slot_def del: slice_check_Inr deref_check_Inr)

subsection \<open>Sockets\<close>

lemma stored_sink:
  assumes "slot a n al" "length bs = n" "n < 2 ^ 63"
  shows "\<exists>v. slice_sink (store m a bs) a n s = Inr v"
  using slice_sink_holds [OF holds_store assms(1), of bs al m s] assms by simp

lemma address_tests:
  assumes "slot a 16 1"
  shows "passes (connect_reads_sockaddr a m)" "passes (bind_reads_sockaddr a m)"
proof -
  obtain v where "slice_sink (store m a (replicate 16 0)) a 16 0 = Inr v" using stored_sink [OF assms, of "replicate 16 0" m 0] by auto
  moreover obtain w where "slice_sink (store m a (replicate 16 2)) a 16 0 = Inr w" using stored_sink [OF assms, of "replicate 16 2" m 0] by auto
  ultimately show "passes (connect_reads_sockaddr a m)" "passes (bind_reads_sockaddr a m)"
    using assms unfolding connect_reads_sockaddr_def bind_reads_sockaddr_def
    by - (rule passesI; simp add: op_eval Connect_build_def Connect_new_def Connect_CODE_def Bind_build_def Bind_new_def Bind_CODE_def
      dispatch_connect_def slot_def)+
qed

lemma ptr_write_holds:
  "holds m a cs \<Longrightarrow> slot a (length cs) al \<Longrightarrow> length bs = length cs \<Longrightarrow> ptr_write m a al bs = Inr (store m a bs)"
  using holds_live [of m a cs al "length cs"] by (simp add: ptr_write_def deref_check_def slot_def)

lemma accept_test:
  assumes "slot a 28 1" "slot l 4 4" "apart a 28 l 4"
  shows "passes (accept_writes_sockaddr a l m)"
proof -
  let ?m = "store (store m a (replicate 28 0xFF)) l (to_le_bytes 4 (28 :: u32))"
  have h: "holds ?m a (replicate 28 0xFF)" "holds ?m l (to_le_bytes 4 (28 :: u32))"
    by (rule two_holds [OF assms]; simp)+
  have "read_u32 ?m l = Inr 28"
    using read_u32_holds [OF h(2), of 4 0] assms(2) by (simp add: from_to_le_bytes)
  moreover have "slice_fill ?m a 28 = Inr (zeroed ?m (region a 28))" using slice_fill_holds [OF h(1), of 1] assms(1) by simp
  moreover have "write_u32 (zeroed ?m (region a 28)) l 0 = Inr (store (zeroed ?m (region a 28)) l (to_le_bytes 4 (0 :: u32)))"
    using ptr_write_holds [OF holds_zeroed [OF h(2)], of 4 "region a 28" 4] assms(2) apart_sym [OF assms(3)]
    by (simp add: write_u32_def apart_def)
  moreover have "all_zero a 28 (store (zeroed ?m (region a 28)) l (to_le_bytes 4 (0 :: u32))) = Inr ()"
    using assms(3) by (intro all_zero_holds holds_other [OF zeroed_holds]) simp
  ultimately show ?thesis
    using assms unfolding accept_writes_sockaddr_def Accept_build_def Accept_new_def Accept_addr_def Accept_addrlen_def with_file_index_def
      Let_def
    by (simp, intro passesI) (simp_all add: op_eval Accept_CODE_def dispatch_accept_def slot_def)
qed

subsection \<open>Extended attributes\<close>

lemmas attribute_ops = FSetXattr_build_def FSetXattr_new_def FSetXattr_CODE_def FGetXattr_build_def FGetXattr_new_def FGetXattr_CODE_def
  SetXattr_build_def SetXattr_new_def SetXattr_CODE_def GetXattr_build_def GetXattr_new_def GetXattr_CODE_def
  dispatch_xattr_set_def dispatch_xattr_get_def

lemma fsetxattr_test:
  assumes "slot name 10 1" "slot val 5 1" "apart name 10 val 5"
  shows "passes (fsetxattr_reads_name_and_value name val m)"
proof -
  let ?m = "store (store m name (byte_string ''user.test'' @ [0])) val (byte_string ''hello'')"
  have "walk_cstr ?m name = Inr ()" by (rule stored_path_first [OF assms(1) _ _ _ assms(3)]) simp_all
  moreover obtain v where "slice_sink ?m val 5 0 = Inr v" using stored_sink [OF assms(2), of "byte_string ''hello''" _ 0] by auto
  ultimately show ?thesis
    using assms unfolding fsetxattr_reads_name_and_value_def by - (rule passesI; simp add: op_eval attribute_ops slot_def)
qed

lemma fgetxattr_test:
  assumes "slot name 10 1" "slot val 32 1" "apart name 10 val 32"
  shows "passes (fgetxattr_reads_name_writes_value name val m)"
proof -
  let ?m = "store (store m name (byte_string ''user.test'' @ [0])) val (replicate 32 0xFF)"
  have "walk_cstr ?m name = Inr ()" by (rule stored_path_first [OF assms(1) _ _ _ assms(3)]) simp_all
  moreover have "slice_fill ?m val 32 = Inr (zeroed ?m (region val 32))" by (rule stored_fill [OF assms(2)]) simp_all
  ultimately show ?thesis
    using assms unfolding fgetxattr_reads_name_writes_value_def by - (rule passesI; simp add: op_eval attribute_ops slot_def)
qed

lemma setxattr_test:
  assumes "slot name 10 1" "slot val 4 1" "slot path 10 1" "apart name 10 val 4" "apart name 10 path 10" "apart val 4 path 10"
  shows "passes (setxattr_reads_name_value_path name val path m)"
proof -
  let ?m = "store (store (store m name (byte_string ''user.test'' @ [0])) val (byte_string ''data'')) path (byte_string ''/tmp/file'' @ [0])"
  have h: "holds ?m name (byte_string ''user.test'' @ [0])" "holds ?m val (byte_string ''data'')" "holds ?m path (byte_string ''/tmp/file'' @ [0])"
    by (rule three_holds [OF assms]; simp)+
  have "walk_cstr ?m name = Inr ()" by (rule walk_cstr_holds [OF h(1) assms(1)]) simp_all
  moreover have "walk_cstr ?m path = Inr ()" by (rule walk_cstr_holds [OF h(3) assms(3)]) simp_all
  moreover obtain v where "slice_sink ?m val 4 0 = Inr v" using slice_sink_holds [OF h(2) assms(2), of 0] by auto
  ultimately show ?thesis
    using assms unfolding setxattr_reads_name_value_path_def by - (rule passesI; simp add: op_eval attribute_ops slot_def)
qed

lemma getxattr_test:
  assumes "slot name 10 1" "slot val 16 1" "slot path 10 1" "apart name 10 val 16" "apart name 10 path 10" "apart val 16 path 10"
  shows "passes (getxattr_reads_name_path_writes_value name val path m)"
proof -
  let ?m = "store (store (store m name (byte_string ''user.test'' @ [0])) val (replicate 16 0xFF)) path (byte_string ''/tmp/file'' @ [0])"
  have h: "holds ?m name (byte_string ''user.test'' @ [0])" "holds ?m val (replicate 16 0xFF)" "holds ?m path (byte_string ''/tmp/file'' @ [0])"
    by (rule three_holds [OF assms]; simp)+
  have "walk_cstr ?m name = Inr ()" by (rule walk_cstr_holds [OF h(1) assms(1)]) simp_all
  moreover have "walk_cstr (zeroed ?m (region val 16)) path = Inr ()"
    using apart_sym [OF assms(6)] by (intro walk_cstr_holds [OF holds_zeroed [OF h(3), of 10] assms(3)]) (simp_all add: apart_def)
  moreover have "slice_fill ?m val 16 = Inr (zeroed ?m (region val 16))" using slice_fill_holds [OF h(2), of 1] assms(2) by simp
  ultimately show ?thesis
    using assms unfolding getxattr_reads_name_path_writes_value_def by - (rule passesI; simp add: op_eval attribute_ops slot_def)
qed

subsection \<open>Futexes and the rest\<close>

lemmas word_ops = FutexWait_build_def FutexWait_new_def FutexWait_CODE_def FutexWake_build_def FutexWake_new_def FutexWake_CODE_def
  FutexWaitV_op_build_def FutexWaitV_op_new_def FutexWaitV_op_CODE_def dispatch_futex_read_def dispatch_futex_waitv_def

lemma stored_u32: "slot a 4 4 \<Longrightarrow> read_u32 (store m a (to_le_bytes 4 v)) a = Inr v"
  using read_u32_holds [OF holds_store, of a "to_le_bytes 4 v" 4 4 0 m] by (simp add: from_to_le_bytes)

lemma futex_tests:
  "slot w 4 4 \<Longrightarrow> passes (futex_wait_reads_word w m)" "slot w 4 4 \<Longrightarrow> passes (futex_wake_reads_word w m)"
  unfolding futex_wait_reads_word_def futex_wake_reads_word_def
  by (rule passesI; simp add: op_eval word_ops stored_u32; simp add: slot_def)+

lemma waitv_holds:
  assumes "holds m p bs" "slot p (length bs) 8" "24 * n = length bs"
  shows "read_waitv n p m = Inr ()"
  using assms
proof (induction n arbitrary: p bs)
  case (Suc n)
  have "read_waitv n (p + 24) m = Inr ()"
  proof (cases "n = 0")
    case False
    then show ?thesis
      using Suc.IH [of "p + 24" "drop 24 bs"] holds_drop [OF Suc.prems(1), of 24 "length bs - 24"] Suc.prems(3)
        slot_part [OF Suc.prems(2), of 24 "length bs - 24"] by simp
  qed simp
  moreover have "\<exists>v. read_u64 m p = Inr v" "\<exists>v. read_u64 m (p + 8) = Inr v" "\<exists>v. read_u32 m (p + 16) = Inr v"
    using read_u64_holds [OF Suc.prems(1,2), of 0] read_u64_holds [OF Suc.prems(1,2), of 8]
      read_u32_holds [OF Suc.prems(1,2), of 16] Suc.prems(3) by simp_all
  ultimately show ?case by auto
qed simp

lemma waitv_test:
  assumes "slot entries 48 8"
  shows "passes (futex_waitv_reads_array entries m)"
proof -
  let ?bs = "FutexWaitV_bytes (FutexWaitV_flags (FutexWaitV_uaddr (FutexWaitV_val FutexWaitV_new 1) 0x1000) 0)
         @ FutexWaitV_bytes (FutexWaitV_flags (FutexWaitV_uaddr (FutexWaitV_val FutexWaitV_new 2) 0x2000) 0)"
  have h: "holds (store m entries ?bs) entries ?bs" using assms by (intro holds_store) simp
  have "read_waitv 2 entries (store m entries ?bs) = Inr ()" using waitv_holds [OF h, of 2] assms by simp
  moreover have "slice_check (store m entries ?bs) entries 2 24 8 = Inr ()" using slice_check_holds [OF h, of 8 2 24] assms by simp
  ultimately show ?thesis
    using assms unfolding futex_waitv_reads_array_def
    by - (rule passesI; simp add: op_eval word_ops slot_def del: slice_check_Inr)
qed

lemmas other_ops = EpollCtl_build_def EpollCtl_new_def EpollCtl_CODE_def EpollWait_build_def EpollWait_new_def EpollWait_CODE_def
  Pipe_build_def Pipe_new_def Pipe_CODE_def WaitId_build_def WaitId_new_def WaitId_infop_def WaitId_CODE_def
  ProvideBuffers_build_def ProvideBuffers_new_def ProvideBuffers_CODE_def FilesUpdate_build_def FilesUpdate_new_def FilesUpdate_CODE_def
  dispatch_epoll_ctl_def dispatch_epoll_wait_def dispatch_pipe_def dispatch_waitid_def dispatch_provide_buffers_def
  dispatch_files_update_def

lemma epoll_ctl_test: "slot ev 12 1 \<Longrightarrow> passes (epoll_ctl_reads_event ev m)"
proof -
  assume s: "slot ev 12 1"
  obtain v where "slice_sink (store m ev (replicate 12 0)) ev 12 0 = Inr v" using stored_sink [OF s, of "replicate 12 0" m 0] by auto
  with s show ?thesis unfolding epoll_ctl_reads_event_def by - (rule passesI; simp add: op_eval other_ops slot_def)
qed

lemma whole_fill_tests:
  "slot a 48 1 \<Longrightarrow> passes (epoll_wait_writes_events a m)" "slot a 128 1 \<Longrightarrow> passes (waitid_writes_siginfo a m)"
  unfolding epoll_wait_writes_events_def waitid_writes_siginfo_def
  by (rule passesI; simp add: op_eval other_ops rust_mul_def stored_fill [where al = 1] slot_def)+

lemma store_append: "store (store m a xs) (a + of_nat (length xs)) ys = store m a (xs @ ys)"
  proof (induction xs arbitrary: m a)
  case (Cons x xs)
  then show ?case by (simp add: add.assoc [symmetric] fun_upd_def)
qed simp

lemma pipe_test:
  assumes "slot fds 8 4"
  shows "passes (pipe_writes_two_fds fds m)"
proof -
  let ?m = "store m fds (to_le_bytes 4 (- 1 :: i32) @ to_le_bytes 4 (- 1 :: i32))"
  let ?n = "store ?m fds (to_le_bytes 4 (42 :: u32) @ to_le_bytes 4 (43 :: u32))"
  have h: "holds ?m fds (to_le_bytes 4 (- 1 :: i32) @ to_le_bytes 4 (- 1 :: i32))" using assms by (intro holds_store) simp
  have s: "slot fds 4 4" "slot (fds + 4) 4 4" using assms slot_part [OF assms, of 4 4] by (auto intro: slot_mono)
  have w: "write_u32 ?m fds 42 = Inr (store ?m fds (to_le_bytes 4 (42 :: u32)))"
    unfolding write_u32_def using h s(1) by (intro ptr_write_holds [of _ _ "to_le_bytes 4 (- 1 :: i32)"]) (simp_all add: holds_append)
  have "holds (store ?m fds (to_le_bytes 4 (42 :: u32))) (fds + 4) (to_le_bytes 4 (- 1 :: i32))"
    using h apart_next [of 4 4 fds] by - (rule holds_other, simp_all add: holds_append)
  then have "write_u32 (store ?m fds (to_le_bytes 4 (42 :: u32))) (fds + 4) 43 = Inr ?n"
    using ptr_write_holds [of _ _ "to_le_bytes 4 (- 1 :: i32)" 4 "to_le_bytes 4 (43 :: u32)"] s(2)
      store_append [of ?m fds "to_le_bytes 4 (42 :: u32)" "to_le_bytes 4 (43 :: u32)"] by (simp add: write_u32_def)
  moreover have "read_u32 ?n fds = Inr 42" "read_u32 ?n (fds + 4) = Inr 43"
    using read_u32_holds [OF holds_store, of fds "to_le_bytes 4 (42 :: u32) @ to_le_bytes 4 (43 :: u32)" 4 4 0 ?m]
      read_u32_holds [OF holds_store, of fds "to_le_bytes 4 (42 :: u32) @ to_le_bytes 4 (43 :: u32)" 4 4 4 ?m] assms
    by (simp_all add: from_to_le_bytes)
  ultimately show ?thesis
    using w s(1) unfolding pipe_writes_two_fds_def by - (rule passesI; simp add: op_eval other_ops slot_def)
qed

lemma provide_buffers_test: "slot bufs 256 1 \<Longrightarrow> passes (provide_buffers_validates_range bufs m)"
proof -
  assume s: "slot bufs 256 1"
  let ?m = "store m bufs (replicate 256 0)"
  have h: "holds ?m bufs (replicate 256 0)" using s by (intro holds_store) simp
  have "slice_check ?m bufs 256 1 1 = Inr ()" using slice_check_holds [OF h, of 1 256 1] s by simp
  moreover have "load ?m bufs 1 = Inr [0]" "load ?m (bufs + 255) 1 = Inr [0]"
    using holds_part [OF h, of 0 1] holds_part [OF h, of 255 1] by simp_all
  ultimately show ?thesis
    using s unfolding provide_buffers_validates_range_def
    by - (rule passesI; simp add: op_eval other_ops saturating_mul_def slot_def del: slice_check_Inr load.simps)
qed

lemma files_update_test: "slot fds 16 4 \<Longrightarrow> passes (files_update_reads_fd_array fds m)"
proof -
  assume s: "slot fds 16 4"
  let ?bs = "concat (map (\<lambda>v. to_le_bytes 4 (v :: i32)) [3, 4, 5, - 1])"
  have h: "holds (store m fds ?bs) fds ?bs" using s by (intro holds_store) simp
  have "slice_check (store m fds ?bs) fds 4 4 4 = Inr ()" using slice_check_holds [OF h, of 4 4 4] s by simp
  moreover have "load (store m fds ?bs) fds 16 = Inr ?bs" using h by (simp add: holds_def)
  ultimately show ?thesis
    using s unfolding files_update_reads_fd_array_def
    by - (rule passesI; simp add: op_eval other_ops slot_def del: slice_check_Inr)
qed

end
