(* ===== verification/Miring_Fmt.thy ===== *)
theory Miring_Fmt
  imports Miring_Ring
begin

text \<open>
  What the \<open>Debug\<close> and \<open>Display\<close> implementations of \<^verbatim>\<open>squeue.rs\<close>, \<^verbatim>\<open>cqueue.rs\<close>,
  \<^verbatim>\<open>lib.rs\<close> and \<^verbatim>\<open>sys.rs\<close> write, as strings: the formatter of \<open>{:?}\<close> without options, with
  \<open>DebugStruct\<close> and \<open>DebugList\<close> of the standard library on one line.  The lemmas show that such
  a text can be read back: a text is followed by what comes after it in one way only, so the text of
  a queue determines the fields printed of each of its entries, in order.
\<close>

section \<open>The formatter\<close>

definition digits :: string where
  "digits = ''0123456789''"

fun fmt_nat :: "nat \<Rightarrow> string" where
  "fmt_nat n = (if n < 10 then [digits ! n] else fmt_nat (n div 10) @ [digits ! (n mod 10)])"

declare fmt_nat.simps [simp del]

definition fmt_unsigned :: "'a::len word \<Rightarrow> string" where
  "fmt_unsigned w = fmt_nat (unat w)"

definition fmt_signed :: "'a::len word \<Rightarrow> string" where
  "fmt_signed w = (if sint w < 0 then CHR ''-'' # fmt_nat (nat (- sint w)) else fmt_nat (nat (sint w)))"

definition fmt_bool :: "bool \<Rightarrow> string" where
  "fmt_bool b = (if b then ''true'' else ''false'')"

fun comma_separated :: "string list \<Rightarrow> string" where
  "comma_separated [] = []"
| "comma_separated [t] = t"
| "comma_separated (t # ts) = t @ '', '' @ comma_separated ts"

definition fmt_field :: "string \<times> string \<Rightarrow> string" where
  "fmt_field = (\<lambda>(name, value). name @ '': '' @ value)"

text \<open>\<open>debug_struct(name).field(..)..finish()\<close> and \<open>finish_non_exhaustive()\<close>, \<open>debug_list()\<close>\<close>

definition debug_struct :: "string \<Rightarrow> (string \<times> string) list \<Rightarrow> string" where
  "debug_struct name fs = (if fs = [] then name
     else name @ '' { '' @ comma_separated (map fmt_field fs) @ '' }'')"

definition debug_struct_non_exhaustive :: "string \<Rightarrow> (string \<times> string) list \<Rightarrow> string" where
  "debug_struct_non_exhaustive name fs = (if fs = [] then name @ '' { .. }''
     else name @ '' { '' @ comma_separated (map fmt_field fs) @ '', .. }'')"

definition debug_list :: "string list \<Rightarrow> string" where
  "debug_list ts = ''['' @ comma_separated ts @ '']''"

section \<open>The implementations\<close>

definition io_uring_sqe_fmt :: "io_uring_sqe \<Rightarrow> string" where
  "io_uring_sqe_fmt s = debug_struct_non_exhaustive ''io_uring_sqe''
     [(''opcode'', fmt_unsigned (sqe_opcode s)), (''flags'', fmt_unsigned (sqe_flags s)),
      (''fd'', fmt_signed (sqe_fd s)), (''user_data'', fmt_unsigned (sqe_user_data s))]"

definition io_uring_cqe_fmt :: "io_uring_cqe \<Rightarrow> string" where
  "io_uring_cqe_fmt c = debug_struct ''io_uring_cqe''
     [(''user_data'', fmt_unsigned (cqe_user_data c)), (''res'', fmt_signed (cqe_res c)),
      (''flags'', fmt_unsigned (cqe_flags c))]"

definition Entry_fmt :: "Entry \<Rightarrow> string" where
  "Entry_fmt e = debug_struct ''Entry''
     [(''op_code'', fmt_unsigned (sqe_opcode (entry_sqe e))), (''flags'', fmt_unsigned (sqe_flags (entry_sqe e))),
      (''user_data'', fmt_unsigned (sqe_user_data (entry_sqe e)))]"

definition Entry128_fmt :: "Entry128 \<Rightarrow> string" where
  "Entry128_fmt e = debug_struct ''Entry128''
     [(''op_code'', fmt_unsigned (sqe_opcode (entry_sqe (entry128_base e)))),
      (''flags'', fmt_unsigned (sqe_flags (entry_sqe (entry128_base e)))),
      (''user_data'', fmt_unsigned (sqe_user_data (entry_sqe (entry128_base e))))]"

definition PushError_fmt :: "PushError \<Rightarrow> string" where
  "PushError_fmt e = ''submission queue is full''"

definition squeue_fmt :: "('s \<Rightarrow> string) \<Rightarrow> SubmissionQueue \<Rightarrow> ('s, 'c) RingMemory \<Rightarrow> string exec" where
  "squeue_fmt fmt sq mem = and_then (squeue_debug sq mem) (\<lambda>es. Inr (debug_list (map fmt es)))"

definition cq_Entry_fmt :: "cq_Entry \<Rightarrow> string" where
  "cq_Entry_fmt e = debug_struct ''Entry''
     [(''result'', fmt_signed (cq_Entry_result e)), (''user_data'', fmt_unsigned (cq_Entry_user_data e)),
      (''flags'', fmt_unsigned (cq_Entry_flags e))]"

definition cq_Entry32_fmt :: "cq_Entry32 \<Rightarrow> string" where
  "cq_Entry32_fmt e = debug_struct ''Entry32''
     [(''result'', fmt_signed (cq_Entry32_result e)), (''user_data'', fmt_unsigned (cq_Entry32_user_data e)),
      (''flags'', fmt_unsigned (cq_Entry32_flags e)), (''big_cqe'', debug_list (map fmt_unsigned (cq_Entry32_big_cqe e)))]"

definition Parameters_fmt :: "Parameters \<Rightarrow> string" where
  "Parameters_fmt p = debug_struct ''Parameters''
     [(''is_setup_sqpoll'', fmt_bool (is_setup_sqpoll p)), (''is_setup_iopoll'', fmt_bool (is_setup_iopoll p)),
      (''is_setup_single_issuer'', fmt_bool (is_setup_single_issuer p)),
      (''is_feature_single_mmap'', fmt_bool (is_feature_single_mmap p)),
      (''is_feature_nodrop'', fmt_bool (is_feature_nodrop p)),
      (''is_feature_submit_stable'', fmt_bool (is_feature_submit_stable p)),
      (''is_feature_rw_cur_pos'', fmt_bool (is_feature_rw_cur_pos p)),
      (''is_feature_cur_personality'', fmt_bool (is_feature_cur_personality p)),
      (''is_feature_poll_32bits'', fmt_bool (is_feature_poll_32bits p)),
      (''sq_entries'', fmt_unsigned (prm_sq_entries (parameters_0 p))),
      (''cq_entries'', fmt_unsigned (prm_cq_entries (parameters_0 p)))]"

section \<open>Reading back\<close>

definition read_nat :: "string \<Rightarrow> nat" where
  "read_nat ds = foldl (\<lambda>n d. 10 * n + length (takeWhile (\<lambda>c. c \<noteq> d) digits)) 0 ds"

lemma digit_value: "d < 10 \<Longrightarrow> length (takeWhile (\<lambda>c. c \<noteq> digits ! d) digits) = d"
proof -
  have "\<forall>d\<in>set [0..<10]. length (takeWhile (\<lambda>c. c \<noteq> digits ! d) digits) = d"
    by (simp add: digits_def upt_conv_Cons)
  then show "d < 10 \<Longrightarrow> ?thesis" by simp
qed

lemma digit_in: "d < 10 \<Longrightarrow> digits ! d \<in> set digits"
  by (rule nth_mem) (simp add: digits_def)

lemma read_fmt_nat [simp]: "read_nat (fmt_nat n) = n"
proof (induction n rule: fmt_nat.induct)
  case (1 n)
  then show ?case by (subst fmt_nat.simps) (auto simp: digit_value read_nat_def)
qed

lemma fmt_nat_inject [simp]: "fmt_nat m = fmt_nat n \<longleftrightarrow> m = n"
  using read_fmt_nat by metis

lemma fmt_nat_digits: "set (fmt_nat n) \<subseteq> set digits" and fmt_nat_Nil [simp]: "fmt_nat n \<noteq> []"
proof -
  show "set (fmt_nat n) \<subseteq> set digits"
  proof (induction n rule: fmt_nat.induct)
    case (1 n)
    then show ?case by (subst fmt_nat.simps) (auto simp: digit_in)
  qed
  show "fmt_nat n \<noteq> []" by (subst fmt_nat.simps) simp
qed

lemma hd_fmt_nat: "hd (fmt_nat n) \<in> set digits"
  using fmt_nat_digits hd_in_set [OF fmt_nat_Nil] by blast

lemma fmt_nat_split [simp]:
  assumes "c \<notin> set digits" "d \<notin> set digits"
  shows "fmt_nat m @ c # r = fmt_nat n @ d # s \<longleftrightarrow> m = n \<and> c = d \<and> r = s"
proof
  assume eq: "fmt_nat m @ c # r = fmt_nat n @ d # s"
  have tw: "takeWhile (\<lambda>x. x \<in> set digits) (fmt_nat k @ e # t) = fmt_nat k" if "e \<notin> set digits" for k e t
    using fmt_nat_digits [of k] that by (auto simp: takeWhile_append)
  from arg_cong [OF eq, of "takeWhile (\<lambda>x. x \<in> set digits)"] have "fmt_nat m = fmt_nat n"
    using assms by (simp add: tw)
  with eq show "m = n \<and> c = d \<and> r = s" by simp
qed simp

lemma fmt_unsigned_split [simp]:
  "c \<notin> set digits \<Longrightarrow> d \<notin> set digits \<Longrightarrow>
   fmt_unsigned v @ c # r = fmt_unsigned w @ d # s \<longleftrightarrow> v = w \<and> c = d \<and> r = s"
  by (simp add: fmt_unsigned_def word_unat_eq_iff)

lemma fmt_nat_minus: "CHR ''-'' # x \<noteq> fmt_nat n @ y"
proof
  assume "CHR ''-'' # x = fmt_nat n @ y"
  then have "hd (fmt_nat n) = CHR ''-''" by (cases "fmt_nat n") simp_all
  with hd_fmt_nat [of n] show False by (simp add: digits_def)
qed

lemma fmt_signed_split [simp]:
  assumes "c \<notin> set digits" "d \<notin> set digits"
  shows "fmt_signed v @ c # r = fmt_signed w @ d # s \<longleftrightarrow> v = w \<and> c = d \<and> r = s"
proof (cases "sint v < 0 \<longleftrightarrow> sint w < 0")
  case True
  have "v = w \<longleftrightarrow> sint v = sint w" by (auto intro: signed_word_eqI)
  with True assms show ?thesis by (auto simp: fmt_signed_def)
next
  case False
  then show ?thesis using fmt_nat_minus fmt_nat_minus [symmetric] by (auto simp: fmt_signed_def)
qed

lemmas fmt_defs = debug_struct_def debug_struct_non_exhaustive_def fmt_field_def

lemma comma_separated_Cons:
  "comma_separated (t # ts) = t @ (if ts = [] then [] else '', '' @ comma_separated ts)"
  by (cases ts) simp_all

text \<open>
  Texts that can be told apart from what follows them in a list, and \<open>shown\<close>, what they show of a
  value.
\<close>

locale readable =
  fixes fmt :: "'a \<Rightarrow> string" and shown :: "'a \<Rightarrow> 'b"
  assumes read_front: "fmt x @ c # r = fmt y @ d # s \<Longrightarrow> c \<in> {CHR '','', CHR '']''} \<Longrightarrow>
      d \<in> {CHR '','', CHR '']''} \<Longrightarrow> shown x = shown y \<and> c = d \<and> r = s"
    and front: "fmt x \<noteq> [] \<and> hd (fmt x) \<noteq> CHR '']''"
begin

lemma read_items:
  "comma_separated (map fmt xs) @ CHR '']'' # r = comma_separated (map fmt ys) @ CHR '']'' # s \<Longrightarrow>
     map shown xs = map shown ys \<and> r = s"
proof (induction xs arbitrary: ys)
  case Nil
  then show ?case using front [of "hd ys"] by (cases ys; cases "fmt (hd ys)") (auto simp: comma_separated_Cons)
next
  case (Cons x xs)
  show ?case
  proof (cases ys)
    case Nil
    with Cons.prems show ?thesis using front [of x] by (cases "fmt x") (auto simp: comma_separated_Cons)
  next
    case ys: (Cons y ys')
    let ?c = "\<lambda>zs. if zs = [] then CHR '']'' else CHR '',''"
    let ?t = "\<lambda>zs t. if zs = [] then t else '' '' @ comma_separated (map fmt zs) @ CHR '']'' # t"
    have "fmt x @ ?c xs # ?t xs r = fmt y @ ?c ys' # ?t ys' s"
      using Cons.prems ys by (simp add: comma_separated_Cons split: if_splits)
    then have "shown x = shown y \<and> ?c xs = ?c ys' \<and> ?t xs r = ?t ys' s" by (rule read_front) simp_all
    then have hd: "shown x = shown y" "xs = [] \<longleftrightarrow> ys' = []" "?t xs r = ?t ys' s"
      by (auto split: if_splits)
    then have "map shown xs = map shown ys' \<and> r = s"
      using Cons.IH [of ys'] by (cases "xs = []") simp_all
    with hd(1) ys show ?thesis by simp
  qed
qed

lemma read_list: "debug_list (map fmt xs) @ r = debug_list (map fmt ys) @ s \<Longrightarrow> map shown xs = map shown ys \<and> r = s"
  using read_items [of xs r ys s] by (simp add: debug_list_def)

end

lemmas fmt_accessors = cq_Entry_result_def cq_Entry_user_data_def cq_Entry_flags_def cq_Entry32_result_def
  cq_Entry32_user_data_def cq_Entry32_flags_def cq_Entry32_big_cqe_def

interpretation read_unsigned: readable "fmt_unsigned :: 'a::len word \<Rightarrow> string" id
proof
  show "fmt_unsigned x \<noteq> [] \<and> hd (fmt_unsigned x) \<noteq> CHR '']''" for x :: "'a word"
    using hd_fmt_nat [of "unat x"] by (auto simp: fmt_unsigned_def digits_def)
qed (auto simp: digits_def)

interpretation read_entry: readable Entry_fmt
  "\<lambda>e. (sqe_opcode (entry_sqe e), sqe_flags (entry_sqe e), sqe_user_data (entry_sqe e))"
  by unfold_locales (simp_all add: Entry_fmt_def fmt_defs digits_def)

interpretation read_entry128: readable Entry128_fmt
  "\<lambda>e. (sqe_opcode (entry_sqe (entry128_base e)), sqe_flags (entry_sqe (entry128_base e)),
     sqe_user_data (entry_sqe (entry128_base e)))"
  by unfold_locales (simp_all add: Entry128_fmt_def fmt_defs digits_def)

interpretation read_cq_entry: readable cq_Entry_fmt cq_entry_cqe
  by unfold_locales (simp_all add: cq_Entry_fmt_def fmt_defs digits_def fmt_accessors)

interpretation read_sqe: readable io_uring_sqe_fmt "\<lambda>s. (sqe_opcode s, sqe_flags s, sqe_fd s, sqe_user_data s)"
  by unfold_locales (simp_all add: io_uring_sqe_fmt_def fmt_defs digits_def)

interpretation read_cqe: readable io_uring_cqe_fmt id
  by unfold_locales (simp_all add: io_uring_cqe_fmt_def fmt_defs digits_def)

interpretation read_cq_entry32: readable cq_Entry32_fmt id
proof
  show "id x = id y \<and> c = d \<and> r = s" if "cq_Entry32_fmt x @ c # r = cq_Entry32_fmt y @ d # s" for x y c d r s
  proof -
    from that have "cq_entry_cqe (cq_entry32_base x) = cq_entry_cqe (cq_entry32_base y)"
      and "debug_list (map fmt_unsigned (cq_entry32_big x)) @ '' }'' @ c # r
        = debug_list (map fmt_unsigned (cq_entry32_big y)) @ '' }'' @ d # s"
      by (simp_all add: cq_Entry32_fmt_def fmt_defs digits_def fmt_accessors)
    with read_unsigned.read_list show ?thesis
      by (metis append_Cons append_Nil cq_Entry.expand cq_Entry32.expand id_apply list.inject list.map_id)
  qed
qed (simp add: cq_Entry32_fmt_def fmt_defs)

section \<open>The text of a queue\<close>

text \<open>What \<open>Debug\<close> prints of an entry, and the entries between the handle's positions.\<close>

definition printed :: "Entry \<Rightarrow> u8 \<times> u8 \<times> u64" where
  "printed e = (sqe_opcode (entry_sqe e), sqe_flags (entry_sqe e), sqe_user_data (entry_sqe e))"

definition queued :: "SubmissionQueue \<Rightarrow> ('s, 'c) RingMemory \<Rightarrow> 's list" where
  "queued sq mem = ring_slice (rm_sqes mem) (sqi_ring_mask (sq_queue sq)) (sq_head sq) (dist (sq_head sq) (sq_tail sq))"

lemma squeue_fmt_queued: "sq_view sq mem \<Longrightarrow> squeue_fmt fmt sq mem = Inr (debug_list (map fmt (queued sq mem)))"
  by (simp add: squeue_fmt_def squeue_debug_def squeue_debug_loop_law sq_view_def queued_def)

lemma Entry_fmt_printed: "Entry_fmt e = (case printed e of (opcode, flags, user_data) \<Rightarrow> debug_struct ''Entry''
     [(''op_code'', fmt_unsigned opcode), (''flags'', fmt_unsigned flags), (''user_data'', fmt_unsigned user_data)])"
  by (simp add: Entry_fmt_def printed_def)

text \<open>Printing a submission queue through a valid handle reads only inside the entry array and ends; the text
  is the list of its queued entries, and it can be read back: two queues print the same text exactly when
  they queue, in order, entries with the same operation code, flags and user data.\<close>

theorem queue_text_shows_the_queue:
  assumes "sq_view sq mem" and "sq_view sq' mem'"
  shows "squeue_fmt Entry_fmt sq mem = Inr (debug_list (map Entry_fmt (queued sq mem)))
    \<and> (squeue_fmt Entry_fmt sq mem = squeue_fmt Entry_fmt sq' mem' \<longleftrightarrow>
        map printed (queued sq mem) = map printed (queued sq' mem'))"
proof -
  have "debug_list (map Entry_fmt xs) = debug_list (map Entry_fmt ys) \<longleftrightarrow> map printed xs = map printed ys" for xs ys
  proof
    assume "map printed xs = map printed ys"
    moreover have "map Entry_fmt zs = map (\<lambda>(opcode, flags, user_data). debug_struct ''Entry''
       [(''op_code'', fmt_unsigned opcode), (''flags'', fmt_unsigned flags), (''user_data'', fmt_unsigned user_data)])
         (map printed zs)" for zs
      by (simp add: Entry_fmt_printed [abs_def])
    ultimately show "debug_list (map Entry_fmt xs) = debug_list (map Entry_fmt ys)" by metis
  qed (use read_entry.read_list [of xs "[]" ys "[]"] in \<open>simp add: printed_def [abs_def]\<close>)
  with assms show ?thesis by (simp add: squeue_fmt_queued)
qed

definition printed_example :: "u64 \<Rightarrow> (Entry, cq_Entry) RingMemory" where
  "printed_example ud = \<lparr>rm_state = \<lparr>st_sq_head = 0, st_sq_tail = 1, st_sq_flags = 0, st_sq_dropped = 0, st_cq_head = 0,
       st_cq_tail = 0, st_cq_overflow = 0, st_cq_flags = 0, st_pending = []\<rparr>,
     rm_sqes = replicate 2 (Entry (io_uring_sqe_default\<lparr>sqe_user_data := ud\<rparr>)), rm_cqes = []\<rparr>"

theorem queue_text_shows_the_queue_witness:
  "let sq = squeue_borrow \<lparr>sqi_ring_mask = 1, sqi_ring_entries = 2\<rparr> (printed_example 42) in
   squeue_fmt Entry_fmt sq (printed_example 42) = Inr ''[Entry { op_code: 0, flags: 0, user_data: 42 }]''
   \<and> squeue_fmt Entry_fmt sq (printed_example 42) \<noteq> squeue_fmt Entry_fmt sq (printed_example 7)"
proof -
  let ?sq = "squeue_borrow \<lparr>sqi_ring_mask = 1, sqi_ring_entries = 2\<rparr> (printed_example 42)"
  have view: "sq_view ?sq (printed_example ud)" for ud
    by (simp add: sq_view_def squeue_borrow_def squeue_borrow_shared_def unsync_load_def printed_example_def
        ring_geom_def dist_def bexI [of _ 1])
  have q: "queued ?sq (printed_example ud) = [Entry (io_uring_sqe_default\<lparr>sqe_user_data := ud\<rparr>)]" for ud
    by (simp add: queued_def squeue_borrow_def squeue_borrow_shared_def unsync_load_def printed_example_def
        dist_def ring_slice_def ring_index_def)
  have "fmt_nat 42 = ''42''" "fmt_nat 0 = ''0''" by (simp_all add: fmt_nat.simps digits_def)
  then show ?thesis
    using queue_text_shows_the_queue [OF view [of 42] view [of 7]]
    by (auto simp: Let_def q printed_def Entry_fmt_def fmt_unsigned_def debug_list_def fmt_defs io_uring_sqe_default_def)
qed

end
