(* ===== verification/Miring_RecvMsg.thy ===== *)
theory Miring_RecvMsg
  imports Miring_Memory
begin

text \<open>
  \<open>RecvMsgOut\<close> of \<^verbatim>\<open>src/types.rs\<close>: parsing the buffer of a multishot
  \<open>RecvMsg\<close>, that is a 16-byte header, a name field and a control field of the sizes given in
  the \<open>msghdr\<close>, and the payload.  All additions are \<open>usize\<close> additions that may panic, all
  slices are checked; \<open>RecvMsgOut_parse_eq\<close> shows that neither ever happens.  A slice is at
  most \<open>isize::MAX\<close> bytes long, which is a guarantee of the language and a premise here.
\<close>

record RecvMsgOut =
  rmg_header :: io_uring_recvmsg_out
  rmg_msghdr_name_len :: usize
  rmg_name_data :: "u8 list"
  rmg_control_data :: "u8 list"
  rmg_payload_data :: "u8 list"

definition DATA_START :: usize where
  "DATA_START = of_nat (repr_c_size io_uring_recvmsg_out_fields)"

text \<open>\<open>read_unaligned\<close> of the header from the front of the buffer.\<close>

definition recvmsg_header :: "u8 list \<Rightarrow> io_uring_recvmsg_out exec" where
  "recvmsg_header buffer =
     (if length buffer < repr_c_size io_uring_recvmsg_out_fields then UB UB_out_of_bounds
      else Inr \<lparr>rmo_namelen = from_le_bytes (take 4 buffer),
                rmo_controllen = from_le_bytes (take 4 (drop 4 buffer)),
                rmo_payloadlen = from_le_bytes (take 4 (drop 8 buffer)),
                rmo_flags = from_le_bytes (take 4 (drop 12 buffer))\<rparr>)"

definition RecvMsgOut_parse :: "u8 list \<Rightarrow> u32 \<Rightarrow> usize \<Rightarrow> (unit + RecvMsgOut) exec" where
  "RecvMsgOut_parse buffer msghdr_name_len msghdr_control_len =
     (let name_len = ucast msghdr_name_len :: usize;
          control_len = msghdr_control_len;
          buf_len = of_nat (length buffer) :: usize
      in if (case Option.bind (checked_add DATA_START name_len) (\<lambda>acc. checked_add acc control_len) of
               Some header_len \<Rightarrow> buf_len < header_len | None \<Rightarrow> True)
         then Inr (Inl ())
         else and_then (recvmsg_header buffer) (\<lambda>header.
           and_then (rust_add DATA_START (min (ucast (rmo_namelen header)) name_len)) (\<lambda>name_data_end.
           and_then (rust_add DATA_START name_len) (\<lambda>control_start.
           and_then (slice_range buffer (unat DATA_START) (unat name_data_end)) (\<lambda>name_data.
           and_then (rust_add control_start (min (ucast (rmo_controllen header)) control_len)) (\<lambda>control_data_end.
           and_then (rust_add control_start control_len) (\<lambda>payload_start.
           and_then (slice_range buffer (unat control_start) (unat control_data_end)) (\<lambda>control_data.
           and_then (rust_sub buf_len payload_start) (\<lambda>rest.
           and_then (rust_add payload_start (min (ucast (rmo_payloadlen header)) rest)) (\<lambda>payload_data_end.
           and_then (slice_range buffer (unat payload_start) (unat payload_data_end)) (\<lambda>payload_data.
             Inr (Inr \<lparr>rmg_header = header, rmg_msghdr_name_len = name_len,
                rmg_name_data = name_data, rmg_control_data = control_data,
                rmg_payload_data = payload_data\<rparr>))))))))))))"

text \<open>\<open>parse_msghdr\<close>: two unaligned reads at fixed offsets of the C structure.\<close>

definition RecvMsgOut_parse_msghdr :: "u8 list \<Rightarrow> u64 \<Rightarrow> umem \<Rightarrow> (unit + RecvMsgOut) exec" where
  "RecvMsgOut_parse_msghdr buffer msghdr m =
     and_then (ptr_read m (msghdr + 8) 1 4) (\<lambda>namelen.
     and_then (ptr_read m (msghdr + 40) 1 8) (\<lambda>controllen.
       RecvMsgOut_parse buffer (from_le_bytes namelen) (from_le_bytes controllen)))"

definition incoming_name_len :: "RecvMsgOut \<Rightarrow> u32" where
  "incoming_name_len r = rmo_namelen (rmg_header r)"

definition is_name_data_truncated :: "RecvMsgOut \<Rightarrow> bool" where
  "is_name_data_truncated r \<longleftrightarrow> ucast (rmo_namelen (rmg_header r)) > rmg_msghdr_name_len r"

definition RecvMsgOut_name_data :: "RecvMsgOut \<Rightarrow> u8 list" where
  "RecvMsgOut_name_data r = rmg_name_data r"

definition incoming_control_len :: "RecvMsgOut \<Rightarrow> u32" where
  "incoming_control_len r = rmo_controllen (rmg_header r)"

definition RecvMsgOut_control_data :: "RecvMsgOut \<Rightarrow> u8 list" where
  "RecvMsgOut_control_data r = rmg_control_data r"

definition RecvMsgOut_payload_data :: "RecvMsgOut \<Rightarrow> u8 list" where
  "RecvMsgOut_payload_data r = rmg_payload_data r"

definition incoming_payload_len :: "RecvMsgOut \<Rightarrow> u32" where
  "incoming_payload_len r = rmo_payloadlen (rmg_header r)"

definition RecvMsgOut_flags :: "RecvMsgOut \<Rightarrow> u32" where
  "RecvMsgOut_flags r = rmo_flags (rmg_header r)"

section \<open>The reference\<close>

text \<open>The buffer the kernel writes for a message.\<close>

definition recvmsg_encode ::
  "io_uring_recvmsg_out \<Rightarrow> u8 list \<Rightarrow> u8 list \<Rightarrow> u8 list \<Rightarrow> u8 list" where
  "recvmsg_encode h name_field control_field payload =
     to_le_bytes 4 (rmo_namelen h) @ to_le_bytes 4 (rmo_controllen h)
     @ to_le_bytes 4 (rmo_payloadlen h) @ to_le_bytes 4 (rmo_flags h)
     @ name_field @ control_field @ payload"

definition header_of :: "u8 list \<Rightarrow> io_uring_recvmsg_out" where
  "header_of buffer = \<lparr>rmo_namelen = from_le_bytes (take 4 buffer),
     rmo_controllen = from_le_bytes (take 4 (drop 4 buffer)),
     rmo_payloadlen = from_le_bytes (take 4 (drop 8 buffer)),
     rmo_flags = from_le_bytes (take 4 (drop 12 buffer))\<rparr>"

section \<open>Lemmas\<close>

lemma recvmsg_out_size: "repr_c_size io_uring_recvmsg_out_fields = 16"
  by (simp add: io_uring_recvmsg_out_fields_def layout_simps)

lemma unat_DATA_START [simp]: "unat DATA_START = 16"
  by (simp add: DATA_START_def recvmsg_out_size)

lemma unat_min: "unat (min a b) = min (unat a) (unat (b :: 'a::len word))"
  by (simp add: min_def word_le_nat_alt)

lemma rust_add_Inr:
  "unat a + unat b < 2 ^ LENGTH('a) \<Longrightarrow> rust_add a b = Inr (a + b :: 'a::len word)"
  by (simp add: rust_add_def checked_add_def)

lemma unat_add_less: "unat a + unat b < 2 ^ LENGTH('a) \<Longrightarrow> unat (a + b :: 'a::len word) = unat a + unat b"
  by (simp add: unat_word_ariths)

lemma unat_of_nat_usize: "n < 2 ^ 63 \<Longrightarrow> unat (of_nat n :: usize) = n"
  by (simp add: unat_of_nat)

lemma parse_too_short:
  assumes "length buffer < 2 ^ 63"
  shows "(case Option.bind (checked_add DATA_START (ucast nl)) (\<lambda>acc. checked_add acc cl) of
      Some header_len \<Rightarrow> of_nat (length buffer) < header_len | None \<Rightarrow> True) \<longleftrightarrow>
    length buffer < 16 + unat (nl :: u32) + unat (cl :: usize)"
proof -
  have nl: "unat nl < 2 ^ 32" by (rule order_less_le_trans [OF unsigned_less]) simp
  then have 1: "checked_add DATA_START (ucast nl) = Some (DATA_START + ucast nl)"
    by (simp add: checked_add_def)
  have u1: "unat (DATA_START + ucast nl) = 16 + unat nl"
    using nl by (subst unat_add_less) simp_all
  show ?thesis
  proof (cases "16 + unat nl + unat cl < 2 ^ 64")
    case True
    then have "unat (DATA_START + ucast nl + cl) = 16 + unat nl + unat cl"
      using u1 by (subst unat_add_less) simp_all
    with True 1 u1 assms show ?thesis
      by (simp add: checked_add_def word_less_nat_alt unat_of_nat_usize)
  next
    case False
    with 1 u1 assms show ?thesis by (simp add: checked_add_def)
  qed
qed

text \<open>A slice that starts at a checked sum and lies in the buffer is taken without a panic.\<close>

lemma checked_slice:
  assumes "length buffer < 2 ^ 63" and "unat s + unat k \<le> length buffer"
  shows "rust_add s k = Inr (s + k)" "unat (s + k) = unat s + unat (k :: usize)"
    "slice_range buffer (unat s) (unat (s + k)) = Inr (take (unat k) (drop (unat s) buffer))"
proof -
  from assms have "unat s + unat k < 2 ^ LENGTH(64)" by simp
  then show "rust_add s k = Inr (s + k)" and u: "unat (s + k) = unat s + unat k"
    by (rule rust_add_Inr, rule unat_add_less)
  show "slice_range buffer (unat s) (unat (s + k)) = Inr (take (unat k) (drop (unat s) buffer))"
    using assms unfolding u by (simp add: slice_range_def)
qed

lemma RecvMsgOut_parse_ok:
  assumes b: "length buffer < 2 ^ 63" and le: "16 + unat nl + unat cl \<le> length buffer"
  defines "h \<equiv> header_of buffer"
  shows "RecvMsgOut_parse buffer nl cl =
    Inr (Inr \<lparr>rmg_header = h, rmg_msghdr_name_len = ucast nl,
      rmg_name_data = take (min (unat (rmo_namelen h)) (unat nl)) (drop 16 buffer),
      rmg_control_data = take (min (unat (rmo_controllen h)) (unat cl)) (drop (16 + unat nl) buffer),
      rmg_payload_data = take (unat (rmo_payloadlen h)) (drop (16 + unat nl + unat cl) buffer)\<rparr>)"
proof -
  let ?n = "ucast nl :: usize" and ?L = "of_nat (length buffer) :: usize"
  let ?nm = "min (ucast (rmo_namelen h)) ?n" and ?cm = "min (ucast (rmo_controllen h)) cl"
  define cs where "cs = DATA_START + ?n"
  define ps where "ps = cs + cl"
  let ?pm = "min (ucast (rmo_payloadlen h)) (?L - ps)"
  note slice = checked_slice [OF b]
  have nm: "unat ?nm = min (unat (rmo_namelen h)) (unat nl)"
    and cm: "unat ?cm = min (unat (rmo_controllen h)) (unat cl)"
    by (simp_all add: unat_min)
  have cs: "rust_add DATA_START ?n = Inr cs" "unat cs = 16 + unat nl"
    using slice(1,2) [of DATA_START ?n] le by (simp_all add: cs_def)
  have ps: "rust_add cs cl = Inr ps" "unat ps = 16 + unat nl + unat cl"
    using slice(1,2) [of cs cl] le by (simp_all add: ps_def cs)
  have L: "unat ?L = length buffer" using b by (rule unat_of_nat_usize)
  then have "ps \<le> ?L" using ps le by (simp add: word_le_nat_alt)
  then have rest: "rust_sub ?L ps = Inr (?L - ps)" "unat (?L - ps) = length buffer - unat ps"
    using L by (simp_all add: unat_sub rust_sub_def checked_sub_def)
  then have pm: "unat ?pm = min (unat (rmo_payloadlen h)) (length buffer - unat ps)"
    by (simp add: unat_min)
  have hdr: "recvmsg_header buffer = Inr h"
    using le by (simp add: recvmsg_header_def h_def header_of_def recvmsg_out_size)
  have fits: "unat DATA_START + unat ?nm \<le> length buffer" "unat cs + unat ?cm \<le> length buffer"
    "unat ps + unat ?pm \<le> length buffer"
    unfolding nm cm pm using le cs ps by auto
  have "\<not> length buffer < 16 + unat nl + unat cl" using le by simp
  then have "RecvMsgOut_parse buffer nl cl =
      Inr (Inr \<lparr>rmg_header = h, rmg_msghdr_name_len = ?n,
        rmg_name_data = take (unat ?nm) (drop (unat DATA_START) buffer),
        rmg_control_data = take (unat ?cm) (drop (unat cs) buffer),
        rmg_payload_data = take (unat ?pm) (drop (unat ps) buffer)\<rparr>)"
    unfolding RecvMsgOut_parse_def Let_def parse_too_short [OF b]
    by (simp only: if_False hdr and_then_simps cs(1) ps(1) rest(1) slice(1,3) [OF fits(1)]
        slice(1,3) [OF fits(2)] slice(1,3) [OF fits(3)])
  then show ?thesis unfolding nm cm pm unfolding cs ps by (simp add: min_def)
qed

lemma RecvMsgOut_parse_short:
  "length buffer < 2 ^ 63 \<Longrightarrow> length buffer < 16 + unat nl + unat cl \<Longrightarrow>
     RecvMsgOut_parse buffer nl cl = Inr (Inl ())"
  using parse_too_short [of buffer nl cl] by (simp add: RecvMsgOut_parse_def)

lemma header_of_encode [simp]: "header_of (recvmsg_encode h nf cf payload) = h"
  by (simp add: header_of_def recvmsg_encode_def from_to_le_bytes)

lemma length_recvmsg_encode [simp]:
  "length (recvmsg_encode h nf cf payload) = 16 + length nf + length cf + length payload"
  by (simp add: recvmsg_encode_def)

lemma drop_recvmsg_encode [simp]:
  "drop (16 + n) (recvmsg_encode h nf cf payload) = drop n (nf @ cf @ payload)"
  "drop 16 (recvmsg_encode h nf cf payload) = nf @ cf @ payload"
  by (simp_all add: recvmsg_encode_def)

lemma RecvMsgOut_parse_encode:
  assumes "length nf = unat nl" "length cf = unat cl"
    and "16 + unat nl + unat cl + length payload < 2 ^ 63"
  shows "RecvMsgOut_parse (recvmsg_encode h nf cf payload) nl cl =
    Inr (Inr \<lparr>rmg_header = h, rmg_msghdr_name_len = ucast nl,
      rmg_name_data = take (unat (rmo_namelen h)) nf,
      rmg_control_data = take (unat (rmo_controllen h)) cf,
      rmg_payload_data = take (unat (rmo_payloadlen h)) payload\<rparr>)"
proof -
  let ?b = "recvmsg_encode h nf cf payload"
  have "drop (16 + unat nl + unat cl) ?b = payload" "drop (16 + unat nl) ?b = cf @ payload"
    using assms by (simp_all add: add.assoc)
  moreover have "take (min k n) (xs @ ys) = take k xs" if "length xs = n"
    for k n and xs ys :: "u8 list"
    using that by (simp add: min_def)
  ultimately show ?thesis
    using assms(3) RecvMsgOut_parse_ok [of ?b nl cl] by (simp add: assms(1,2))
qed

section \<open>Properties\<close>

text \<open>C32: \<open>RecvMsgOut::parse\<close> returns \<open>Err\<close> exactly when the buffer cannot hold the header, the
  name field and the control field, also when the sum of their sizes overflows \<open>usize\<close>; otherwise
  it returns the header and three disjoint slices, each cut to what its field or the buffer can
  hold.  No addition overflows and no slice is out of range.\<close>

theorem parse_never_panics:
  assumes "length buffer < 2 ^ 63"
  shows "RecvMsgOut_parse buffer nl cl = Inr
    (if length buffer < 16 + unat nl + unat cl then Inl ()
     else Inr \<lparr>rmg_header = header_of buffer, rmg_msghdr_name_len = ucast nl,
       rmg_name_data = take (min (unat (rmo_namelen (header_of buffer))) (unat nl)) (drop 16 buffer),
       rmg_control_data = take (min (unat (rmo_controllen (header_of buffer))) (unat cl))
         (drop (16 + unat nl) buffer),
       rmg_payload_data = take (unat (rmo_payloadlen (header_of buffer)))
         (drop (16 + unat nl + unat cl) buffer)\<rparr>)"
  using RecvMsgOut_parse_ok [OF assms, of nl cl] RecvMsgOut_parse_short [OF assms, of nl cl] by auto

theorem parse_never_panics_witness:
  "RecvMsgOut_parse (replicate 19 0) 2 2 = Inr (Inl ())
   \<and> RecvMsgOut_parse [] 7 (- 1) = Inr (Inl ())
   \<and> (\<exists>r. RecvMsgOut_parse (replicate 16 0 @ [1, 2]) 1 0 = Inr (Inr r))"
  using parse_never_panics [of "replicate 19 0" 2 2] parse_never_panics [of "[]" 7 "- 1"]
    parse_never_panics [of "replicate 16 0 @ [1, 2]" 1 0]
  by simp



end
