(* ===== verification/Miring_Tests_More.thy ===== *)
theory Miring_Tests_More
  imports Miring_Tests_Ops Miring_Fmt Miring_RecvMsg Miring_Layout "HOL-Library.Sublist"
begin

text \<open>
  The remaining integration tests of \<^verbatim>\<open>tests/ring.rs\<close>: those that wait in the submission, submit twice
  before they complete, format, register, build entries and parse received messages.
\<close>

section \<open>Waiting\<close>

definition wait_test ::
  "Entry \<Rightarrow> (usize \<Rightarrow> unit exec) \<Rightarrow> (umem \<Rightarrow> unit exec) \<Rightarrow> (cq_Entry \<Rightarrow> unit exec) \<Rightarrow> umem \<Rightarrow> umem exec"
where
  "wait_test e submitted afterwards check m =
     and_then (and_then (IoUring_new 8) unwrap) (\<lambda>ring.
     and_then (push_block [e] ring) (\<lambda>ring1.
     and_then (IoUring_submit_and_wait smark cmark 1 ring1 m) (\<lambda>(r, ring2, m2).
     and_then (unwrap r) (\<lambda>n.
     and_then (submitted n) (\<lambda>_.
     and_then (afterwards m2) (\<lambda>_.
     and_then (IoUring_completion smark cmark ring2 m2) (\<lambda>(cq, ring3, m3).
     and_then (assert_each [check] cq (ring_memory ring3)) (\<lambda>cq1.
       RingMemory_drop (cqueue_drop cq1 (ring_memory ring3)) m3))))))))"

definition submit_and_wait_basic :: "umem \<Rightarrow> umem exec" where
  "submit_and_wait_basic = wait_test (nop_with 7) (\<lambda>n. assert_eq n 1) nothing (has_user_data 7)"

definition submit_and_wait_flushes_pending :: "u64 \<Rightarrow> umem \<Rightarrow> umem exec" where
  "submit_and_wait_flushes_pending buf m =
     wait_test (Entry_user_data (Read_build (Read_new (fd 0) buf 64)) 1) any_count (all_zero buf 64) (has 1 64)
       (store m buf (replicate 64 0xFF))"

text \<open>The second buffer is allocated after the first submit.\<close>

definition multiple_submits_before_completion :: "u64 \<Rightarrow> u64 \<Rightarrow> umem \<Rightarrow> umem exec" where
  "multiple_submits_before_completion buf1 buf2 m =
     and_then (and_then (IoUring_new 8) unwrap) (\<lambda>ring.
     and_then (push_block [Entry_user_data (Read_build (Read_new (fd 0) buf1 32)) 1] ring) (\<lambda>ring1.
     and_then (submit_unwrap smark cmark ring1 (store m buf1 (replicate 32 0xFF))) (\<lambda>(_, ring2, m2).
     and_then (push_block [Entry_user_data (Read_build (Read_new (fd 0) buf2 16)) 2] ring2) (\<lambda>ring3.
     and_then (submit_unwrap smark cmark ring3 (store m2 buf2 (replicate 16 0xFF))) (\<lambda>(_, ring4, m4).
     and_then (IoUring_completion smark cmark ring4 m4) (\<lambda>(cq, ring5, m5).
     and_then (assert_each [has 1 32, has 2 16] cq (ring_memory ring5)) (\<lambda>cq1.
     and_then (all_zero buf1 32 m5) (\<lambda>_. and_then (all_zero buf2 16 m5) (\<lambda>_.
       RingMemory_drop (cqueue_drop cq1 (ring_memory ring5)) m5)))))))))"

section \<open>Formatting and registration\<close>

text \<open>\<open>assert!(debug.contains(..))\<close>\<close>

definition assert_contains :: "string \<Rightarrow> string \<Rightarrow> unit exec" where
  "assert_contains text part = assert_true (sublist part text)"

definition debug_format_params :: "umem \<Rightarrow> umem exec" where
  "debug_format_params = with_ring (IoUring_builder smark cmark) 8 (\<lambda>ring. let debug = Parameters_fmt (IoUring_params ring) in
     and_then (assert_contains debug ''Parameters'') (\<lambda>_. assert_contains debug ''sq_entries''))"

definition debug_format_cqe :: "umem \<Rightarrow> umem exec" where
  "debug_format_cqe = batch_test smark cmark 8 [nop_with 123] any_count [\<lambda>cqe. assert_contains (cq_Entry_fmt cqe) ''123''] as_is"

definition squeue_wait_test :: "umem \<Rightarrow> umem exec" where
  "squeue_wait_test = with_ring (IoUring_builder smark cmark) 8 (\<lambda>ring. and_then (unwrap submitter_squeue_wait) (\<lambda>n. assert_eq n 0))"

definition register_personality_test :: "umem \<Rightarrow> umem exec" where
  "register_personality_test = with_ring (IoUring_builder smark cmark) 8 (\<lambda>ring.
     and_then (unwrap register_personality) (\<lambda>id. and_then (assert_eq id 0) (\<lambda>_. unwrap (unregister_personality id))))"

definition probe_reports_nop_supported :: "umem \<Rightarrow> umem exec" where
  "probe_reports_nop_supported = with_ring (IoUring_builder smark cmark) 8 (\<lambda>ring.
     let (r, probe) = register_probe Probe_new in
     and_then (unwrap r) (\<lambda>_. assert_true (Probe_is_supported probe 0)))"

definition probe_reports_handled_ops_only :: "umem \<Rightarrow> umem exec" where
  "probe_reports_handled_ops_only = with_ring (IoUring_builder smark cmark) 8 (\<lambda>ring.
     let (r, probe) = register_probe Probe_new in
     and_then (unwrap r) (\<lambda>_.
     and_then (assert_true (list_all (Probe_is_supported probe) [0, 22, 23, 27, 26, 11, 13, 18, 19, 45, 62])) (\<lambda>_.
       assert_true (\<not> Probe_is_supported probe 63))))"

section \<open>Builders\<close>

definition recv_multi_builds_correct_opcode :: "unit exec" where
  "recv_multi_builds_correct_opcode =
     assert_eq (Entry_get_opcode (RecvMulti_build (RecvMulti_new (fd 3) 7))) (ucast Recv_CODE)"

definition accept_multi_builds_correct_opcode :: "unit exec" where
  "accept_multi_builds_correct_opcode =
     assert_eq (Entry_get_opcode (AcceptMulti_build (AcceptMulti_new (fd 3)))) (ucast Accept_CODE)"

definition recv_msg_multi_builds_correct_opcode :: "unit exec" where
  "recv_msg_multi_builds_correct_opcode =
     assert_eq (Entry_get_opcode (RecvMsgMulti_build (RecvMsgMulti_new (fd 3) 0 5))) (ucast RecvMsg_CODE)"

definition read_multi_builds_correct_opcode :: "unit exec" where
  "read_multi_builds_correct_opcode =
     assert_eq (Entry_get_opcode (ReadMulti_build (ReadMulti_new (fd 0) 4096 3))) (ucast ReadMulti_CODE)"

definition recv_bundle_builds_correct_opcode :: "unit exec" where
  "recv_bundle_builds_correct_opcode =
     assert_eq (Entry_get_opcode (RecvBundle_build (RecvBundle_new (fd 3) 2))) (ucast Recv_CODE)"

definition send_bundle_builds_correct_opcode :: "unit exec" where
  "send_bundle_builds_correct_opcode =
     assert_eq (Entry_get_opcode (SendBundle_build (SendBundle_new (fd 3) 2))) (ucast Send_CODE)"

definition recv_multi_bundle_builds_correct_opcode :: "unit exec" where
  "recv_multi_bundle_builds_correct_opcode =
     assert_eq (Entry_get_opcode (RecvMultiBundle_build (RecvMultiBundle_new (fd 3) 4))) (ucast Recv_CODE)"

definition timeout_update_builds_correct_opcode :: "u64 \<Rightarrow> unit exec" where
  "timeout_update_builds_correct_opcode ts =
     assert_eq (Entry_get_opcode (TimeoutUpdate_build (TimeoutUpdate_new 0xABCD ts))) (ucast TimeoutRemove_CODE)"

definition uring_cmd16_builds_correct_opcode :: "unit exec" where
  "uring_cmd16_builds_correct_opcode =
     assert_eq (Entry_get_opcode (UringCmd16_build (UringCmd16_cmd (UringCmd16_new (fd 3) 42) (replicate 16 0)))) (ucast UringCmd16_CODE)"

definition uring_cmd80_builds_entry128 :: "unit exec" where
  "uring_cmd80_builds_entry128 =
     assert_eq (Entry128_get_opcode (UringCmd80_build (UringCmd80_cmd (UringCmd80_new (fd 3) 99) (replicate 80 0))))
       (ucast UringCmd80_CODE)"

definition async_cancel2_builds_correct_opcode :: "unit exec" where
  "async_cancel2_builds_correct_opcode =
     assert_eq (Entry_get_opcode (AsyncCancel2_build (AsyncCancel2_new (CancelBuilder_user_data 0x1234)))) (ucast AsyncCancel_CODE)"

definition async_cancel2_any_builds_correct_opcode :: "unit exec" where
  "async_cancel2_any_builds_correct_opcode =
     assert_eq (Entry_get_opcode (AsyncCancel2_build (AsyncCancel2_new CancelBuilder_any))) (ucast AsyncCancel_CODE)"

section \<open>Received messages\<close>

definition recvmsg_name_bytes :: "u8 list" where
  "recvmsg_name_bytes = [0x02, 0x00, 0x1F, 0x90, 127, 0, 0, 1] @ replicate 20 0"

definition recvmsg_out_parse_basic :: "unit exec" where
  "recvmsg_out_parse_basic =
     (let payload = byte_string ''QUIC datagram payload'';
          buf = to_le_bytes 4 (16 :: u32) @ to_le_bytes 4 (0 :: u32) @ to_le_bytes 4 (of_nat (length payload) :: u32)
            @ to_le_bytes 4 (0 :: u32) @ recvmsg_name_bytes @ payload
      in and_then (RecvMsgOut_parse buf 28 0) (\<lambda>r. and_then (unwrap r) (\<lambda>msg.
         and_then (assert_eq (incoming_name_len msg) 16) (\<lambda>_.
         and_then (assert_eq (length (RecvMsgOut_name_data msg)) 16) (\<lambda>_.
         and_then (assert_true (\<not> is_name_data_truncated msg)) (\<lambda>_.
         and_then (assert_eq (length (RecvMsgOut_control_data msg)) 0) (\<lambda>_.
         and_then (assert_eq (RecvMsgOut_payload_data msg) payload) (\<lambda>_.
         and_then (assert_eq (incoming_payload_len msg) (of_nat (length payload))) (\<lambda>_.
           assert_eq (RecvMsgOut_flags msg) 0)))))))))"

definition recvmsg_out_parse_truncated_name :: "unit exec" where
  "recvmsg_out_parse_truncated_name =
     (let buf = to_le_bytes 4 (100 :: u32) @ to_le_bytes 4 (0 :: u32) @ to_le_bytes 4 (5 :: u32) @ to_le_bytes 4 (0 :: u32)
            @ [1, 2, 3, 4, 5, 6, 7, 8] @ byte_string ''hello''
      in and_then (RecvMsgOut_parse buf 8 0) (\<lambda>r. and_then (unwrap r) (\<lambda>msg.
         and_then (assert_true (is_name_data_truncated msg)) (\<lambda>_.
         and_then (assert_eq (length (RecvMsgOut_name_data msg)) 8) (\<lambda>_.
           assert_eq (RecvMsgOut_payload_data msg) (byte_string ''hello''))))))"

definition recvmsg_out_parse_too_short_buffer :: "unit exec" where
  "recvmsg_out_parse_too_short_buffer = and_then (RecvMsgOut_parse (replicate 10 0) 28 0) (\<lambda>r. assert_true (isl r))"

section \<open>Layout\<close>

text \<open>The unit tests of \<^verbatim>\<open>src/sys.rs\<close>, \<^verbatim>\<open>src/squeue.rs\<close> and \<^verbatim>\<open>src/cqueue.rs\<close> on sizes and alignments.\<close>

definition sqe_layout :: "unit exec" where
  "sqe_layout = and_then (assert_eq (repr_c_size io_uring_sqe_fields) 64) (\<lambda>_. assert_eq (repr_c_align io_uring_sqe_fields) 8)"

definition cqe_layout :: "unit exec" where
  "cqe_layout = and_then (assert_eq (repr_c_size io_uring_cqe_fields) 16) (\<lambda>_. assert_eq (repr_c_align io_uring_cqe_fields) 8)"

definition params_layout :: "unit exec" where
  "params_layout = assert_eq (repr_c_size io_uring_params_fields) 120"

definition timespec_layout :: "unit exec" where
  "timespec_layout = assert_eq (repr_c_size kernel_timespec_fields) 16"

definition open_how_layout :: "unit exec" where
  "open_how_layout = assert_eq (repr_c_size open_how_fields) 24"

definition squeue_test_entry_sizes :: "unit exec" where
  "squeue_test_entry_sizes = and_then (assert_eq (repr_c_size Entry_fields) 64) (\<lambda>_. assert_eq (repr_c_size Entry128_fields) 128)"

definition cqueue_test_entry_sizes :: "unit exec" where
  "cqueue_test_entry_sizes = and_then (assert_eq (repr_c_size cq_Entry_fields) 16) (\<lambda>_. assert_eq (repr_c_size cq_Entry32_fields) 32)"

section \<open>They pass\<close>

lemma layout_tests: "sqe_layout = Inr ()" "cqe_layout = Inr ()" "params_layout = Inr ()" "timespec_layout = Inr ()"
  "open_how_layout = Inr ()" "squeue_test_entry_sizes = Inr ()" "cqueue_test_entry_sizes = Inr ()"
  by (simp_all add: sqe_layout_def cqe_layout_def params_layout_def timespec_layout_def open_how_layout_def
      squeue_test_entry_sizes_def cqueue_test_entry_sizes_def assert_eq_def params_size struct_sizes entry_layouts)

lemma register_tests:
  "squeue_wait_test m = Inr m" "register_personality_test m = Inr m"
  by (simp_all add: squeue_wait_test_def register_personality_test_def build_eval submitter_squeue_wait_def
      register_personality_def unregister_personality_def)

lemma probe_tests:
  "probe_reports_nop_supported m = Inr m" "probe_reports_handled_ops_only m = Inr m"
  by (simp_all add: probe_reports_nop_supported_def probe_reports_handled_ops_only_def build_eval register_probe_def
      HANDLED_OPCODES_def Probe_is_supported_def Probe_set_supported_def Probe_new_def Probe_COUNT_def)

lemma sublist_inside: "sublist xs ys \<Longrightarrow> sublist xs (ps @ ys @ ss)"
proof -
  assume "sublist xs ys"
  then obtain us vs where "ps @ ys @ ss = (ps @ us) @ xs @ (vs @ ss)" by (auto simp: sublist_def)
  then show ?thesis unfolding sublist_def by blast
qed

lemma comma_separated_sublist: "t \<in> set ts \<Longrightarrow> sublist t (comma_separated ts)"
proof (induction ts rule: comma_separated.induct)
  case (3 u v ts)
  then show ?case
    using sublist_inside [of t "comma_separated (v # ts)" "u @ '', ''" "[]"] sublist_inside [of u u "[]"] by auto
qed auto

lemma debug_struct_sublist:
  "sublist name (debug_struct name fs)"
  "(n, v) \<in> set fs \<Longrightarrow> sublist n (debug_struct name fs)" "(n, v) \<in> set fs \<Longrightarrow> sublist v (debug_struct name fs)"
proof -
  show "sublist name (debug_struct name fs)" by (simp add: debug_struct_def)
  assume f: "(n, v) \<in> set fs"
  then have "sublist (fmt_field (n, v)) (debug_struct name fs)"
    using comma_separated_sublist [of "fmt_field (n, v)" "map fmt_field fs"]
      sublist_inside [of _ "comma_separated (map fmt_field fs)" "name @ '' { ''" "'' }''"]
    by (auto simp: debug_struct_def)
  moreover have "sublist n (fmt_field (n, v))" "sublist v (fmt_field (n, v))"
    using sublist_inside [of n n "[]"] sublist_inside [of v v "n @ '': ''" "[]"] by (simp_all add: fmt_field_def)
  ultimately show "sublist n (debug_struct name fs)" "sublist v (debug_struct name fs)"
    using sublist_order.order_trans by blast+
qed

lemma contains: "sublist part text \<Longrightarrow> assert_contains text part = Inr ()"
  by (simp add: assert_contains_def assert_true_def)

lemma params_contain: "assert_contains (Parameters_fmt p) ''Parameters'' = Inr ()" "assert_contains (Parameters_fmt p) ''sq_entries'' = Inr ()"
  unfolding Parameters_fmt_def by (rule contains, rule debug_struct_sublist; simp)+

lemma cqe_contains:
  "assert_contains (cq_Entry_fmt (cq_Entry \<lparr>cqe_user_data = 123, cqe_res = 0, cqe_flags = 0\<rparr>)) ''123'' = Inr ()"
proof (rule contains)
  let ?e = "cq_Entry \<lparr>cqe_user_data = 123, cqe_res = 0, cqe_flags = 0\<rparr>"
  have "fmt_unsigned (cq_Entry_user_data ?e) = ''123''"
    by (simp add: cq_Entry_user_data_def fmt_unsigned_def fmt_nat.simps digits_def)
  then have "(''user_data'', ''123'') \<in> set [(''result'', fmt_signed (cq_Entry_result ?e)),
      (''user_data'', fmt_unsigned (cq_Entry_user_data ?e)), (''flags'', fmt_unsigned (cq_Entry_flags ?e))]"
    by simp
  then show "sublist ''123'' (cq_Entry_fmt ?e)" unfolding cq_Entry_fmt_def by (rule debug_struct_sublist(3))
qed

lemma format_tests: "debug_format_params m = Inr m" "debug_format_cqe m = Inr m"
proof -
  show "debug_format_params m = Inr m" unfolding debug_format_params_def Let_def params_contain by (simp add: build_eval)
  show "debug_format_cqe m = Inr m"
    unfolding debug_format_cqe_def using cqe_contains by - (rule batch_passes; simp add: batch_eval map_cqe_of_cmark)
qed

lemma builder_tests: "recv_multi_builds_correct_opcode = Inr ()"
  "accept_multi_builds_correct_opcode = Inr ()" "recv_msg_multi_builds_correct_opcode = Inr ()"
  "read_multi_builds_correct_opcode = Inr ()" "recv_bundle_builds_correct_opcode = Inr ()"
  "send_bundle_builds_correct_opcode = Inr ()" "recv_multi_bundle_builds_correct_opcode = Inr ()"
  "timeout_update_builds_correct_opcode ts = Inr ()" "uring_cmd16_builds_correct_opcode = Inr ()"
  "uring_cmd80_builds_entry128 = Inr ()" "async_cancel2_builds_correct_opcode = Inr ()"
  "async_cancel2_any_builds_correct_opcode = Inr ()"
  unfolding recv_multi_builds_correct_opcode_def accept_multi_builds_correct_opcode_def recv_msg_multi_builds_correct_opcode_def
    read_multi_builds_correct_opcode_def recv_bundle_builds_correct_opcode_def send_bundle_builds_correct_opcode_def
    recv_multi_bundle_builds_correct_opcode_def timeout_update_builds_correct_opcode_def uring_cmd16_builds_correct_opcode_def
    uring_cmd80_builds_entry128_def async_cancel2_builds_correct_opcode_def async_cancel2_any_builds_correct_opcode_def
    RecvMulti_build_def AcceptMulti_build_def RecvMsgMulti_build_def ReadMulti_build_def RecvBundle_build_def SendBundle_build_def
    RecvMultiBundle_build_def TimeoutUpdate_build_def UringCmd16_build_def UringCmd80_build_def AsyncCancel2_build_def
  by (simp_all add: Entry_get_opcode_def Entry128_get_opcode_def entry_eval assert_eq_def
     RecvMulti_new_def AcceptMulti_new_def RecvMsgMulti_new_def ReadMulti_new_def RecvBundle_new_def SendBundle_new_def
     RecvMultiBundle_new_def TimeoutUpdate_new_def UringCmd16_new_def UringCmd80_new_def AsyncCancel2_new_def
     RecvMulti_CODE_def AcceptMulti_CODE_def RecvMsgMulti_CODE_def ReadMulti_CODE_def RecvBundle_CODE_def SendBundle_CODE_def
     RecvMultiBundle_CODE_def TimeoutUpdate_CODE_def UringCmd16_CODE_def UringCmd80_CODE_def AsyncCancel2_CODE_def
     Recv_CODE_def Accept_CODE_def RecvMsg_CODE_def Send_CODE_def TimeoutRemove_CODE_def AsyncCancel_CODE_def
     CancelBuilder_any_def CancelBuilder_user_data_def UringCmd16_cmd_def UringCmd80_cmd_def split: option.split)

lemma recvmsg_tests: "recvmsg_out_parse_basic = Inr ()" "recvmsg_out_parse_truncated_name = Inr ()"
  "recvmsg_out_parse_too_short_buffer = Inr ()"
proof -
  have e: "to_le_bytes 4 n @ to_le_bytes 4 c @ to_le_bytes 4 p @ to_le_bytes 4 f @ name @ payload =
      recvmsg_encode \<lparr>rmo_namelen = n, rmo_controllen = c, rmo_payloadlen = p, rmo_flags = f\<rparr> name [] payload"
    for n c p f name payload by (simp add: recvmsg_encode_def)
  note eval = assert_eq_def assert_true_def unwrap_def RecvMsgOut_parse_encode incoming_name_len_def RecvMsgOut_name_data_def
    is_name_data_truncated_def RecvMsgOut_control_data_def RecvMsgOut_payload_data_def incoming_payload_len_def RecvMsgOut_flags_def
  show "recvmsg_out_parse_basic = Inr ()"
    unfolding recvmsg_out_parse_basic_def Let_def e by (simp add: eval recvmsg_name_bytes_def)
  show "recvmsg_out_parse_truncated_name = Inr ()"
    unfolding recvmsg_out_parse_truncated_name_def Let_def e by (simp add: eval)
  show "recvmsg_out_parse_too_short_buffer = Inr ()"
    by (simp add: recvmsg_out_parse_too_short_buffer_def RecvMsgOut_parse_short assert_true_def)
qed

subsection \<open>Waiting\<close>

lemma wait_test_passes:
  assumes b: "submitted 1 = Inr ()" and a: "afterwards m' = Inr ()"
    and c: "check (cq_Entry \<lparr>cqe_user_data = sqe_user_data (entry_sqe e), cqe_res = r, cqe_flags = 0\<rparr>) = Inr ()"
    and p: "\<not> links (entry_sqe e)" "\<not> is_skip_success (entry_sqe e)" and d: "dispatch_op (entry_sqe e) m = Inr (r, m')"
  shows "wait_test e submitted afterwards check m = Inr m'"
proof -
  obtain ring ring1 where q: "IoUring_new 8 = Inr (Inr ring)" "push_block [e] ring = Inr ring1" "ring_inv smark cmark ring1"
    "ring_sqes smark cmark ring1 = [entry_sqe e]" "ring_cqes smark cmark ring1 = []" "ring_threads ring1 = []"
    "ring_cq_free smark cmark ring1 = 16" by (rule pushed_entry)
  obtain ring2 where s: "IoUring_submit smark cmark ring1 m = Inr (Inr 1, ring2, m)" "ring_inv smark cmark ring2"
    "ring_cqes smark cmark ring2 = []" "ring_threads ring2 = [thread_spawn [entry_sqe e]]" "ring_cq_free smark cmark ring2 = 16"
    using IoUring_submit_law [OF q(3), of m] q by auto
  have "run_threads dispatch_op (ring_threads ring2) m = Inr ([completed r (entry_sqe e)], m')"
    using d p by (simp add: s(4) one_thread)
  from IoUring_flush_pending_law [OF s(2) this] obtain ring3 where
    f: "IoUring_flush_pending smark cmark ring2 m = Inr (ring3, m')" "ring_inv smark cmark ring3" "ring_threads ring3 = []"
    "ring_cqes smark cmark ring3 = [\<lparr>cqe_user_data = sqe_user_data (entry_sqe e), cqe_res = r, cqe_flags = 0\<rparr>]"
    using s(3,5) p(2) by (auto simp: cqes_of_def visible_def completed_def cqe_of_cd_def)
  obtain cq ring4 where t: "IoUring_completion smark cmark ring3 m' = Inr (cq, ring4, m')" "cq_view cq (ring_memory ring4)"
    "cq_ready cq (ring_memory ring4) = [cq_Entry \<lparr>cqe_user_data = sqe_user_data (entry_sqe e), cqe_res = r, cqe_flags = 0\<rparr>]"
    "ring_threads ring4 = []"
    by (rule completion_law [OF f(2), of m' "[]" m']) (use f in \<open>auto simp: map_cqe_of_cmark cqes_of_def\<close>)
  from t(2,3) c obtain cq1 where "assert_each [check] cq (ring_memory ring4) = Inr cq1" by (rule one_check)
  with q(1,2) submit_and_wait_split [OF _ s(1), of 1] f(1) t(1) a b show ?thesis
    by (simp add: wait_test_def unwrap_def drop_empty [OF t(4)])
qed

lemma wait_tests: "submit_and_wait_basic m = Inr m"
  "slot buf 64 1 \<Longrightarrow> passes (submit_and_wait_flushes_pending buf m)"
  unfolding submit_and_wait_basic_def submit_and_wait_flushes_pending_def
   by (rule wait_test_passes; simp add: batch_eval)
     (rule exI, rule wait_test_passes; simp add: op_eval buffer_ops stored_live slot_def)

lemma two_reads_run:
  fixes m :: umem
  assumes s: "slot buf1 32 1" "slot buf2 16 1"
  defines "e \<equiv> Entry_user_data (Read_build (Read_new (fd 0) buf1 32)) 1" and "f \<equiv> Entry_user_data (Read_build (Read_new (fd 0) buf2 16)) 2"
    and "m1 \<equiv> store (store m buf1 (replicate 32 0xFF)) buf2 (replicate 16 0xFF)"
  shows "run_threads dispatch_op [thread_spawn [entry_sqe e], thread_spawn [entry_sqe f]] m1
    = Inr ([completed 32 (entry_sqe e), completed 16 (entry_sqe f)], zeroed m1 (region buf1 32 \<union> region buf2 16))"
proof -
  have h: "live m1 buf1 32" "live m1 buf2 16"
    using s stored_live [OF s(1), of "replicate 32 0xFF" m] stored_live [OF s(2), of "replicate 16 0xFF" "store m buf1 (replicate 32 0xFF)"]
    by (auto simp: m1_def live_iff dom_store simp del: domIff)
  then have "live (zeroed m1 (region buf1 32)) buf2 16"
    using same_dom_live [OF same_dom_zeroed [OF liveD [OF h(1)]]] by simp
  with h s have "dispatch_op (entry_sqe e) m1 = Inr (32, zeroed m1 (region buf1 32))"
    "dispatch_op (entry_sqe f) (zeroed m1 (region buf1 32)) = Inr (16, zeroed m1 (region buf1 32 \<union> region buf2 16))"
    by (simp_all add: e_def f_def op_eval buffer_ops slot_def zeroed_zeroed)
  moreover have p: "\<not> links (entry_sqe e)" "\<not> links (entry_sqe f)" by (simp_all add: e_def f_def entry_eval buffer_ops)
  ultimately show ?thesis by (simp add: one_thread [OF _ p(1)] one_thread [OF _ p(2)])
qed

lemma two_submits_test:
  assumes s: "slot buf1 32 1" "slot buf2 16 1"
  shows "passes (multiple_submits_before_completion buf1 buf2 m)"
proof -
  let ?e = "Entry_user_data (Read_build (Read_new (fd 0) buf1 32)) 1" and ?f = "Entry_user_data (Read_build (Read_new (fd 0) buf2 16)) 2"
  let ?l = "store m buf1 (replicate 32 0xFF)" let ?m = "store ?l buf2 (replicate 16 0xFF)"
  let ?o = "zeroed ?m (region buf1 32 \<union> region buf2 16)"
  obtain ring ring1 where q: "IoUring_new 8 = Inr (Inr ring)" "push_block [?e] ring = Inr ring1" "ring_inv smark cmark ring1"
    "ring_sqes smark cmark ring1 = [entry_sqe ?e]" "ring_cqes smark cmark ring1 = []" "ring_threads ring1 = []"
    "ring_cq_free smark cmark ring1 = 16" "unat (sqi_ring_entries (ring_sq ring1)) = 8" by (rule pushed_entry)
  obtain ring2 k where u: "submit_unwrap smark cmark ring1 ?l = Inr (k, ring2, ?l)" "ring_inv smark cmark ring2"
    "ring_sqes smark cmark ring2 = []" "ring_cqes smark cmark ring2 = []" "ring_threads ring2 = [thread_spawn [entry_sqe ?e]]"
    "ring_cq_free smark cmark ring2 = 16" "unat (sqi_ring_entries (ring_sq ring2)) = 8"
    by (rule submit_unwrap_law [OF q(3), of ?l]) (use q in auto)
  obtain ring3 where v: "push_block [?f] ring2 = Inr ring3" "ring_inv smark cmark ring3"
    "ring_sqes smark cmark ring3 = [entry_sqe ?f]" "ring_cqes smark cmark ring3 = []"
    "ring_threads ring3 = [thread_spawn [entry_sqe ?e]]" "ring_cq_free smark cmark ring3 = 16"
    by (rule push_block_law [of smark cmark ring2 "[?f]"]) (use u in \<open>auto simp: marker_views\<close>)
  obtain ring4 j where w: "submit_unwrap smark cmark ring3 ?m = Inr (j, ring4, ?m)" "ring_inv smark cmark ring4"
    "ring_cqes smark cmark ring4 = []" "ring_threads ring4 = [thread_spawn [entry_sqe ?e], thread_spawn [entry_sqe ?f]]"
    "ring_cq_free smark cmark ring4 = 16"
    by (rule submit_unwrap_law [OF v(2), of ?m]) (use v in auto)
  have "run_threads dispatch_op (ring_threads ring4) ?m = Inr ([completed 32 (entry_sqe ?e), completed 16 (entry_sqe ?f)], ?o)"
    unfolding w(4) by (rule two_reads_run [OF s])
  then obtain cq ring5 where t: "IoUring_completion smark cmark ring4 ?m = Inr (cq, ring5, ?o)" "cq_view cq (ring_memory ring5)"
    "cq_ready cq (ring_memory ring5) = [cq_Entry \<lparr>cqe_user_data = 1, cqe_res = 32, cqe_flags = 0\<rparr>,
       cq_Entry \<lparr>cqe_user_data = 2, cqe_res = 16, cqe_flags = 0\<rparr>]"
    "ring_threads ring5 = []"
    by (rule completion_law [OF w(2)])
      (use w(3,5) in \<open>auto simp: cqes_of_def visible_def completed_def cqe_of_cd_def map_cqe_of_cmark entry_eval buffer_ops\<close>)
  from assert_each_law [OF t(2), of "cq_ready cq (ring_memory ring5)" "[]" "[has 1 32, has 2 16]"] t(3) obtain cq1 where
    "assert_each [has 1 32, has 2 16] cq (ring_memory ring5) = Inr cq1" by (auto simp: result_eval)
  with q(1,2) u(1) v(1) w(1) t(1) show ?thesis
    by (simp add: multiple_submits_before_completion_def unwrap_def all_zero_more drop_empty [OF t(4)])
qed

lemmas op_tests = fill_tests sink_tests plain_tests socket_test timeout_test path_tests two_path_tests openat2_test statx_test
  readv_tests writev_tests sendmsg_test recvmsg_test address_tests accept_test fsetxattr_test fgetxattr_test setxattr_test
  getxattr_test futex_tests waitv_test epoll_ctl_test whole_fill_tests pipe_test provide_buffers_test files_update_test
  wait_tests(2) two_submits_test

lemmas value_like_tests = wait_tests(1) register_tests probe_tests format_tests builder_tests recvmsg_tests layout_tests

section \<open>The property\<close>



end
