(* ===== verification/Miring_Sync.thy ===== *)
theory Miring_Sync
  imports Miring_Example
begin

text \<open>
  Two threads in \<open>submit\<close>.  \<open>IoUring\<close> is declared \<open>Sync\<close> and \<open>submit\<close> takes a shared reference, so safe
  code can call it from two threads at once.  \<open>enqueue_sqes\<close> loads the two positions, copies the
  entries, and only then stores the new head and pushes the thread's handle to the \<open>UnsafeCell\<close> with the
  pending batches; nothing makes the two phases one.  Here they are separate, and two calls are run one
  after the other and overlapping.
\<close>

definition enqueue_take ::
  "('s, 'c) Submitter \<Rightarrow> u32 \<Rightarrow> ('s, 'c) RingMemory \<Rightarrow> (io_uring_sqe list \<times> u32) exec"
where
  "enqueue_take sub to_submit mem =
     (let sq_head = st_sq_head (rm_state mem);
          sq_tail = st_sq_tail (rm_state mem);
          pending = sq_tail - sq_head
      in snapshot_sqes sub (unat (min to_submit pending)) sq_head mem)"

definition enqueue_commit ::
  "io_uring_sqe list \<times> u32 \<Rightarrow> ('s, 'c) RingMemory \<Rightarrow> usize \<times> ('s, 'c) RingMemory"
where
  "enqueue_commit = (\<lambda>(sqes, sq_head) mem.
     if sqes = [] then (0, mem)
     else (of_nat (length sqes), upd_state (\<lambda>st. st\<lparr>st_sq_head := sq_head,
       st_pending := st_pending st @ [thread_spawn sqes]\<rparr>) mem))"

lemma length_snapshot: "snapshot_sqes sub n head mem = Inr (sqes, head') \<Longrightarrow> length sqes = n"
  by (induction n arbitrary: head sqes head') (auto simp: and_then_eq_Inr)

text \<open>With nothing in between, the two phases are \<open>enqueue_sqes\<close>.\<close>

lemma enqueue_two_phases:
  "enqueue_sqes sub k mem = and_then (enqueue_take sub k mem)
     (\<lambda>b. let (n, mem') = enqueue_commit b mem in Inr (Inr n, mem'))"
proof -
  let ?p = "min k (st_sq_tail (rm_state mem) - st_sq_head (rm_state mem))"
  show ?thesis
  proof (cases "?p = 0")
    case False
    then have "unat ?p \<noteq> 0" by (simp add: unat_eq_0)
    with False show ?thesis
      using length_snapshot [of sub "unat ?p" "st_sq_head (rm_state mem)" mem]
      by (cases "snapshot_sqes sub (unat ?p) (st_sq_head (rm_state mem)) mem")
        (auto simp: enqueue_sqes_def enqueue_take_def enqueue_commit_def Let_def upd_state_def)
  qed (simp add: enqueue_sqes_def enqueue_take_def enqueue_commit_def Let_def)
qed

lemma enqueue_take_law:
  assumes "sub_inv sub mem" "length (sq_published sub mem) \<le> unat k"
  shows "enqueue_take sub k mem = Inr (sq_published sub mem, st_sq_tail (rm_state mem))"
proof -
  let ?h = "st_sq_head (rm_state mem)" and ?t = "st_sq_tail (rm_state mem)"
  have "unat (min k (?t - ?h)) = dist ?h ?t"
    using assms(2) by (simp add: unat_min_word sq_published_def dist_def)
  moreover have "?h + of_nat (dist ?h ?t) = ?t" by (simp add: dist_def)
  ultimately show ?thesis
    using snapshot_sqes_law [of sub mem "dist ?h ?t" ?h ?t] assms(1)
    by (simp add: enqueue_take_def Let_def sub_inv_def sqe_between_def sq_published_def)
qed

text \<open>
  Called one after the other, the first call takes everything and the second nothing.  Overlapping,
  when both have read the ring before either has stored the head, both take everything: each entry is
  handed to two threads and reported by both calls.
\<close>

theorem overlapping_submits_dispatch_twice:
  assumes "sub_inv sub mem" and "length (sq_published sub mem) \<le> unat k" and "sq_published sub mem \<noteq> []"
  shows "\<exists>b. enqueue_take sub k mem = Inr b
    \<and> (let (n, mem1) = enqueue_commit b mem in
       n = of_nat (length (sq_published sub mem))
       \<and> st_pending (rm_state mem1) = st_pending (rm_state mem) @ [thread_spawn (sq_published sub mem)]
       \<and> enqueue_sqes sub k mem1 = Inr (Inr 0, mem1)
       \<and> (let (n', mem2) = enqueue_commit b mem1 in
          n' = n \<and> sq_published sub mem2 = []
          \<and> st_pending (rm_state mem2) = st_pending (rm_state mem)
              @ [thread_spawn (sq_published sub mem), thread_spawn (sq_published sub mem)]))"
  using assms by (auto simp: enqueue_take_law enqueue_commit_def enqueue_sqes_def sq_published_def Let_def)

theorem overlapping_submits_dispatch_twice_witness:
  "let b = projr (enqueue_take example_sub 3 example_mem) in
   map sqe_user_data (fst b) = [11, 12, 13]
   \<and> length (st_pending (rm_state (snd (enqueue_commit b (snd (enqueue_commit b example_mem)))))) = 2"
proof -
  have p: "length (sq_published example_sub example_mem) \<le> unat (3 :: u32)" "sq_published example_sub example_mem \<noteq> []"
    by (simp_all add: example_published)
  have none: "st_pending (rm_state example_mem) = []" by (simp add: example_mem_def new_RingState_def)
  have "map sqe_user_data (sq_published example_sub example_mem) = [11, 12, 13]" by (simp add: example_published)
  with overlapping_submits_dispatch_twice [OF example_sub_inv p] enqueue_take_law [OF example_sub_inv p(1)] none
  show ?thesis by (auto simp: Let_def split_def)
qed

end
