(* ===== verification/Spec2Isabelle.thy ===== *)
theory Spec2Isabelle
  imports Miring_Session Miring_Weak_Counters Miring_Happens_Before Miring_Valid Miring_Liveness Miring_Weak_Programs Miring_Wiring Miring_Layout Miring_Tests_More
    Miring_Sync Miring_Fmt Miring_RecvMsg Miring_Opcode_Laws
begin

text \<open>
  A verification of miring, an emulator of io_uring in pure Rust (\<^verbatim>\<open>src/src\<close>): the ring buffers,
  the submitter with its dispatch threads, every opcode handler, every opcode builder, and the
  construction of a ring are modelled as functions, and the concurrent system as a step relation over
  these functions.

  \<^bold>\<open>The program.\<close>  \<open>Builder::build\<close> (\<^verbatim>\<open>lib.rs\<close>) allocates two arrays of entries and a
  \<open>RingState\<close> of atomics, and wires raw pointers to them into \<open>squeue::Inner\<close>, \<open>cqueue::Inner\<close> and
  \<open>Submitter\<close>.  An application makes entries with the builders of \<^verbatim>\<open>opcode.rs\<close>, pushes them through a
  \<open>SubmissionQueue\<close> handle (\<^verbatim>\<open>squeue.rs\<close>) that works on cached positions and publishes its tail when it
  is synced or dropped, and calls \<open>submit\<close>.  \<open>Submitter::enqueue_sqes\<close> (\<^verbatim>\<open>submit.rs\<close>) copies the
  published entries and spawns one thread per batch, which runs \<open>dispatch_op\<close> on every entry, with link
  chains and cancellation, and collects results.  \<open>flush_pending\<close> (called by \<open>completion\<close>, \<open>split\<close> and a
  waiting submit) joins the threads in order and posts their results through \<open>post_cqe\<close>, which drops and
  counts them when the completion ring is full; the application reads them through a \<open>CompletionQueue\<close>
  handle (\<^verbatim>\<open>cqueue.rs\<close>).

  \<^bold>\<open>The theories.\<close>
  \<^item> \<open>Miring_Prelude\<close>: the result type \<open>exec\<close> (a value, a panic, or undefined behaviour) and its sequencing
    \<open>and_then\<close>; Rust's checked arithmetic; positions that wrap modulo \<open>2 ^ 32\<close> (\<open>dist\<close>), the geometry of a
    ring (\<open>ring_geom\<close>) and the slice between two positions (\<open>ring_slice\<close>); powers of two.
  \<^item> \<open>Miring_Sys\<close>, \<open>Miring_Sys_More\<close> (\<^verbatim>\<open>sys.rs\<close>): constants, structures as records, and their \<open>repr(C)\<close>
    layouts; the second holds what the crate itself does not use, and how the constants are numbered.
  \<^item> \<open>Miring_Memory\<close>: the user's memory that handlers access through raw pointers, a partial map from
    addresses to initialised or uninitialised bytes.
  \<^item> \<open>Miring_Dispatch\<close> (\<^verbatim>\<open>submit.rs\<close>, \<open>dispatch_*\<close>, \<open>walk_cstr\<close>, \<open>HANDLED_OPCODES\<close>), with
    \<open>Miring_Dispatch_Spec\<close>, the closed forms of the handlers and that none panics, and
    \<open>Miring_Dispatch_Props\<close>, what the opcodes do to memory.
  \<^item> \<open>Miring_Queue_Spec\<close>: the interfaces \<open>bounded_producer\<close>, \<open>counting_producer\<close> and \<open>fifo_consumer\<close>.  The
    four ends of the two rings are instances: \<open>sqp\<close> (\<open>push\<close>), \<open>sqc\<close> (the snapshot loop), \<open>cqp\<close>
    (\<open>post_cqe\<close>) and \<open>cqc\<close> (\<open>next\<close>).
  \<^item> \<open>Miring_State\<close> (\<open>RingState\<close>, \<open>RingMemory\<close>), \<open>Miring_Squeue\<close>, \<open>Miring_Cqueue\<close>: the handles.  \<open>sq_view\<close> and
    \<open>cq_view\<close> are their invariants: cached and shared positions come in the right order round the ring and
    fit it.  A handle stays valid while the other side moves on.
  \<^item> \<open>Miring_Register\<close> (\<^verbatim>\<open>register.rs\<close>), \<open>Miring_Types\<close> and \<open>Miring_RecvMsg\<close> (\<^verbatim>\<open>types.rs\<close>).
  \<^item> \<open>Miring_Submit\<close> (\<^verbatim>\<open>submit.rs\<close>): \<open>enqueue_sqes\<close>, the thread body, \<open>post_cqe\<close>, \<open>flush_pending\<close>, the submit
    calls and registration; \<open>Miring_Submit_Laws\<close>: link chains as reference semantics, the laws of taking and
    posting, and the interface \<open>sqe_dispatcher\<close> that the thread body relies on.
  \<^item> \<open>Miring_Ring\<close> (\<^verbatim>\<open>lib.rs\<close>) and \<open>Miring_Ring_Laws\<close>: building, the ring invariant \<open>ring_inv\<close>, and a client's
    round trip.
  \<^item> \<open>Miring_Opcode\<close>, \<open>Miring_Opcode_A\<close>, \<open>Miring_Opcode_B\<close>, \<open>Miring_Opcode_C\<close> (\<^verbatim>\<open>opcode.rs\<close>): the 74 builders;
    \<open>Miring_Opcode_Laws\<close>: the interface \<open>op_builder\<close> that they implement, and how builders and handlers fit
    together.
  \<^item> \<open>Miring_Concurrency\<close>: the application and the dispatch threads as interleaved steps.  \<open>Miring_Frame\<close>: a
    handler touches only the memory it needs; \<open>Miring_Races\<close>: batches on disjoint memory are deterministic and
    free of undefined behaviour under every schedule; \<open>Miring_Liveness\<close>: fair runs answer every entry.
    \<open>Miring_Session\<close>: a client that keeps the handles of a split ring alive across all of this.
  \<^item> \<open>Miring_Detect\<close>: what the emulator is for.  It says which bytes the pointers
    of an entry name and that the ring never lets a freed one pass.  \<open>Miring_Contract\<close> and \<open>Miring_Valid\<close>: the
    other side, what exactly each opcode needs of memory, and that a client that keeps it so is never reported.
    \<open>Miring_Happens_Before\<close> labels the steps of the system with
    accesses, spawns and joins (the interface \<open>fork_join\<close>), defines happens-before and data races on these traces,
    and gives the exact window in which an access races with an operation.
  \<^item> \<open>Miring_Weak_Memory\<close>: the accesses of both rings one by one, with the orderings of the source, on a
    release/acquire memory with views; \<open>Miring_Weak_Programs\<close>: that these are the operations of the model, and
    that both rings stay free of data races and keep their order.  \<open>Miring_Weak_Counters\<close>: the overflow counter and
    the flag words on such a memory, with read-modify-writes and fences.  \<open>Miring_Sync\<close>: two overlapping calls of
    \<open>submit\<close>.
  \<^item> \<open>Miring_Wiring\<close>: the constructors that pass raw pointers, and the operations through these pointers over a
    heap; \<open>Miring_Layout\<close>: entries as bytes, and the submitter's byte-addressed accesses.
  \<^item> \<open>Miring_Fmt\<close>: the texts of \<open>Debug\<close> and \<open>Display\<close>; \<open>Miring_Loom\<close>, \<open>Miring_Tests\<close>,
    \<open>Miring_Tests_Ops\<close> and \<open>Miring_Tests_More\<close>: the loom tests of \<^verbatim>\<open>lib.rs\<close>, the integration tests of \<^verbatim>\<open>tests/ring.rs\<close> and
    the layout tests as client programs; \<open>Miring_Locals\<close>: the variables such a program passes to the ring by address;
    \<open>Miring_Example\<close>: rings that the witnesses share.
  \<^item> this theory: the properties of the rings, the submitter, the builder and the concurrent system.

  \<^bold>\<open>How code becomes definitions.\<close>  Integers keep their width as words; \<open>i32\<close> is a 32-bit word read with
  \<open>sint\<close>.  \<open>wrapping_*\<close> and \<open>as\<close> are the word operations; a plain \<open>+\<close>, \<open>-\<close> or \<open>*\<close> that can overflow is
  \<open>rust_add\<close>, \<open>rust_sub\<close>, \<open>rust_mul\<close>, which panic as a build with overflow checks does.  A raw pointer access
  outside the array is \<open>UndefinedBehavior\<close>, so a theorem that an operation returns \<open>Inr\<close> contains its memory
  safety.  Shared memory is passed explicitly.  The entry traits are records of operations
  (\<open>sq_EntryMarker\<close>, \<open>cq_EntryMarker\<close>), instantiated by the four entry types.  A spawned thread is its remaining
  entries, its cancel flag and its results; in the sequential model it runs when it is joined, and
  \<open>Miring_Concurrency\<close> shows that this is one of its schedules and, for one outstanding batch or batches on
  disjoint memory (\<open>Miring_Races\<close>), the only outcome.  The sequential model and the step relation take atomics as
  sequentially consistent values; the orderings are the subject of \<open>Miring_Weak_Memory\<close>.
  All loops are total functions: over lists, over the distance of two positions, or over the memory left
  above a pointer; no fuel is used.

  \<^bold>\<open>The properties.\<close>  Refinement of both rings to queues with the exact conditions of \<open>PushError\<close> and of
  overflow; all-or-nothing batches; FIFO order from push to completion in the sequential and in the
  concurrent model, for clients that borrow handles anew and for clients that keep them; equivalence of the cancel flag with link chains; termination and deadlock freedom of the
  threads, and that under fairness every accepted entry is answered; determinism and safety of batches on
  disjoint memory; that every pointer of an entry is dereferenced, that a buffer freed before its completion is undefined
  behaviour under every schedule, exactly what memory each opcode needs, that
  clients which keep it are not reported, and exactly which accesses are data races; race freedom and order of both rings under release/acquire memory, and that no overflow is lost there; the wiring of the raw
  pointers and the byte-level view of the entries; panic freedom of dispatch; the exact effect of the opcodes on
  memory; the errors and the one panic of \<open>build\<close>; agreement of probe, builders and handlers; the \<open>RecvMsgOut\<close>
  parser; the text of a queue; that the crate's own tests pass on the model.

  \<^bold>\<open>Not modelled.\<close>  Pointer provenance and aliasing; allocation failure; \<open>{:#?}\<close> and derived \<open>Debug\<close>; the loom shim
  \<^verbatim>\<open>loom.rs\<close>, which re-exports; \<open>Probe::as_mut_ptr\<close> and \<open>util::cast_ptr\<close>, which hand out a pointer; the macro
  \<open>opcode!\<close>, of which the builders are the expansions.  Under weak
  memory the two ends of each ring (\<open>Miring_Weak_Memory\<close>) and the counters and flags (\<open>Miring_Weak_Counters\<close>) are
  separate systems, so what a thread learns about a counter by acquiring a position is left out.  The overflow counter is a
  \<open>u32\<close>: the number of lost completions is known modulo \<open>2 ^ 32\<close>.
\<close>

section \<open>Submission queue\<close>

text \<open>C14: \<open>SubmissionQueue::push\<close> on a handle whose cached positions agree with the ring
  returns \<open>Ok\<close> and appends the entry behind everything not yet consumed exactly when the
  cached length is below the capacity; otherwise it returns \<open>PushError\<close> and changes nothing
  of the queue.  It never writes outside the array, keeps the invariant and touches neither the
  shared positions nor the completion ring.  A client that pushes a list one by one gets exactly as
  many of its first entries into the ring as the handle had room for.\<close>

theorem push_appends_or_fails:
  assumes "sq_view sq mem"
  shows "(\<exists>sq' mem'. squeue_push e sq mem =
             Inr (if squeue_is_full sq then Inl PushError else Inr (), sq', mem')
           \<and> sq_view sq' mem'
           \<and> sq_unconsumed sq' mem' = sq_unconsumed sq mem @ (if squeue_is_full sq then [] else [e])
           \<and> rm_state mem' = rm_state mem \<and> rm_cqes mem' = rm_cqes mem)
    \<and> (\<exists>sq' mem'. put_all sq_put es (sq, mem) = Inr (sq', mem') \<and> sq_view sq' mem'
           \<and> sq_unconsumed sq' mem' = sq_unconsumed sq mem
               @ take (unat (squeue_capacity sq) - unat (squeue_len sq)) es)"
  using squeue_push_law [OF assms, of e] sq_view_room [OF assms] sqp.put_all_law [of "(sq, mem)" es] assms
  by (auto simp: sq_room_def)

theorem push_appends_or_fails_witness:
  "(\<exists>sq' mem'. squeue_push (nop_entry 14) (IoUring_submission example_ring) example_mem = Inr (Inr (), sq', mem')
     \<and> sq_view sq' mem'
     \<and> sq_unconsumed sq' mem' = sq_unconsumed (IoUring_submission example_ring) example_mem @ [nop_entry 14])
   \<and> (\<exists>sq' mem'. put_all sq_put [nop_entry 14, nop_entry 15] (IoUring_submission example_ring, example_mem)
         = Inr (sq', mem')
     \<and> sq_unconsumed sq' mem' = sq_unconsumed (IoUring_submission example_ring) example_mem @ [nop_entry 14])"
proof -
  have "\<not> squeue_is_full (IoUring_submission example_ring)"
    using sq_view_room [OF example_sq_view] by simp
  moreover have "unat (squeue_capacity (IoUring_submission example_ring))
      - unat (squeue_len (IoUring_submission example_ring)) = 1"
    using example_sq_room by (simp add: sq_room_def)
  ultimately show ?thesis
    using push_appends_or_fails [OF example_sq_view, of "nop_entry 14" "[nop_entry 14, nop_entry 15]"] by auto
qed

text \<open>C18: \<open>push_multiple\<close> is all or nothing: when the batch fits the space the handle sees, every
  entry is appended in order; otherwise it returns \<open>PushError\<close> and neither the handle nor the
  ring has changed.  The subtraction \<open>capacity() - len()\<close> never overflows.\<close>

theorem push_multiple_all_or_nothing:
  assumes "sq_view sq mem"
  shows "if length es \<le> unat (squeue_capacity sq) - unat (squeue_len sq)
    then \<exists>sq' mem'. squeue_push_multiple es sq mem = Inr (Inr (), sq', mem') \<and> sq_view sq' mem'
      \<and> sq_unconsumed sq' mem' = sq_unconsumed sq mem @ es
      \<and> rm_state mem' = rm_state mem \<and> rm_cqes mem' = rm_cqes mem
    else squeue_push_multiple es sq mem = Inr (Inl PushError, sq, mem)"
  using squeue_push_multiple_law [OF assms, of es] by (auto simp: sq_room_def split: if_splits)

theorem push_multiple_all_or_nothing_witness:
  "squeue_push_multiple [nop_entry 1, nop_entry 2] (IoUring_submission example_ring) example_mem =
       Inr (Inl PushError, IoUring_submission example_ring, example_mem)
   \<and> (\<exists>sq' mem'. squeue_push_multiple [nop_entry 1] (IoUring_submission example_ring) example_mem =
       Inr (Inr (), sq', mem') \<and> sq_unconsumed sq' mem' =
         sq_unconsumed (IoUring_submission example_ring) example_mem @ [nop_entry 1])"
  using push_multiple_all_or_nothing [OF example_sq_view, of "[nop_entry 1, nop_entry 2]"]
    push_multiple_all_or_nothing [OF example_sq_view, of "[nop_entry 1]"] example_sq_room
  by (auto simp: sq_room_def)

text \<open>\<open>sync\<close> and dropping the handle publish exactly what was pushed: the kernel side then sees
  all unconsumed entries of the handle, and after \<open>sync\<close> the handle has room for as many entries
  as the kernel has left free.\<close>

theorem sync_and_drop_publish:
  assumes "sq_view sq mem" "sq_queue sq = sub_sq_inner sub"
  shows "sq_view (fst (squeue_sync sq mem)) (snd (squeue_sync sq mem))
    \<and> sq_published sub (snd (squeue_sync sq mem)) = map (sem_sqe (sub_sqe_marker sub)) (sq_unconsumed sq mem)
    \<and> sq_published sub (squeue_drop sq mem) = map (sem_sqe (sub_sqe_marker sub)) (sq_unconsumed sq mem)
    \<and> unat (squeue_capacity (fst (squeue_sync sq mem))) - unat (squeue_len (fst (squeue_sync sq mem)))
        = unat (squeue_capacity sq) - length (sq_unconsumed sq mem)"
  using assms squeue_sync_law(1) [OF assms(1)]
  by (simp add: squeue_sync_def squeue_drop_def Let_def sq_published_def sq_unconsumed_def
      sub_sq_inner_def squeue_capacity_def)

theorem sync_and_drop_publish_witness:
  "sq_published example_sub (squeue_drop (IoUring_submission example_ring) example_mem)
     = map (sem_sqe Entry_marker) (sq_unconsumed (IoUring_submission example_ring) example_mem)"
proof -
  have "sq_queue (IoUring_submission example_ring) = sub_sq_inner example_sub"
    "sub_sqe_marker example_sub = Entry_marker"
    by (simp_all add: IoUring_submission_def squeue_borrow_def squeue_borrow_shared_def sub_sq_inner_def
        example_defs)
  with sync_and_drop_publish [OF example_sq_view, of example_sub] show ?thesis by simp
qed

section \<open>Submitting\<close>

text \<open>\<open>enqueue_sqes\<close> takes the \<open>min(to_submit, pending)\<close> oldest published entries, in order and
  without reading outside the array, hands exactly these to one new dispatch thread (none if there
  is nothing to take), advances the head by their number, and returns that number.\<close>

theorem enqueue_takes_the_oldest:
  fixes k :: u32
  assumes "sub_inv sub mem" "n = min (unat k) (length (sq_published sub mem))"
  shows "\<exists>mem'. enqueue_sqes sub k mem = Inr (Inr (of_nat n), mem') \<and> sub_inv sub mem'
     \<and> sq_published sub mem' = drop n (sq_published sub mem)
     \<and> st_pending (rm_state mem') = st_pending (rm_state mem)
         @ (if n = 0 then [] else [thread_spawn (take n (sq_published sub mem))])
     \<and> cq_posted sub mem' = cq_posted sub mem"
proof -
  obtain mem' where "enqueue_sqes sub k mem = Inr (Inr (of_nat n), mem')" "sub_inv sub mem'"
    "sq_published sub mem' = drop n (sq_published sub mem)"
    "mem' = upd_state (\<lambda>st. st\<lparr>st_sq_head := st_sq_head st + of_nat n, st_pending := st_pending st
       @ (if n = 0 then [] else [thread_spawn (take n (sq_published sub mem))])\<rparr>) mem"
    using enqueue_sqes_law [OF assms(1), of k] unfolding assms(2) by blast
  then show ?thesis by (intro exI [of _ mem']) (simp add: cq_posted_def)
qed

theorem enqueue_takes_the_oldest_witness:
  "\<exists>mem'. enqueue_sqes example_sub 2 example_mem = Inr (Inr 2, mem')
     \<and> map sqe_user_data (sq_published example_sub mem') = [13]
     \<and> map (map sqe_user_data \<circ> th_sqes) (st_pending (rm_state mem')) = [[11, 12]]"
proof -
  have e: "st_pending (rm_state example_mem) = []" by (simp add: example_defs)
  from enqueue_takes_the_oldest [OF example_sub_inv refl, of 2] e show ?thesis
    by (auto simp: thread_spawn_def example_published)
qed

text \<open>a submission made while a queue handle is alive (as after \<open>split\<close>) leaves the handle
  valid: its cached head is merely behind, and the entries it has not yet seen consumed are its
  former ones without those that were taken.\<close>

theorem handle_survives_submission:
  fixes k :: u32
  assumes "sub_inv sub mem" "sq_view sq mem" "enqueue_sqes sub k mem = Inr (r, mem')"
  shows "sq_view sq mem' \<and> sq_unconsumed sq mem' =
    drop (min (unat k) (length (sq_published sub mem))) (sq_unconsumed sq mem)"
  using enqueue_sqes_handle [OF assms] by blast

theorem handle_survives_submission_witness:
  "\<exists>mem'. enqueue_sqes example_sub 2 example_mem = Inr (Inr 2, mem')
     \<and> sq_view (IoUring_submission example_ring) mem'
     \<and> sq_unconsumed (IoUring_submission example_ring) mem' =
         drop 2 (sq_unconsumed (IoUring_submission example_ring) example_mem)"
proof -
  obtain mem' where e: "enqueue_sqes example_sub 2 example_mem = Inr (Inr 2, mem')"
    using enqueue_sqes_law [OF example_sub_inv, of 2] by (auto simp: example_published)
  have n: "min (unat (2 :: u32)) (length (sq_published example_sub example_mem)) = 2"
    by (simp add: example_published)
  show ?thesis
    using handle_survives_submission [OF example_sub_inv example_sq_view e] e unfolding n by blast
qed

section \<open>Dispatch threads\<close>

text \<open>C8: the thread loop with its single \<open>cancel_chain\<close> flag computes the semantics of link
  chains: a batch splits into maximal runs of linked entries, and the loop's results and memory
  are those of running the chains one after the other.  The chains are non-empty, concatenate to
  the batch, all entries but the last of a chain are linked, and the last entry of a chain that
  is not the last chain is not.\<close>

theorem batch_runs_link_chains:
  "run_sqes disp sqes False [] m = run_chains disp (link_chains sqes) m
   \<and> concat (link_chains sqes) = sqes
   \<and> list_all (\<lambda>c. c \<noteq> [] \<and> list_all links (butlast c)) (link_chains sqes)
   \<and> list_all (\<lambda>c. \<not> links (last c)) (butlast (link_chains sqes))"
proof (intro conjI)
  show "list_all (\<lambda>c. c \<noteq> [] \<and> list_all links (butlast c)) (link_chains sqes)"
    using link_chains_linked by (auto simp: list_all_iff)
  show "list_all (\<lambda>c. \<not> links (last c)) (butlast (link_chains sqes))"
    using link_chains_maximal by (auto simp: list_all_length nth_butlast)
qed (rule run_sqes_chains_both(1), rule concat_link_chains)

text \<open>C19: a soft-linked entry that fails cancels the rest of its chain: the entries up to the end of
  the chain complete with \<open>-ECANCELED\<close> without being dispatched, hard-linked ones included, and
  the batch goes on normally behind the chain.\<close>

theorem failed_link_cancels_the_chain:
  assumes "dispatch_op s m = Inr (r, m')" "sint r < 0" "is_link s" "\<not> is_hardlink s"
    and "c \<noteq> []" "list_all links (butlast c)" "\<not> links (last c)"
  shows "run_sqes dispatch_op (s # c @ rest) False [] m =
    and_then (run_sqes dispatch_op rest False [] m') (\<lambda>(rs, m'').
      Inr (completed r s # map (completed ECANCELED) c @ rs, m''))"
  using assms(1-4) run_sqes_cancelled [OF assms(5-7), of dispatch_op rest m']
  by (simp add: complete_one_simps run_sqes_acc1 links_def and_then_assoc split_def)

theorem failed_link_cancels_the_chain_witness:
  "run_sqes dispatch_op ([linked 200 4 1] @ [linked 0 8 2, linked 0 0 3] @ [linked 0 0 4]) False [] page_mem
     = Inr ([completed ENOSYS (linked 200 4 1), completed ECANCELED (linked 0 8 2),
             completed ECANCELED (linked 0 0 3), completed 0 (linked 0 0 4)], page_mem)"
  using failed_link_cancels_the_chain [of "linked 200 4 1" page_mem ENOSYS page_mem "[linked 0 8 2, linked 0 0 3]"
      "[linked 0 0 4]"]
  by (simp add: dispatch_linked_bad dispatch_linked_nop links_def complete_one_simps flag_consts)

text \<open>in a batch whose links are all hard every entry is dispatched, in order, and completes with
  its own result, whatever the others return.\<close>

theorem hard_links_never_cancel:
  assumes "list_all (\<lambda>s. is_link s \<longrightarrow> is_hardlink s) sqes"
  shows "run_sqes dispatch_op sqes False [] m = run_plain dispatch_op sqes m"
  using assms by (rule run_sqes_plain)

theorem hard_links_never_cancel_witness:
  "run_sqes dispatch_op [linked 200 8 1, linked 0 0 2] False [] page_mem
     = Inr ([completed ENOSYS (linked 200 8 1), completed 0 (linked 0 0 2)], page_mem)"
  using hard_links_never_cancel [of "[linked 200 8 1, linked 0 0 2]" page_mem]
  by (simp add: dispatch_linked_bad dispatch_linked_nop flag_consts)

text \<open>a thread that is joined returns exactly one completion per entry of its batch, in the order
  of submission, with the entry's user data and its skip-success flag.\<close>

theorem one_completion_per_entry:
  assumes "thread_join dispatch_op (thread_spawn sqes) m = Inr (results, m')"
  shows "map cd_user_data results = map sqe_user_data sqes
    \<and> map cd_skip_success results = map is_skip_success sqes"
  using assms run_sqes_user_data [of dispatch_op sqes False "[]" m results m']
  by (auto simp: thread_join_eq_Inr thread_spawn_def)

theorem one_completion_per_entry_witness:
  "map cd_user_data [completed ENOSYS (linked 200 8 1), completed 0 (linked 0 64 2)] = [1, 2]"
proof -
  have "thread_join dispatch_op (thread_spawn [linked 200 8 1, linked 0 64 2]) page_mem =
      Inr ([completed ENOSYS (linked 200 8 1), completed 0 (linked 0 64 2)], page_mem)"
    by (simp add: thread_join_spawn links_def flag_consts dispatch_linked_bad dispatch_linked_nop)
  from one_completion_per_entry [OF this] show ?thesis by simp
qed


section \<open>Posting and joining\<close>

text \<open>C15: \<open>post_cqe\<close> appends the completion to the completion ring exactly when the ring has room;
  otherwise it changes no completion, raises the overflow count by one (modulo \<open>2 ^ 32\<close>) and leaves the
  overflow flag of the submission ring set.  It never writes outside the array and leaves the
  submission side alone.\<close>

theorem post_appends_or_counts:
  assumes "sub_inv sub mem"
  shows "\<exists>mem'. post_cqe sub u r fl mem = Inr mem' \<and> sub_inv sub mem'
     \<and> (if dist (st_cq_head (rm_state mem)) (st_cq_tail (rm_state mem)) < unat (sub_cq_ring_entries sub)
        then cq_posted sub mem' = cq_posted sub mem @ [\<lparr>cqe_user_data = u, cqe_res = r, cqe_flags = fl\<rparr>]
          \<and> cqueue_overflow mem' = cqueue_overflow mem
        else cq_posted sub mem' = cq_posted sub mem
          \<and> cqueue_overflow mem' = cqueue_overflow mem + 1 \<and> sub_sq_cq_overflow mem')
     \<and> sq_published sub mem' = sq_published sub mem
     \<and> st_pending (rm_state mem') = st_pending (rm_state mem)"
proof -
  obtain mem' where p: "post_cqe sub u r fl mem = Inr mem'" "sub_inv sub mem'" "post_frame mem mem'"
    "cq_posted sub mem' = (if 0 < cq_free sub mem
       then cq_posted sub mem @ [\<lparr>cqe_user_data = u, cqe_res = r, cqe_flags = fl\<rparr>] else cq_posted sub mem)"
    "cqueue_overflow mem' = cqueue_overflow mem + (if 0 < cq_free sub mem then 0 else 1)"
    using post_cqe_law [OF assms, of u r fl] by (auto simp: cqueue_overflow_def)
  moreover have "sub_sq_cq_overflow mem'" if "cq_free sub mem = 0"
    using post_cqe_full [OF assms that, of u r fl] p(1) by auto
  ultimately show ?thesis
    by (intro exI [of _ mem']) (auto simp: cq_free_def post_frame_def sq_published_def)
qed

theorem post_appends_or_counts_witness:
  "\<exists>mem'. post_cqe example_sub 7 5 0 example_mem = Inr mem'
     \<and> cq_posted example_sub mem' = cq_posted example_sub example_mem
          @ [\<lparr>cqe_user_data = 7, cqe_res = 5, cqe_flags = 0\<rparr>]"
proof -
  have "dist (st_cq_head (rm_state example_mem)) (st_cq_tail (rm_state example_mem))
      < unat (sub_cq_ring_entries example_sub)"
    by (simp add: example_defs dist_def)
  with post_appends_or_counts [OF example_sub_inv, of 7 5 0] show ?thesis by auto
qed

text \<open>C16: \<open>flush_pending\<close> joins every outstanding thread in the order of submission and posts what
  they return in that order, leaving out the successes of entries with the skip-success flag; what
  does not fit the completion ring is counted as overflow.  Nothing stays pending.\<close>

theorem flush_posts_in_order:
  assumes "ring_inv S C ring" "run_threads dispatch_op (ring_threads ring) m = Inr (rs, m')"
  shows "\<exists>ring'. IoUring_flush_pending S C ring m = Inr (ring', m') \<and> ring_inv S C ring'
     \<and> ring_cqes S C ring' = ring_cqes S C ring
         @ take (ring_cq_free S C ring) (map cqe_of_cd (filter visible rs))
     \<and> cqueue_overflow (ring_memory ring') = cqueue_overflow (ring_memory ring)
         + of_nat (length (filter visible rs) - ring_cq_free S C ring)
     \<and> ring_threads ring' = [] \<and> ring_sqes S C ring' = ring_sqes S C ring"
  using IoUring_flush_pending_law [OF assms] by (auto simp: cqes_of_def)

definition busy_ring :: "(Entry, cq_Entry) IoUring" where
  "busy_ring = example_ring\<lparr>ring_memory := set_threads
     [thread_spawn [linked 0 0 21, linked 0 64 22], thread_spawn [linked 200 0 23]] example_mem\<rparr>"

lemma busy_ring_inv: "ring_inv Entry_marker cq_Entry_marker busy_ring"
  unfolding busy_ring_def ring_inv_memory [OF example_ring_inv] sub_inv_clear_pending
  by (rule example_sub_inv [unfolded example_sub_def])

theorem flush_posts_in_order_witness:
  "\<exists>ring'. IoUring_flush_pending Entry_marker cq_Entry_marker busy_ring page_mem = Inr (ring', page_mem)
     \<and> map cqe_user_data (ring_cqes Entry_marker cq_Entry_marker ring')
         = map cqe_user_data (ring_cqes Entry_marker cq_Entry_marker busy_ring) @ [21]
     \<and> cqueue_overflow (ring_memory ring') = 1"
proof -
  let ?rs = "[completed 0 (linked 0 0 21), completed 0 (linked 0 64 22), completed ENOSYS (linked 200 0 23)]"
  have "run_threads dispatch_op (ring_threads busy_ring) page_mem = Inr (?rs, page_mem)"
    by (simp add: ring_threads_def busy_ring_def thread_join_spawn [THEN iffD2] links_def flag_consts
        dispatch_linked_nop dispatch_linked_bad)
  note flush_posts_in_order [OF busy_ring_inv this]
  moreover have "ring_cq_free Entry_marker cq_Entry_marker busy_ring = 1"
    "cqueue_overflow (ring_memory busy_ring) = 0"
    by (simp_all add: busy_ring_def ring_cq_free_def cq_free_def cqueue_overflow_def example_defs dist_def)
  moreover have "map cqe_user_data (map cqe_of_cd (filter visible ?rs)) = [21, 23]"
    by (simp add: visible_def completed_def cqe_of_cd_def flag_consts)
  ultimately show ?thesis by (auto simp: take_map simp del: filter.simps)
qed

text \<open>\<open>submit\<close> never faults and never blocks: it accepts every published entry, reports their
  number, leaves the completions alone and starts one thread for them; \<open>submit_and_wait\<close> with a
  positive count is \<open>submit\<close> followed by joining everything outstanding.\<close>

theorem submit_accepts_everything:
  assumes "ring_inv S C ring" "0 < want"
  shows "\<exists>ring'. IoUring_submit S C ring m = Inr (Inr (of_nat (length (ring_sqes S C ring))), ring', m)
     \<and> ring_inv S C ring' \<and> ring_sqes S C ring' = [] \<and> ring_cqes S C ring' = ring_cqes S C ring
     \<and> ring_threads ring' = ring_threads ring
         @ (if ring_sqes S C ring = [] then [] else [thread_spawn (ring_sqes S C ring)])
     \<and> IoUring_submit_and_wait S C want ring m =
         and_then (IoUring_flush_pending S C ring' m) (\<lambda>(ring2, m2).
           Inr (Inr (of_nat (length (ring_sqes S C ring))), ring2, m2))"
  using IoUring_submit_law [OF assms(1), of m] submit_and_wait_split [OF assms(2)] by blast

theorem submit_accepts_everything_witness:
  "\<exists>ring'. IoUring_submit Entry_marker cq_Entry_marker example_ring page_mem = Inr (Inr 3, ring', page_mem)
     \<and> ring_threads ring' = [thread_spawn (map (entry_sqe \<circ> nop_entry) [11, 12, 13])]"
proof -
  have "ring_sqes Entry_marker cq_Entry_marker example_ring = map (entry_sqe \<circ> nop_entry) [11, 12, 13]"
    using example_published by (simp add: ring_sqes_def example_sub_def example_ring_def)
  moreover have "ring_threads example_ring = []" by (simp add: ring_threads_def example_defs)
  ultimately show ?thesis
    using submit_accepts_everything [OF example_ring_inv, of 1 page_mem] by auto
qed

section \<open>Completion queue\<close>

text \<open>C25: the completion handle is a FIFO: \<open>next\<close> returns the oldest completion the handle sees, or
  \<open>None\<close> when there is none; \<open>fill\<close> moves out the \<open>min(len, n)\<close> oldest in order; \<open>sync\<close> gives the consumed
  slots back and makes every posted completion visible.  None of them reads outside the array.
  Calling \<open>next\<close> until it returns \<open>None\<close> (at most \<open>n\<close> times) takes the first \<open>n\<close> completions.\<close>

theorem completions_come_out_in_order:
  assumes "cq_view cq mem"
  shows "(case cq_ready cq mem of
       [] \<Rightarrow> cqueue_next cq mem = Inr (None, cq)
     | e # es \<Rightarrow> \<exists>cq'. cqueue_next cq mem = Inr (Some e, cq') \<and> cq_view cq' mem \<and> cq_ready cq' mem = es)
   \<and> (\<exists>cq'. cqueue_fill n cq mem = Inr (take n (cq_ready cq mem), cq') \<and> cq_view cq' mem
        \<and> cq_ready cq' mem = drop n (cq_ready cq mem))
   \<and> (\<exists>cq'. get_n cq_get n (cq, mem) = Inr (take n (cq_ready cq mem), cq'))
   \<and> cq_ready (fst (cqueue_sync cq mem)) (snd (cqueue_sync cq mem)) = cq_unread cq mem"
  using cqueue_next_empty [of cq mem] cqueue_next_front [OF assms] cqueue_fill_law [OF assms, of n]
    cqueue_sync_law(2) [OF assms] cqc.get_n_law [of "(cq, mem)" n] assms
  by (auto split: list.split)

abbreviation example_cq :: CompletionQueue where
  "example_cq \<equiv> cqueue_borrow (ring_cq example_ring) example_mem"

lemma example_cq_view: "cq_view example_cq example_mem"
  using cqueue_borrow_view(1) [OF example_ring_inv] by (simp add: example_ring_def)

theorem completions_come_out_in_order_witness:
  "\<exists>cq'. cqueue_fill 2 example_cq example_mem = Inr (take 2 (cq_ready example_cq example_mem), cq')
     \<and> cq_ready cq' example_mem = drop 2 (cq_ready example_cq example_mem)"
  using completions_come_out_in_order [OF example_cq_view, of 2] by blast

text \<open>completions posted while a handle is alive do not disturb it: what it already saw stays
  as it was, and the new completion is behind everything unread.\<close>

theorem posting_leaves_handles_valid:
  assumes "sub_inv sub mem" "cq_view cq mem" "cq_queue cq = sub_cq_inner sub"
    and "post_cqe sub u r fl mem = Inr mem'"
  shows "cq_view cq mem' \<and> cq_ready cq mem' = cq_ready cq mem
    \<and> map (cqe_of (sub_cqe_marker sub)) (cq_unread cq mem') =
        map (cqe_of (sub_cqe_marker sub)) (cq_unread cq mem)
        @ (if 0 < cq_free sub mem then [\<lparr>cqe_user_data = u, cqe_res = r, cqe_flags = fl\<rparr>] else [])"
  using assms by (intro post_cqe_handle) (simp_all add: sub_cq_inner_def)

theorem posting_leaves_handles_valid_witness:
  "\<exists>mem'. post_cqe example_sub 7 5 0 example_mem = Inr mem' \<and> cq_view example_cq mem'
     \<and> cq_ready example_cq mem' = cq_ready example_cq example_mem"
proof -
  obtain mem' where p: "post_cqe example_sub 7 5 0 example_mem = Inr mem'"
    using post_cqe_law [OF example_sub_inv] by blast
  have "cq_queue example_cq = sub_cq_inner example_sub"
    by (simp add: cqueue_borrow_def cqueue_borrow_shared_def sub_cq_inner_def example_defs)
  from posting_leaves_handles_valid [OF example_sub_inv example_cq_view this p] p show ?thesis by blast
qed

text \<open>the emulator sets no flag on a completion: whatever a flush adds to the completion ring has
  flags 0, so \<open>buffer_select\<close> is \<open>None\<close> and \<open>more\<close>, \<open>notif\<close>, \<open>sock_nonempty\<close> and
  \<open>buffer_more\<close> are false on it.\<close>

theorem flushed_completions_have_no_flags:
  assumes "ring_inv S C ring" "IoUring_flush_pending S C ring m = Inr (ring', m')"
  shows "list_all (\<lambda>c. cqe_flags c = 0 \<and> cq_buffer_select (cqe_flags c) = None \<and> \<not> cq_more (cqe_flags c)
      \<and> \<not> cq_notif (cqe_flags c) \<and> \<not> cq_sock_nonempty (cqe_flags c) \<and> \<not> cq_buffer_more (cqe_flags c))
    (drop (length (ring_cqes S C ring)) (ring_cqes S C ring'))"
proof (cases "run_threads dispatch_op (ring_threads ring) m")
  case (Inl e)
  with assms flush_pending_fault [of "IoUring_submitter S C ring" "ring_memory ring" m e] show ?thesis
    by (simp add: ring_inv_def ring_threads_def IoUring_flush_pending_def)
next
  case (Inr r)
  then obtain rs m1 where "run_threads dispatch_op (ring_threads ring) m = Inr (rs, m1)" by (cases r) auto
  from IoUring_flush_pending_law [OF assms(1) this] assms(2)
  have "ring_cqes S C ring' = ring_cqes S C ring @ take (ring_cq_free S C ring) (cqes_of rs)" by auto
  moreover have "list_all (\<lambda>c. cqe_flags c = 0) (cqes_of rs)"
    by (simp add: cqes_of_def cqe_of_cd_def list_all_iff)
  ultimately show ?thesis
    by (auto simp: list_all_iff cq_buffer_select_def cq_more_def cq_notif_def cq_sock_nonempty_def
        cq_buffer_more_def dest: in_set_takeD)
qed

theorem flushed_completions_have_no_flags_witness:
  "\<exists>ring'. IoUring_flush_pending Entry_marker cq_Entry_marker example_ring page_mem = Inr (ring', page_mem)
     \<and> list_all (\<lambda>c. cqe_flags c = 0) (drop 3 (ring_cqes Entry_marker cq_Entry_marker ring'))"
proof -
  have "run_threads dispatch_op (ring_threads example_ring) page_mem = Inr ([], page_mem)"
    by (simp add: ring_threads_def example_defs)
  from IoUring_flush_pending_law [OF example_ring_inv this] obtain ring' where
    f: "IoUring_flush_pending Entry_marker cq_Entry_marker example_ring page_mem = Inr (ring', page_mem)"
    by blast
  moreover have "length (ring_cqes Entry_marker cq_Entry_marker example_ring) = 3"
    by (simp add: ring_cqes_def length_cq_posted example_defs dist_def)
  ultimately show ?thesis
    using flushed_completions_have_no_flags [OF example_ring_inv f] by (auto simp: list_all_iff)
qed

text \<open>\<open>buffer_select\<close> reads back the buffer id from flags the kernel's way of encoding puts it
  in, whatever other low flags are set.\<close>

theorem buffer_select_reads_the_id:
  assumes "fl AND push_bit 16 (mask 16) = (0 :: u32)"
  shows "cq_buffer_select (push_bit 16 (ucast bid) OR IORING_CQE_F_BUFFER OR fl) = Some bid"
  using cq_buffer_select_flags [OF assms, of bid] 
  by (simp add: cqe_buffer_flags_def IORING_CQE_BUFFER_SHIFT_def or.assoc)

theorem buffer_select_reads_the_id_witness:
  "cq_buffer_select (push_bit 16 (ucast (65535 :: u16)) OR IORING_CQE_F_BUFFER OR IORING_CQE_F_MORE) = Some 65535"
  using buffer_select_reads_the_id [of IORING_CQE_F_MORE 65535]
  by (simp add: sys_consts mask_eq_exp_minus_1)

section \<open>Building a ring\<close>

text \<open>C27: \<open>build\<close> on an entry count in \<open>1..=32768\<close> and, if \<open>setup_cqsize\<close> was called, a completion
  count in \<open>1..=2^31\<close>, returns an empty ring that satisfies the invariant.  Its submission size is
  the least power of two not below \<open>entries\<close>; its completion size is the least power of two not below
  the requested size, or twice the submission size; the handle's capacity and the free completion
  slots agree with the sizes that \<open>params()\<close> reports.\<close>

theorem build_makes_an_empty_ring:
  assumes "entries \<noteq> 0" "unat entries \<le> 2 ^ 15" "cqe_marker_ok C"
    and "prm_flags (builder_params b) AND IORING_SETUP_CQSIZE \<noteq> 0 \<Longrightarrow>
      prm_cq_entries (builder_params b) \<noteq> 0 \<and> unat (prm_cq_entries (builder_params b)) \<le> 2 ^ 31"
  shows "\<exists>ring. Builder_build S C b entries = Inr (Inr ring) \<and> ring_idle S C ring
    \<and> unat (params_sq_entries (IoUring_params ring)) = (LEAST p. (\<exists>k. p = 2 ^ k) \<and> unat entries \<le> p)
    \<and> unat (params_cq_entries (IoUring_params ring)) =
        (if prm_flags (builder_params b) AND IORING_SETUP_CQSIZE \<noteq> 0
         then (LEAST p. (\<exists>k. p = 2 ^ k) \<and> unat (prm_cq_entries (builder_params b)) \<le> p)
         else 2 * unat (params_sq_entries (IoUring_params ring)))
    \<and> unat (squeue_capacity (IoUring_submission ring)) = unat (params_sq_entries (IoUring_params ring))
    \<and> ring_cq_free S C ring = unat (params_cq_entries (IoUring_params ring))
    \<and> prm_flags (parameters_0 (IoUring_params ring)) = prm_flags (builder_params b)"
proof -
  have e: "entries_ok entries" using assms(1,2) by (simp add: entries_ok_def word_le_nat_alt)
  have w: "wants_cqsize b \<Longrightarrow> prm_cq_entries (builder_params b) \<noteq> 0
      \<and> unat (prm_cq_entries (builder_params b)) \<le> 2 ^ 31"
    using assms(4) by (simp add: wants_cqsize_def)
  obtain ring where "Builder_build S C b entries = Inr (Inr ring)" "ring_idle S C ring"
    "unat (params_sq_entries (ring_params ring)) = next_pow2_nat (unat entries)"
    "unat (params_cq_entries (ring_params ring)) = cq_size_of b entries"
    "squeue_capacity (IoUring_submission ring) = ucast (params_sq_entries (ring_params ring))"
    "ring_cq_free S C ring = cq_size_of b entries"
    "prm_flags (parameters_0 (ring_params ring)) = prm_flags (builder_params b)"
    using Builder_build_ok [of entries b C S, OF e w assms(3)] unfolding ring_idle_def by blast
  then show ?thesis
    unfolding next_pow2_nat_Least [symmetric]
    by (intro exI [of _ ring])
      (auto simp: IoUring_params_def cq_size_of_def wants_cqsize_def simp del: unat_squeue_capacity)
qed

theorem build_makes_an_empty_ring_witness:
  "\<exists>ring. Builder_build Entry_marker cq_Entry32_marker (Builder_default Entry_marker cq_Entry32_marker) 5
       = Inr (Inr ring)
     \<and> ring_idle Entry_marker cq_Entry32_marker ring"
proof -
  have "prm_flags (builder_params (Builder_default Entry_marker cq_Entry32_marker)) AND IORING_SETUP_CQSIZE = 0"
    by (simp add: Builder_default_def Entry_marker_def cq_Entry32_marker_def sys_consts)
  with build_makes_an_empty_ring [of 5 cq_Entry32_marker "Builder_default Entry_marker cq_Entry32_marker" Entry_marker]
  show ?thesis by auto
qed

text \<open>C28: \<open>build\<close> returns \<open>InvalidInput\<close> exactly when the entry count is 0 or above 32768 or a
  completion count of 0 was requested; it panics exactly when a completion count above \<open>2 ^ 31\<close> was
  requested (\<open>next_power_of_two\<close> overflows), and it has no other failure.\<close>

theorem build_failures:
  "(Builder_build S C b entries = Inr (Inl err) \<longleftrightarrow>
      entries = 0 \<or> unat entries > 2 ^ 15
      \<or> prm_flags (builder_params b) AND IORING_SETUP_CQSIZE \<noteq> 0 \<and> prm_cq_entries (builder_params b) = 0)
   \<and> (Builder_build S C b entries = Inl f \<longleftrightarrow>
      f = Panic Panic_overflow \<and> entries \<noteq> 0 \<and> unat entries \<le> 2 ^ 15
      \<and> prm_flags (builder_params b) AND IORING_SETUP_CQSIZE \<noteq> 0
      \<and> unat (prm_cq_entries (builder_params b)) > 2 ^ 31)"
proof -
  have "entries_ok entries \<longleftrightarrow> entries \<noteq> 0 \<and> unat entries \<le> 2 ^ 15"
    by (simp add: entries_ok_def word_le_nat_alt)
  then show ?thesis
    unfolding Builder_build_error Builder_build_fault wants_cqsize_def by auto
qed

text \<open>C40: every ring that \<open>build\<close> returns reports \<open>IORING_FEAT_NODROP\<close>, but completions beyond the
  size of the completion ring are dropped: posting the results of a batch into a fresh ring keeps the
  first \<open>cq_entries\<close> visible ones and only counts the others.\<close>

theorem nodrop_is_reported_but_completions_drop:
  assumes "Builder_build S C b entries = Inr (Inr ring)" "cqe_marker_ok C"
  shows "is_feature_nodrop (IoUring_params ring)
    \<and> (\<exists>mem. post_results (IoUring_submitter S C ring) rs (ring_memory ring) = Inr mem
        \<and> cq_posted (IoUring_submitter S C ring) mem =
            take (unat (params_cq_entries (IoUring_params ring))) (map cqe_of_cd (filter visible rs))
        \<and> cqueue_overflow mem =
            of_nat (length (filter visible rs) - unat (params_cq_entries (IoUring_params ring))))"
proof -
  let ?sub = "IoUring_submitter S C ring"
  have e: "entries_ok entries" and w: "wants_cqsize b \<Longrightarrow> prm_cq_entries (builder_params b) \<noteq> 0
      \<and> unat (prm_cq_entries (builder_params b)) \<le> 2 ^ 31"
    using Builder_build_error [of S C b entries InvalidInput]
      Builder_build_fault [of S C b entries "Panic Panic_overflow"] assms(1) by auto
  have r: "ring_inv S C ring" "prm_features (parameters_0 (ring_params ring)) = build_features"
    "unat (params_cq_entries (ring_params ring)) = ring_cq_free S C ring" "ring_cqes S C ring = []"
    "rm_state (ring_memory ring) = new_RingState"
    using Builder_build_ok [of entries b C S, OF e w assms(2)] assms(1) by auto
  have o: "cqueue_overflow (ring_memory ring) = 0"
    using r(5) by (simp add: cqueue_overflow_def new_RingState_def)
  have i: "sub_inv ?sub (ring_memory ring)" using r(1) by (simp add: ring_inv_def)
  obtain mem where m: "put_all (cqe_put ?sub) (cqes_of rs) (ring_memory ring) = Inr mem"
    "cq_posted ?sub mem = cq_posted ?sub (ring_memory ring) @ take (cq_free ?sub (ring_memory ring)) (cqes_of rs)"
    using cqp.put_all_law [OF i, of "cqes_of rs"] by blast
  have "is_feature_nodrop (IoUring_params ring)"
    by (simp add: is_feature_nodrop_def prm_has_feature_def IoUring_params_def r(2) build_features_def sys_consts)
  then show ?thesis
    using m cqp.put_all_lost [OF i m(1)] r(3,4) o
    by (simp add: post_results_put_all IoUring_params_def ring_view_defs cqes_of_def)
qed

theorem nodrop_is_reported_but_completions_drop_witness:
  "\<exists>ring. Builder_build Entry_marker cq_Entry_marker (Builder_default Entry_marker cq_Entry_marker) 1
       = Inr (Inr ring)
     \<and> is_feature_nodrop (IoUring_params ring)"
proof -
  have "prm_flags (builder_params (Builder_default Entry_marker cq_Entry_marker)) AND IORING_SETUP_CQSIZE = 0"
    by (simp add: Builder_default_def Entry_marker_def cq_Entry_marker_def)
  then obtain ring where b:
    "Builder_build Entry_marker cq_Entry_marker (Builder_default Entry_marker cq_Entry_marker) 1 = Inr (Inr ring)"
    using Builder_build_ok [of 1 "Builder_default Entry_marker cq_Entry_marker" cq_Entry_marker Entry_marker]
    by (auto simp: entries_ok_def wants_cqsize_def)
  with nodrop_is_reported_but_completions_drop [OF b] show ?thesis by auto
qed

section \<open>Registration\<close>

text \<open>C29: \<open>register_probe\<close> tells the truth: after it has filled a new table, \<open>is_supported\<close> answers true
  for an opcode exactly when the dispatcher has an arm for it, that is, when an otherwise empty entry
  with that opcode does not come back with \<open>-ENOSYS\<close>.\<close>

theorem probe_is_exact:
  "fst (register_probe Probe_new) = Inr ()
   \<and> (Probe_is_supported (snd (register_probe Probe_new)) opc \<longleftrightarrow>
        (\<exists>r m'. dispatch_op (probe_sqe opc) m = Inr (r, m') \<and> r \<noteq> ENOSYS))"
proof -
  have "opc \<in> set (map ucast HANDLED_OPCODES) \<and> unat opc < Probe_COUNT
      \<longleftrightarrow> ucast opc \<in> set HANDLED_OPCODES"
  proof
    assume "opc \<in> set (map ucast HANDLED_OPCODES) \<and> unat opc < Probe_COUNT"
    then obtain x :: u32 where "x \<in> set HANDLED_OPCODES" "opc = ucast x" by auto
    moreover from this have "(ucast (ucast x :: u8) :: u32) = x"
      by (auto simp: set_HANDLED_OPCODES upt_rec)
    ultimately show "ucast opc \<in> set HANDLED_OPCODES" by simp
  next
    assume h: "ucast opc \<in> set HANDLED_OPCODES"
    have "ucast (ucast opc :: u32) = opc" by (rule bit_word_eqI) (simp add: bit_simps)
    with h have "opc \<in> ucast ` set HANDLED_OPCODES" by (intro image_eqI [of _ _ "ucast opc"]) simp_all
    moreover have "unat opc < 2 ^ 32" by (rule order_less_le_trans [OF unsigned_less]) simp
    then have "unat (ucast opc :: u32) = unat opc" by (simp add: unsigned_ucast_eq take_bit_nat_eq_self_iff)
    with h have "unat opc < Probe_COUNT"
      by (simp add: handled_iff word_less_nat_alt IORING_OP_LAST_def Probe_COUNT_def)
    ultimately show "opc \<in> set (map ucast HANDLED_OPCODES) \<and> unat opc < Probe_COUNT" by simp
  qed
  then have "Probe_is_supported (snd (register_probe Probe_new)) opc \<longleftrightarrow> ucast opc \<in> set HANDLED_OPCODES"
    using is_supported_fold [OF probe_wf_new, of "map ucast HANDLED_OPCODES" opc]
    by (simp add: register_probe_def fold_map comp_def)
  moreover obtain r where "dispatch_op (probe_sqe opc) m = Inr (r, m)"
    "r = ENOSYS \<longleftrightarrow> ucast opc \<notin> set HANDLED_OPCODES"
    using dispatch_op_probe [of opc m] by blast
  ultimately show ?thesis by (auto simp: register_probe_def)
qed

section \<open>A client's round trip\<close>

text \<open>C1: on an idle ring, pushing a batch that fits, submitting it, and reading the completion queue
  returns \<open>Ok\<close>, the number of entries, and the completions of running the batch's link chains, in
  order, up to the free space of the completion ring; afterwards the ring is idle again, so rounds
  can be repeated without limit.\<close>

theorem client_round_trip:
  assumes "ring_idle S C ring" "length es \<le> unat (sqi_ring_entries (ring_sq ring))"
    and "run_chains dispatch_op (link_chains (map (sem_sqe S) es)) m = Inr (rs, m')"
  shows "\<exists>cqes ring'. client_round S C es ring m = Inr (Inr (), Inr (of_nat (length es)), cqes, ring', m')
    \<and> map (cqe_of C) cqes = take (ring_cq_free S C ring) (map cqe_of_cd (filter visible rs))
    \<and> ring_idle S C ring'"
  using client_round_law [OF assms] by (simp add: cqes_of_def)

theorem client_round_trip_witness:
  "\<exists>cqes ring'. client_round Entry_marker cq_Entry_marker [Entry (linked 200 4 1), Entry (linked 0 0 2)]
       idle_ring page_mem = Inr (Inr (), Inr 2, cqes, ring', page_mem)
     \<and> map (cqe_of cq_Entry_marker) cqes = [\<lparr>cqe_user_data = 1, cqe_res = ENOSYS, cqe_flags = 0\<rparr>,
         \<lparr>cqe_user_data = 2, cqe_res = ECANCELED, cqe_flags = 0\<rparr>]"
proof -
  let ?es = "[Entry (linked 200 4 1), Entry (linked 0 0 2)]"
  let ?rs = "[completed ENOSYS (linked 200 4 1), completed ECANCELED (linked 0 0 2)]"
  have r: "run_chains dispatch_op (link_chains (map (sem_sqe Entry_marker) ?es)) page_mem = Inr (?rs, page_mem)"
    by (simp add: Entry_marker_def links_def flag_consts dispatch_linked_bad)
  have n: "length ?es \<le> unat (sqi_ring_entries (ring_sq idle_ring))"
    by (simp add: idle_ring_def example_ring_def)
  have f: "ring_cq_free Entry_marker cq_Entry_marker idle_ring = 4"
    by (simp add: ring_cq_free_def cq_free_def idle_ring_def start_mem_def IoUring_submitter_def
        example_ring_def new_RingState_def)
  have v: "map cqe_of_cd (filter visible ?rs) = [\<lparr>cqe_user_data = 1, cqe_res = ENOSYS, cqe_flags = 0\<rparr>,
      \<lparr>cqe_user_data = 2, cqe_res = ECANCELED, cqe_flags = 0\<rparr>]"
    by (simp add: visible_def completed_def cqe_of_cd_def flag_consts)
  from client_round_trip [OF idle_ring_idle n r] show ?thesis unfolding f v by auto
qed

section \<open>Concurrent dispatch\<close>

text \<open>whatever the application and the dispatch threads do, and however their steps interleave,
  starting from a fresh ring: the results of joined threads answer the pushed entries in the order
  they were pushed, each at most once; what the application has taken or can take is a subsequence
  of the visible results; the missing ones are exactly those the overflow counter counts (modulo
  \<open>2 ^ 32\<close>), so without overflow none is missing; and once nothing is queued or outstanding, every
  entry has been answered.\<close>

theorem completions_follow_push_order:
  assumes "ring_start sub mem" "(ring_step sub)\<^sup>*\<^sup>* (conf_init mem m) cf"
  shows "prefix (map cd_user_data (cf_joined cf)) (map sqe_user_data (cf_pushed cf))
    \<and> subseq (cf_reaped cf @ cq_posted sub (cf_mem cf)) (cqes_of (cf_joined cf))
    \<and> length (cf_reaped cf @ cq_posted sub (cf_mem cf)) + cf_lost cf = length (cqes_of (cf_joined cf))
    \<and> cqueue_overflow (cf_mem cf) = of_nat (cf_lost cf)
    \<and> (cf_lost cf = 0 \<longrightarrow> cf_reaped cf @ cq_posted sub (cf_mem cf) = cqes_of (cf_joined cf))
    \<and> (cf_threads cf = [] \<and> sq_published sub (cf_mem cf) = [] \<longrightarrow>
        map cd_user_data (cf_joined cf) = map sqe_user_data (cf_pushed cf))"
proof -
  have "conf_inv sub cf" using reachable_inv [OF assms(2) conf_inv_init [OF assms(1)]] .
  moreover from this have "prefix (map cd_user_data (cf_joined cf)) (map sqe_user_data (cf_pushed cf))"
    unfolding conf_inv_def by (metis map_append prefixI append_assoc)
  ultimately show ?thesis
    using subseq_same_length [of "cf_reaped cf @ cq_posted sub (cf_mem cf)" "cqes_of (cf_joined cf)"]
    by (auto simp: conf_inv_def)
qed

theorem completions_follow_push_order_witness:
  "\<exists>cf. (ring_step example_sub)\<^sup>*\<^sup>* (conf_init start_mem page_mem) cf
     \<and> cf_pushed cf = [entry_sqe (nop_entry 1)]
     \<and> prefix (map cd_user_data (cf_joined cf)) [1]
     \<and> cqueue_overflow (cf_mem cf) = of_nat (cf_lost cf)"
proof -
  obtain cf where c: "(ring_step example_sub)\<^sup>*\<^sup>* (conf_init start_mem page_mem) cf"
    "cf_pushed cf = [entry_sqe (nop_entry 1)]"
    using example_push_step by (blast intro: r_into_rtranclp)
  from completions_follow_push_order [OF example_ring_start c(1)] c show ?thesis by auto
qed

text \<open>C20: the dispatch threads and the joins always finish: there is no infinite run of their steps,
  and as long as a thread is outstanding one of them is enabled, unless the entry that the oldest
  thread would dispatch next is undefined behaviour.\<close>

theorem threads_terminate_without_deadlock:
  assumes "sub_inv sub (cf_mem cf)" "cf_threads cf \<noteq> []"
  shows "wfp (\<lambda>cf2 cf1. kernel_step sub cf1 cf2)
    \<and> ((\<exists>cf'. kernel_step sub cf cf')
       \<or> (\<exists>sqe rest u. th_sqes (hd (cf_threads cf)) = sqe # rest \<and> dispatch_op sqe (cf_umem cf) = UB u))"
proof
  show "wfp (\<lambda>cf2 cf1. kernel_step sub cf1 cf2)"
    by (rule wfp_if_convertible_to_nat [of _ work]) (rule kernel_step_work)
next
  obtain th ths where t: "cf_threads cf = th # ths" using assms(2) by (cases "cf_threads cf") auto
  show "(\<exists>cf'. kernel_step sub cf cf')
    \<or> (\<exists>sqe rest u. th_sqes (hd (cf_threads cf)) = sqe # rest \<and> dispatch_op sqe (cf_umem cf) = UB u)"
  proof (rule disjCI)
    assume n: "\<nexists>sqe rest u. th_sqes (hd (cf_threads cf)) = sqe # rest \<and> dispatch_op sqe (cf_umem cf) = UB u"
    have "\<exists>r. complete_one dispatch_op sqe (th_cancel_chain th) (cf_umem cf) = Inr r"
      if s: "th_sqes th = sqe # rest" for sqe rest
    proof -
      have "\<exists>x. dispatch_op sqe (cf_umem cf) = Inr x"
        using n s t dispatch_op_no_panic [of sqe "cf_umem cf"]
        by (cases "dispatch_op sqe (cf_umem cf)") (auto simp: no_panic_def split: fault.splits)
      then show ?thesis by (cases "th_cancel_chain th") (auto simp: complete_one_simps)
    qed
    with assms(1) t show "\<exists>cf'. kernel_step sub cf cf'" by (rule kernel_step_enabled)
  qed
qed

theorem threads_terminate_without_deadlock_witness: "\<exists>cf'. kernel_step example_sub busy_conf cf'"
  using threads_terminate_without_deadlock [OF busy_conf_simps(1)]
  by (auto simp: busy_conf_simps thread_spawn_def dispatch_linked_nop)

text \<open>C21: the sequential \<open>flush_pending\<close> is one of the schedules: when it returns, the concurrent
  system can reach, by steps of the threads and joins alone, a state with exactly its ring and user memory
  and nothing outstanding.\<close>

theorem flush_is_a_schedule:
  assumes "flush_pending sub (cf_mem cf) (cf_umem cf) = Inr (mem, m)"
  shows "\<exists>cf'. (kernel_step sub)\<^sup>*\<^sup>* cf cf' \<and> cf_mem cf' = mem \<and> cf_umem cf' = m \<and> cf_threads cf' = []"
  using assms by (rule flush_schedule)

lemma busy_conf_flush:
  "\<exists>mem. flush_pending example_sub (cf_mem busy_conf) (cf_umem busy_conf) = Inr (mem, page_mem)
     \<and> cq_posted example_sub mem = [\<lparr>cqe_user_data = 1, cqe_res = 0, cqe_flags = 0\<rparr>]"
proof -
  have "run_threads dispatch_op (st_pending (rm_state (cf_mem busy_conf))) page_mem =
      Inr ([completed 0 (linked 0 0 1)], page_mem)"
    by (simp add: busy_conf_simps thread_join_spawn [THEN iffD2] links_def flag_consts dispatch_linked_nop)
  moreover have "cq_posted example_sub (cf_mem busy_conf) = []" "cq_free example_sub (cf_mem busy_conf) = 4"
    by (simp_all add: busy_conf_def conf_init_def start_mem_def cq_posted_def cq_free_def example_defs)
  moreover have "cqes_of [completed 0 (linked 0 0 1)] = [\<lparr>cqe_user_data = 1, cqe_res = 0, cqe_flags = 0\<rparr>]"
    by (simp add: cqes_of_def visible_def completed_def cqe_of_cd_def flag_consts)
  ultimately show ?thesis
    using flush_pending_law [OF busy_conf_simps(1), of page_mem] by (auto simp: busy_conf_simps(3))
qed

theorem flush_is_a_schedule_witness:
  "\<exists>cf'. (kernel_step example_sub)\<^sup>*\<^sup>* busy_conf cf' \<and> cf_threads cf' = []
     \<and> cq_posted example_sub (cf_mem cf') = [\<lparr>cqe_user_data = 1, cqe_res = 0, cqe_flags = 0\<rparr>]"
proof -
  obtain mem where f: "flush_pending example_sub (cf_mem busy_conf) (cf_umem busy_conf) = Inr (mem, page_mem)"
    "cq_posted example_sub mem = [\<lparr>cqe_user_data = 1, cqe_res = 0, cqe_flags = 0\<rparr>]"
    using busy_conf_flush by blast
  from flush_is_a_schedule [OF f(1)] f(2) show ?thesis by auto
qed

text \<open>with one batch outstanding the interleaving does not matter: however the thread and the
  join are scheduled, once nothing is outstanding the ring and the user's memory are exactly what
  \<open>flush_pending\<close> returns.\<close>

theorem one_batch_is_deterministic:
  assumes "(kernel_step sub)\<^sup>*\<^sup>* cf cf'" "length (cf_threads cf) \<le> 1" "cf_threads cf' = []"
  shows "flush_pending sub (cf_mem cf) (cf_umem cf) = Inr (cf_mem cf', cf_umem cf')"
  using single_batch_flush [OF assms(1,2)] flush_of_idle [OF assms(3), of sub] by simp

theorem one_batch_is_deterministic_witness:
  "\<exists>cf'. (kernel_step example_sub)\<^sup>*\<^sup>* busy_conf cf' \<and> cf_threads cf' = []
     \<and> flush_pending example_sub (cf_mem busy_conf) (cf_umem busy_conf) = Inr (cf_mem cf', cf_umem cf')"
proof -
  obtain cf' where c: "(kernel_step example_sub)\<^sup>*\<^sup>* busy_conf cf'" "cf_threads cf' = []"
    using busy_conf_flush flush_schedule [of example_sub busy_conf] by blast
  have "length (cf_threads busy_conf) \<le> 1" by (simp add: busy_conf_simps)
  from one_batch_is_deterministic [OF c(1) this c(2)] c show ?thesis by blast
qed

end
